(* ===== verification/RL_Prelude.thy ===== *)
theory RL_Prelude
  imports Complex_Main "HOL-Library.Word"
begin

text \<open>
  Shared vocabulary of the development: the Python exceptions the host code raises or catches,
  results of fallible operations as a sum type, and the lemmas by which the component theories
  compute with them.  An operation that raises is a value \<open>Inl e\<close>; sequencing is \<open>rbind\<close>,
  a list comprehension whose body may raise is \<open>rmap\<close>.  Exception messages are not modelled.
\<close>

named_theorems res_simps \<open>equations that compute with results\<close>
named_theorems layout \<open>unfolding rules for byte layouts\<close>

datatype py_error =
    ValueError | TypeError | OverflowError | KeyError | IndexError | AttributeError
  | AssertionError | RuntimeError | StructError | OSError

type_synonym 'a res = "py_error + 'a"

definition rbind :: "'a res \<Rightarrow> ('a \<Rightarrow> 'b res) \<Rightarrow> 'b res" where
  "rbind m f = (case m of Inl e \<Rightarrow> Inl e | Inr x \<Rightarrow> f x)"

lemma rbind_Inl [simp, res_simps, code]: "rbind (Inl e) f = Inl e"
  by (simp add: rbind_def)

lemma rbind_Inr [simp, res_simps, code]: "rbind (Inr x) f = f x"
  by (simp add: rbind_def)

lemma rbind_eq_Inr: "rbind m f = Inr y \<longleftrightarrow> (\<exists>x. m = Inr x \<and> f x = Inr y)"
  by (cases m) auto

lemma rbind_eq_Inl: "rbind m f = Inl e \<longleftrightarrow> m = Inl e \<or> (\<exists>x. m = Inr x \<and> f x = Inl e)"
  by (cases m) auto

lemma rbind_InrE:
  assumes "rbind m f = Inr y"
  obtains x where "m = Inr x" and "f x = Inr y"
  using assms by (auto simp: rbind_eq_Inr)

lemma rbind_cong [fundef_cong]:
  assumes "m = m'" and "\<And>x. m' = Inr x \<Longrightarrow> f x = g x"
  shows "rbind m f = rbind m' g"
  using assms by (cases m') auto

fun rmap :: "('a \<Rightarrow> 'b res) \<Rightarrow> 'a list \<Rightarrow> 'b list res" where
  "rmap f [] = Inr []"
| "rmap f (x # xs) = rbind (f x) (\<lambda>y. rbind (rmap f xs) (\<lambda>ys. Inr (y # ys)))"

lemma rmap_cong [fundef_cong]:
  assumes "xs = ys" and "\<And>x. x \<in> set ys \<Longrightarrow> f x = g x"
  shows "rmap f xs = rmap g ys"
proof -
  have "(\<And>x. x \<in> set ys \<Longrightarrow> f x = g x) \<Longrightarrow> rmap f ys = rmap g ys"
    by (induction ys) auto
  then show ?thesis using assms by simp
qed

lemma rmap_eq_Inr: "rmap f xs = Inr ys \<longleftrightarrow> list_all2 (\<lambda>x y. f x = Inr y) xs ys"
proof (induction xs arbitrary: ys)
  case Nil
  then show ?case by auto
next
  case (Cons x xs)
  then show ?case by (cases ys) (auto simp: rbind_eq_Inr)
qed

lemma rmap_all_Inr: "(\<And>x. x \<in> set xs \<Longrightarrow> f x = Inr (g x)) \<Longrightarrow> rmap f xs = Inr (map g xs)"
  by (induction xs) auto

lemma rmap_length: "rmap f xs = Inr ys \<Longrightarrow> length ys = length xs"
  by (auto simp: rmap_eq_Inr dest: list_all2_lengthD)

lemma rmap_InrD: "rmap f xs = Inr ys \<Longrightarrow> y \<in> set ys \<Longrightarrow> \<exists>x \<in> set xs. f x = Inr y"
  by (force simp: rmap_eq_Inr list_all2_conv_all_nth in_set_conv_nth)

lemma rmap_InlD: "rmap f xs = Inl e \<Longrightarrow> \<exists>x \<in> set xs. f x = Inl e"
  by (induction xs) (auto simp: rbind_eq_Inl)

text \<open>
  A small calculus for "whatever it returns satisfies P": the rules follow the shape of a
  definition, so that a bound on a result is proved by \<open>intro\<close>.
\<close>

definition ok_res :: "('a \<Rightarrow> bool) \<Rightarrow> 'a res \<Rightarrow> bool" where
  "ok_res P r = (case r of Inl e \<Rightarrow> True | Inr v \<Rightarrow> P v)"

lemma ok_res_Inl [intro!]: "ok_res P (Inl e)"
  by (simp add: ok_res_def)

lemma ok_res_Inr [intro!]: "P v \<Longrightarrow> ok_res P (Inr v)"
  by (simp add: ok_res_def)

lemma ok_res_if [intro!]: "(b \<Longrightarrow> ok_res P x) \<Longrightarrow> (\<not> b \<Longrightarrow> ok_res P y) \<Longrightarrow> ok_res P (if b then x else y)"
  by simp

lemma ok_res_bind: "ok_res Q m \<Longrightarrow> (\<And>x. Q x \<Longrightarrow> ok_res P (f x)) \<Longrightarrow> ok_res P (rbind m f)"
  by (cases m) (auto simp: ok_res_def)

lemma ok_res_bind_any [intro!]: "(\<And>x. m = Inr x \<Longrightarrow> ok_res P (f x)) \<Longrightarrow> ok_res P (rbind m f)"
  by (cases m) (auto simp: ok_res_def)

lemma ok_resD: "ok_res P r \<Longrightarrow> r = Inr v \<Longrightarrow> P v"
  by (simp add: ok_res_def)

lemma ok_res_rmap:
  "(\<And>x. x \<in> set xs \<Longrightarrow> ok_res P (f x)) \<Longrightarrow> ok_res (\<lambda>ys. \<forall>y \<in> set ys. P y) (rmap f xs)"
proof (induction xs)
  case (Cons x xs)
  then have "ok_res P (f x)" and "ok_res (\<lambda>ys. \<forall>y \<in> set ys. P y) (rmap f xs)" by auto
  then show ?case by (cases "f x"; cases "rmap f xs") (auto simp: ok_res_def)
qed auto

definition catch_value_error :: "'a res \<Rightarrow> 'a \<Rightarrow> 'a res" where
  "catch_value_error m d = (if m = Inl ValueError then Inr d else m)"

text \<open>Association lists as Python dictionaries: first binding wins, updates keep the place.\<close>

fun assoc_set :: "'k \<Rightarrow> 'v \<Rightarrow> ('k \<times> 'v) list \<Rightarrow> ('k \<times> 'v) list" where
  "assoc_set k v [] = [(k, v)]"
| "assoc_set k v ((k', v') # d) = (if k = k' then (k, v) # d else (k', v') # assoc_set k v d)"

definition assoc_del :: "'k \<Rightarrow> ('k \<times> 'v) list \<Rightarrow> ('k \<times> 'v) list" where
  "assoc_del k d = filter (\<lambda>p. fst p \<noteq> k) d"

lemma map_of_assoc_set [simp]: "map_of (assoc_set k v d) = (map_of d)(k \<mapsto> v)"
  by (induction k v d rule: assoc_set.induct) (auto simp: fun_eq_iff)

lemma map_of_assoc_del [simp]: "map_of (assoc_del k d) = (map_of d)(k := None)"
  by (induction d) (auto simp: assoc_del_def fun_eq_iff)

lemma keys_assoc_set: "fst ` set (assoc_set k v d) = insert k (fst ` set d)"
  by (induction k v d rule: assoc_set.induct) auto

lemma distinct_assoc_set: "distinct (map fst d) \<Longrightarrow> distinct (map fst (assoc_set k v d))"
proof (induction k v d rule: assoc_set.induct)
  case (2 k v k' v' d)
  have "fst ` set (assoc_set k v d) = insert k (fst ` set d)" by (rule keys_assoc_set)
  with 2 show ?case by auto
qed simp

lemma distinct_assoc_del: "distinct (map fst d) \<Longrightarrow> distinct (map fst (assoc_del k d))"
  unfolding assoc_del_def by (rule distinct_map_filter)

text \<open>Order-preserving removal of duplicates, as the source's seen-set loops do it.\<close>

fun dedup_from :: "'a list \<Rightarrow> 'a list \<Rightarrow> 'a list" where
  "dedup_from seen [] = []"
| "dedup_from seen (x # xs) =
     (if x \<in> set seen then dedup_from seen xs else x # dedup_from (x # seen) xs)"

lemma set_dedup_from: "set (dedup_from seen xs) = set xs - set seen"
  by (induction seen xs rule: dedup_from.induct) auto

lemma distinct_dedup_from: "distinct (dedup_from seen xs)"
  by (induction seen xs rule: dedup_from.induct) (auto simp: set_dedup_from)

lemma dedup_from_distinct: "distinct xs \<Longrightarrow> set xs \<inter> set seen = {} \<Longrightarrow> dedup_from seen xs = xs"
  by (induction seen xs rule: dedup_from.induct) auto

lemma sum_list_map_const: "(\<And>x. x \<in> set xs \<Longrightarrow> f x = c) \<Longrightarrow> sum_list (map f xs) = of_nat (length xs) * c"
  for c :: "'a::semiring_1"
  by (induction xs) (auto simp: algebra_simps)

text \<open>Position of the first element with a property: the \<open>for ... return\<close> loops of the source.\<close>

fun index_where :: "('a \<Rightarrow> bool) \<Rightarrow> 'a list \<Rightarrow> nat option" where
  "index_where p [] = None"
| "index_where p (x # xs) = (if p x then Some 0 else map_option Suc (index_where p xs))"

lemma index_where_None: "index_where p xs = None \<longleftrightarrow> (\<forall>x \<in> set xs. \<not> p x)"
  by (induction xs) auto

lemma index_where_SomeD: "index_where p xs = Some i \<Longrightarrow> i < length xs \<and> p (xs ! i)"
  by (induction xs arbitrary: i) (auto split: if_splits)

lemma index_where_update_other:
  "\<not> p (xs ! i) \<Longrightarrow> \<not> p v \<Longrightarrow> index_where p (xs[i := v]) = index_where p xs"
  by (induction xs arbitrary: i) (auto split: nat.splits)

lemma index_where_update_hit:
  "index_where p xs = Some i \<Longrightarrow> p v \<Longrightarrow> index_where p (xs[i := v]) = Some i"
  by (induction xs arbitrary: i) (auto split: if_splits)

lemma index_where_append:
  "index_where p (xs @ ys) =
     (case index_where p xs of Some i \<Rightarrow> Some i | None \<Rightarrow> map_option (\<lambda>i. length xs + i) (index_where p ys))"
proof (induction xs)
  case Nil
  then show ?case by (cases "index_where p ys") simp_all
next
  case (Cons x xs)
  then show ?case by (cases "index_where p ys") (auto split: option.splits)
qed

definition find_where :: "('a \<Rightarrow> bool) \<Rightarrow> 'a list \<Rightarrow> 'a option" where
  "find_where p xs = map_option (nth xs) (index_where p xs)"

lemma find_where_Nil [simp]: "find_where p [] = None"
  by (simp add: find_where_def)

lemma find_where_Cons [simp]: "find_where p (x # xs) = (if p x then Some x else find_where p xs)"
  by (cases "index_where p xs") (auto simp: find_where_def)

lemma find_where_Some: "find_where p xs = Some x \<Longrightarrow> x \<in> set xs \<and> p x"
  by (induction xs) (auto split: if_splits)

lemma find_where_None: "find_where p xs = None \<longleftrightarrow> (\<forall>x \<in> set xs. \<not> p x)"
  by (induction xs) auto

lemma find_where_append:
  "find_where p (xs @ ys) = (case find_where p xs of Some x \<Rightarrow> Some x | None \<Rightarrow> find_where p ys)"
  by (induction xs) auto

section \<open>Procedures: state passing with exceptions\<close>

text \<open>
  A procedure returns its result and the state it leaves behind; an exception keeps the state as it
  was at the raise.  Most exceptions are a \<open>py_error\<close>; where the code inspects the text of an exception the
  error type is one that has the text.
\<close>

type_synonym ('s, 'e, 'a) procedure = "'s \<Rightarrow> ('e + 'a) \<times> 's"
type_synonym ('s, 'a) proc = "('s, py_error, 'a) procedure"

definition pret :: "'a \<Rightarrow> ('s, 'e, 'a) procedure" where
  "pret x = (\<lambda>s. (Inr x, s))"

definition plift :: "'e + 'a \<Rightarrow> ('s, 'e, 'a) procedure" where
  "plift r = (\<lambda>s. (r, s))"

definition pbind :: "('s, 'e, 'a) procedure \<Rightarrow> ('a \<Rightarrow> ('s, 'e, 'b) procedure) \<Rightarrow> ('s, 'e, 'b) procedure" where
  "pbind m f = (\<lambda>s. case m s of (Inl e, s') \<Rightarrow> (Inl e, s') | (Inr x, s') \<Rightarrow> f x s')"

definition pupd :: "('s \<Rightarrow> 's) \<Rightarrow> ('s, 'e, unit) procedure" where
  "pupd f = (\<lambda>s. (Inr (), f s))"

definition pread :: "('s \<Rightarrow> 'a) \<Rightarrow> ('s, 'e, 'a) procedure" where
  "pread f = (\<lambda>s. (Inr (f s), s))"

named_theorems proc_simps \<open>running procedures\<close>

lemma pret_run [simp, proc_simps]: "pret x s = (Inr x, s)"
  by (simp add: pret_def)

lemma plift_run [simp, proc_simps]: "plift r s = (r, s)"
  by (simp add: plift_def)

lemma pupd_run [simp, proc_simps]: "pupd f s = (Inr (), f s)"
  by (simp add: pupd_def)

lemma pread_run [simp, proc_simps]: "pread f s = (Inr (f s), s)"
  by (simp add: pread_def)

lemma pbind_Inr: "m s = (Inr x, s') \<Longrightarrow> pbind m f s = f x s'"
  by (simp add: pbind_def)

lemma pbind_Inl: "m s = (Inl e, s') \<Longrightarrow> pbind m f s = (Inl e, s')"
  by (simp add: pbind_def)

lemma pbind_run [proc_simps]:
  "pbind (pret x) f s = f x s" "pbind (plift (Inr x)) f s = f x s"
  "pbind (plift (Inl e)) f s = (Inl e, s)" "pbind (pupd u) g s = g () (u s)"
  "pbind (pread h) f s = f (h s) s"
  by (simp_all add: pbind_def)

lemma pbind_cases:
  "pbind m f s = (r, s') \<longleftrightarrow>
     (\<exists>e. m s = (Inl e, s') \<and> r = Inl e) \<or> (\<exists>x s1. m s = (Inr x, s1) \<and> f x s1 = (r, s'))"
  by (auto simp: pbind_def split: prod.splits sum.splits)

lemma pbind_pret_snd: "snd (pbind m (\<lambda>x. pret (f x)) s) = snd (m s)"
  by (auto simp: pbind_def split: prod.split sum.split)

end
