(* ===== verification/Py_Values.thy ===== *)
theory Py_Values
  imports RL_Prelude
begin

text \<open>
  The part of Python's built-in semantics the host code relies on: the values a decoded JSON
  document or a request body can hold, truth tests, \<open>int()\<close>, iteration, string trimming and
  case mapping, and the decimal printer.  Strings are ASCII text (one \<open>char\<close> per code point);
  a float is an exact rational, an infinity or a NaN.  A dictionary is an association list in
  insertion order, its keys strings (JSON objects have no others).
\<close>

section \<open>Values\<close>

datatype pyfloat = Fin rat | PosInf | NegInf | NaN

datatype pyval =
    PNone
  | PBool bool
  | PInt int
  | PFloat pyfloat
  | PStr string
  | PList "pyval list"
  | PTuple "pyval list"
  | PDict "(string \<times> pyval) list"

type_synonym pydict = "(string \<times> pyval) list"

definition dget_or :: "pydict \<Rightarrow> string \<Rightarrow> pyval \<Rightarrow> pyval" where
  "dget_or d k dflt = (case map_of d k of None \<Rightarrow> dflt | Some v \<Rightarrow> v)"

abbreviation dget :: "pydict \<Rightarrow> string \<Rightarrow> pyval" where
  "dget d k \<equiv> dget_or d k PNone"

definition has_key :: "pydict \<Rightarrow> string \<Rightarrow> bool" where
  "has_key d k = (map_of d k \<noteq> None)"

fun py_truth :: "pyval \<Rightarrow> bool" where
  "py_truth PNone = False"
| "py_truth (PBool b) = b"
| "py_truth (PInt i) = (i \<noteq> 0)"
| "py_truth (PFloat f) = (f \<noteq> Fin 0)"
| "py_truth (PStr s) = (s \<noteq> [])"
| "py_truth (PList xs) = (xs \<noteq> [])"
| "py_truth (PTuple xs) = (xs \<noteq> [])"
| "py_truth (PDict d) = (d \<noteq> [])"

definition py_or :: "pyval \<Rightarrow> pyval \<Rightarrow> pyval" where
  "py_or a b = (if py_truth a then a else b)"

text \<open>\<open>x == n\<close> for an int constant \<open>n\<close>: bools and floats compare by value.\<close>

fun py_eq_int :: "pyval \<Rightarrow> int \<Rightarrow> bool" where
  "py_eq_int (PBool b) n = ((if b then 1 else 0) = n)"
| "py_eq_int (PInt i) n = (i = n)"
| "py_eq_int (PFloat (Fin r)) n = (r = of_int n)"
| "py_eq_int _ n = False"

fun is_int :: "pyval \<Rightarrow> bool" where
  "is_int (PInt _) = True"
| "is_int (PBool _) = True"
| "is_int _ = False"

fun py_is_bool :: "pyval \<Rightarrow> bool" where
  "py_is_bool (PBool _) = True"
| "py_is_bool _ = False"

section \<open>Characters and strings\<close>

definition is_space :: "char \<Rightarrow> bool" where
  "is_space c = (let n = (of_char c :: nat) in 9 \<le> n \<and> n \<le> 13 \<or> 28 \<le> n \<and> n \<le> 32)"

definition is_digit :: "char \<Rightarrow> bool" where
  "is_digit c = (let n = (of_char c :: nat) in 48 \<le> n \<and> n \<le> 57)"

definition digit_val :: "char \<Rightarrow> int" where
  "digit_val c = int (of_char c) - 48"

definition upper_char :: "char \<Rightarrow> char" where
  "upper_char c = (let n = (of_char c :: nat) in if 97 \<le> n \<and> n \<le> 122 then char_of (n - 32) else c)"

definition lower_char :: "char \<Rightarrow> char" where
  "lower_char c = (let n = (of_char c :: nat) in if 65 \<le> n \<and> n \<le> 90 then char_of (n + 32) else c)"

abbreviation upper :: "string \<Rightarrow> string" where "upper s \<equiv> map upper_char s"
abbreviation lower :: "string \<Rightarrow> string" where "lower s \<equiv> map lower_char s"

text \<open>Python's \<open>needle in s\<close> on strings.\<close>

definition is_infix :: "string \<Rightarrow> string \<Rightarrow> bool" where
  "is_infix needle s = list_ex (\<lambda>i. take (length needle) (drop i s) = needle) [0 ..< Suc (length s)]"

definition strip_with :: "(char \<Rightarrow> bool) \<Rightarrow> string \<Rightarrow> string" where
  "strip_with p s = rev (dropWhile p (rev (dropWhile p s)))"

abbreviation strip :: "string \<Rightarrow> string" where "strip s \<equiv> strip_with is_space s"

lemma dropWhile_Cons_hd: "dropWhile p xs = y # ys \<Longrightarrow> \<not> p y"
  by (induction xs) (auto split: if_splits)

lemma strip_with_ends:
  assumes "strip_with p s \<noteq> []"
  shows "\<not> p (hd (strip_with p s))" and "\<not> p (last (strip_with p s))"
proof -
  let ?t = "dropWhile p s"
  have ne: "dropWhile p (rev ?t) \<noteq> []" using assms by (simp add: strip_with_def)
  have t_ne: "?t \<noteq> []" using ne by (metis dropWhile.simps(1) rev.simps(1))
  show "\<not> p (last (strip_with p s))"
    using hd_dropWhile [OF ne] by (simp add: strip_with_def last_rev)
  have sub: "rev (dropWhile p (rev ?t)) @ rev (takeWhile p (rev ?t)) = ?t"
    by (metis rev_append rev_rev_ident takeWhile_dropWhile_id)
  have "hd (strip_with p s) = hd ?t"
    using sub ne by (metis hd_append2 rev_is_Nil_conv strip_with_def)
  then show "\<not> p (hd (strip_with p s))"
    using hd_dropWhile [OF t_ne] by simp
qed

lemma dropWhile_hd_False: "xs \<noteq> [] \<Longrightarrow> \<not> p (hd xs) \<Longrightarrow> dropWhile p xs = xs"
  by (cases xs) auto

lemma strip_with_no_ends:
  "s = [] \<or> \<not> p (hd s) \<and> \<not> p (last s) \<Longrightarrow> strip_with p s = s"
  by (cases "s = []") (auto simp: strip_with_def dropWhile_hd_False hd_rev)

lemma strip_strip [simp]: "strip_with p (strip_with p s) = strip_with p s"
  using strip_with_ends [of p s] strip_with_no_ends by blast

lemma set_strip_with: "set (strip_with p s) \<subseteq> set s"
  unfolding strip_with_def by (metis set_dropWhileD set_rev subsetI)

section \<open>Printing and parsing integers\<close>

function str_nat :: "nat \<Rightarrow> string" where
  "str_nat n = (if n < 10 then [char_of (48 + n)] else str_nat (n div 10) @ [char_of (48 + n mod 10)])"
  by pat_completeness auto
termination by (relation "measure id") auto

declare str_nat.simps [simp del]

definition str_int :: "int \<Rightarrow> string" where
  "str_int i = (if i < 0 then CHR ''-'' # str_nat (nat (- i)) else str_nat (nat i))"

text \<open>
  \<open>int(s)\<close>: surrounding white space, an optional sign, decimal digits with single underscores
  between them; more than 4300 digits is a ValueError as well.
\<close>

fun parse_digits :: "int \<Rightarrow> bool \<Rightarrow> string \<Rightarrow> int option" where
  "parse_digits acc prev [] = (if prev then Some acc else None)"
| "parse_digits acc prev (c # cs) =
     (if is_digit c then parse_digits (10 * acc + digit_val c) True cs
      else if c = CHR ''_'' \<and> prev then parse_digits acc False cs
      else None)"

definition py_int_str :: "string \<Rightarrow> int option" where
  "py_int_str s =
     (let t = strip s;
          body = (case t of c # cs \<Rightarrow> if c = CHR ''-'' \<or> c = CHR ''+'' then cs else t | [] \<Rightarrow> t);
          neg = (t \<noteq> [] \<and> hd t = CHR ''-'')
      in if 4300 < length (filter is_digit body) then None
         else map_option (\<lambda>n. if neg then - n else n) (parse_digits 0 False body))"

definition rat_trunc :: "rat \<Rightarrow> int" where
  "rat_trunc r = (if r < 0 then - \<lfloor>- r\<rfloor> else \<lfloor>r\<rfloor>)"

fun py_int :: "pyval \<Rightarrow> int res" where
  "py_int (PBool b) = Inr (if b then 1 else 0)"
| "py_int (PInt i) = Inr i"
| "py_int (PFloat (Fin r)) = Inr (rat_trunc r)"
| "py_int (PFloat NaN) = Inl ValueError"
| "py_int (PFloat _) = Inl OverflowError"
| "py_int (PStr s) = (case py_int_str s of None \<Rightarrow> Inl ValueError | Some n \<Rightarrow> Inr n)"
| "py_int PNone = Inl TypeError"
| "py_int (PList _) = Inl TypeError"
| "py_int (PTuple _) = Inl TypeError"
| "py_int (PDict _) = Inl TypeError"

text \<open>\<open>try: int(x) except (TypeError, ValueError): raise ValueError\<close>; an OverflowError escapes.\<close>

definition int_or_value_error :: "pyval \<Rightarrow> int res" where
  "int_or_value_error v =
     (case py_int v of Inl TypeError \<Rightarrow> Inl ValueError | r \<Rightarrow> r)"

lemma int_or_value_error_simps [simp]:
  "int_or_value_error (PInt i) = Inr i"
  "int_or_value_error PNone = Inl ValueError"
  by (simp_all add: int_or_value_error_def)

lemma int_or_value_error_Inr: "int_or_value_error v = Inr i \<longleftrightarrow> py_int v = Inr i"
  by (auto simp: int_or_value_error_def split: sum.splits py_error.splits)

text \<open>\<open>iter(x)\<close>: strings yield characters, dictionaries their keys.\<close>

fun py_iter :: "pyval \<Rightarrow> pyval list res" where
  "py_iter (PList xs) = Inr xs"
| "py_iter (PTuple xs) = Inr xs"
| "py_iter (PStr s) = Inr (map (\<lambda>c. PStr [c]) s)"
| "py_iter (PDict d) = Inr (map (PStr \<circ> fst) d)"
| "py_iter _ = Inl TypeError"

text \<open>\<open>x.get(k)\<close> and \<open>dict(x or {})\<close> on a value not checked to be a dictionary.\<close>

fun py_get :: "pyval \<Rightarrow> string \<Rightarrow> pyval res" where
  "py_get (PDict d) k = Inr (dget d k)"
| "py_get _ k = Inl AttributeError"

section \<open>Lemmas\<close>

lemma digit_char [simp]:
  assumes "n < 10"
  shows "is_digit (char_of (48 + n :: nat))" and "digit_val (char_of (48 + n :: nat)) = int n"
proof -
  have "(of_char (char_of (48 + n) :: char) :: nat) = 48 + n" using assms by simp
  then show "is_digit (char_of (48 + n))" and "digit_val (char_of (48 + n)) = int n"
    using assms by (simp_all add: is_digit_def digit_val_def)
qed

lemma str_nat_not_Nil [simp]: "str_nat n \<noteq> []"
  by (subst str_nat.simps) simp

lemma str_nat_digits: "c \<in> set (str_nat n) \<Longrightarrow> is_digit c"
proof (induction n rule: str_nat.induct)
  case (1 n)
  show ?case
  proof (cases "n < 10")
    case True
    with "1.prems" show ?thesis by (simp add: str_nat.simps [of n])
  next
    case False
    with 1 show ?thesis by (auto simp: str_nat.simps [of n])
  qed
qed

lemma parse_digits_append_digit:
  "is_digit d \<Longrightarrow> parse_digits acc prev (s @ [d]) =
     (case parse_digits acc prev s of
        Some n \<Rightarrow> Some (10 * n + digit_val d)
      | None \<Rightarrow> parse_digits acc prev (s @ [d]))"
  by (induction acc prev s rule: parse_digits.induct) (auto split: option.splits)

lemma parse_str_nat: "parse_digits 0 False (str_nat n) = Some (int n)"
proof (induction n rule: str_nat.induct)
  case (1 n)
  show ?case
  proof (cases "n < 10")
    case True
    then show ?thesis by (simp add: str_nat.simps [of n])
  next
    case False
    have d: "n mod 10 < 10" by simp
    from False "1.IH" have "parse_digits 0 False (str_nat (n div 10)) = Some (int (n div 10))" by simp
    moreover have "10 * int (n div 10) + int (n mod 10) = int n" by presburger
    ultimately show ?thesis
      using False parse_digits_append_digit [OF digit_char(1) [OF d], of 0 False "str_nat (n div 10)"]
      by (simp add: str_nat.simps [of n] digit_char(2) [OF d])
  qed
qed

lemma inj_str_nat: "str_nat m = str_nat n \<Longrightarrow> m = n"
  by (metis of_nat_eq_iff option.inject parse_str_nat)

end
