(* ===== verification/Wire_Bytes.thy ===== *)
theory Wire_Bytes
  imports RL_Prelude
begin

text \<open>
  Bytes and the \<open>struct\<close> formats the protocol uses.  A byte is an \<open>8 word\<close>; \<open>int(x) & 0xFF\<close>
  followed by a one-byte pack is \<open>u8 x\<close>.  The two-byte formats \<open>"<H"\<close> and \<open>"<h"\<close> raise
  \<open>struct.error\<close> outside their range, and so do their models.
\<close>

unbundle bit_operations_syntax

type_synonym byte = "8 word"

definition u8 :: "int \<Rightarrow> byte" where
  "u8 x = word_of_int x"

definition byte_lo :: "int \<Rightarrow> byte" where "byte_lo x = word_of_int x"
definition byte_hi :: "int \<Rightarrow> byte" where "byte_hi x = word_of_int (x div 256)"

definition pack_u16 :: "int \<Rightarrow> byte list res" where
  "pack_u16 x = (if 0 \<le> x \<and> x \<le> 65535 then Inr [byte_lo x, byte_hi x] else Inl StructError)"

definition pack_i16 :: "int \<Rightarrow> byte list res" where
  "pack_i16 x = (if - 32768 \<le> x \<and> x \<le> 32767 then Inr [byte_lo x, byte_hi x] else Inl StructError)"

definition unpack_u16 :: "byte \<Rightarrow> byte \<Rightarrow> int" where
  "unpack_u16 lo hi = uint lo + 256 * uint hi"

definition unpack_i16 :: "byte \<Rightarrow> byte \<Rightarrow> int" where
  "unpack_i16 lo hi = (let v = uint lo + 256 * uint hi in if 32768 \<le> v then v - 65536 else v)"

definition unpack_i8 :: "byte \<Rightarrow> int" where
  "unpack_i8 b = (let v = uint b in if 128 \<le> v then v - 256 else v)"

definition pack_i8 :: "int \<Rightarrow> byte" where "pack_i8 x = word_of_int x"

definition clamp :: "int \<Rightarrow> int \<Rightarrow> int \<Rightarrow> int" where
  "clamp lo hi x = max lo (min hi x)"

lemma clamp_range: "lo \<le> hi \<Longrightarrow> lo \<le> clamp lo hi x \<and> clamp lo hi x \<le> hi"
  by (auto simp: clamp_def)

lemma clamp_id [simp]: "lo \<le> x \<Longrightarrow> x \<le> hi \<Longrightarrow> clamp lo hi x = x"
  by (auto simp: clamp_def)

lemma clamp_lower: "lo \<le> hi \<Longrightarrow> x \<le> lo \<Longrightarrow> clamp lo hi x = lo"
  by (auto simp: clamp_def)

lemma uint_byte_of_int: "uint (word_of_int x :: byte) = x mod 256"
  by (simp add: uint_word_of_int)

lemma uint_u8 [simp, layout]: "uint (u8 x) = x mod 256"
  by (simp add: u8_def uint_byte_of_int)

lemma uint_byte_lo [simp, layout]: "uint (byte_lo x) = x mod 256"
  by (simp add: byte_lo_def uint_byte_of_int)

lemma uint_byte_hi [simp, layout]: "uint (byte_hi x) = (x div 256) mod 256"
  by (simp add: byte_hi_def uint_byte_of_int)

lemma byte_bounds: "0 \<le> uint (b :: byte)" "uint (b :: byte) < 256"
  using uint_lt2p [of b] by simp_all

lemma u8_uint [simp]: "u8 (uint b) = b"
  by (simp add: u8_def)

lemma u8_mod [simp]: "u8 (x mod 256) = u8 x"
  by (rule word_uint_eqI) simp

lemma u8_eq_iff: "u8 x = u8 y \<longleftrightarrow> x mod 256 = y mod 256"
  by (metis uint_u8 u8_mod)

lemma mod_256_neg: "- 256 \<le> y \<Longrightarrow> y < 0 \<Longrightarrow> y mod 256 = y + (256 :: int)"
  using mod_pos_pos_trivial [of "y + 256" 256] by simp

lemma mod_div_256: "x mod 256 + 256 * (x div 256) = (x :: int)"
  by simp

lemma unpack_pack_u16 [simp]:
  assumes "0 \<le> x" "x \<le> 65535" shows "unpack_u16 (byte_lo x) (byte_hi x) = x"
proof -
  have "0 \<le> x div 256" "x div 256 < 256" using assms by auto
  then show ?thesis using mod_div_256 [of x] by (simp add: unpack_u16_def)
qed

lemma unpack_pack_i16 [simp]:
  assumes "- 32768 \<le> x" "x \<le> 32767" shows "unpack_i16 (byte_lo x) (byte_hi x) = x"
proof (cases "0 \<le> x")
  case True
  then have "0 \<le> x div 256" "x div 256 < 128" using assms by auto
  then show ?thesis using mod_div_256 [of x] assms True by (simp add: unpack_i16_def Let_def)
next
  case False
  then have "- 128 \<le> x div 256" "x div 256 < 0" using assms by auto
  then have "(x div 256) mod 256 = x div 256 + 256" by (intro mod_256_neg) auto
  then show ?thesis using mod_div_256 [of x] assms False by (simp add: unpack_i16_def Let_def)
qed

lemma unpack_u16_bounds: "0 \<le> unpack_u16 lo hi \<and> unpack_u16 lo hi \<le> 65535"
  using byte_bounds [of lo] byte_bounds [of hi] by (auto simp: unpack_u16_def)

lemma unpack_i16_bounds: "- 32768 \<le> unpack_i16 lo hi \<and> unpack_i16 lo hi \<le> 32767"
proof -
  define v where "v = uint lo + 256 * uint hi"
  have "0 \<le> v" "v \<le> 65535"
    using byte_bounds [of lo] byte_bounds [of hi] unfolding v_def by linarith+
  then show ?thesis by (simp add: unpack_i16_def Let_def flip: v_def)
qed

lemma uint_mod_256 [simp]: "uint (b :: byte) mod 256 = uint b"
  by (rule mod_pos_pos_trivial) (rule byte_bounds)+

lemma uint_div_256 [simp]: "uint (b :: byte) div 256 = 0"
  by (rule div_pos_pos_trivial) (rule byte_bounds)+

lemma word_pair_mod_div:
  "(uint (lo :: byte) + 256 * uint (hi :: byte)) mod 256 = uint lo"
  "(uint (lo :: byte) + 256 * uint (hi :: byte)) div 256 = uint hi"
  by (simp_all add: div_add1_eq)

lemma pack_unpack_u16 [simp]:
  "byte_lo (unpack_u16 lo hi) = lo" "byte_hi (unpack_u16 lo hi) = hi"
  using byte_bounds [of lo] byte_bounds [of hi]
  by (auto intro!: word_uint_eqI simp: unpack_u16_def word_pair_mod_div)

lemma pack_unpack_i16 [simp]:
  "byte_lo (unpack_i16 lo hi) = lo" "byte_hi (unpack_i16 lo hi) = hi"
proof -
  define v where "v = uint lo + 256 * uint hi"
  have v: "v mod 256 = uint lo" "v div 256 = uint hi" by (simp_all add: v_def word_pair_mod_div)
  have r: "(v - 65536) mod 256 = v mod 256" "(v - 65536) div 256 = v div 256 - 256"
    using mod_mult_self1 [of v "- 256" 256] div_mult_self1 [of 256 v "- 256"] by simp_all
  have e: "unpack_i16 lo hi = (if 32768 \<le> v then v - 65536 else v)"
    by (simp add: unpack_i16_def v_def Let_def)
  have h: "(uint hi - 256) mod 256 = uint hi"
    using byte_bounds [of hi] mod_add_self2 [of "uint hi - 256" 256] by simp
  show "byte_lo (unpack_i16 lo hi) = lo"
    by (rule word_uint_eqI) (simp add: e r v)
  show "byte_hi (unpack_i16 lo hi) = hi"
    using byte_bounds [of hi] by (intro word_uint_eqI) (simp add: e r v h)
qed

lemma unpack_pack_i8:
  assumes "- 128 \<le> x" "x \<le> 127" shows "unpack_i8 (pack_i8 x) = x"
proof (cases "0 \<le> x")
  case True
  with assms show ?thesis by (simp add: unpack_i8_def pack_i8_def uint_byte_of_int)
next
  case False
  with assms have "x mod 256 = x + 256" by (intro mod_256_neg) auto
  with assms False show ?thesis by (simp add: unpack_i8_def pack_i8_def uint_byte_of_int)
qed

lemma int_and_255: "x AND 255 = x mod (256 :: int)"
  using take_bit_eq_mask [of 8 x] take_bit_eq_mod [of 8 x] by (simp add: mask_eq_exp_minus_1)

lemma int_and_127: "x AND 127 = x mod (128 :: int)"
  using take_bit_eq_mask [of 7 x] take_bit_eq_mod [of 7 x] by (simp add: mask_eq_exp_minus_1)

lemma int_and_31: "x AND 31 = x mod (32 :: int)"
  using take_bit_eq_mask [of 5 x] take_bit_eq_mod [of 5 x] by (simp add: mask_eq_exp_minus_1)

lemma int_and_u24: "x AND 16777215 = x mod (16777216 :: int)"
  using take_bit_eq_mask [of 24 x] take_bit_eq_mod [of 24 x] by (simp add: mask_eq_exp_minus_1)

end
