(* ===== verification/Packets.thy ===== *)
theory Packets
  imports Py_Values Wire_Bytes
begin

text \<open>
  \<^verbatim>\<open>racelink/protocol/packets.py\<close>: the builders of the packet bodies, the
  parser of OPC_OFFSET bodies, and a reference decoder of OPC_CONTROL bodies written from the layout
  table of the source (comment above \<open>RL_CTRL_F_BRIGHTNESS\<close>).  A builder that can raise returns
  a result; \<open>u8\<close> is \<open>int(x) & 0xFF\<close>.
\<close>

section \<open>Fixed-length bodies\<close>

definition build_get_devices_body :: "int \<Rightarrow> int \<Rightarrow> byte list" where
  "build_get_devices_body group_id flags = [u8 group_id, u8 flags]"

definition build_set_group_body :: "int \<Rightarrow> byte list" where
  "build_set_group_body group_id = [u8 group_id]"

definition build_preset_body :: "int \<Rightarrow> int \<Rightarrow> int \<Rightarrow> int \<Rightarrow> byte list" where
  "build_preset_body group_id flags preset_id brightness =
     [u8 group_id, u8 flags, u8 preset_id, u8 brightness]"

definition build_config_body :: "int \<Rightarrow> int \<Rightarrow> int \<Rightarrow> int \<Rightarrow> int \<Rightarrow> byte list" where
  "build_config_body option_no data0 data1 data2 data3 =
     [u8 option_no, u8 data0, u8 data1, u8 data2, u8 data3]"

definition SYNC_FLAG_TRIGGER_ARMED :: int where "SYNC_FLAG_TRIGGER_ARMED = 1"

definition build_sync_body :: "int \<Rightarrow> int \<Rightarrow> int \<Rightarrow> byte list" where
  "build_sync_body ts24 brightness flags =
     (let ts = ts24 AND 16777215;
          base = [u8 (ts AND 255), u8 (drop_bit 8 ts AND 255), u8 (drop_bit 16 ts AND 255),
                  u8 (brightness AND 255)];
          f = flags AND 255
      in if f = 0 then base else base @ [u8 f])"

definition sync_ts24 :: "byte list \<Rightarrow> int" where
  "sync_ts24 body = uint (body ! 0) + 256 * uint (body ! 1) + 65536 * uint (body ! 2)"

lemma build_sync_body_length:
  "length (build_sync_body ts b f) = (if f mod 256 = 0 then 4 else 5)"
  by (simp add: build_sync_body_def Let_def int_and_255)

lemma split_u24:
  assumes "0 \<le> t" "t < 16777216"
  shows "t mod 256 + 256 * (t div 256 mod 256) + 65536 * (t div 65536 mod 256) = (t :: int)"
proof -
  have "0 \<le> t div 65536" "t div 65536 < 256" using assms by auto
  then have hi: "t div 65536 mod 256 = t div 65536" by (rule mod_pos_pos_trivial)
  have e: "t div 65536 = t div 256 div 256" using zdiv_zmult2_eq [of 256 t 256] by simp
  show ?thesis
    unfolding hi unfolding e using mod_div_256 [of t] mod_div_256 [of "t div 256"] by linarith
qed

lemma build_sync_body_prefix:
  "take 3 (build_sync_body ts b f) =
     (let t = ts mod 16777216 in [u8 t, u8 (t div 256), u8 (t div 65536)])"
  by (simp add: build_sync_body_def Let_def int_and_255 int_and_u24 drop_bit_eq_div u8_eq_iff
      eval_nat_numeral)

lemma build_sync_body_ts: "sync_ts24 (build_sync_body ts b f) = ts mod 16777216"
proof -
  define t where "t = ts mod 16777216"
  have p: "take 3 (build_sync_body ts b f) = [u8 t, u8 (t div 256), u8 (t div 65536)]"
    using build_sync_body_prefix [of ts b f] by (simp only: Let_def t_def)
  have "\<And>i. i < 3 \<Longrightarrow> build_sync_body ts b f ! i = [u8 t, u8 (t div 256), u8 (t div 65536)] ! i"
    unfolding p [symmetric] by simp
  from this [of 0] this [of 1] this [of 2]
  have "sync_ts24 (build_sync_body ts b f) =
      t mod 256 + 256 * (t div 256 mod 256) + 65536 * (t div 65536 mod 256)"
    by (simp add: sync_ts24_def)
  also have "\<dots> = t" by (rule split_u24) (simp_all add: t_def)
  finally show ?thesis by (simp add: t_def)
qed

section \<open>OPC_OFFSET\<close>

definition OFFSET_MODE_NAMES :: "(int \<times> string) list" where
  "OFFSET_MODE_NAMES =
     [(0, ''none''), (1, ''explicit''), (2, ''linear''), (3, ''vshape''), (4, ''modulo'')]"

definition OFFSET_MODE_VALUES :: "(string \<times> int) list" where
  "OFFSET_MODE_VALUES = map (\<lambda>(k, v). (v, k)) OFFSET_MODE_NAMES"

fun coerce_mode :: "pyval \<Rightarrow> int res" where
  "coerce_mode (PInt m) = (if m \<in> set (map fst OFFSET_MODE_NAMES) then Inr m else Inl ValueError)"
| "coerce_mode (PBool b) = Inr (if b then 1 else 0)"
| "coerce_mode (PStr s) =
     (case map_of OFFSET_MODE_VALUES (lower s) of None \<Rightarrow> Inl ValueError | Some m \<Rightarrow> Inr m)"
| "coerce_mode _ = Inl TypeError"

record offset_kwargs =
  ok_offset_ms :: int
  ok_base_ms :: int
  ok_step_ms :: int
  ok_center :: int
  ok_cycle :: int

definition default_kwargs :: offset_kwargs where
  "default_kwargs = \<lparr>ok_offset_ms = 0, ok_base_ms = 0, ok_step_ms = 0, ok_center = 0, ok_cycle = 1\<rparr>"

definition build_offset_body :: "int \<Rightarrow> pyval \<Rightarrow> offset_kwargs \<Rightarrow> byte list res" where
  "build_offset_body group_id mode kw =
     (let g = u8 group_id;
          base = clamp (- 32768) 32767 (ok_base_ms kw);
          step = clamp (- 32768) 32767 (ok_step_ms kw)
      in rbind (coerce_mode mode) (\<lambda>m.
        if m = 0 then Inr [g, u8 m]
        else if m = 1 then
          rbind (pack_u16 (clamp 0 65535 (ok_offset_ms kw))) (\<lambda>p. Inr ([g, u8 m] @ p))
        else if m = 2 then
          rbind (pack_i16 base) (\<lambda>pb. rbind (pack_i16 step) (\<lambda>ps. Inr ([g, u8 m] @ pb @ ps)))
        else if m = 3 then
          rbind (pack_i16 base) (\<lambda>pb. rbind (pack_i16 step) (\<lambda>ps.
            Inr ([g, u8 m] @ pb @ ps @ [u8 (clamp 0 254 (ok_center kw) AND 255)])))
        else if m = 4 then
          rbind (pack_i16 base) (\<lambda>pb. rbind (pack_i16 step) (\<lambda>ps.
            Inr ([g, u8 m] @ pb @ ps @ [u8 (clamp 1 255 (ok_cycle kw) AND 255)])))
        else Inl AssertionError))"

datatype offset_body =
    OB_none int
  | OB_explicit int int
  | OB_linear int int int
  | OB_vshape int int int int
  | OB_modulo int int int int

definition parse_offset_body :: "byte list \<Rightarrow> offset_body res" where
  "parse_offset_body body =
     (if length body < 2 then Inl ValueError
      else
        let g = uint (body ! 0); m = uint (body ! 1);
            b = unpack_i16 (body ! 2) (body ! 3); s = unpack_i16 (body ! 4) (body ! 5)
        in if m = 0 then if length body \<noteq> 2 then Inl ValueError else Inr (OB_none g)
           else if m = 1 then if length body \<noteq> 4 then Inl ValueError
             else Inr (OB_explicit g (unpack_u16 (body ! 2) (body ! 3)))
           else if m = 2 then if length body \<noteq> 6 then Inl ValueError else Inr (OB_linear g b s)
           else if m = 3 then if length body \<noteq> 7 then Inl ValueError
             else Inr (OB_vshape g b s (uint (body ! 6)))
           else if m = 4 then if length body \<noteq> 7 then Inl ValueError
             else Inr (OB_modulo g b s (uint (body ! 6)))
           else Inl ValueError)"

text \<open>What a body built for a mode says once it is parsed.\<close>

definition offset_meaning :: "int \<Rightarrow> int \<Rightarrow> offset_kwargs \<Rightarrow> offset_body" where
  "offset_meaning group_id m kw =
     (let g = group_id mod 256;
          b = clamp (- 32768) 32767 (ok_base_ms kw); s = clamp (- 32768) 32767 (ok_step_ms kw)
      in if m = 0 then OB_none g
         else if m = 1 then OB_explicit g (clamp 0 65535 (ok_offset_ms kw))
         else if m = 2 then OB_linear g b s
         else if m = 3 then OB_vshape g b s (clamp 0 254 (ok_center kw))
         else OB_modulo g b s (clamp 1 255 (ok_cycle kw)))"

definition offset_body_len :: "int \<Rightarrow> nat" where
  "offset_body_len m = (if m = 0 then 2 else if m = 1 then 4 else if m = 2 then 6 else 7)"

lemma coerce_mode_range: "coerce_mode mode = Inr m \<Longrightarrow> m \<in> {0, 1, 2, 3, 4}"
  by (cases mode) (auto simp: OFFSET_MODE_NAMES_def OFFSET_MODE_VALUES_def
      split: if_splits option.splits)

lemma coerce_mode_names [simp]:
  "coerce_mode (PStr ''none'') = Inr 0" "coerce_mode (PStr ''explicit'') = Inr 1"
  "coerce_mode (PStr ''linear'') = Inr 2" "coerce_mode (PStr ''vshape'') = Inr 3"
  "coerce_mode (PStr ''modulo'') = Inr 4"
  by code_simp+

lemma pack_clamped [simp]:
  "pack_u16 (clamp 0 65535 x) = Inr [byte_lo (clamp 0 65535 x), byte_hi (clamp 0 65535 x)]"
  "pack_i16 (clamp (- 32768) 32767 x) =
     Inr [byte_lo (clamp (- 32768) 32767 x), byte_hi (clamp (- 32768) 32767 x)]"
  using clamp_range [of 0 65535 x] clamp_range [of "- 32768" 32767 x]
  by (simp_all add: pack_u16_def pack_i16_def)

lemma clamp_byte_mod [simp]:
  "clamp 0 254 x mod 256 = clamp 0 254 x" "clamp 1 255 x mod 256 = clamp 1 255 x"
  using clamp_range [of 0 254 x] clamp_range [of 1 255 x] by (auto intro!: mod_pos_pos_trivial)

lemma unpack_clamped [simp]:
  "unpack_u16 (byte_lo (clamp 0 65535 x)) (byte_hi (clamp 0 65535 x)) = clamp 0 65535 x"
  "unpack_i16 (byte_lo (clamp (- 32768) 32767 x)) (byte_hi (clamp (- 32768) 32767 x)) =
     clamp (- 32768) 32767 x"
  using clamp_range [of 0 65535 x] clamp_range [of "- 32768" 32767 x] by simp_all

text \<open>
  The five shapes of a built body.  Everything the development needs of \<open>build_offset_body\<close>
  (its length, its parse, that it fails only on a bad mode) comes from this lemma.
\<close>

lemma build_offset_body_cases:
  assumes "coerce_mode mode = Inr m"
  shows "\<exists>body. build_offset_body g mode kw = Inr body \<and> length body = offset_body_len m \<and>
           parse_offset_body body = Inr (offset_meaning g m kw)"
  using coerce_mode_range [OF assms] assms
  by (auto simp: build_offset_body_def parse_offset_body_def offset_meaning_def offset_body_len_def
      Let_def int_and_255 eval_nat_numeral)

text \<open>
  For every mode the coercion accepts (the int value or the name in any case), the builder
  returns a body of the mode's length that the parser reads back as the clamped parameters; for
  every other mode it raises.  No \<open>struct.error\<close> can occur.
\<close>

theorem build_offset_body_roundtrip:
  "case coerce_mode mode of
     Inl e \<Rightarrow> build_offset_body g mode kw = Inl e
   | Inr m \<Rightarrow> \<exists>body. build_offset_body g mode kw = Inr body \<and> length body = offset_body_len m \<and>
              parse_offset_body body = Inr (offset_meaning g m kw)"
proof (cases "coerce_mode mode")
  case (Inl e)
  then show ?thesis by (simp add: build_offset_body_def Let_def)
next
  case (Inr m)
  then show ?thesis using build_offset_body_cases by simp
qed

lemma build_offset_body_length:
  "coerce_mode mode = Inr m \<Longrightarrow> build_offset_body g mode kw = Inr body \<Longrightarrow>
     length body = offset_body_len m"
  using build_offset_body_cases [of mode m g kw] by auto


section \<open>OPC_CONTROL\<close>

record ctrl_fields =
  cf_brightness :: "int option"
  cf_mode :: "int option"
  cf_speed :: "int option"
  cf_intensity :: "int option"
  cf_custom1 :: "int option"
  cf_custom2 :: "int option"
  cf_custom3 :: "int option"
  cf_check1 :: "bool option"
  cf_check2 :: "bool option"
  cf_check3 :: "bool option"
  cf_palette :: "int option"
  cf_color1 :: "(int \<times> int \<times> int) option"
  cf_color2 :: "(int \<times> int \<times> int) option"
  cf_color3 :: "(int \<times> int \<times> int) option"

definition no_fields :: ctrl_fields where
  "no_fields = \<lparr>cf_brightness = None, cf_mode = None, cf_speed = None, cf_intensity = None,
     cf_custom1 = None, cf_custom2 = None, cf_custom3 = None, cf_check1 = None, cf_check2 = None,
     cf_check3 = None, cf_palette = None, cf_color1 = None, cf_color2 = None, cf_color3 = None\<rparr>"

text \<open>
  One \<open>if x is not None: mask |= bit; tail.append(...)\<close> of the builder: the bit is given by its
  position.
\<close>

definition put_field :: "nat \<Rightarrow> byte list option \<Rightarrow> byte \<times> byte list \<Rightarrow> byte \<times> byte list" where
  "put_field k v mt =
     (case v of None \<Rightarrow> mt | Some bs \<Rightarrow> (fst mt OR push_bit k 1, snd mt @ bs))"

abbreviation one_byte :: "int option \<Rightarrow> byte list option" where
  "one_byte v \<equiv> map_option (\<lambda>x. [u8 x]) v"

definition rgb_bytes :: "int \<times> int \<times> int \<Rightarrow> byte list" where
  "rgb_bytes color = (case color of (r, g, b) \<Rightarrow> [u8 r, u8 g, u8 b])"

definition custom3_checks :: "ctrl_fields \<Rightarrow> byte list option" where
  "custom3_checks f =
     (if cf_custom3 f = None \<and> cf_check1 f = None \<and> cf_check2 f = None \<and> cf_check3 f = None then None
      else
        let c3 = (case cf_custom3 f of None \<Rightarrow> 0 | Some x \<Rightarrow> word_of_int (x AND 31));
            p1 = (if cf_check1 f = Some True then c3 OR 32 else c3);
            p2 = (if cf_check2 f = Some True then p1 OR 64 else p1);
            p3 = (if cf_check3 f = Some True then p2 OR 128 else p2)
        in Some [p3])"

definition main_block :: "ctrl_fields \<Rightarrow> byte \<times> byte list" where
  "main_block f =
     put_field 6 (custom3_checks f) (put_field 5 (one_byte (cf_custom2 f))
       (put_field 4 (one_byte (cf_custom1 f)) (put_field 3 (one_byte (cf_intensity f))
         (put_field 2 (one_byte (cf_speed f)) (put_field 1 (one_byte (cf_mode f))
           (put_field 0 (one_byte (cf_brightness f)) (0, [])))))))"

definition ext_block :: "ctrl_fields \<Rightarrow> byte \<times> byte list" where
  "ext_block f =
     put_field 3 (map_option rgb_bytes (cf_color3 f)) (put_field 2 (map_option rgb_bytes (cf_color2 f))
       (put_field 1 (map_option rgb_bytes (cf_color1 f)) (put_field 0 (one_byte (cf_palette f)) (0, []))))"

definition RL_CTRL_BODY_MAX :: nat where "RL_CTRL_BODY_MAX = 22"

definition build_control_body :: "int \<Rightarrow> int \<Rightarrow> ctrl_fields \<Rightarrow> byte list res" where
  "build_control_body group_id flags f =
     (let (field_mask, tail_main) = main_block f;
          (ext_mask, tail_ext) = ext_block f;
          body = (if ext_mask \<noteq> 0
                  then [u8 group_id, u8 flags, field_mask OR 128] @ tail_main @ [ext_mask] @ tail_ext
                  else [u8 group_id, u8 flags, field_mask] @ tail_main)
      in if length body \<le> RL_CTRL_BODY_MAX then Inr body else Inl AssertionError)"

section \<open>A reference decoder for OPC_CONTROL\<close>

definition take_field :: "byte \<Rightarrow> nat \<Rightarrow> nat \<Rightarrow> byte list \<Rightarrow> (byte list option \<times> byte list) option" where
  "take_field msk k n bs =
     (if bit msk k then if n \<le> length bs then Some (Some (take n bs), drop n bs) else None
      else Some (None, bs))"

fun take_fields :: "byte \<Rightarrow> (nat \<times> nat) list \<Rightarrow> byte list \<Rightarrow> (byte list option list \<times> byte list) option" where
  "take_fields msk [] bs = Some ([], bs)"
| "take_fields msk ((k, n) # ks) bs =
     (case take_field msk k n bs of
        None \<Rightarrow> None
      | Some (v, rest) \<Rightarrow> map_option (\<lambda>(vs, r). (v # vs, r)) (take_fields msk ks rest))"

definition main_layout :: "(nat \<times> nat) list" where
  "main_layout = [(0, 1), (1, 1), (2, 1), (3, 1), (4, 1), (5, 1), (6, 1)]"

definition ext_layout :: "(nat \<times> nat) list" where
  "ext_layout = [(0, 1), (1, 3), (2, 3), (3, 3)]"

text \<open>
  Group, flags, the raw bytes of the seven main fields and of the four extended ones; the body must
  be consumed exactly.
\<close>

definition decode_control ::
  "byte list \<Rightarrow> (byte \<times> byte \<times> byte list option list \<times> byte list option list) option" where
  "decode_control body =
     (case body of
        g # fl # msk # rest \<Rightarrow>
          (case take_fields msk main_layout rest of
             None \<Rightarrow> None
           | Some (main, r) \<Rightarrow>
               if bit msk 7 then
                 (case r of [] \<Rightarrow> None
                  | em # r2 \<Rightarrow>
                      (case take_fields em ext_layout r2 of
                         Some (ext, []) \<Rightarrow> Some (g, fl, main, ext) | _ \<Rightarrow> None))
               else if r = [] then Some (g, fl, main, [None, None, None, None]) else None)
      | _ \<Rightarrow> None)"

definition put_fields :: "(nat \<times> byte list option) list \<Rightarrow> byte \<times> byte list \<Rightarrow> byte \<times> byte list" where
  "put_fields fs mt = fold (\<lambda>(k, v). put_field k v) fs mt"

definition opt_bytes :: "byte list option \<Rightarrow> byte list" where
  "opt_bytes v = (case v of None \<Rightarrow> [] | Some bs \<Rightarrow> bs)"

definition main_values :: "ctrl_fields \<Rightarrow> byte list option list" where
  "main_values f = [one_byte (cf_brightness f), one_byte (cf_mode f), one_byte (cf_speed f),
     one_byte (cf_intensity f), one_byte (cf_custom1 f), one_byte (cf_custom2 f), custom3_checks f]"

definition ext_values :: "ctrl_fields \<Rightarrow> byte list option list" where
  "ext_values f = [one_byte (cf_palette f), map_option rgb_bytes (cf_color1 f),
     map_option rgb_bytes (cf_color2 f), map_option rgb_bytes (cf_color3 f)]"

lemma main_block_fields: "main_block f = put_fields (zip (map fst main_layout) (main_values f)) (0, [])"
  by (simp add: main_block_def put_fields_def main_layout_def main_values_def)

lemma ext_block_fields: "ext_block f = put_fields (zip (map fst ext_layout) (ext_values f)) (0, [])"
  by (simp add: ext_block_def put_fields_def ext_layout_def ext_values_def)

lemma put_fields_tail: "snd (put_fields fs mt) = snd mt @ concat (map (opt_bytes \<circ> snd) fs)"
  by (induction fs arbitrary: mt)
    (auto simp: put_fields_def put_field_def opt_bytes_def split: option.splits)

lemma put_fields_mask:
  assumes "j < 8"
  shows "bit (fst (put_fields fs mt)) j \<longleftrightarrow> bit (fst mt) j \<or> (\<exists>v. (j, v) \<in> set fs \<and> v \<noteq> None)"
proof (induction fs arbitrary: mt)
  case Nil
  then show ?case by (simp add: put_fields_def)
next
  case (Cons kv fs)
  obtain k v where kv: "kv = (k, v)" by force
  have e: "put_fields ((k, v) # fs) mt = put_fields fs (put_field k v mt)"
    by (simp add: put_fields_def)
  have "bit (fst (put_field k v mt)) j \<longleftrightarrow> bit (fst mt) j \<or> (j = k \<and> v \<noteq> None)"
    using assms by (auto simp: put_field_def bit_or_iff bit_exp_iff split: option.splits)
  with Cons.IH [of "put_field k v mt"] show ?case unfolding kv e by auto
qed

lemma take_fields_concat:
  assumes "\<forall>((k, n), v) \<in> set (zip lay vs). bit m k = (v \<noteq> None) \<and> (v \<noteq> None \<longrightarrow> length (the v) = n)"
    and "length lay = length vs"
  shows "take_fields m lay (concat (map opt_bytes vs) @ rest) = Some (vs, rest)"
  using assms
proof (induction lay arbitrary: vs)
  case Nil
  then show ?case by simp
next
  case (Cons kn lay)
  obtain k n where kn: "kn = (k, n)" by force
  from Cons.prems obtain v vs' where vs: "vs = v # vs'" by (cases vs) auto
  have IH: "take_fields m lay (concat (map opt_bytes vs') @ rest) = Some (vs', rest)"
    using Cons.prems by (intro Cons.IH) (auto simp: vs)
  have "bit m k = (v \<noteq> None)" "v \<noteq> None \<longrightarrow> length (the v) = n"
    using Cons.prems(1) by (auto simp: vs kn)
  then have "take_field m k n (opt_bytes v @ concat (map opt_bytes vs') @ rest)
      = Some (v, concat (map opt_bytes vs') @ rest)"
    by (auto simp: take_field_def opt_bytes_def)
  with IH show ?case by (simp add: vs kn)
qed

lemma main_fields_ok:
  assumes "\<And>j. j < 7 \<Longrightarrow> bit m j = bit (fst (main_block f)) j"
  shows "take_fields m main_layout (snd (main_block f) @ rest) = Some (main_values f, rest)"
proof -
  have t: "snd (main_block f) = concat (map opt_bytes (main_values f))"
    by (simp add: main_block_fields put_fields_tail main_layout_def main_values_def)
  have "\<And>j. j < 7 \<Longrightarrow> bit m j \<longleftrightarrow> (\<exists>v. (j, v) \<in> set (zip (map fst main_layout) (main_values f)) \<and> v \<noteq> None)"
    using assms by (simp add: main_block_fields put_fields_mask)
  then show ?thesis unfolding t
    by (intro take_fields_concat)
      (auto simp: main_layout_def main_values_def custom3_checks_def Let_def split: if_splits)
qed

lemma ext_fields_ok:
  "take_fields (fst (ext_block f)) ext_layout (snd (ext_block f) @ rest) = Some (ext_values f, rest)"
proof -
  have t: "snd (ext_block f) = concat (map opt_bytes (ext_values f))"
    by (simp add: ext_block_fields put_fields_tail ext_layout_def ext_values_def)
  have "\<And>j. j < 8 \<Longrightarrow> bit (fst (ext_block f)) j \<longleftrightarrow>
      (\<exists>v. (j, v) \<in> set (zip (map fst ext_layout) (ext_values f)) \<and> v \<noteq> None)"
    by (simp add: ext_block_fields put_fields_mask)
  then show ?thesis unfolding t
    by (intro take_fields_concat) (auto simp: ext_layout_def ext_values_def rgb_bytes_def)
qed

lemma main_mask_bit7: "\<not> bit (fst (main_block f)) 7"
  by (simp add: main_block_fields put_fields_mask main_layout_def main_values_def)

lemma ext_mask_zero:
  assumes "fst (ext_block f) = 0"
  shows "ext_values f = [None, None, None, None]" and "snd (ext_block f) = []"
proof -
  have "\<And>j. j < 8 \<Longrightarrow> \<not> (\<exists>v. (j, v) \<in> set (zip (map fst ext_layout) (ext_values f)) \<and> v \<noteq> None)"
    using assms put_fields_mask [of _ "zip (map fst ext_layout) (ext_values f)" "(0, [])"]
    by (simp add: ext_block_fields)
  from this [of 0] this [of 1] this [of 2] this [of 3]
  show v: "ext_values f = [None, None, None, None]"
    by (auto simp: ext_layout_def ext_values_def simp del: not_None_eq)
  show "snd (ext_block f) = []"
    unfolding ext_block_fields put_fields_tail v by (simp add: ext_layout_def opt_bytes_def)
qed

lemma main_tail_length: "length (snd (main_block f)) \<le> 7"
  by (simp add: main_block_fields put_fields_tail main_layout_def main_values_def opt_bytes_def
      custom3_checks_def Let_def split: option.splits)

lemma ext_tail_length: "length (snd (ext_block f)) \<le> 10"
  by (simp add: ext_block_fields put_fields_tail ext_layout_def ext_values_def opt_bytes_def
      rgb_bytes_def split: option.splits prod.splits)

definition control_body :: "int \<Rightarrow> int \<Rightarrow> ctrl_fields \<Rightarrow> byte list" where
  "control_body g fl f =
     (if fst (ext_block f) \<noteq> 0
      then [u8 g, u8 fl, fst (main_block f) OR 128] @ snd (main_block f) @ [fst (ext_block f)]
        @ snd (ext_block f)
      else [u8 g, u8 fl, fst (main_block f)] @ snd (main_block f))"

lemma control_body_length: "length (control_body g fl f) \<le> 21"
  using main_tail_length [of f] ext_tail_length [of f] by (simp add: control_body_def)

lemma build_control_body_eq: "build_control_body g fl f = Inr (control_body g fl f)"
  using control_body_length [of g fl f]
  by (simp add: build_control_body_def control_body_def RL_CTRL_BODY_MAX_def Let_def case_prod_beta)

lemma bit_128_iff: "bit (128 :: byte) j \<longleftrightarrow> j = 7"
proof -
  have "(128 :: byte) = 2 ^ 7" by simp
  then show ?thesis by (simp only: bit_exp_iff) auto
qed

lemma decode_control_body: "decode_control (control_body g fl f) = Some (u8 g, u8 fl, main_values f, ext_values f)"
proof (cases "fst (ext_block f) = 0")
  case True
  have "take_fields (fst (main_block f)) main_layout (snd (main_block f) @ []) = Some (main_values f, [])"
    by (rule main_fields_ok) simp
  with True ext_mask_zero(1) [OF True] show ?thesis
    by (simp add: control_body_def decode_control_def main_mask_bit7)
next
  case False
  let ?m = "fst (main_block f) OR 128"
  have "take_fields ?m main_layout (snd (main_block f) @ fst (ext_block f) # snd (ext_block f))
      = Some (main_values f, fst (ext_block f) # snd (ext_block f))"
    by (intro main_fields_ok) (simp only: bit_or_iff bit_128_iff, auto)
  moreover have "bit ?m 7" by (simp add: bit_or_iff bit_128_iff)
  moreover have "take_fields (fst (ext_block f)) ext_layout (snd (ext_block f)) = Some (ext_values f, [])"
    using ext_fields_ok [of f "[]"] by simp
  ultimately show ?thesis using False
    by (simp add: control_body_def decode_control_def)
qed

text \<open>
  For all parameters the OPC_CONTROL builder succeeds (its assertion never fires), emits at most 21
  bytes, and the body decodes by the documented layout to exactly the supplied fields: group and
  flags byte, each present field's bytes in its place, and nothing for an absent one.
\<close>

theorem build_control_body_correct:
  "\<exists>body. build_control_body g fl f = Inr body \<and> length body \<le> 21 \<and>
     decode_control body = Some (u8 g, u8 fl, main_values f, ext_values f)"
  using build_control_body_eq control_body_length decode_control_body by blast

end
