(* ===== verification/Offset_Formula.thy ===== *)
theory Offset_Formula
  imports Packets
begin

text \<open>
  \<^verbatim>\<open>racelink/domain/offset_formula.py\<close>: the host-side evaluator of offset
  formulas, over the persisted dictionary it is given, and the receiver's side as the builder's
  contract documents it (\<open>build_offset_body\<close>): the offset a device of a group stores for a parsed
  OPC_OFFSET body.
\<close>

definition offset_clamp :: "int \<Rightarrow> int" where
  "offset_clamp v = clamp 0 65535 v"

definition spec_mode :: "pydict \<Rightarrow> string res" where
  "spec_mode spec =
     (case py_or (dget spec ''mode'') (PStr ''none'') of PStr s \<Rightarrow> Inr (lower s) | _ \<Rightarrow> Inl AttributeError)"

definition evaluate_offset_ms :: "pydict \<Rightarrow> int \<Rightarrow> int res" where
  "evaluate_offset_ms spec group_id =
     rbind (spec_mode spec) (\<lambda>mode.
       let gid = group_id AND 255 in
       if mode = ''none'' then Inr 0
       else if mode = ''explicit'' then
         rbind (py_int (dget_or spec ''offset_ms'' (PInt 0))) (\<lambda>v. Inr (offset_clamp v))
       else
         rbind (py_int (dget_or spec ''base_ms'' (PInt 0))) (\<lambda>base.
         rbind (py_int (dget_or spec ''step_ms'' (PInt 0))) (\<lambda>step.
           if mode = ''linear'' then Inr (offset_clamp (base + gid * step))
           else if mode = ''vshape'' then
             rbind (py_int (dget_or spec ''center'' (PInt 0))) (\<lambda>c.
               Inr (offset_clamp (base + \<bar>gid - (c AND 255)\<bar> * step)))
           else if mode = ''modulo'' then
             rbind (py_int (dget_or spec ''cycle'' (PInt 1))) (\<lambda>raw_cycle.
               let cycle = (if raw_cycle > 0 then raw_cycle else 1)
               in Inr (offset_clamp (base + (gid mod cycle) * step)))
           else Inl ValueError)))"

definition evaluate_for_groups :: "pydict \<Rightarrow> int list \<Rightarrow> (int \<times> int) list res" where
  "evaluate_for_groups spec group_ids =
     rmap (\<lambda>g. rbind (evaluate_offset_ms spec g) (\<lambda>ms. Inr (g AND 255, ms))) group_ids"

lemma offset_clamp_range: "0 \<le> offset_clamp v \<and> offset_clamp v \<le> 65535"
  using clamp_range [of 0 65535 v] by (simp add: offset_clamp_def)

lemma evaluate_offset_ms_ok: "ok_res (\<lambda>v. 0 \<le> v \<and> v \<le> 65535) (evaluate_offset_ms spec g)"
  unfolding evaluate_offset_ms_def Let_def
  by (intro ok_res_if ok_res_bind_any ok_res_Inl ok_res_Inr offset_clamp_range) simp

lemma evaluate_offset_ms_range: "evaluate_offset_ms spec g = Inr v \<Longrightarrow> 0 \<le> v \<and> v \<le> 65535"
  using ok_resD [OF evaluate_offset_ms_ok] by simp

section \<open>The receiver\<close>

text \<open>A device is in normal acceptance, or has stored an offset.\<close>

datatype device_offset = NormalAcceptance | Offset int

fun receiver_offset :: "offset_body \<Rightarrow> int \<Rightarrow> device_offset" where
  "receiver_offset (OB_none _) gid = NormalAcceptance"
| "receiver_offset (OB_explicit _ ms) gid = Offset (offset_clamp ms)"
| "receiver_offset (OB_linear _ base step) gid = Offset (offset_clamp (base + gid * step))"
| "receiver_offset (OB_vshape _ base step c) gid = Offset (offset_clamp (base + \<bar>gid - c\<bar> * step))"
| "receiver_offset (OB_modulo _ base step cy) gid =
     Offset (offset_clamp (base + (gid mod (if cy > 0 then cy else 1)) * step))"

fun body_group :: "offset_body \<Rightarrow> int" where
  "body_group (OB_none g) = g"
| "body_group (OB_explicit g _) = g"
| "body_group (OB_linear g _ _) = g"
| "body_group (OB_vshape g _ _ _) = g"
| "body_group (OB_modulo g _ _ _) = g"

text \<open>A device whose group is \<open>gid\<close> takes a body addressed to its group or to all (255).\<close>

definition receive :: "offset_body \<Rightarrow> int \<Rightarrow> device_offset \<Rightarrow> device_offset" where
  "receive b gid st = (if body_group b = 255 \<or> body_group b = gid then receiver_offset b gid else st)"

section \<open>Canonical offset blocks\<close>

text \<open>
  The formula block a validated scene stores (\<open>scenes_service._canonical_offset_block\<close>) and its
  dictionary form.
\<close>

datatype offset_block =
    ONone
  | OExplicit "(int \<times> int) list"
  | OLinear int int
  | OVshape int int int
  | OModulo int int int

fun offset_dict :: "offset_block \<Rightarrow> pydict" where
  "offset_dict ONone = [(''mode'', PStr ''none'')]"
| "offset_dict (OExplicit vs) =
     [(''mode'', PStr ''explicit''),
      (''values'', PList (map (\<lambda>(i, ms). PDict [(''id'', PInt i), (''offset_ms'', PInt ms)]) vs))]"
| "offset_dict (OLinear b s) = [(''mode'', PStr ''linear''), (''base_ms'', PInt b), (''step_ms'', PInt s)]"
| "offset_dict (OVshape b s c) =
     [(''mode'', PStr ''vshape''), (''base_ms'', PInt b), (''step_ms'', PInt s), (''center'', PInt c)]"
| "offset_dict (OModulo b s c) =
     [(''mode'', PStr ''modulo''), (''base_ms'', PInt b), (''step_ms'', PInt s), (''cycle'', PInt c)]"

fun block_mode :: "offset_block \<Rightarrow> string" where
  "block_mode ONone = ''none''"
| "block_mode (OExplicit _) = ''explicit''"
| "block_mode (OLinear _ _) = ''linear''"
| "block_mode (OVshape _ _ _) = ''vshape''"
| "block_mode (OModulo _ _ _) = ''modulo''"

abbreviation i16 :: "int \<Rightarrow> bool" where "i16 x \<equiv> - 32768 \<le> x \<and> x \<le> 32767"
abbreviation group_id_ok :: "int \<Rightarrow> bool" where "group_id_ok g \<equiv> 0 \<le> g \<and> g \<le> 254"

fun block_ok :: "offset_block \<Rightarrow> bool" where
  "block_ok ONone = True"
| "block_ok (OExplicit vs) = (\<forall>(i, ms) \<in> set vs. group_id_ok i \<and> 0 \<le> ms \<and> ms \<le> 65535)"
| "block_ok (OLinear b s) = (i16 b \<and> i16 s)"
| "block_ok (OVshape b s c) = (i16 b \<and> i16 s \<and> group_id_ok c)"
| "block_ok (OModulo b s c) = (i16 b \<and> i16 s \<and> 1 \<le> c \<and> c \<le> 255)"

lemma lower_modes [simp]:
  "map lower_char ''none'' = ''none''" "map lower_char ''explicit'' = ''explicit''"
  "map lower_char ''linear'' = ''linear''" "map lower_char ''vshape'' = ''vshape''"
  "map lower_char ''modulo'' = ''modulo''"
  by code_simp+

lemma spec_mode_block [simp]: "spec_mode (offset_dict ob) = Inr (block_mode ob)"
  by (cases ob) (simp_all only: offset_dict.simps block_mode.simps spec_mode_def dget_or_def py_or_def
      map_of.simps fun_upd_same option.case py_truth.simps pyval.case lower_modes fst_conv snd_conv
      list.distinct not_False_eq_True if_True)

text \<open>The formula a canonical block denotes, on group ids as they are (no masking).\<close>

fun block_value :: "offset_block \<Rightarrow> int \<Rightarrow> int" where
  "block_value ONone g = 0"
| "block_value (OExplicit vs) g = 0"
| "block_value (OLinear b s) g = offset_clamp (b + g * s)"
| "block_value (OVshape b s c) g = offset_clamp (b + \<bar>g - c\<bar> * s)"
| "block_value (OModulo b s c) g = offset_clamp (b + (g mod c) * s)"

lemma evaluate_block:
  assumes "block_ok ob" and "0 \<le> g" and "g \<le> 255"
  shows "evaluate_offset_ms (offset_dict ob) g = Inr (block_value ob g)"
  using assms unfolding evaluate_offset_ms_def spec_mode_block
  by (cases ob) (auto simp: Let_def dget_or_def int_and_255 offset_clamp_def)

end
