(* ===== verification/Flags.thy ===== *)
theory Flags
  imports Py_Values Wire_Bytes
begin

text \<open>
  \<^verbatim>\<open>racelink/domain/flags.py\<close>: the flags byte shared by OPC_PRESET and
  OPC_CONTROL, and the normalisation of the four user-intent flags.
\<close>

definition RL_FLAG_POWER_ON :: int where "RL_FLAG_POWER_ON = 1"
definition RL_FLAG_ARM_ON_SYNC :: int where "RL_FLAG_ARM_ON_SYNC = 2"
definition RL_FLAG_HAS_BRI :: int where "RL_FLAG_HAS_BRI = 4"
definition RL_FLAG_FORCE_TT0 :: int where "RL_FLAG_FORCE_TT0 = 8"
definition RL_FLAG_FORCE_REAPPLY :: int where "RL_FLAG_FORCE_REAPPLY = 16"
definition RL_FLAG_OFFSET_MODE :: int where "RL_FLAG_OFFSET_MODE = 32"

lemmas flag_defs = RL_FLAG_POWER_ON_def RL_FLAG_ARM_ON_SYNC_def RL_FLAG_HAS_BRI_def
  RL_FLAG_FORCE_TT0_def RL_FLAG_FORCE_REAPPLY_def RL_FLAG_OFFSET_MODE_def

definition USER_FLAG_KEYS :: "string list" where
  "USER_FLAG_KEYS = [''arm_on_sync'', ''force_tt0'', ''force_reapply'', ''offset_mode'']"

definition build_flags_byte :: "bool \<Rightarrow> bool \<Rightarrow> bool \<Rightarrow> bool \<Rightarrow> bool \<Rightarrow> bool \<Rightarrow> int" where
  "build_flags_byte power_on has_bri arm_on_sync force_tt0 force_reapply offset_mode =
     (let out = 0;
          out = (if power_on then out OR RL_FLAG_POWER_ON else out);
          out = (if arm_on_sync then out OR RL_FLAG_ARM_ON_SYNC else out);
          out = (if has_bri then out OR RL_FLAG_HAS_BRI else out);
          out = (if force_tt0 then out OR RL_FLAG_FORCE_TT0 else out);
          out = (if force_reapply then out OR RL_FLAG_FORCE_REAPPLY else out);
          out = (if offset_mode then out OR RL_FLAG_OFFSET_MODE else out)
      in out AND 255)"

definition flags_from_mapping :: "pydict \<Rightarrow> (string \<times> bool) list" where
  "flags_from_mapping src = map (\<lambda>k. (k, py_truth (dget_or src k (PBool False)))) USER_FLAG_KEYS"

text \<open>
  The flags byte carries each of the six booleans in its own bit, the reserved bits 6 and 7 stay
  clear, and so the byte determines the six booleans.
\<close>

theorem build_flags_byte_bits:
  fixes p h a t r om
  defines "b \<equiv> build_flags_byte p h a t r om"
  shows "bit b 0 = p \<and> bit b 1 = a \<and> bit b 2 = h \<and> bit b 3 = t \<and> bit b 4 = r \<and> bit b 5 = om \<and>
         0 \<le> b \<and> b < 64"
  unfolding b_def build_flags_byte_def flag_defs
  by (cases p; cases h; cases a; cases t; cases r; cases om)
    (simp_all add: bit_iff_odd eval_nat_numeral)

lemma build_flags_byte_range: "0 \<le> build_flags_byte p h a t r om \<and> build_flags_byte p h a t r om < 64"
  unfolding build_flags_byte_def flag_defs
  by (cases p; cases h; cases a; cases t; cases r; cases om) simp_all

lemma flags_from_mapping_keys: "map fst (flags_from_mapping src) = USER_FLAG_KEYS"
  by (simp add: flags_from_mapping_def comp_def)

lemma flags_from_mapping_idem:
  "flags_from_mapping (map (\<lambda>(k, b). (k, PBool b)) (flags_from_mapping src)) = flags_from_mapping src"
  by (simp add: flags_from_mapping_def USER_FLAG_KEYS_def dget_or_def)

end
