(* ===== verification/Devices.thy ===== *)
theory Devices
  imports Py_Values Flags "HOL-Library.List_Lexorder" "HOL-Library.Char_ord"
begin

text \<open>
  \<^verbatim>\<open>racelink/domain/models.py\<close>, \<^verbatim>\<open>device_types.py\<close>,
  \<^verbatim>\<open>capabilities.py\<close> and \<^verbatim>\<open>racelink/state/repository.py\<close>:
  device records and their updates, the table of device types and capabilities, and the device and
  group repositories.  Times are exact seconds; \<open>time.time()\<close> is the argument \<open>now\<close>.  A repository
  is the list of its objects and a reference to one of them is its position.
\<close>

section \<open>Device records\<close>

record ack_state =
  ak_ok :: bool
  ak_opcode :: "int option"
  ak_status :: "int option"
  ak_seq :: "int option"
  ak_ts :: rat

record rl_device =
  d_addr :: string
  d_dev_type :: int
  d_name :: string
  d_version :: int
  d_caps :: int
  d_groupId :: int
  d_flags :: int
  d_presetId :: int
  d_effectId :: int
  d_brightness :: int
  d_configByte :: int
  d_specials :: "(string \<times> int) list"
  d_voltage_mV :: int
  d_node_rssi :: int
  d_node_snr :: int
  d_host_rssi :: int
  d_host_snr :: int
  d_last_seen_ts :: rat
  d_link_online :: "bool option"
  d_link_ts :: rat
  d_link_error :: "string option"
  d_last_ack :: ack_state

record rl_group =
  g_name :: string
  g_static_group :: int
  g_dev_type :: int

definition no_ack :: ack_state where
  "no_ack = \<lparr>ak_ok = False, ak_opcode = None, ak_status = None, ak_seq = None, ak_ts = 0\<rparr>"

definition RL_Device :: "string \<Rightarrow> int \<Rightarrow> string \<Rightarrow> int \<Rightarrow> int \<Rightarrow> int \<Rightarrow> int \<Rightarrow> int \<Rightarrow> int \<Rightarrow> int \<Rightarrow> int \<Rightarrow>
    int \<Rightarrow> int \<Rightarrow> int \<Rightarrow> rl_device" where
  "RL_Device addr dev_type name groupId version caps voltage node_rssi node_snr flags presetId
     brightness configByte effectId =
   \<lparr>d_addr = addr, d_dev_type = dev_type, d_name = name, d_version = version, d_caps = caps,
    d_groupId = groupId, d_flags = flags AND 255, d_presetId = presetId AND 255,
    d_effectId = effectId AND 255, d_brightness = brightness AND 255,
    d_configByte = configByte AND 255, d_specials = [], d_voltage_mV = voltage,
    d_node_rssi = node_rssi, d_node_snr = node_snr, d_host_rssi = 0, d_host_snr = 0,
    d_last_seen_ts = 0, d_link_online = None, d_link_ts = 0, d_link_error = None,
    d_last_ack = no_ack\<rparr>"

definition default_device :: "string \<Rightarrow> int \<Rightarrow> string \<Rightarrow> rl_device" where
  "default_device addr dev_type name =
     RL_Device addr dev_type name 0 0 0 0 0 0 RL_FLAG_POWER_ON 1 70 0 0"

definition or_keep :: "int option \<Rightarrow> int \<Rightarrow> int" where
  "or_keep v old = (case v of None \<Rightarrow> old | Some x \<Rightarrow> x)"

definition mark_online :: "rat \<Rightarrow> rl_device \<Rightarrow> rl_device" where
  "mark_online now d = d\<lparr>d_link_online := Some True, d_link_ts := now, d_link_error := None\<rparr>"

definition mark_offline :: "rat \<Rightarrow> string \<Rightarrow> rl_device \<Rightarrow> rl_device" where
  "mark_offline now reason d =
     d\<lparr>d_link_online := Some False, d_link_ts := now,
       d_link_error := (if reason = [] then None else Some reason)\<rparr>"

definition host_signal :: "int option \<Rightarrow> int option \<Rightarrow> rl_device \<Rightarrow> rl_device" where
  "host_signal rssi snr d =
     d\<lparr>d_host_rssi := or_keep rssi (d_host_rssi d), d_host_snr := or_keep snr (d_host_snr d)\<rparr>"

definition update_from_identify ::
  "rat \<Rightarrow> int option \<Rightarrow> int option \<Rightarrow> int option \<Rightarrow> int option \<Rightarrow> int option \<Rightarrow> rl_device \<Rightarrow> rl_device" where
  "update_from_identify now version dev_type groupId host_rssi host_snr d =
     (let d = d\<lparr>d_version := or_keep version (d_version d)\<rparr>;
          d = d\<lparr>d_caps := or_keep dev_type (d_caps d), d_dev_type := or_keep dev_type (d_dev_type d)\<rparr>;
          d = (if d_groupId d = 0 \<and> groupId \<noteq> None \<and> groupId \<noteq> Some 0
               then d\<lparr>d_groupId := the groupId AND 255\<rparr> else d);
          d = host_signal host_rssi host_snr d
      in mark_online now (d\<lparr>d_last_seen_ts := now\<rparr>))"

definition byte_or_keep :: "int option \<Rightarrow> int \<Rightarrow> int" where
  "byte_or_keep v old = (case v of None \<Rightarrow> old | Some x \<Rightarrow> x AND 255)"

definition update_from_status ::
  "rat \<Rightarrow> int option \<Rightarrow> int option \<Rightarrow> int option \<Rightarrow> int option \<Rightarrow> int option \<Rightarrow> int option \<Rightarrow> int option \<Rightarrow>
   int option \<Rightarrow> int option \<Rightarrow> rl_device \<Rightarrow> rl_device" where
  "update_from_status now flags configByte effectId brightness vbat node_rssi node_snr
     host_rssi host_snr d =
   (let d = d\<lparr>d_flags := byte_or_keep flags (d_flags d),
              d_configByte := byte_or_keep configByte (d_configByte d),
              d_effectId := byte_or_keep effectId (d_effectId d),
              d_brightness := byte_or_keep brightness (d_brightness d),
              d_voltage_mV := or_keep vbat (d_voltage_mV d),
              d_node_rssi := or_keep node_rssi (d_node_rssi d),
              d_node_snr := or_keep node_snr (d_node_snr d)\<rparr>;
        d = host_signal host_rssi host_snr d
    in mark_online now (d\<lparr>d_last_seen_ts := now\<rparr>))"

definition ack_clear :: "rl_device \<Rightarrow> rl_device" where
  "ack_clear d = d\<lparr>d_last_ack := no_ack\<rparr>"

definition ack_update :: "rat \<Rightarrow> int \<Rightarrow> int \<Rightarrow> int option \<Rightarrow> int option \<Rightarrow> int option \<Rightarrow> rl_device \<Rightarrow> rl_device" where
  "ack_update now opcode status seq host_rssi host_snr d =
     (let d = d\<lparr>d_last_ack := \<lparr>ak_ok = (status = 0), ak_opcode = Some opcode, ak_status = Some status,
                                ak_seq = seq, ak_ts = now\<rparr>\<rparr>;
          d = host_signal host_rssi host_snr d
      in mark_online now (d\<lparr>d_last_seen_ts := now\<rparr>))"

definition ack_ok :: "rl_device \<Rightarrow> bool" where
  "ack_ok d = ak_ok (d_last_ack d)"

text \<open>The wire-visible byte fields are bytes.\<close>

definition device_ok :: "rl_device \<Rightarrow> bool" where
  "device_ok d \<longleftrightarrow> (\<forall>x \<in> {d_flags d, d_presetId d, d_effectId d, d_brightness d, d_configByte d}.
     0 \<le> x \<and> x < 256)"

lemmas device_ops = mark_online_def mark_offline_def host_signal_def update_from_identify_def
  update_from_status_def ack_clear_def ack_update_def or_keep_def byte_or_keep_def Let_def

text \<open>
  A new device record holds bytes in its byte fields, and every update (identify, status,
  acknowledgement, link marks) keeps that, whatever the reply carried.
\<close>

theorem device_ok_preserved:
  "device_ok (RL_Device addr ty nm g v c volt nr ns f p b cb e) \<and>
   (device_ok d \<longrightarrow>
      device_ok (update_from_identify now ver dt gid hr hs d) \<and>
      device_ok (update_from_status now fl cfg eff bri vb nr2 ns2 hr hs d) \<and>
      device_ok (ack_update now opc st sq hr hs d) \<and> device_ok (ack_clear d) \<and>
      device_ok (mark_online now d) \<and> device_ok (mark_offline now reason d))"
  by (auto simp: device_ok_def RL_Device_def device_ops int_and_255 split: option.splits)

theorem device_ok_preserved_witness:
  "device_ok (ack_update 3 5 0 None (Some (- 40)) None (default_device ''AABBCCDDEEFF'' 10 ''n''))"
  using device_ok_preserved [of "''AABBCCDDEEFF''" 10 "''n''" 0 0 0 0 0 0 RL_FLAG_POWER_ON 1 70 0 0
      "default_device ''AABBCCDDEEFF'' 10 ''n''" 3 None None None "Some (- 40)" None None None None
      None None None None 5 0 None "[]"]
  by (simp add: default_device_def)

text \<open>
  What a reply does to the link state: an acknowledgement makes \<open>ack_ok\<close> exactly the test of
  status 0, every reply marks the device online without an error and stamps it, and an identify
  reply adopts the reported group only when the host has none (group 0) and a non-zero one is reported.
\<close>

theorem replies_mark_online:
  "(ack_ok (ack_update now opc st sq hr hs d) \<longleftrightarrow> st = 0) \<and> \<not> ack_ok (ack_clear d) \<and>
   (\<forall>d' \<in> {ack_update now opc st sq hr hs d, update_from_status now fl cfg eff bri vb nr ns hr hs d,
            update_from_identify now ver dt gid hr hs d}.
      d_link_online d' = Some True \<and> d_link_error d' = None \<and> d_last_seen_ts d' = now \<and>
      d_addr d' = d_addr d \<and> d_presetId d' = d_presetId d) \<and>
   d_groupId (update_from_identify now ver dt gid hr hs d) =
     (case gid of Some g \<Rightarrow> if d_groupId d = 0 \<and> g \<noteq> 0 then g mod 256 else d_groupId d
      | None \<Rightarrow> d_groupId d)"
  by (auto simp: ack_ok_def device_ops no_ack_def int_and_255 split: option.splits)

theorem replies_mark_online_witness:
  "ack_ok (ack_update 1 5 0 None None None (default_device ''AABBCCDDEEFF'' 10 ''n''))"
  using replies_mark_online [of 1 5 0 None None None "default_device ''AABBCCDDEEFF'' 10 ''n''"]
  by simp

section \<open>Device types and capabilities\<close>

definition RL_DEV_TYPE_CAPS :: "string list" where
  "RL_DEV_TYPE_CAPS = [''STARTBLOCK'', ''LEDMATRIX'', ''WLED'']"

definition RL_DEV_TYPE_INFO :: "(int \<times> string \<times> string list) list" where
  "RL_DEV_TYPE_INFO =
     [(1, ''Gateway_Rev1'', []),
      (10, ''WLED_Rev1'', [''WLED'']),
      (11, ''WLED_Rev3'', [''WLED'']),
      (12, ''WLED_Rev4'', [''WLED'']),
      (13, ''WLED_Rev5'', [''WLED'']),
      (50, ''WLED_Startblock_Rev3'', [''STARTBLOCK'', ''WLED''])]"

record dev_type_info =
  dt_name :: string
  dt_caps :: "string list"
  dt_flags :: "(string \<times> bool) list"

definition get_dev_type_info :: "int option \<Rightarrow> dev_type_info" where
  "get_dev_type_info type_id =
     (let tid = (case type_id of None \<Rightarrow> 0 | Some t \<Rightarrow> t);
          (name, cap_list) = (case map_of RL_DEV_TYPE_INFO tid of
             None \<Rightarrow> (''UNKNOWN_'' @ str_int tid, []) | Some p \<Rightarrow> p);
          caps = set cap_list
      in \<lparr>dt_name = name, dt_caps = sort (remdups cap_list),
          dt_flags = map (\<lambda>cap. (cap, cap \<in> caps)) RL_DEV_TYPE_CAPS\<rparr>)"

definition is_wled_dev_type :: "int option \<Rightarrow> bool" where
  "is_wled_dev_type type_id = (map_of (dt_flags (get_dev_type_info type_id)) ''WLED'' = Some True)"

definition is_startblock_device :: "rl_device \<Rightarrow> bool" where
  "is_startblock_device dev =
     (map_of (dt_flags (get_dev_type_info (Some (d_caps dev)))) ''STARTBLOCK'' = Some True)"

record opt_spec =
  os_key :: string
  os_option :: int
  os_min :: int
  os_max :: int

definition specials_options :: "string \<Rightarrow> opt_spec list" where
  "specials_options cap =
     (if cap = ''STARTBLOCK'' then
        [\<lparr>os_key = ''startblock_slots'', os_option = 140, os_min = 1, os_max = 8\<rparr>,
         \<lparr>os_key = ''startblock_first_slot'', os_option = 141, os_min = 1, os_max = 8\<rparr>]
      else [])"

definition get_special_keys_for_caps :: "string list \<Rightarrow> string list" where
  "get_special_keys_for_caps caps =
     concat (map (\<lambda>cap. filter (\<lambda>k. k \<noteq> []) (map os_key (specials_options cap))) caps)"

definition build_specials_state :: "int option \<Rightarrow> pydict \<Rightarrow> (string \<times> int) list" where
  "build_specials_state type_id stored =
     fold (\<lambda>opt state.
             if os_key opt = [] then state
             else assoc_set (os_key opt)
                    (case py_int (dget_or stored (os_key opt) (PInt (os_min opt))) of
                       Inr v \<Rightarrow> v | Inl e \<Rightarrow> os_min opt) state)
       (concat (map specials_options (dt_caps (get_dev_type_info type_id)))) []"

definition create_device :: "string \<Rightarrow> int \<Rightarrow> string \<Rightarrow> pydict \<Rightarrow> rl_device" where
  "create_device addr dev_type name specials =
     (default_device addr dev_type name)\<lparr>d_specials := build_specials_state (Some dev_type) specials\<rparr>"

definition stored_int :: "pydict \<Rightarrow> string \<Rightarrow> int" where
  "stored_int stored k = (case py_int (dget_or stored k (PInt 1)) of Inr v \<Rightarrow> v | Inl e \<Rightarrow> 1)"

text \<open>
  The specials of a new device: a start block gets exactly its two options, each the stored
  value when it converts to an int and 1 otherwise; no other device type gets any.
\<close>

theorem build_specials_state_correct:
  "build_specials_state t stored =
     (if t = Some 50
      then [(''startblock_slots'', stored_int stored ''startblock_slots''),
            (''startblock_first_slot'', stored_int stored ''startblock_first_slot'')]
      else [])"
proof -
  have caps: "dt_caps (get_dev_type_info t) =
      (if t = Some 50 then [''STARTBLOCK'', ''WLED'']
       else if t \<in> {Some 10, Some 11, Some 12, Some 13} then [''WLED''] else [])"
    by (auto simp: get_dev_type_info_def RL_DEV_TYPE_INFO_def Let_def split: option.splits)
  show ?thesis
    unfolding build_specials_state_def caps
    by (auto simp: specials_options_def stored_int_def split: sum.splits)
qed

section \<open>Repositories\<close>

definition addr_matches :: "string \<Rightarrow> rl_device \<Rightarrow> bool" where
  "addr_matches s item = (upper (d_addr item) = s)"

definition addr_endswith :: "string \<Rightarrow> rl_device \<Rightarrow> bool" where
  "addr_endswith s item =
     (let a = upper (d_addr item) in length s \<le> length a \<and> drop (length a - length s) a = s)"

definition get_by_addr :: "rl_device list \<Rightarrow> string \<Rightarrow> nat option" where
  "get_by_addr items addr =
     (if addr = [] then None
      else let s = upper (strip addr)
           in if length s = 12 then index_where (addr_matches s) items
              else if length s = 6 then index_where (addr_endswith s) items
              else None)"

definition upsert :: "rl_device list \<Rightarrow> rl_device \<Rightarrow> rl_device list" where
  "upsert items device =
     (case get_by_addr items (d_addr device) of
        None \<Rightarrow> items @ [device]
      | Some i \<Rightarrow> items[i := device])"

definition remove_device :: "rl_device list \<Rightarrow> nat \<Rightarrow> rl_device list res" where
  "remove_device items i = (if i < length items then Inr (take i items @ drop (Suc i) items) else Inl ValueError)"

definition get_device_from_address :: "rl_device list \<Rightarrow> string \<Rightarrow> nat option" where
  "get_device_from_address items addr =
     (if addr = [] then None
      else let s = upper (strip addr)
           in if length s = 12 then get_by_addr items s
              else if length s = 6 then get_by_addr items s else None)"

definition find_device :: "rl_device list \<Rightarrow> string \<Rightarrow> rl_device option" where
  "find_device items addr = map_option (nth items) (get_by_addr items addr)"

text \<open>A full address as the host stores it: twelve characters without surrounding space.\<close>

definition full_addr :: "string \<Rightarrow> bool" where
  "full_addr a \<longleftrightarrow> length a = 12 \<and> strip a = a"

locale address_store =
  fixes lookup :: "'s \<Rightarrow> 'k \<Rightarrow> 'v option"
    and put :: "'s \<Rightarrow> 'v \<Rightarrow> 's"
    and key :: "'v \<Rightarrow> 'k"
    and good :: "'k \<Rightarrow> bool"
    and norm :: "'k \<Rightarrow> 'n"
  assumes lookup_put_same: "good (key v) \<Longrightarrow> good k \<Longrightarrow> norm k = norm (key v) \<Longrightarrow> lookup (put s v) k = Some v"
    and lookup_put_other: "good (key v) \<Longrightarrow> good k \<Longrightarrow> norm k \<noteq> norm (key v) \<Longrightarrow>
           lookup (put s v) k = lookup s k"
begin

lemma lookup_put_list:
  assumes "\<forall>v \<in> set vs. good (key v)" and "good k"
  shows "lookup (foldl put s vs) k =
     (case find_where (\<lambda>v. norm (key v) = norm k) (rev vs) of Some v \<Rightarrow> Some v | None \<Rightarrow> lookup s k)"
  using assms(1)
proof (induction vs rule: rev_induct)
  case Nil
  then show ?case by simp
next
  case (snoc v vs)
  show ?case
  proof (cases "norm (key v) = norm k")
    case True
    then show ?thesis using snoc.prems assms(2) by (simp add: lookup_put_same)
  next
    case False
    then show ?thesis using snoc assms(2) lookup_put_other [of v k] by (simp split: option.splits)
  qed
qed

lemma put_idem_lookup:
  "good (key v) \<Longrightarrow> good (key w) \<Longrightarrow> norm (key v) = norm (key w) \<Longrightarrow> good k \<Longrightarrow>
     lookup (put (put s v) w) k = lookup (put s w) k"
  by (metis lookup_put_other lookup_put_same)

end

lemma upper_idem [simp]: "upper_char (upper_char c) = upper_char c"
proof -
  have "\<And>n :: nat. n < 256 \<Longrightarrow> 97 \<le> n \<Longrightarrow> n \<le> 122 \<Longrightarrow> (of_char (char_of (n - 32) :: char) :: nat) = n - 32"
    by simp
  then show ?thesis by (auto simp: upper_char_def Let_def)
qed

lemma get_by_addr_full: "full_addr a \<Longrightarrow> get_by_addr items a = index_where (addr_matches (upper a)) items"
  by (auto simp: get_by_addr_def full_addr_def Let_def)

lemma find_device_full: "full_addr a \<Longrightarrow> find_device items a = find_where (addr_matches (upper a)) items"
  by (simp add: find_device_def find_where_def get_by_addr_full)

lemma upsert_full:
  "full_addr (d_addr d) \<Longrightarrow> upsert items d =
     (case index_where (addr_matches (upper (d_addr d))) items of
        None \<Rightarrow> items @ [d] | Some i \<Rightarrow> items[i := d])"
  by (simp add: upsert_def get_by_addr_full)

interpretation repo: address_store find_device upsert d_addr full_addr "map upper_char"
proof unfold_locales
  fix v :: rl_device and k :: string and s :: "rl_device list"
  assume g: "full_addr (d_addr v)" "full_addr k" and eq: "upper k = upper (d_addr v)"
  have hit: "addr_matches (upper k) v" by (simp add: addr_matches_def eq)
  show "find_device (upsert s v) k = Some v"
  proof (cases "index_where (addr_matches (upper (d_addr v))) s")
    case None
    then have "find_where (addr_matches (upper k)) s = None" by (simp add: find_where_def eq)
    with None g hit show ?thesis by (simp add: find_device_full upsert_full find_where_append)
  next
    case (Some i)
    moreover have "i < length s" using index_where_SomeD [OF Some] by simp
    ultimately show ?thesis
      using g hit index_where_update_hit [OF Some, of v]
      by (simp add: find_device_full upsert_full find_where_def eq)
  qed
next
  fix v :: rl_device and k :: string and s :: "rl_device list"
  assume g: "full_addr (d_addr v)" "full_addr k" and ne: "upper k \<noteq> upper (d_addr v)"
  have miss: "\<not> addr_matches (upper k) v" using ne by (simp add: addr_matches_def)
  show "find_device (upsert s v) k = find_device s k"
  proof (cases "index_where (addr_matches (upper (d_addr v))) s")
    case None
    then show ?thesis using g miss
      by (simp add: find_device_full upsert_full find_where_append split: option.splits)
  next
    case (Some i)
    have i: "i < length s" "addr_matches (upper (d_addr v)) (s ! i)"
      using index_where_SomeD [OF Some] by auto
    then have "\<not> addr_matches (upper k) (s ! i)" using ne by (simp add: addr_matches_def)
    with miss have same: "index_where (addr_matches (upper k)) (s[i := v]) = index_where (addr_matches (upper k)) s"
      by (intro index_where_update_other)
    have "\<And>j. index_where (addr_matches (upper k)) s = Some j \<Longrightarrow> s[i := v] ! j = s ! j"
      using index_where_SomeD \<open>\<not> addr_matches (upper k) (s ! i)\<close> by (metis nth_list_update_neq)
    with same Some g show ?thesis
      by (cases "index_where (addr_matches (upper k)) s")
        (simp_all add: find_device_full upsert_full find_where_def)
  qed
qed

text \<open>
  After any sequence of upserts of devices with full addresses, looking up a full address (in
  any case) finds the last device written under it, and otherwise what the repository held before.
\<close>

theorem upsert_lookup:
  assumes "\<forall>d \<in> set ds. full_addr (d_addr d)" and "full_addr a"
  shows "find_device (foldl upsert items ds) a =
     (case find_where (\<lambda>d. upper (d_addr d) = upper a) (rev ds) of
        Some d \<Rightarrow> Some d | None \<Rightarrow> find_device items a)"
  using assms by (rule repo.lookup_put_list)

theorem upsert_lookup_witness:
  "find_device (foldl upsert [] [default_device ''AABBCCDDEEFF'' 10 ''x'',
      default_device ''aabbccddeeff'' 11 ''y'']) ''AABBCCDDEEFF''
    = Some (default_device ''aabbccddeeff'' 11 ''y'')"
proof -
  have g: "full_addr ''AABBCCDDEEFF''" "full_addr ''aabbccddeeff''" by code_simp+
  have u: "upper ''AABBCCDDEEFF'' = upper ''aabbccddeeff''" by code_simp
  have a: "\<And>s t n. d_addr (default_device s t n) = s" by (simp add: default_device_def RL_Device_def)
  show ?thesis
    using upsert_lookup [of "[default_device ''AABBCCDDEEFF'' 10 ''x'', default_device ''aabbccddeeff'' 11 ''y'']"
        "''AABBCCDDEEFF''" "[]"] g u
    by (simp only: list.set ball_simps a rev.simps append.simps find_where_Cons if_True option.case simp_thms)
qed

end
