(* ===== verification/Optimizer.thy ===== *)
theory Optimizer
  imports Offset_Formula Devices
begin

text \<open>
  \<^verbatim>\<open>racelink/services/offset_dispatch_optimizer.py\<close>: the planned wire
  operation and the choice of the cheapest OPC_OFFSET sequence for an offset-group container.  The
  target is the canonical target of a validated scene, the offset block the dictionary the scene
  stores.  The receivers are the fleet: for every group the state its devices are in.
\<close>

section \<open>Targets and wire operations\<close>

datatype target = Broadcast | Groups "int list" | Device string

datatype send_target = ToGroup int | ToDevice nat

datatype payload =
    POffset string offset_kwargs
  | PEffect pydict send_target
  | PSync int bool

record wire_op =
  w_opcode :: string
  w_target_group :: int
  w_payload :: payload
  w_body_bytes :: nat
  w_sender :: "string option"
  w_detail :: pydict

record optimizer_plan =
  op_strategy :: string
  op_ops :: "wire_op list"

definition plan_packet_count :: "optimizer_plan \<Rightarrow> nat" where
  "plan_packet_count p = length (op_ops p)"

definition plan_total_bytes :: "optimizer_plan \<Rightarrow> nat" where
  "plan_total_bytes p = sum_list (map w_body_bytes (op_ops p))"

definition FORMULA_MODES :: "string list" where
  "FORMULA_MODES = [''linear'', ''vshape'', ''modulo'', ''none'']"

section \<open>The planner\<close>

definition offset_payload_kwargs :: "string \<Rightarrow> pydict \<Rightarrow> offset_kwargs res" where
  "offset_payload_kwargs mode params =
     (if mode = ''none'' then Inr default_kwargs
      else if mode = ''explicit'' then
        rbind (py_int (dget_or params ''offset_ms'' (PInt 0))) (\<lambda>ms.
          Inr (default_kwargs\<lparr>ok_offset_ms := ms\<rparr>))
      else if mode = ''linear'' \<or> mode = ''vshape'' \<or> mode = ''modulo'' then
        rbind (py_int (dget_or params ''base_ms'' (PInt 0))) (\<lambda>b.
        rbind (py_int (dget_or params ''step_ms'' (PInt 0))) (\<lambda>s.
          let kw = default_kwargs\<lparr>ok_base_ms := b, ok_step_ms := s\<rparr>
          in if mode = ''linear'' then Inr kw
             else if mode = ''vshape'' then
               rbind (py_int (dget_or params ''center'' (PInt 0))) (\<lambda>c. Inr (kw\<lparr>ok_center := c\<rparr>))
             else
               rbind (py_int (dget_or params ''cycle'' (PInt 1))) (\<lambda>c. Inr (kw\<lparr>ok_cycle := max 1 c\<rparr>))))
      else Inl ValueError)"

definition make_offset_op :: "int \<Rightarrow> string \<Rightarrow> pydict \<Rightarrow> wire_op res" where
  "make_offset_op target_group mode params =
     rbind (offset_payload_kwargs mode params) (\<lambda>kw.
     rbind (build_offset_body target_group (PStr mode) kw) (\<lambda>body.
       Inr \<lparr>w_opcode = ''OPC_OFFSET'', w_target_group = target_group, w_payload = POffset mode kw,
            w_body_bytes = length body, w_sender = Some ''send_offset'', w_detail = []\<rparr>))"

text \<open>\<open>{int(v["id"]): int(v["offset_ms"]) for v in offset.get("values") or []}\<close>.\<close>

fun subscript :: "pyval \<Rightarrow> string \<Rightarrow> pyval res" where
  "subscript (PDict d) k = (case map_of d k of None \<Rightarrow> Inl KeyError | Some v \<Rightarrow> Inr v)"
| "subscript _ k = Inl TypeError"

definition explicit_values :: "pydict \<Rightarrow> (int \<times> int) list res" where
  "explicit_values offset =
     rbind (py_iter (py_or (dget offset ''values'') (PList []))) (\<lambda>vs.
       rmap (\<lambda>v. rbind (subscript v ''id'') (\<lambda>i. rbind (py_int i) (\<lambda>i.
                 rbind (subscript v ''offset_ms'') (\<lambda>m. rbind (py_int m) (\<lambda>m. Inr (i, m)))))) vs)"

text \<open>Later entries of a dictionary comprehension win; an absent group reads 0.\<close>

definition value_for :: "(int \<times> int) list \<Rightarrow> int \<Rightarrow> int" where
  "value_for values gid = (case map_of (rev values) gid of None \<Rightarrow> 0 | Some ms \<Rightarrow> ms)"

definition ms_params :: "int \<Rightarrow> pydict" where
  "ms_params ms = [(''offset_ms'', PInt ms)]"

definition explicit_ops :: "string \<Rightarrow> pydict \<Rightarrow> int list \<Rightarrow> wire_op list res" where
  "explicit_ops mode offset concrete_groups =
     (if mode = ''explicit'' then
        rbind (explicit_values offset) (\<lambda>values.
          rmap (\<lambda>gid. make_offset_op gid ''explicit'' (ms_params (value_for values gid))) concrete_groups)
      else
        rmap (\<lambda>gid. rbind (evaluate_offset_ms offset gid) (\<lambda>ms.
                     make_offset_op gid ''explicit'' (ms_params ms))) concrete_groups)"

definition cost_key :: "optimizer_plan \<Rightarrow> nat \<times> nat" where
  "cost_key p = (plan_packet_count p, plan_total_bytes p)"

definition cheaper :: "optimizer_plan \<Rightarrow> optimizer_plan \<Rightarrow> bool" where
  "cheaper p q \<longleftrightarrow> fst (cost_key p) < fst (cost_key q) \<or>
     fst (cost_key p) = fst (cost_key q) \<and> snd (cost_key p) < snd (cost_key q)"

text \<open>The head of a stable sort: the first candidate no other one is cheaper than.\<close>

fun best_plan :: "optimizer_plan \<Rightarrow> optimizer_plan list \<Rightarrow> optimizer_plan" where
  "best_plan p [] = p"
| "best_plan p (q # qs) = best_plan (if cheaper q p then q else p) qs"

definition plan_offset_setup :: "target \<Rightarrow> pydict \<Rightarrow> int list \<Rightarrow> optimizer_plan res" where
  "plan_offset_setup target offset known_group_ids =
     (let is_all = (target = Broadcast) in
      rbind (case target of Broadcast \<Rightarrow> Inr [] | Groups gs \<Rightarrow> Inr gs | Device _ \<Rightarrow> Inl ValueError)
        (\<lambda>participant_groups.
      rbind (spec_mode offset) (\<lambda>mode.
      rbind (if is_all \<and> mode \<in> set FORMULA_MODES
             then rbind (make_offset_op 255 mode offset) (\<lambda>op.
                    Inr [\<lparr>op_strategy = ''A_broadcast_formula'', op_ops = [op]\<rparr>])
             else Inr []) (\<lambda>a.
      let concrete_groups = (if is_all then known_group_ids else participant_groups) in
      rbind (if concrete_groups \<noteq> []
             then rbind (explicit_ops mode offset concrete_groups) (\<lambda>ops.
                    Inr [\<lparr>op_strategy = ''B_per_group_explicit'', op_ops = ops\<rparr>])
             else Inr []) (\<lambda>b.
      rbind (if \<not> is_all \<and> mode \<in> set FORMULA_MODES \<and> mode \<noteq> ''none'' \<and> known_group_ids \<noteq> []
             then rbind (make_offset_op 255 mode offset) (\<lambda>op.
                  rbind (rmap (\<lambda>gid. make_offset_op gid ''none'' [])
                           (filter (\<lambda>gid. gid \<notin> set participant_groups) known_group_ids)) (\<lambda>overrides.
                    Inr [\<lparr>op_strategy = ''C_formula_plus_overrides'', op_ops = op # overrides\<rparr>]))
             else Inr []) (\<lambda>c.
      rbind (if mode = ''none'' \<and> \<not> is_all
             then rbind (rmap (\<lambda>gid. make_offset_op gid ''none'' []) concrete_groups) (\<lambda>ops.
                    Inr [\<lparr>op_strategy = ''B_per_group_explicit'', op_ops = ops\<rparr>])
             else Inr b) (\<lambda>b'.
      Inr (case a @ b' @ c of
             [] \<Rightarrow> \<lparr>op_strategy = ''A_broadcast_formula'', op_ops = []\<rparr>
           | p # ps \<Rightarrow> best_plan p ps))))))))"

lemma best_plan_in: "best_plan p ps \<in> set (p # ps)"
  by (induction p ps rule: best_plan.induct) auto

lemma cheaper_trans: "cheaper p q \<Longrightarrow> cheaper q r \<Longrightarrow> cheaper p r"
  by (auto simp: cheaper_def)

lemma cheaper_weak_trans: "\<not> cheaper q p \<Longrightarrow> \<not> cheaper r q \<Longrightarrow> \<not> cheaper r p"
  by (auto simp: cheaper_def)

lemma best_plan_min: "q \<in> set (p # ps) \<Longrightarrow> \<not> cheaper q (best_plan p ps)"
proof (induction p ps arbitrary: q rule: best_plan.induct)
  case (1 p)
  then show ?case by (simp add: cheaper_def)
next
  case (2 p r qs)
  let ?m = "if cheaper r p then r else p"
  have m: "\<not> cheaper ?m (best_plan ?m qs)" by (rule "2.IH") simp
  have "\<not> cheaper p ?m" and "\<not> cheaper r ?m" by (auto simp: cheaper_def)
  with m have "\<not> cheaper p (best_plan ?m qs)" and "\<not> cheaper r (best_plan ?m qs)"
    using cheaper_weak_trans by blast+
  with "2.prems" "2.IH" show ?case by auto
qed

section \<open>The fleet\<close>

text \<open>
  Delivering a planned operation: the body the sender builds for it, read by every device.  The
  fleet maps a group id to the state of that group's devices.
\<close>

definition op_body :: "wire_op \<Rightarrow> byte list res" where
  "op_body op = (case w_payload op of
     POffset mode kw \<Rightarrow> build_offset_body (w_target_group op) (PStr mode) kw
   | _ \<Rightarrow> Inl ValueError)"

definition deliver :: "wire_op \<Rightarrow> (int \<Rightarrow> device_offset) \<Rightarrow> (int \<Rightarrow> device_offset)" where
  "deliver op st =
     (case rbind (op_body op) parse_offset_body of
        Inl e \<Rightarrow> st
      | Inr b \<Rightarrow> (\<lambda>gid. receive b gid (st gid)))"

definition deliver_all :: "wire_op list \<Rightarrow> (int \<Rightarrow> device_offset) \<Rightarrow> (int \<Rightarrow> device_offset)" where
  "deliver_all ops st = fold deliver ops st"

text \<open>The operations a canonical block leads to, in closed form.\<close>

definition offset_op :: "int \<Rightarrow> string \<Rightarrow> offset_kwargs \<Rightarrow> nat \<Rightarrow> wire_op" where
  "offset_op g mode kw n =
     \<lparr>w_opcode = ''OPC_OFFSET'', w_target_group = g, w_payload = POffset mode kw, w_body_bytes = n,
      w_sender = Some ''send_offset'', w_detail = []\<rparr>"

definition explicit_op :: "int \<Rightarrow> int \<Rightarrow> wire_op" where
  "explicit_op g ms = offset_op g ''explicit'' (default_kwargs\<lparr>ok_offset_ms := ms\<rparr>) 4"

definition none_op :: "int \<Rightarrow> wire_op" where
  "none_op g = offset_op g ''none'' default_kwargs 2"

fun block_kwargs :: "offset_block \<Rightarrow> offset_kwargs" where
  "block_kwargs ONone = default_kwargs"
| "block_kwargs (OExplicit _) = default_kwargs"
| "block_kwargs (OLinear b s) = default_kwargs\<lparr>ok_base_ms := b, ok_step_ms := s\<rparr>"
| "block_kwargs (OVshape b s c) = default_kwargs\<lparr>ok_base_ms := b, ok_step_ms := s, ok_center := c\<rparr>"
| "block_kwargs (OModulo b s c) = default_kwargs\<lparr>ok_base_ms := b, ok_step_ms := s, ok_cycle := max 1 c\<rparr>"

fun block_number :: "offset_block \<Rightarrow> int" where
  "block_number ONone = 0"
| "block_number (OExplicit _) = 1"
| "block_number (OLinear _ _) = 2"
| "block_number (OVshape _ _ _) = 3"
| "block_number (OModulo _ _ _) = 4"

definition formula_op :: "int \<Rightarrow> offset_block \<Rightarrow> wire_op" where
  "formula_op g ob = offset_op g (block_mode ob) (block_kwargs ob) (offset_body_len (block_number ob))"

fun is_explicit :: "offset_block \<Rightarrow> bool" where
  "is_explicit (OExplicit _) = True" | "is_explicit _ = False"

lemma coerce_block_mode: "coerce_mode (PStr (block_mode ob)) = Inr (block_number ob)"
  by (cases ob) (simp_all only: block_mode.simps block_number.simps coerce_mode_names)

lemma make_offset_op_coerced:
  assumes "offset_payload_kwargs mode params = Inr kw" and "coerce_mode (PStr mode) = Inr m"
  shows "make_offset_op g mode params = Inr (offset_op g mode kw (offset_body_len m))"
  using build_offset_body_cases [OF assms(2), of g kw] assms(1)
  by (auto simp: make_offset_op_def offset_op_def)

lemma make_explicit_op: "make_offset_op g ''explicit'' (ms_params ms) = Inr (explicit_op g ms)"
proof -
  have "offset_payload_kwargs ''explicit'' (ms_params ms) = Inr (default_kwargs\<lparr>ok_offset_ms := ms\<rparr>)"
    by (simp add: offset_payload_kwargs_def ms_params_def dget_or_def)
  from make_offset_op_coerced [OF this coerce_mode_names(2)] show ?thesis
    by (simp add: explicit_op_def offset_body_len_def)
qed

lemma make_none_op: "make_offset_op g ''none'' params = Inr (none_op g)"
proof -
  have "offset_payload_kwargs ''none'' params = Inr default_kwargs"
    by (simp add: offset_payload_kwargs_def)
  from make_offset_op_coerced [OF this coerce_mode_names(1)] show ?thesis
    by (simp add: none_op_def offset_body_len_def)
qed

lemma make_formula_op:
  "\<not> is_explicit ob \<Longrightarrow> make_offset_op g (block_mode ob) (offset_dict ob) = Inr (formula_op g ob)"
proof -
  assume "\<not> is_explicit ob"
  then have "offset_payload_kwargs (block_mode ob) (offset_dict ob) = Inr (block_kwargs ob)"
    by (cases ob) (simp_all add: offset_payload_kwargs_def dget_or_def)
  from make_offset_op_coerced [OF this coerce_block_mode] show ?thesis
    by (simp add: formula_op_def)
qed

lemma explicit_values_block: "explicit_values (offset_dict (OExplicit vs)) = Inr vs"
proof (cases "vs = []")
  case True
  then show ?thesis by (simp add: explicit_values_def dget_or_def py_or_def)
next
  case False
  have "rmap (\<lambda>v. rbind (subscript v ''id'') (\<lambda>i. rbind (py_int i) (\<lambda>i.
          rbind (subscript v ''offset_ms'') (\<lambda>m. rbind (py_int m) (\<lambda>m. Inr (i, m))))))
        (map (\<lambda>(i, ms). PDict [(''id'', PInt i), (''offset_ms'', PInt ms)]) ws) = Inr ws" for ws
    by (induction ws) (auto simp: case_prod_beta)
  with False show ?thesis by (simp add: explicit_values_def dget_or_def py_or_def)
qed

section \<open>What delivery does\<close>

lemma deliver_offset_op:
  assumes "coerce_mode (PStr mode) = Inr m"
  shows "deliver (offset_op g mode kw n) st = (\<lambda>gid. receive (offset_meaning g m kw) gid (st gid))"
  using build_offset_body_cases [OF assms, of g kw]
  by (auto simp: deliver_def op_body_def offset_op_def)

lemma deliver_explicit:
  assumes "group_id_ok g" "0 \<le> ms" "ms \<le> 65535"
  shows "deliver (explicit_op g ms) st = st(g := Offset ms)"
  using assms unfolding explicit_op_def deliver_offset_op [OF coerce_mode_names(2)]
  by (auto simp: fun_eq_iff offset_meaning_def receive_def Let_def default_kwargs_def offset_clamp_def)

lemma deliver_none:
  assumes "group_id_ok g" shows "deliver (none_op g) st = st(g := NormalAcceptance)"
  using assms unfolding none_op_def deliver_offset_op [OF coerce_mode_names(1)]
  by (auto simp: fun_eq_iff offset_meaning_def receive_def Let_def)

fun intended :: "offset_block \<Rightarrow> int \<Rightarrow> device_offset" where
  "intended ONone g = NormalAcceptance"
| "intended (OExplicit vs) g = Offset (value_for vs g)"
| "intended ob g = Offset (block_value ob g)"

lemma deliver_formula_broadcast:
  assumes "block_ok ob" "\<not> is_explicit ob"
  shows "deliver (formula_op 255 ob) st = (\<lambda>g. intended ob g)"
  using assms unfolding formula_op_def deliver_offset_op [OF coerce_block_mode]
  by (cases ob) (auto simp: fun_eq_iff offset_meaning_def receive_def Let_def default_kwargs_def)

lemma deliver_all_explicit:
  assumes "\<forall>g \<in> set gs. group_id_ok g \<and> 0 \<le> f g \<and> f g \<le> 65535"
  shows "deliver_all (map (\<lambda>g. explicit_op g (f g)) gs) st h = (if h \<in> set gs then Offset (f h) else st h)"
  using assms
  by (induction gs arbitrary: st) (auto simp: deliver_all_def deliver_explicit)

lemma deliver_all_none:
  assumes "\<forall>g \<in> set gs. group_id_ok g"
  shows "deliver_all (map none_op gs) st h = (if h \<in> set gs then NormalAcceptance else st h)"
  using assms
  by (induction gs arbitrary: st) (auto simp: deliver_all_def deliver_none)

lemma deliver_all_Cons: "deliver_all (op # ops) st = deliver_all ops (deliver op st)"
  by (simp add: deliver_all_def)

section \<open>The plan of a canonical container\<close>

fun host_value :: "offset_block \<Rightarrow> int \<Rightarrow> int" where
  "host_value (OExplicit vs) g = value_for vs g"
| "host_value ob g = block_value ob g"

definition strat_A :: "offset_block \<Rightarrow> optimizer_plan" where
  "strat_A ob = \<lparr>op_strategy = ''A_broadcast_formula'', op_ops = [formula_op 255 ob]\<rparr>"

definition strat_B :: "offset_block \<Rightarrow> int list \<Rightarrow> optimizer_plan" where
  "strat_B ob gs = \<lparr>op_strategy = ''B_per_group_explicit'',
     op_ops = map (\<lambda>g. explicit_op g (host_value ob g)) gs\<rparr>"

definition strat_B_none :: "int list \<Rightarrow> optimizer_plan" where
  "strat_B_none gs = \<lparr>op_strategy = ''B_per_group_explicit'', op_ops = map none_op gs\<rparr>"

definition strat_C :: "offset_block \<Rightarrow> int list \<Rightarrow> int list \<Rightarrow> optimizer_plan" where
  "strat_C ob gs known = \<lparr>op_strategy = ''C_formula_plus_overrides'',
     op_ops = formula_op 255 ob # map none_op (filter (\<lambda>g. g \<notin> set gs) known)\<rparr>"

lemma value_for_range:
  "block_ok (OExplicit vs) \<Longrightarrow> 0 \<le> value_for vs g \<and> value_for vs g \<le> 65535"
  by (auto simp: value_for_def split: option.splits dest!: map_of_SomeD)

lemma block_value_range: "0 \<le> block_value ob g \<and> block_value ob g \<le> 65535"
  using offset_clamp_range by (cases ob) auto

lemma host_value_range: "block_ok ob \<Longrightarrow> 0 \<le> host_value ob g \<and> host_value ob g \<le> 65535"
  by (cases ob) (auto simp: value_for_range block_value_range simp del: block_value.simps block_ok.simps)

lemma block_mode_eqs:
  "block_mode ob = ''explicit'' \<longleftrightarrow> is_explicit ob"
  "block_mode ob = ''none'' \<longleftrightarrow> ob = ONone"
  "block_mode ob \<in> set FORMULA_MODES \<longleftrightarrow> \<not> is_explicit ob"
  by (cases ob; simp add: FORMULA_MODES_def)+

lemma explicit_ops_block:
  assumes "block_ok ob" and "\<forall>g \<in> set gs. group_id_ok g"
  shows "explicit_ops (block_mode ob) (offset_dict ob) gs =
     Inr (map (\<lambda>g. explicit_op g (host_value ob g)) gs)"
proof (cases "is_explicit ob")
  case True
  then obtain vs where ob: "ob = OExplicit vs" by (cases ob) auto
  have "rmap (\<lambda>gid. make_offset_op gid ''explicit'' (ms_params (value_for vs gid))) gs =
      Inr (map (\<lambda>g. explicit_op g (value_for vs g)) gs)"
    by (rule rmap_all_Inr) (rule make_explicit_op)
  then show ?thesis
    using explicit_values_block [of vs]
    by (simp only: explicit_ops_def ob block_mode.simps host_value.simps rbind_Inr if_True simp_thms)
next
  case False
  then have v: "host_value ob g = block_value ob g" for g by (cases ob) auto
  have ev: "evaluate_offset_ms (offset_dict ob) g = Inr (block_value ob g)" if "g \<in> set gs" for g
    by (rule evaluate_block [OF assms(1)]) (use assms(2) that in force)+
  have "rmap (\<lambda>gid. rbind (evaluate_offset_ms (offset_dict ob) gid) (\<lambda>ms.
          make_offset_op gid ''explicit'' (ms_params ms))) gs =
      Inr (map (\<lambda>g. explicit_op g (block_value ob g)) gs)"
    by (rule rmap_all_Inr) (simp add: ev make_explicit_op)
  with False show ?thesis by (simp only: explicit_ops_def block_mode_eqs if_False v)
qed

lemma none_ops: "rmap (\<lambda>gid. make_offset_op gid ''none'' []) gs = Inr (map none_op gs)"
  by (rule rmap_all_Inr) (rule make_none_op)

lemma plan_broadcast:
  assumes "block_ok ob" "\<not> is_explicit ob" "\<forall>g \<in> set known. group_id_ok g"
  shows "plan_offset_setup Broadcast (offset_dict ob) known =
     Inr (best_plan (strat_A ob) (if known = [] then [] else [strat_B ob known]))"
proof -
  note eqs = make_formula_op [OF assms(2)] explicit_ops_block [OF assms(1,3)]
  show ?thesis
    using assms(2)
    by (cases "known = []")
      (simp_all add: plan_offset_setup_def Let_def block_mode_eqs eqs strat_A_def strat_B_def)
qed

lemma plan_groups:
  assumes "block_ok ob" "gs \<noteq> []" "\<forall>g \<in> set gs. group_id_ok g"
  shows "plan_offset_setup (Groups gs) (offset_dict ob) known =
     Inr (if ob = ONone then strat_B_none gs
          else best_plan (strat_B ob gs)
                 (if is_explicit ob \<or> known = [] then [] else [strat_C ob gs known]))"
proof (cases "ob = ONone")
  case True
  have mode: "spec_mode (offset_dict ob) = Inr ''none''"
    and eo: "explicit_ops ''none'' (offset_dict ob) gs = Inr (map (\<lambda>g. explicit_op g (host_value ob g)) gs)"
    using explicit_ops_block [OF assms(1,3)] spec_mode_block [of ob] block_mode_eqs(2) [of ob] True
    by (simp_all only: simp_thms)
  have "plan_offset_setup (Groups gs) (offset_dict ob) known = Inr (strat_B_none gs)"
    using assms(2) by (simp add: plan_offset_setup_def Let_def mode eo none_ops strat_B_none_def del: spec_mode_block)
  then show ?thesis by (simp only: if_P [OF True])
next
  case False
  note eqs = explicit_ops_block [OF assms(1,3)] none_ops
  show ?thesis
  proof (cases "is_explicit ob")
    case True
    with False assms(2) show ?thesis
      by (simp add: plan_offset_setup_def Let_def block_mode_eqs eqs strat_B_def)
  next
    case fm: False
    with False assms(2) make_formula_op [OF fm] show ?thesis
      by (simp add: plan_offset_setup_def Let_def block_mode_eqs eqs strat_B_def strat_C_def)
  qed
qed

lemma deliver_strat_A:
  "block_ok ob \<Longrightarrow> \<not> is_explicit ob \<Longrightarrow> deliver_all (op_ops (strat_A ob)) st = (\<lambda>g. intended ob g)"
  by (simp add: strat_A_def deliver_all_Cons deliver_formula_broadcast deliver_all_def)

lemma deliver_strat_B:
  assumes "block_ok ob" "\<forall>g \<in> set gs. group_id_ok g"
  shows "deliver_all (op_ops (strat_B ob gs)) st h = (if h \<in> set gs then Offset (host_value ob h) else st h)"
  using assms host_value_range [OF assms(1)] by (simp add: strat_B_def deliver_all_explicit)

lemma deliver_strat_B_none:
  assumes "\<forall>g \<in> set gs. group_id_ok g"
  shows "deliver_all (op_ops (strat_B_none gs)) st h = (if h \<in> set gs then NormalAcceptance else st h)"
  using assms by (simp add: strat_B_none_def deliver_all_none)

lemma deliver_strat_C:
  assumes "block_ok ob" "\<not> is_explicit ob" "\<forall>g \<in> set known. group_id_ok g"
  shows "deliver_all (op_ops (strat_C ob gs known)) st h =
     (if h \<in> set known \<and> h \<notin> set gs then NormalAcceptance else intended ob h)"
proof -
  have "\<forall>g \<in> set (filter (\<lambda>g. g \<notin> set gs) known). group_id_ok g" using assms(3) by auto
  then show ?thesis using assms(1,2)
    by (simp add: strat_C_def deliver_all_Cons deliver_formula_broadcast deliver_all_none)
qed

lemma host_value_intended: "ob \<noteq> ONone \<Longrightarrow> Offset (host_value ob g) = intended ob g"
  by (cases ob) auto

definition participants :: "target \<Rightarrow> int list \<Rightarrow> int set" where
  "participants t known = (case t of Broadcast \<Rightarrow> set known | Groups gs \<Rightarrow> set gs | Device _ \<Rightarrow> {})"

definition container_ok :: "target \<Rightarrow> offset_block \<Rightarrow> bool" where
  "container_ok t ob = (block_ok ob \<and> (case t of
      Broadcast \<Rightarrow> \<not> is_explicit ob
    | Groups gs \<Rightarrow> gs \<noteq> [] \<and> (\<forall>g \<in> set gs. group_id_ok g)
    | Device _ \<Rightarrow> False))"

text \<open>The chosen plan is one of the strategies.\<close>

lemma plan_cases:
  assumes "container_ok t ob" "\<forall>g \<in> set known. group_id_ok g"
  obtains plan where "plan_offset_setup t (offset_dict ob) known = Inr plan"
    and "case t of
       Broadcast \<Rightarrow> plan = strat_A ob \<or> ob \<noteq> ONone \<and> known \<noteq> [] \<and> plan = strat_B ob known
     | Groups gs \<Rightarrow> ob = ONone \<and> plan = strat_B_none gs \<or> ob \<noteq> ONone \<and> plan = strat_B ob gs
         \<or> ob \<noteq> ONone \<and> \<not> is_explicit ob \<and> plan = strat_C ob gs known
     | Device _ \<Rightarrow> False"
proof (cases t)
  case Broadcast
  with assms have ok: "block_ok ob" "\<not> is_explicit ob" by (auto simp: container_ok_def)
  have none: "ob = ONone \<Longrightarrow> known \<noteq> [] \<Longrightarrow> \<not> cheaper (strat_B ob known) (strat_A ob)"
    by (cases known) (auto simp: cheaper_def cost_key_def plan_packet_count_def plan_total_bytes_def
        strat_A_def strat_B_def formula_op_def explicit_op_def offset_op_def offset_body_len_def)
  show ?thesis
    using that [of "best_plan (strat_A ob) (if known = [] then [] else [strat_B ob known])"]
      plan_broadcast [OF ok assms(2)] none Broadcast by (auto split: if_splits)
next
  case (Groups gs)
  with assms have ok: "block_ok ob" "gs \<noteq> []" "\<forall>g \<in> set gs. group_id_ok g"
    by (auto simp: container_ok_def)
  show ?thesis
    using that [of "if ob = ONone then strat_B_none gs
          else best_plan (strat_B ob gs) (if is_explicit ob \<or> known = [] then [] else [strat_C ob gs known])"]
      plan_groups [OF ok, of known] Groups by (auto split: if_splits)
next
  case (Device a)
  with assms show ?thesis by (simp add: container_ok_def)
qed

lemma plan_nonempty:
  assumes "container_ok t ob" "\<forall>g \<in> set known. group_id_ok g"
  shows "\<exists>plan. plan_offset_setup t (offset_dict ob) known = Inr plan \<and> op_ops plan \<noteq> []"
proof -
  obtain plan where "plan_offset_setup t (offset_dict ob) known = Inr plan"
    and c: "case t of
       Broadcast \<Rightarrow> plan = strat_A ob \<or> ob \<noteq> ONone \<and> known \<noteq> [] \<and> plan = strat_B ob known
     | Groups gs \<Rightarrow> ob = ONone \<and> plan = strat_B_none gs \<or> ob \<noteq> ONone \<and> plan = strat_B ob gs
         \<or> ob \<noteq> ONone \<and> \<not> is_explicit ob \<and> plan = strat_C ob gs known
     | Device _ \<Rightarrow> False"
    using plan_cases [OF assms] .
  moreover have "op_ops plan \<noteq> []"
    using c assms(1) by (cases t) (auto simp: container_ok_def strat_A_def strat_B_def strat_B_none_def strat_C_def)
  ultimately show ?thesis by blast
qed

text \<open>
  C2.  For every canonical container (a broadcast target with a formula block, or a non-empty group list
  with any block) the optimizer returns a plan, and delivering the plan's packets in order leaves
  every participating group in exactly the state the formula denotes on the host, whichever strategy
  won.
\<close>

theorem plan_offset_setup_delivers:
  assumes "container_ok t ob" and "\<forall>g \<in> set known. group_id_ok g"
  shows "\<exists>plan. plan_offset_setup t (offset_dict ob) known = Inr plan \<and>
     (\<forall>g \<in> participants t known. deliver_all (op_ops plan) st g = intended ob g)"
proof -
  obtain plan where p: "plan_offset_setup t (offset_dict ob) known = Inr plan"
    and c: "case t of
       Broadcast \<Rightarrow> plan = strat_A ob \<or> ob \<noteq> ONone \<and> known \<noteq> [] \<and> plan = strat_B ob known
     | Groups gs \<Rightarrow> ob = ONone \<and> plan = strat_B_none gs \<or> ob \<noteq> ONone \<and> plan = strat_B ob gs
         \<or> ob \<noteq> ONone \<and> \<not> is_explicit ob \<and> plan = strat_C ob gs known
     | Device _ \<Rightarrow> False"
    using plan_cases [OF assms] by blast
  have "deliver_all (op_ops plan) st g = intended ob g" if "g \<in> participants t known" for g
    using c that assms
    by (cases t) (auto simp: participants_def container_ok_def deliver_strat_A deliver_strat_B
        deliver_strat_B_none deliver_strat_C host_value_intended)
  with p show ?thesis by blast
qed

theorem plan_offset_setup_delivers_witness:
  "\<exists>plan. plan_offset_setup (Groups [3, 5]) (offset_dict (OLinear 100 (- 10))) [3, 5, 7] = Inr plan \<and>
     (\<forall>g \<in> {3, 5}. deliver_all (op_ops plan) (\<lambda>_. NormalAcceptance) g = Offset (100 - 10 * g))"
  using plan_offset_setup_delivers [of "Groups [3, 5]" "OLinear 100 (- 10)" "[3, 5, 7]" "\<lambda>_. NormalAcceptance"]
  by (auto simp: container_ok_def participants_def offset_clamp_def)

text \<open>
  A known group outside the container's group list is never put in offset mode by the plan: it keeps
  its state, or (under the override strategy) is returned to normal acceptance.
\<close>

theorem plan_offset_setup_spares_others:
  assumes "container_ok (Groups gs) ob" and "\<forall>g \<in> set known. group_id_ok g"
    and "plan_offset_setup (Groups gs) (offset_dict ob) known = Inr plan"
    and "g \<in> set known" and "g \<notin> set gs"
  shows "deliver_all (op_ops plan) st g \<in> {st g, NormalAcceptance}"
proof -
  have "ob = ONone \<and> plan = strat_B_none gs \<or> ob \<noteq> ONone \<and> plan = strat_B ob gs
      \<or> ob \<noteq> ONone \<and> \<not> is_explicit ob \<and> plan = strat_C ob gs known"
    by (rule plan_cases [OF assms(1,2)]) (simp add: assms(3))
  then show ?thesis
    using assms by (auto simp: container_ok_def deliver_strat_B deliver_strat_B_none deliver_strat_C)
qed

theorem plan_offset_setup_spares_others_witness:
  "\<exists>plan. plan_offset_setup (Groups [3]) (offset_dict (OLinear 100 10)) [3, 7] = Inr plan \<and>
     deliver_all (op_ops plan) (\<lambda>_. Offset 9) 7 \<in> {Offset 9, NormalAcceptance}"
proof -
  have ok: "container_ok (Groups [3]) (OLinear 100 10)" "\<forall>g \<in> set [3, 7]. group_id_ok g"
    by (simp_all add: container_ok_def)
  obtain plan where "plan_offset_setup (Groups [3]) (offset_dict (OLinear 100 10)) [3, 7] = Inr plan"
    using plan_cases [OF ok] by blast
  moreover from plan_offset_setup_spares_others [OF ok this, of 7 "\<lambda>_. Offset 9"]
  have "deliver_all (op_ops plan) (\<lambda>_. Offset 9) 7 \<in> {Offset 9, NormalAcceptance}" by simp
  ultimately show ?thesis by blast
qed

text \<open>
  The plan for a group list is cost-minimal among the strategies: at most one packet per group,
  and, for a formula with a known fleet, at most one plus the number of non-participants.
\<close>

theorem plan_offset_setup_minimal:
  assumes "container_ok (Groups gs) ob"
    and "plan_offset_setup (Groups gs) (offset_dict ob) known = Inr plan"
  shows "plan_packet_count plan \<le> length gs \<and>
     (ob \<noteq> ONone \<and> \<not> is_explicit ob \<and> known \<noteq> [] \<longrightarrow>
        plan_packet_count plan \<le> 1 + length (filter (\<lambda>g. g \<notin> set gs) known))"
proof -
  have ok: "block_ok ob" "gs \<noteq> []" "\<forall>g \<in> set gs. group_id_ok g"
    using assms(1) by (auto simp: container_ok_def)
  have plan: "plan = (if ob = ONone then strat_B_none gs
      else best_plan (strat_B ob gs) (if is_explicit ob \<or> known = [] then [] else [strat_C ob gs known]))"
    using plan_groups [OF ok, of known] assms(2) by simp
  have B: "plan_packet_count (strat_B ob gs) = length gs" "plan_packet_count (strat_B_none gs) = length gs"
    and C: "plan_packet_count (strat_C ob gs known) = 1 + length (filter (\<lambda>g. g \<notin> set gs) known)"
    by (simp_all add: plan_packet_count_def strat_B_def strat_B_none_def strat_C_def)
  show ?thesis unfolding plan by (auto simp: B C cheaper_def cost_key_def)
qed

theorem plan_offset_setup_minimal_witness:
  "\<exists>plan. plan_offset_setup (Groups [1, 2, 3]) (offset_dict (OLinear 0 5)) [1, 2, 3] = Inr plan \<and>
     plan_packet_count plan \<le> 1"
proof -
  have ok: "container_ok (Groups [1, 2, 3]) (OLinear 0 5)" "\<forall>g \<in> set [1, 2, 3]. group_id_ok g"
    by (simp_all add: container_ok_def)
  obtain plan where p: "plan_offset_setup (Groups [1, 2, 3]) (offset_dict (OLinear 0 5)) [1, 2, 3] = Inr plan"
    using plan_cases [OF ok] by blast
  from plan_offset_setup_minimal [OF ok(1) p] have "plan_packet_count plan \<le> 1" by simp
  with p show ?thesis by blast
qed

end
