(* ===== verification/Planner.thy ===== *)
theory Planner
  imports Optimizer
begin

text \<open>
  \<^verbatim>\<open>racelink/services/dispatch_planner.py\<close>: the wire operations one scene
  action leads to.  Actions are the canonical actions of \<^verbatim>\<open>scenes_service.py\<close>; the
  two lookups the planner receives are arguments, as in the code.  A device is named by its position in
  the repository.  Messages that embed a \<open>repr\<close> keep their tag only.
\<close>

section \<open>Actions and plans\<close>

datatype effect_kind = RlPreset | WledPreset | WledControl | Startblock

datatype action =
    Effect effect_kind target pydict "pydict option"
  | Sync
  | Delay int
  | OffsetGroup target pydict "action list"

fun kind_name :: "effect_kind \<Rightarrow> string" where
  "kind_name RlPreset = ''rl_preset''"
| "kind_name WledPreset = ''wled_preset''"
| "kind_name WledControl = ''wled_control''"
| "kind_name Startblock = ''startblock''"

fun action_kind :: "action \<Rightarrow> string" where
  "action_kind (Effect k _ _ _) = kind_name k"
| "action_kind Sync = ''sync''"
| "action_kind (Delay _) = ''delay''"
| "action_kind (OffsetGroup _ _ _) = ''offset_group''"

fun target_dict :: "target \<Rightarrow> pydict" where
  "target_dict Broadcast = [(''kind'', PStr ''broadcast'')]"
| "target_dict (Groups gs) = [(''kind'', PStr ''groups''), (''value'', PList (map PInt gs))]"
| "target_dict (Device a) = [(''kind'', PStr ''device''), (''value'', PStr a)]"

datatype action_plan = Plan (ap_kind: string) (ap_ops: "wire_op list") (ap_degraded: bool)
  (ap_error: "string option") (ap_detail: pydict) (ap_children: "action_plan list")

definition ap_total_bytes :: "action_plan \<Rightarrow> nat" where
  "ap_total_bytes p = sum_list (map w_body_bytes (ap_ops p))"

text \<open>A stored preset as the lookup returns it.\<close>

record preset =
  rp_id :: int
  rp_key :: string
  rp_label :: string
  rp_created :: pyval
  rp_updated :: pyval
  rp_params :: pydict
  rp_flags :: pydict

type_synonym preset_lookup = "pyval \<Rightarrow> preset option"
type_synonym device_lookup = "string \<Rightarrow> (nat \<times> rl_device) option"

section \<open>Targets, flags, presets and body sizes\<close>

definition resolve_target :: "target \<Rightarrow> device_lookup option \<Rightarrow> (send_target \<times> rl_device option) list option" where
  "resolve_target target lookup =
     (case target of
        Broadcast \<Rightarrow> Some [(ToGroup 255, None)]
      | Groups value \<Rightarrow> if value = [] then None else Some (map (\<lambda>g. (ToGroup g, None)) value)
      | Device addr \<Rightarrow>
          (case lookup of None \<Rightarrow> None
           | Some look \<Rightarrow>
               (case look addr of None \<Rightarrow> None | Some (i, dev) \<Rightarrow> Some [(ToDevice i, Some dev)])))"

definition target_group_for_op :: "send_target \<times> rl_device option \<Rightarrow> int" where
  "target_group_for_op kwargs =
     (case kwargs of
        (ToGroup g, _) \<Rightarrow> g
      | (ToDevice _, Some dev) \<Rightarrow> if 0 \<le> d_groupId dev \<and> d_groupId dev \<le> 254 then d_groupId dev else 255
      | (ToDevice _, None) \<Rightarrow> 255)"

definition merge_flag :: "pydict \<Rightarrow> pydict \<Rightarrow> string \<Rightarrow> pydict \<Rightarrow> pydict" where
  "merge_flag persisted override key merged =
     (let value = (case map_of override key of
                     Some v \<Rightarrow> py_truth v
                   | None \<Rightarrow> py_truth (dget_or persisted key (PBool False)))
      in if value then assoc_set key (PBool True) merged else assoc_del key merged)"

definition merge_flags :: "pydict \<Rightarrow> pydict \<Rightarrow> pydict \<Rightarrow> pydict" where
  "merge_flags base_params persisted override =
     fold (merge_flag persisted override) USER_FLAG_KEYS base_params"

definition materialize_rl_preset ::
  "pydict \<Rightarrow> preset_lookup option \<Rightarrow> (pydict \<times> pydict \<times> pydict) option res" where
  "materialize_rl_preset params lookup =
     (let preset_ref = dget params ''presetId'';
          base_params = assoc_del ''presetId'' params
      in if preset_ref = PNone then Inr None
         else case lookup of
           None \<Rightarrow> Inr (Some (base_params, [], [(''preset_ref'', preset_ref)]))
         | Some look \<Rightarrow>
             (case look preset_ref of
                None \<Rightarrow> Inr None
              | Some preset \<Rightarrow>
                  rbind (if dget base_params ''brightness'' \<noteq> PNone
                         then rbind (py_int (dget base_params ''brightness'')) (\<lambda>b.
                                Inr (assoc_set ''brightness'' (PInt b) (rp_params preset)))
                         else Inr (rp_params preset)) (\<lambda>merged_params.
                    Inr (Some (merged_params, rp_flags preset,
                               [(''preset_key'', PStr (rp_key preset)), (''preset_id'', PInt (rp_id preset))])))))"

text \<open>The keyword arguments both the planner and the control service collect from the parameters.\<close>

definition byte_param :: "pydict \<Rightarrow> string \<Rightarrow> int option res" where
  "byte_param params key =
     (if dget params key = PNone then Inr None
      else rbind (py_int (dget params key)) (\<lambda>i. Inr (Some (i AND 255))))"

definition bool_param :: "pydict \<Rightarrow> string \<Rightarrow> bool option" where
  "bool_param params key =
     (if dget params key = PNone then None else Some (py_truth (dget params key)))"

definition color_param :: "pydict \<Rightarrow> string \<Rightarrow> int list option res" where
  "color_param params key =
     (if dget params key = PNone then Inr None
      else rbind (py_iter (dget params key)) (\<lambda>cs.
           rbind (rmap (\<lambda>c. rbind (py_int c) (\<lambda>i. Inr (i AND 255))) cs) (\<lambda>vs. Inr (Some vs))))"

text \<open>
  The collected arguments: the fields of the main block, and the three colours still as sequences,
  which the body builder unpacks into exactly three values.
\<close>

type_synonym ctrl_args = "ctrl_fields \<times> int list option \<times> int list option \<times> int list option"

fun rgb_triple :: "int list option \<Rightarrow> (int \<times> int \<times> int) option res" where
  "rgb_triple None = Inr None"
| "rgb_triple (Some [r, g, b]) = Inr (Some (r, g, b))"
| "rgb_triple (Some _) = Inl ValueError"

definition ctrl_kwargs :: "pydict \<Rightarrow> ctrl_args res" where
  "ctrl_kwargs params =
     rbind (byte_param params ''brightness'') (\<lambda>bri.
     rbind (byte_param params ''mode'') (\<lambda>mode.
     rbind (byte_param params ''speed'') (\<lambda>speed.
     rbind (byte_param params ''intensity'') (\<lambda>intensity.
     rbind (byte_param params ''custom1'') (\<lambda>custom1.
     rbind (byte_param params ''custom2'') (\<lambda>custom2.
     rbind (byte_param params ''custom3'') (\<lambda>custom3.
     rbind (byte_param params ''palette'') (\<lambda>palette.
     rbind (color_param params ''color1'') (\<lambda>color1.
     rbind (color_param params ''color2'') (\<lambda>color2.
     rbind (color_param params ''color3'') (\<lambda>color3.
       Inr (\<lparr>cf_brightness = bri, cf_mode = mode, cf_speed = speed, cf_intensity = intensity,
             cf_custom1 = custom1, cf_custom2 = custom2, cf_custom3 = custom3,
             cf_check1 = bool_param params ''check1'', cf_check2 = bool_param params ''check2'',
             cf_check3 = bool_param params ''check3'', cf_palette = palette,
             cf_color1 = None, cf_color2 = None, cf_color3 = None\<rparr>, color1, color2, color3))))))))))))"

definition control_body_of :: "int \<Rightarrow> int \<Rightarrow> ctrl_args \<Rightarrow> byte list res" where
  "control_body_of group_id flags args =
     (case args of (f, color1, color2, color3) \<Rightarrow>
        rbind (rgb_triple color1) (\<lambda>c1.
        rbind (rgb_triple color2) (\<lambda>c2.
        rbind (rgb_triple color3) (\<lambda>c3.
          build_control_body group_id flags (f\<lparr>cf_color1 := c1, cf_color2 := c2, cf_color3 := c3\<rparr>)))))"

definition control_body_len :: "pydict \<Rightarrow> nat res" where
  "control_body_len params =
     rbind (ctrl_kwargs params) (\<lambda>args.
     rbind (control_body_of 0 0 args) (\<lambda>body. Inr (length body)))"

section \<open>The planner\<close>

definition build_effect_op ::
  "effect_kind \<Rightarrow> pydict \<Rightarrow> pydict \<Rightarrow> send_target \<times> rl_device option \<Rightarrow> wire_op res" where
  "build_effect_op kind merged_params preset_detail target_kwargs =
     (if kind = WledPreset then
        Inr \<lparr>w_opcode = ''OPC_PRESET'', w_target_group = target_group_for_op target_kwargs,
             w_payload = PEffect merged_params (fst target_kwargs),
             w_body_bytes = length (build_preset_body 0 0 0 0), w_sender = Some ''send_wled_preset'',
             w_detail = preset_detail\<rparr>
      else
        rbind (control_body_len merged_params) (\<lambda>n.
          Inr \<lparr>w_opcode = ''OPC_CONTROL'', w_target_group = target_group_for_op target_kwargs,
               w_payload = PEffect merged_params (fst target_kwargs), w_body_bytes = n,
               w_sender = Some (if kind = Startblock then ''send_startblock'' else ''send_wled_control''),
               w_detail = (if kind = Startblock then assoc_set ''approximate'' (PBool True) preset_detail
                           else preset_detail)\<rparr>))"

definition effect_override :: "pydict option \<Rightarrow> bool option \<Rightarrow> pydict" where
  "effect_override flags_override force_offset_flag =
     (let override = (case flags_override of None \<Rightarrow> [] | Some d \<Rightarrow> d)
      in case force_offset_flag of None \<Rightarrow> override
         | Some b \<Rightarrow> assoc_set ''offset_mode'' (PBool b) override)"

definition plan_effect ::
  "effect_kind \<Rightarrow> target \<Rightarrow> pydict \<Rightarrow> pydict option \<Rightarrow> preset_lookup option \<Rightarrow> device_lookup option \<Rightarrow>
   bool option \<Rightarrow> action_plan res" where
  "plan_effect kind target params flags_override rl_preset_lookup device_lookup force_offset_flag =
     (case resolve_target target device_lookup of
        None \<Rightarrow> Inr (Plan (kind_name kind) [] True (Some ''target_not_found'')
                       [(''target'', PDict (target_dict target))] [])
      | Some target_kwargs_list \<Rightarrow>
          rbind (if kind = RlPreset then materialize_rl_preset params rl_preset_lookup
                 else Inr (Some (params, [], []))) (\<lambda>materialised.
          case materialised of
            None \<Rightarrow> Inr (Plan (kind_name kind) [] True
                      (Some (if dget params ''presetId'' = PNone then ''missing_preset_id''
                             else ''preset_not_found'')) [] [])
          | Some (base_params, persisted_flags, preset_detail) \<Rightarrow>
              let override = effect_override flags_override force_offset_flag;
                  merged_params = merge_flags base_params persisted_flags override
              in rbind (rmap (build_effect_op kind merged_params preset_detail) target_kwargs_list) (\<lambda>ops.
                   Inr (Plan (kind_name kind) ops False None preset_detail []))))"

definition plan_sync :: action_plan where
  "plan_sync = Plan ''sync''
     [\<lparr>w_opcode = ''OPC_SYNC'', w_target_group = 255, w_payload = PSync 0 True,
       w_body_bytes = length (build_sync_body 0 0 SYNC_FLAG_TRIGGER_ARMED),
       w_sender = Some ''send_sync'', w_detail = []\<rparr>] False None [] []"

definition tag_offset_op :: "wire_op \<Rightarrow> wire_op" where
  "tag_offset_op op =
     op\<lparr>w_sender := (case w_sender op of None \<Rightarrow> Some ''send_offset'' | s \<Rightarrow> s),
        w_detail := [(''phase'', PStr ''offset''),
                     (''mode'', (case w_payload op of POffset mode _ \<Rightarrow> PStr mode | _ \<Rightarrow> PNone))]\<rparr>"

definition tag_child_op :: "nat \<Rightarrow> string \<Rightarrow> wire_op \<Rightarrow> wire_op" where
  "tag_child_op idx kind op =
     op\<lparr>w_detail := assoc_set ''child_kind'' (PStr kind) (assoc_set ''child_index'' (PInt (int idx))
          (assoc_set ''phase'' (PStr ''child'') (w_detail op)))\<rparr>"

definition tag_children :: "action_plan list \<Rightarrow> wire_op list" where
  "tag_children plans =
     concat (map (\<lambda>(i, p). map (tag_child_op i (ap_kind p)) (ap_ops p)) (enumerate 0 plans))"

fun plan_action_dispatch ::
  "int list \<Rightarrow> preset_lookup option \<Rightarrow> device_lookup option \<Rightarrow> bool option \<Rightarrow> action \<Rightarrow> action_plan res" where
  "plan_action_dispatch known rl dev force (Delay ms) =
     Inr (Plan ''delay'' [] False None [(''duration_ms'', PFloat (Fin (of_int ms)))] [])"
| "plan_action_dispatch known rl dev force Sync = Inr plan_sync"
| "plan_action_dispatch known rl dev force (Effect kind target params flags_override) =
     plan_effect kind target params flags_override rl dev force"
| "plan_action_dispatch known rl dev force (OffsetGroup container_target offset children) =
     (let offset_spec = (if offset = [] then [(''mode'', PStr ''none'')] else offset) in
      rbind (spec_mode offset_spec) (\<lambda>offset_mode.
      rbind (plan_offset_setup container_target offset_spec known) (\<lambda>opt_plan.
      rbind (rmap (plan_action_dispatch known rl dev (Some (offset_mode \<noteq> ''none''))) children) (\<lambda>child_plans.
        Inr (Plan ''offset_group'' (map tag_offset_op (op_ops opt_plan) @ tag_children child_plans)
               (\<exists>p \<in> set child_plans. ap_degraded p) None
               [(''wire_path'', PStr (op_strategy opt_plan)), (''offset_mode'', PStr offset_mode),
                (''offset_packets'', PInt (int (plan_packet_count opt_plan))),
                (''offset_total_bytes'', PInt (int (plan_total_bytes opt_plan))),
                (''child_count'', PInt (int (length children)))]
               child_plans)))))"

section \<open>Flags of a planned effect\<close>

definition flag_value :: "pydict \<Rightarrow> pydict \<Rightarrow> string \<Rightarrow> bool" where
  "flag_value persisted override key =
     (case map_of override key of Some v \<Rightarrow> py_truth v | None \<Rightarrow> py_truth (dget_or persisted key (PBool False)))"

lemma map_of_merge_flag:
  "map_of (merge_flag persisted override key merged) k =
     (if k = key then (if flag_value persisted override key then Some (PBool True) else None)
      else map_of merged k)"
  by (simp add: merge_flag_def flag_value_def Let_def)

lemma map_of_fold_merge_flag:
  "map_of (fold (merge_flag persisted override) keys merged) k =
     (if k \<in> set keys then (if flag_value persisted override k then Some (PBool True) else None)
      else map_of merged k)"
  by (induction keys arbitrary: merged) (auto simp: map_of_merge_flag)

text \<open>
  The parameters a planned effect carries: each of the four user flags is present and true exactly
  when the override (if it names the flag) or else the preset says so, whatever the base parameters
  held, and every other parameter is untouched.
\<close>

theorem merge_flags_correct:
  "map_of (merge_flags base persisted override) k =
     (if k \<in> set USER_FLAG_KEYS
      then (if flag_value persisted override k then Some (PBool True) else None)
      else map_of base k)"
  unfolding merge_flags_def by (rule map_of_fold_merge_flag)

section \<open>The operations of a plan\<close>

text \<open>What every planned operation satisfies: its sender, opcode and predicted size fit its payload.\<close>

definition op_sized :: "wire_op \<Rightarrow> bool" where
  "op_sized op =
     (case w_payload op of
        POffset mode kw \<Rightarrow> w_sender op = Some ''send_offset'' \<and> w_opcode op = ''OPC_OFFSET'' \<and>
          (\<exists>m. coerce_mode (PStr mode) = Inr m \<and> w_body_bytes op = offset_body_len m)
      | PEffect params tgt \<Rightarrow>
          w_sender op = Some ''send_wled_preset'' \<and> w_opcode op = ''OPC_PRESET'' \<and> w_body_bytes op = 4 \<or>
          (w_sender op = Some ''send_wled_control'' \<or> w_sender op = Some ''send_startblock'') \<and>
            w_opcode op = ''OPC_CONTROL'' \<and> control_body_len params = Inr (w_body_bytes op)
      | PSync brightness armed \<Rightarrow> w_sender op = Some ''send_sync'' \<and> w_opcode op = ''OPC_SYNC'' \<and>
          armed \<and> w_body_bytes op = 5)"

definition off_sized :: "wire_op \<Rightarrow> bool" where
  "off_sized op \<longleftrightarrow> op_sized op \<and> w_sender op = Some ''send_offset''"

lemma make_offset_op_sized: "make_offset_op g mode params = Inr op \<Longrightarrow> off_sized op"
proof -
  assume "make_offset_op g mode params = Inr op"
  then obtain kw body where b: "build_offset_body g (PStr mode) kw = Inr body"
    and op: "op = \<lparr>w_opcode = ''OPC_OFFSET'', w_target_group = g, w_payload = POffset mode kw,
            w_body_bytes = length body, w_sender = Some ''send_offset'', w_detail = []\<rparr>"
    by (auto simp: make_offset_op_def rbind_eq_Inr)
  obtain m where m: "coerce_mode (PStr mode) = Inr m"
    using b by (cases "coerce_mode (PStr mode)") (auto simp: build_offset_body_def Let_def)
  then have "length body = offset_body_len m"
    using build_offset_body_cases [OF m, of g kw] b by auto
  with m show ?thesis by (simp add: op off_sized_def op_sized_def)
qed

lemma rmap_make_offset_sized:
  "rmap (\<lambda>x. make_offset_op (f x) (mode x) (params x)) xs = Inr ops \<Longrightarrow> op \<in> set ops \<Longrightarrow> off_sized op"
  using make_offset_op_sized by (fastforce dest: rmap_InrD)

lemma explicit_ops_sized: "explicit_ops mode offset gs = Inr ops \<Longrightarrow> op \<in> set ops \<Longrightarrow> off_sized op"
  using make_offset_op_sized
  by (auto simp: explicit_ops_def rbind_eq_Inr split: if_splits dest!: rmap_InrD)

lemma chosen_plan: "\<forall>q \<in> set ps. P q \<Longrightarrow> P e \<Longrightarrow> P (case ps of [] \<Rightarrow> e | p # qs \<Rightarrow> best_plan p qs)"
  using best_plan_in by (auto split: list.split)

lemma plan_offset_setup_sized:
  assumes "plan_offset_setup t offset known = Inr plan" and "op \<in> set (op_ops plan)"
  shows "off_sized op"
proof -
  have "ok_res (\<lambda>plan. \<forall>op \<in> set (op_ops plan). off_sized op) (plan_offset_setup t offset known)"
    unfolding plan_offset_setup_def Let_def
  proof (intro ok_res_bind_any)
    fix gs mode
    let ?ok = "\<lambda>ps. \<forall>p \<in> set ps. \<forall>op \<in> set (op_ops p). off_sized op"
    fix a b c b'
    assume "(if t = Broadcast \<and> mode \<in> set FORMULA_MODES
        then rbind (make_offset_op 255 mode offset)
               (\<lambda>op. Inr [\<lparr>op_strategy = ''A_broadcast_formula'', op_ops = [op]\<rparr>])
        else Inr []) = Inr a"
    then have a: "?ok a" using make_offset_op_sized by (auto simp: rbind_eq_Inr split: if_splits)
    assume "(if (if t = Broadcast then known else gs) \<noteq> []
        then rbind (explicit_ops mode offset (if t = Broadcast then known else gs))
               (\<lambda>ops. Inr [\<lparr>op_strategy = ''B_per_group_explicit'', op_ops = ops\<rparr>])
        else Inr []) = Inr b"
    then have b: "?ok b" using explicit_ops_sized by (fastforce simp: rbind_eq_Inr split: if_split_asm)
    assume "(if t \<noteq> Broadcast \<and> mode \<in> set FORMULA_MODES \<and> mode \<noteq> ''none'' \<and> known \<noteq> []
        then rbind (make_offset_op 255 mode offset)
               (\<lambda>op. rbind (rmap (\<lambda>gid. make_offset_op gid ''none'' []) (filter (\<lambda>gid. gid \<notin> set gs) known))
                        (\<lambda>overrides. Inr [\<lparr>op_strategy = ''C_formula_plus_overrides'', op_ops = op # overrides\<rparr>]))
        else Inr []) = Inr c"
    then have c: "?ok c"
      using make_offset_op_sized rmap_make_offset_sized
      by (fastforce simp: rbind_eq_Inr split: if_split_asm)
    assume "(if mode = ''none'' \<and> t \<noteq> Broadcast
        then rbind (rmap (\<lambda>gid. make_offset_op gid ''none'' []) (if t = Broadcast then known else gs))
               (\<lambda>ops. Inr [\<lparr>op_strategy = ''B_per_group_explicit'', op_ops = ops\<rparr>])
        else Inr b) = Inr b'"
    then have b': "?ok b'"
      using b rmap_make_offset_sized by (fastforce simp: rbind_eq_Inr split: if_split_asm)
    have "?ok (a @ b' @ c)" using a b' c by auto
    then have "\<forall>op \<in> set (op_ops (case a @ b' @ c of
        [] \<Rightarrow> \<lparr>op_strategy = ''A_broadcast_formula'', op_ops = []\<rparr> | p # ps \<Rightarrow> best_plan p ps)). off_sized op"
      by (rule chosen_plan) simp
    then show "ok_res (\<lambda>plan. \<forall>op \<in> set (op_ops plan). off_sized op)
        (Inr (case a @ b' @ c of [] \<Rightarrow> \<lparr>op_strategy = ''A_broadcast_formula'', op_ops = []\<rparr>
              | p # ps \<Rightarrow> best_plan p ps))" ..
  qed
  with assms show ?thesis by (auto dest: ok_resD)
qed

lemma plan_offset_setup_all_offset:
  assumes "plan_offset_setup t offset known = Inr plan" and "op \<in> set (op_ops plan)"
  shows "w_sender op = Some ''send_offset''"
  using plan_offset_setup_sized [OF assms] by (simp add: off_sized_def)

lemma tag_sized [simp]:
  "op_sized op \<Longrightarrow> op_sized (tag_offset_op op)" "op_sized (tag_child_op i k op) = op_sized op"
  by (auto simp: op_sized_def tag_offset_op_def tag_child_op_def split: payload.splits)

lemma build_effect_op_sized: "build_effect_op kind params detail tgt = Inr op \<Longrightarrow> op_sized op"
  by (auto simp: build_effect_op_def op_sized_def rbind_eq_Inr build_preset_body_def split: if_splits)

lemma plan_effect_sized:
  assumes "plan_effect kind t params fo rl dev force = Inr p" and "op \<in> set (ap_ops p)"
  shows "op_sized op"
  using assms build_effect_op_sized
  by (auto simp: plan_effect_def rbind_eq_Inr Let_def split: option.splits prod.splits dest!: rmap_InrD)

lemma tag_children_in:
  "op \<in> set (tag_children plans) \<Longrightarrow> \<exists>i < length plans. \<exists>op' \<in> set (ap_ops (plans ! i)).
     op = tag_child_op i (ap_kind (plans ! i)) op'"
  by (auto simp: tag_children_def in_set_enumerate_eq) blast

text \<open>What holds of every effect, sync and tagged offset operation holds of every planned operation.\<close>

lemma plan_action_dispatch_all:
  assumes eff: "\<And>kind t params fo force p op. plan_effect kind t params fo rl dev force = Inr p \<Longrightarrow>
        op \<in> set (ap_ops p) \<Longrightarrow> P op"
    and off: "\<And>op. off_sized op \<Longrightarrow> P (tag_offset_op op)"
    and sync: "\<And>op. op \<in> set (ap_ops plan_sync) \<Longrightarrow> P op"
    and tag: "\<And>op i k. P op \<Longrightarrow> P (tag_child_op i k op)"
  shows "plan_action_dispatch known rl dev force a = Inr p \<Longrightarrow> op \<in> set (ap_ops p) \<Longrightarrow> P op"
  using eff off sync tag
proof (induction known rl dev force a arbitrary: p op rule: plan_action_dispatch.induct)
  case (4 known rl dev force t offset children)
  let ?spec = "if offset = [] then [(''mode'', PStr ''none'')] else offset"
  obtain mode opt cps where m: "spec_mode ?spec = Inr mode"
    and o: "plan_offset_setup t ?spec known = Inr opt"
    and c: "rmap (plan_action_dispatch known rl dev (Some (mode \<noteq> ''none''))) children = Inr cps"
    and p: "ap_ops p = map tag_offset_op (op_ops opt) @ tag_children cps"
    using "4.prems"(1) by (auto simp: Let_def rbind_eq_Inr)
  from "4.prems"(2) p consider op' where "op' \<in> set (op_ops opt)" "op = tag_offset_op op'"
    | i op' where "i < length cps" "op' \<in> set (ap_ops (cps ! i))" "op = tag_child_op i (ap_kind (cps ! i)) op'"
    using tag_children_in by fastforce
  then show ?case
  proof cases
    case 1
    then show ?thesis using plan_offset_setup_sized [OF o] "4.prems"(4) by blast
  next
    case 2
    from 2(1) c obtain child where "child \<in> set children"
      "plan_action_dispatch known rl dev (Some (mode \<noteq> ''none'')) child = Inr (cps ! i)"
      using rmap_InrD [OF c nth_mem [OF 2(1)]] by blast
    from "4.IH" [OF refl m o this 2(2) "4.prems"(3-6)] show ?thesis
      unfolding 2(3) by (rule "4.prems"(6))
  qed
qed auto

lemma sync_sized: "op \<in> set (ap_ops plan_sync) \<Longrightarrow> op_sized op"
  by (simp add: plan_sync_def op_sized_def build_sync_body_length SYNC_FLAG_TRIGGER_ARMED_def)

lemma plan_action_dispatch_sized:
  "plan_action_dispatch known rl dev force a = Inr p \<Longrightarrow> op \<in> set (ap_ops p) \<Longrightarrow> op_sized op"
  by (rule plan_action_dispatch_all) (auto simp: plan_effect_sized off_sized_def sync_sized)

section \<open>Targets and forced flags\<close>

definition op_target :: "wire_op \<Rightarrow> send_target option" where
  "op_target op = (case w_payload op of PEffect params tgt \<Rightarrow> Some tgt | _ \<Rightarrow> None)"

definition effect_params :: "wire_op \<Rightarrow> pydict" where
  "effect_params op = (case w_payload op of PEffect params _ \<Rightarrow> params | _ \<Rightarrow> [])"

text \<open>
  An effect action with a resolvable target is planned as exactly one operation per target, in
  target order, all with the same parameters; an unresolvable one is planned as no operation at all
  and marked degraded.
\<close>

theorem plan_effect_fanout:
  assumes "plan_action_dispatch known rl dev force (Effect kind target params fo) = Inr p"
  shows "if ap_degraded p then ap_ops p = []
         else \<exists>targets merged. resolve_target target dev = Some targets \<and>
                map op_target (ap_ops p) = map (Some \<circ> fst) targets \<and>
                (\<forall>op \<in> set (ap_ops p). effect_params op = merged) \<and> ap_ops p \<noteq> []"
proof -
  have run: "plan_effect kind target params fo rl dev force = Inr p" using assms by simp
  show ?thesis
  proof (cases "ap_degraded p")
    case True
    with run show ?thesis
      by (auto simp: plan_effect_def rbind_eq_Inr Let_def split: option.splits prod.splits)
  next
    case False
    with run obtain targets base pers detail merged ops where t: "resolve_target target dev = Some targets"
      and ops: "rmap (build_effect_op kind merged detail) targets = Inr ops" "ap_ops p = ops"
      by (auto simp: plan_effect_def rbind_eq_Inr Let_def split: option.splits prod.splits)
    have one: "build_effect_op kind merged detail tgt = Inr op \<Longrightarrow>
        op_target op = Some (fst tgt) \<and> effect_params op = merged" for tgt op
      by (auto simp: op_target_def build_effect_op_def effect_params_def rbind_eq_Inr split: if_splits)
    have "map op_target ops = map (Some \<circ> fst) targets"
    proof -
      have "list_all2 (\<lambda>tgt op. op_target op = Some (fst tgt)) targets ops"
        using ops(1) unfolding rmap_eq_Inr by (rule list_all2_mono) (use one in blast)
      then show ?thesis by (induction rule: list_all2_induct) auto
    qed
    moreover have "\<forall>op \<in> set ops. effect_params op = merged"
      using ops(1) one by (blast dest: rmap_InrD)
    moreover have "targets \<noteq> []"
      using t by (auto simp: resolve_target_def split: target.splits option.splits if_splits)
    ultimately show ?thesis using False t ops rmap_length [OF ops(1)] by auto
  qed
qed

theorem plan_effect_fanout_witness:
  "\<exists>p. plan_action_dispatch [1, 2] None None None
         (Effect WledPreset (Groups [2, 1]) [(''presetId'', PInt 5)] None) = Inr p \<and>
     map op_target (ap_ops p) = [Some (ToGroup 2), Some (ToGroup 1)]"
proof -
  obtain p where p: "plan_action_dispatch [1, 2] None None None
      (Effect WledPreset (Groups [2, 1]) [(''presetId'', PInt 5)] None) = Inr p" and nd: "\<not> ap_degraded p"
    by (simp add: plan_effect_def resolve_target_def build_effect_op_def Let_def)
  from plan_effect_fanout [OF p] nd p show ?thesis by (simp add: resolve_target_def)
qed

lemma plan_effect_offset_flag:
  assumes "plan_effect kind t params fo rl dev (Some b) = Inr p" and "op \<in> set (ap_ops p)"
  shows "map_of (effect_params op) ''offset_mode'' = (if b then Some (PBool True) else None)"
proof -
  let ?ov = "effect_override fo (Some b)"
  obtain base pers detail targets ops where
    "rmap (build_effect_op kind (merge_flags base pers ?ov) detail) targets = Inr ops" "op \<in> set ops"
    using assms by (auto simp: plan_effect_def rbind_eq_Inr Let_def split: option.splits prod.splits)
  from rmap_InrD [OF this] obtain tgt where "build_effect_op kind (merge_flags base pers ?ov) detail tgt = Inr op"
    by (elim bexE)
  then have "effect_params op = merge_flags base pers ?ov"
    by (auto simp: build_effect_op_def effect_params_def rbind_eq_Inr split: if_splits)
  moreover have "''offset_mode'' \<in> set USER_FLAG_KEYS" by (simp add: USER_FLAG_KEYS_def)
  moreover have "flag_value pers ?ov ''offset_mode'' = b"
    by (simp add: flag_value_def effect_override_def Let_def)
  ultimately show ?thesis unfolding merge_flags_def by (simp only: map_of_fold_merge_flag if_True)
qed

fun is_effect :: "action \<Rightarrow> bool" where
  "is_effect (Effect _ _ _ _) = True"
| "is_effect _ = False"

text \<open>
  The packets of an offset group go out in two phases: first the offset packets of the optimizer,
  then the children's, in child order.  Every packet of an effect child carries the offset flag
  exactly when the container's formula is not \<open>none\<close>, whatever the child, its preset or its own
  override asked for.
\<close>

theorem offset_group_phases_and_flag:
  assumes "plan_action_dispatch known rl dev force (OffsetGroup t offset children) = Inr p"
    and "offset \<noteq> []" and "spec_mode offset = Inr mode" and "list_all is_effect children"
  shows "\<exists>n. (\<forall>op \<in> set (take n (ap_ops p)). w_sender op = Some ''send_offset'') \<and>
     (\<forall>op \<in> set (drop n (ap_ops p)).
        map_of (effect_params op) ''offset_mode'' = (if mode = ''none'' then None else Some (PBool True)))"
proof -
  obtain opt cps where opt: "plan_offset_setup t offset known = Inr opt"
    and cps: "rmap (plan_action_dispatch known rl dev (Some (mode \<noteq> ''none''))) children = Inr cps"
    and ops: "ap_ops p = map tag_offset_op (op_ops opt) @ tag_children cps"
    using assms(1-3) by (auto simp: rbind_eq_Inr)
  have "w_sender (tag_offset_op op) = Some ''send_offset''" if "op \<in> set (op_ops opt)" for op
    using plan_offset_setup_all_offset [OF opt that] by (simp add: tag_offset_op_def)
  moreover have "map_of (effect_params op) ''offset_mode'' = (if mode = ''none'' then None else Some (PBool True))"
    if child_op: "op \<in> set (tag_children cps)" for op
  proof -
    obtain i op' where i: "i < length cps" "op' \<in> set (ap_ops (cps ! i))"
      "op = tag_child_op i (ap_kind (cps ! i)) op'"
      using tag_children_in [OF child_op] by blast
    obtain child where child: "child \<in> set children"
      and run: "plan_action_dispatch known rl dev (Some (mode \<noteq> ''none'')) child = Inr (cps ! i)"
      using rmap_InrD [OF cps nth_mem [OF i(1)]] by (elim bexE)
    have "is_effect child" using assms(4) child by (simp add: list_all_iff)
    with run obtain k tgt params fo where "plan_effect k tgt params fo rl dev (Some (mode \<noteq> ''none'')) = Inr (cps ! i)"
      by (cases child) simp_all
    then have "map_of (effect_params op') ''offset_mode'' = (if mode \<noteq> ''none'' then Some (PBool True) else None)"
      using plan_effect_offset_flag [OF _ i(2)] by blast
    then show ?thesis by (simp add: i(3) tag_child_op_def effect_params_def)
  qed
  ultimately show ?thesis unfolding ops
    by (intro exI [where x = "length (op_ops opt)"]) auto
qed

theorem offset_group_phases_and_flag_witness:
  "\<exists>p n. plan_action_dispatch [1, 2] None None None
       (OffsetGroup (Groups [1]) [(''mode'', PStr ''linear''), (''base_ms'', PInt 5), (''step_ms'', PInt 1)]
         [Effect WledPreset Broadcast [(''presetId'', PInt 3)] (Some [(''offset_mode'', PBool False)])]) = Inr p \<and>
     (\<forall>op \<in> set (take n (ap_ops p)). w_sender op = Some ''send_offset'') \<and>
     (\<forall>op \<in> set (drop n (ap_ops p)). map_of (effect_params op) ''offset_mode'' = Some (PBool True))"
proof -
  let ?child = "Effect WledPreset Broadcast [(''presetId'', PInt 3)] (Some [(''offset_mode'', PBool False)])"
  let ?off = "offset_dict (OLinear 5 1)"
  have mode: "spec_mode ?off = Inr ''linear''" by (simp del: offset_dict.simps)
  have ne: "?off \<noteq> []" by simp
  have "container_ok (Groups [1]) (OLinear 5 1)" "\<forall>g \<in> set [1, 2]. group_id_ok g"
    by (simp_all add: container_ok_def)
  then obtain opt where opt: "plan_offset_setup (Groups [1]) ?off [1, 2] = Inr opt"
    by (rule plan_cases)
  obtain cp where "plan_action_dispatch [1, 2] None None (Some True) ?child = Inr cp"
    by (simp add: plan_effect_def resolve_target_def build_effect_op_def Let_def)
  then obtain p where p: "plan_action_dispatch [1, 2] None None None (OffsetGroup (Groups [1]) ?off [?child]) = Inr p"
    using mode opt ne by (simp add: Let_def del: offset_dict.simps)
  obtain n where "(\<forall>op \<in> set (take n (ap_ops p)). w_sender op = Some ''send_offset'') \<and>
     (\<forall>op \<in> set (drop n (ap_ops p)). map_of (effect_params op) ''offset_mode'' = Some (PBool True))"
    using offset_group_phases_and_flag [OF p ne mode] by (auto simp del: plan_action_dispatch.simps)
  with p show ?thesis by (auto simp del: plan_action_dispatch.simps)
qed

end
