(* ===== verification/Codec.thy ===== *)
theory Codec
  imports Py_Values Wire_Bytes
begin

text \<open>
  \<^verbatim>\<open>racelink/protocol/codec.py\<close>, \<^verbatim>\<open>rules.py\<close>,
  \<^verbatim>\<open>addressing.py\<close>, \<^verbatim>\<open>racelink/transport/framing.py\<close> and the
  rule table of \<^verbatim>\<open>racelink_proto_auto.py\<close>: the reply a device frame carries, the reply
  policy of an opcode, and the address forms.
\<close>

section \<open>Opcodes and rules\<close>

definition DIR_M2N :: int where "DIR_M2N = 0"
definition DIR_N2M :: int where "DIR_N2M = 128"
definition OPC_DEVICES :: int where "OPC_DEVICES = 1"
definition OPC_SET_GROUP :: int where "OPC_SET_GROUP = 2"
definition OPC_STATUS :: int where "OPC_STATUS = 3"
definition OPC_PRESET :: int where "OPC_PRESET = 4"
definition OPC_CONFIG :: int where "OPC_CONFIG = 5"
definition OPC_SYNC :: int where "OPC_SYNC = 6"
definition OPC_STREAM :: int where "OPC_STREAM = 7"
definition OPC_CONTROL :: int where "OPC_CONTROL = 8"
definition OPC_OFFSET :: int where "OPC_OFFSET = 9"
definition OPC_ACK :: int where "OPC_ACK = 126"

lemmas opc_defs = DIR_M2N_def DIR_N2M_def OPC_DEVICES_def OPC_SET_GROUP_def OPC_STATUS_def
  OPC_PRESET_def OPC_CONFIG_def OPC_SYNC_def OPC_STREAM_def OPC_CONTROL_def OPC_OFFSET_def OPC_ACK_def

definition make_type :: "int \<Rightarrow> int \<Rightarrow> int" where
  "make_type direction opcode7 = direction OR (opcode7 AND 127)"

definition RESP_NONE :: int where "RESP_NONE = 0"
definition RESP_ACK :: int where "RESP_ACK = 1"
definition RESP_SPECIFIC :: int where "RESP_SPECIFIC = 2"

record packet_rule =
  pr_opcode7 :: int
  pr_req_dir :: int
  pr_policy :: int
  pr_rsp_opcode7 :: int
  pr_req_len :: int
  pr_rsp_len :: int
  pr_name :: string

definition packet_rule :: "int \<Rightarrow> int \<Rightarrow> int \<Rightarrow> int \<Rightarrow> int \<Rightarrow> int \<Rightarrow> string \<Rightarrow> packet_rule" where
  "packet_rule opcode7 req_dir policy rsp_opcode7 req_len rsp_len name =
     \<lparr>pr_opcode7 = opcode7, pr_req_dir = req_dir, pr_policy = policy, pr_rsp_opcode7 = rsp_opcode7,
      pr_req_len = req_len, pr_rsp_len = rsp_len, pr_name = name\<rparr>"

definition RULES :: "packet_rule list" where
  "RULES =
     [packet_rule 1 0 2 1 2 9 ''DEVICES/IDENTIFY'',
      packet_rule 2 0 1 126 1 3 ''SET_GROUP'',
      packet_rule 3 0 2 3 2 8 ''STATUS'',
      packet_rule 4 0 0 0 4 0 ''PRESET'',
      packet_rule 8 0 0 0 0 0 ''CONTROL'',
      packet_rule 5 0 1 126 5 3 ''CONFIG'',
      packet_rule 6 0 0 0 0 0 ''SYNC'',
      packet_rule 9 0 0 0 0 0 ''OFFSET'',
      packet_rule 7 0 1 126 9 3 ''STREAM_M2N'']"

definition find_rule :: "int \<Rightarrow> packet_rule option" where
  "find_rule opcode7 = map_of (map (\<lambda>r. (pr_opcode7 r, r)) RULES) (opcode7 AND 127)"

definition hex_digit :: "int \<Rightarrow> char" where
  "hex_digit n = char_of (nat (if n < 10 then 48 + n else 55 + n))"

definition hex2 :: "int \<Rightarrow> string" where
  "hex2 n = [hex_digit (n div 16), hex_digit (n mod 16)]"

definition opcode_name :: "int \<Rightarrow> string" where
  "opcode_name opcode7 =
     (case find_rule opcode7 of
        Some rule \<Rightarrow> if pr_name rule = [] then ''0x'' @ hex2 (opcode7 AND 127) else pr_name rule
      | None \<Rightarrow> ''0x'' @ hex2 (opcode7 AND 127))"

definition response_policy :: "int \<Rightarrow> int" where
  "response_policy opcode7 = (case find_rule opcode7 of None \<Rightarrow> RESP_NONE | Some rule \<Rightarrow> pr_policy rule)"

definition response_opcode :: "int \<Rightarrow> int" where
  "response_opcode opcode7 =
     (case find_rule opcode7 of None \<Rightarrow> - 1 | Some rule \<Rightarrow> pr_rsp_opcode7 rule AND 127)"

definition request_direction :: "int \<Rightarrow> int" where
  "request_direction opcode7 = (case find_rule opcode7 of None \<Rightarrow> DIR_M2N | Some rule \<Rightarrow> pr_req_dir rule)"

section \<open>Addresses\<close>

definition hex_bytes :: "byte list \<Rightarrow> string" where
  "hex_bytes bs = concat (map (\<lambda>b. hex2 (uint b)) bs)"

text \<open>\<open>to_hex_str\<close> on bytes and on a string; \<open>None\<close> gives the empty string.\<close>

definition to_hex_str :: "string \<Rightarrow> string" where
  "to_hex_str addr =
     upper (filter (\<lambda>c. c \<noteq> CHR '' '') (filter (\<lambda>c. c \<noteq> CHR '':'') (strip addr)))"

definition last_n :: "nat \<Rightarrow> 'a list \<Rightarrow> 'a list" where
  "last_n n xs = drop (length xs - n) xs"

definition last3_hex :: "string \<Rightarrow> string" where
  "last3_hex addr = (let value = to_hex_str addr in if 6 \<le> length value then last_n 6 value else [])"

definition hex_val :: "char \<Rightarrow> int option" where
  "hex_val c = (let n = int (of_char c) in
     if 48 \<le> n \<and> n \<le> 57 then Some (n - 48)
     else if 65 \<le> n \<and> n \<le> 70 then Some (n - 55)
     else if 97 \<le> n \<and> n \<le> 102 then Some (n - 87) else None)"

definition ascii_space :: "char \<Rightarrow> bool" where
  "ascii_space c = (let n = (of_char c :: nat) in 9 \<le> n \<and> n \<le> 13 \<or> n = 32)"

fun fromhex :: "string \<Rightarrow> byte list res" where
  "fromhex [] = Inr []"
| "fromhex (c # s) =
     (if ascii_space c then fromhex s
      else case s of [] \<Rightarrow> Inl ValueError
        | d # s' \<Rightarrow>
            (case (hex_val c, hex_val d) of
               (Some h, Some l) \<Rightarrow> rbind (fromhex s') (\<lambda>bs. Inr (u8 (16 * h + l) # bs))
             | _ \<Rightarrow> Inl ValueError))"

definition mac_last3_from_hex :: "string \<Rightarrow> byte list res" where
  "mac_last3_from_hex mac12 =
     (let mac = upper (filter (\<lambda>c. c \<noteq> CHR '':'') (strip mac12));
          mac = (if length mac < 6 then ''FFFFFF'' else mac)
      in fromhex (last_n 6 mac))"

lemma hex_digit_lt16: "n < 16 \<Longrightarrow> 0 \<le> n \<Longrightarrow> n \<in> {0, 1, 2, 3, 4, 5, 6, 7, 8, 9, 10, 11, 12, 13, 14, 15 :: int}"
  by simp presburger

lemma hex_digit_facts:
  assumes "0 \<le> n" "n < 16"
  shows "hex_val (hex_digit n) = Some n" and "\<not> ascii_space (hex_digit n)"
    and "upper_char (hex_digit n) = hex_digit n" and "hex_digit n \<noteq> CHR '':''"
    and "\<not> is_space (hex_digit n)"
proof -
  show v: "hex_val (hex_digit n) = Some n" and "\<not> ascii_space (hex_digit n)"
    and "upper_char (hex_digit n) = hex_digit n" and "\<not> is_space (hex_digit n)"
    using hex_digit_lt16 [OF assms(2,1)]
    by (auto simp: hex_digit_def hex_val_def ascii_space_def upper_char_def is_space_def)
  have "hex_val CHR '':'' = None" by (simp add: hex_val_def)
  with v show "hex_digit n \<noteq> CHR '':''" by auto
qed

lemma byte_nibbles: "0 \<le> uint (b :: byte) div 16" "uint (b :: byte) div 16 < 16"
    "0 \<le> uint (b :: byte) mod 16" "uint (b :: byte) mod 16 < 16"
  using byte_bounds [of b] by (simp_all add: div_less_iff_less_mult pos_imp_zdiv_nonneg_iff)

lemma fromhex_hex_bytes: "fromhex (hex_bytes bs) = Inr bs"
proof (induction bs)
  case Nil
  then show ?case by (simp add: hex_bytes_def)
next
  case (Cons b bs)
  have "16 * (uint b div 16) + uint b mod 16 = uint b" by simp
  with Cons show ?case
    using hex_digit_facts [OF byte_nibbles(1,2), of b] hex_digit_facts [OF byte_nibbles(3,4), of b]
    by (simp add: hex_bytes_def hex2_def)
qed

section \<open>Reply events\<close>

text \<open>The fields \<open>parse_reply_event\<close> adds per opcode; a body of unexpected length is kept raw.\<close>

datatype reply =
    IdentifyReply int int int "byte list"
  | IdentifyRaw "byte list"
  | StatusReply int int int int int int int
  | StatusRaw "byte list"
  | Ack int int "int option"
  | AckRaw "byte list"
  | OtherReply string "byte list"

record reply_event =
  re_type :: byte
  re_dir :: int
  re_opc :: int
  re_sender3 :: "byte list"
  re_receiver3 :: "byte list"
  re_host_rssi :: int
  re_host_snr :: int
  re_ts :: rat
  re_reply :: reply

definition parse_reply :: "int \<Rightarrow> byte list \<Rightarrow> reply" where
  "parse_reply opc body =
     (if opc = 1 then
        (if length body = 9
         then IdentifyReply (uint (body ! 0)) (uint (body ! 1)) (uint (body ! 2)) (drop 3 body)
         else IdentifyRaw body)
      else if opc = 3 then
        (case body of
           [fl, cfg, eff, bri, v0, v1, rssi, snr] \<Rightarrow>
             StatusReply (uint fl) (uint cfg) (uint eff) (uint bri) (unpack_u16 v0 v1)
               (unpack_i8 rssi) (unpack_i8 snr)
         | [fl, eff, bri, v0, v1, rssi, snr] \<Rightarrow>
             StatusReply (uint fl) 0 (uint eff) (uint bri) (unpack_u16 v0 v1)
               (unpack_i8 rssi) (unpack_i8 snr)
         | _ \<Rightarrow> StatusRaw body)
      else if opc = 126 then
        (case body of
           a # s # rest \<Rightarrow> Ack (uint a AND 127) (uint s)
             (case rest of [] \<Rightarrow> None | q # _ \<Rightarrow> Some (uint q))
         | _ \<Rightarrow> AckRaw body)
      else OtherReply (opcode_name opc) body)"

definition parse_reply_event :: "byte \<Rightarrow> byte list \<Rightarrow> rat \<Rightarrow> int \<Rightarrow> int \<Rightarrow> reply_event" where
  "parse_reply_event type_byte data timestamp host_rssi host_snr =
     (let hdr = take 7 data;
          body = take (length data - 3 - 7) (drop 7 data);
          opc = uint type_byte AND 127
      in \<lparr>re_type = type_byte, re_dir = uint type_byte AND 128, re_opc = opc,
          re_sender3 = take 3 hdr, re_receiver3 = take 3 (drop 3 hdr),
          re_host_rssi = host_rssi, re_host_snr = host_snr, re_ts = timestamp,
          re_reply = parse_reply opc body\<rparr>)"

end
