(* ===== verification/Transport.thy ===== *)
theory Transport
  imports Codec Packets
begin

text \<open>
  \<^verbatim>\<open>racelink/transport/gateway_events.py\<close> and
  \<^verbatim>\<open>gateway_serial.py\<close>: the USB framing \<open>[0x00][LEN][TYPE][DATA]\<close>, the byte
  machine of the reader thread, the dispatch of a received frame, and the synchronous send with its
  outcome slot.  The reader thread and the sender interleave only through the slot: the bytes that
  arrive while a send waits are an argument of the send.  Opening and discovering ports is not modelled.
\<close>

section \<open>Events and outcomes\<close>

definition EV_ERROR :: byte where "EV_ERROR = 240"
definition EV_STATE_CHANGED :: byte where "EV_STATE_CHANGED = 241"
definition EV_TX_DONE :: byte where "EV_TX_DONE = 243"
definition EV_TX_REJECTED :: byte where "EV_TX_REJECTED = 244"
definition EV_STATE_REPORT :: byte where "EV_STATE_REPORT = 245"

lemmas ev_defs = EV_ERROR_def EV_STATE_CHANGED_def EV_TX_DONE_def EV_TX_REJECTED_def EV_STATE_REPORT_def

definition GATEWAY_STATE_UNKNOWN :: int where "GATEWAY_STATE_UNKNOWN = 255"

definition GATEWAY_STATE_NAME :: "(int \<times> string) list" where
  "GATEWAY_STATE_NAME = [(0, ''IDLE''), (1, ''TX''), (2, ''RX_WINDOW''), (3, ''RX''), (254, ''ERROR''),
     (255, ''UNKNOWN'')]"

definition TX_REJECT_UNKNOWN :: int where "TX_REJECT_UNKNOWN = 255"

definition TX_REJECT_REASON_NAME :: "(int \<times> string) list" where
  "TX_REJECT_REASON_NAME = [(1, ''txPending''), (2, ''oversize''), (3, ''zeroLen''), (255, ''unknown'')]"

definition GW_CMD_STATE_REQUEST :: byte where "GW_CMD_STATE_REQUEST = 127"

definition name_or :: "(int \<times> string) list \<Rightarrow> int \<Rightarrow> string \<Rightarrow> string" where
  "name_or names k dflt = (case map_of names k of None \<Rightarrow> dflt | Some n \<Rightarrow> n)"

datatype outcome_code = SUCCESS | REJECTED | TIMEOUT | USB_ERROR

record send_outcome =
  so_ok :: bool
  so_code :: outcome_code
  so_reason :: int

definition outcome_success :: send_outcome where
  "outcome_success = \<lparr>so_ok = True, so_code = SUCCESS, so_reason = 0\<rparr>"

definition outcome_rejected :: "int \<Rightarrow> send_outcome" where
  "outcome_rejected reason = \<lparr>so_ok = False, so_code = REJECTED, so_reason = reason AND 255\<rparr>"

definition outcome_timeout :: send_outcome where
  "outcome_timeout = \<lparr>so_ok = False, so_code = TIMEOUT, so_reason = 0\<rparr>"

definition outcome_usb_error :: send_outcome where
  "outcome_usb_error = \<lparr>so_ok = False, so_code = USB_ERROR, so_reason = 0\<rparr>"

definition reason_name :: "send_outcome \<Rightarrow> string" where
  "reason_name o1 = (if so_code o1 \<noteq> REJECTED then []
                     else name_or TX_REJECT_REASON_NAME (so_reason o1) ''unknown'')"

datatype gw_event =
    EvTxDone int rat
  | EvTxRejected int int string rat
  | EvState byte int string int rat
  | EvError "byte list" rat
  | EvDisconnected
  | EvReply reply_event

datatype tx_event = TxM2N int "byte list" nat | TxOutcome int "byte list" send_outcome

section \<open>The frame reader\<close>

type_synonym frame = "byte \<times> byte list"

record rx =
  rx_in_frame :: bool
  rx_need :: nat
  rx_buf :: "byte list"

definition rx_init :: rx where "rx_init = \<lparr>rx_in_frame = False, rx_need = 0, rx_buf = []\<rparr>"

text \<open>One iteration of the reader's loop over a chunk.\<close>

definition rx_byte :: "byte \<Rightarrow> rx \<Rightarrow> rx \<times> frame list" where
  "rx_byte x s =
     (if \<not> rx_in_frame s then
        (if x = 0 then (s\<lparr>rx_in_frame := True, rx_need := 0, rx_buf := []\<rparr>, []) else (s, []))
      else if rx_need s = 0 then (s\<lparr>rx_need := unat x\<rparr>, [])
      else
        let buf = rx_buf s @ [x];
            s = s\<lparr>rx_buf := buf\<rparr>
        in if length buf = rx_need s then (s\<lparr>rx_in_frame := False\<rparr>, [(hd buf, tl buf)]) else (s, []))"

fun rx_scan :: "rx \<Rightarrow> byte list \<Rightarrow> rx \<times> frame list" where
  "rx_scan s [] = (s, [])"
| "rx_scan s (x # xs) =
     (let (s1, fs1) = rx_byte x s; (s2, fs2) = rx_scan s1 xs in (s2, fs1 @ fs2))"

text \<open>A USB frame as either side writes it: zero, the length of the payload, type and data.\<close>

definition usb_frame :: "frame \<Rightarrow> byte list" where
  "usb_frame f = 0 # of_nat (Suc (length (snd f))) # fst f # snd f"

locale frame_scanner =
  fixes scan :: "'s \<Rightarrow> 'b list \<Rightarrow> 's \<times> 'f list"
    and idle :: "'s \<Rightarrow> bool"
    and enc :: "'f \<Rightarrow> 'b list"
    and ok :: "'f \<Rightarrow> bool"
    and noise :: "'b list \<Rightarrow> bool"
  assumes scan_Nil: "scan s [] = (s, [])"
    and scan_append: "scan s (xs @ ys) =
          (let (s1, fs1) = scan s xs; (s2, fs2) = scan s1 ys in (s2, fs1 @ fs2))"
    and scan_enc: "idle s \<Longrightarrow> ok f \<Longrightarrow> \<exists>s'. scan s (enc f) = (s', [f]) \<and> idle s'"
    and scan_noise: "idle s \<Longrightarrow> noise n \<Longrightarrow> \<exists>s'. scan s n = (s', []) \<and> idle s'"
begin

lemma scan_stream:
  assumes "idle s" and "\<forall>(n, f) \<in> set xs. noise n \<and> ok f"
  shows "\<exists>s'. scan s (concat (map (\<lambda>(n, f). n @ enc f) xs)) = (s', map snd xs) \<and> idle s'"
  using assms
proof (induction xs arbitrary: s)
  case Nil
  then show ?case by (simp add: scan_Nil)
next
  case (Cons x xs)
  obtain n f where x: "x = (n, f)" by (cases x)
  obtain s1 where 1: "scan s n = (s1, [])" "idle s1" using scan_noise Cons.prems x by fastforce
  obtain s2 where 2: "scan s1 (enc f) = (s2, [f])" "idle s2" using scan_enc 1(2) Cons.prems x by fastforce
  obtain s3 where 3: "scan s2 (concat (map (\<lambda>(n, f). n @ enc f) xs)) = (s3, map snd xs)" "idle s3"
    using Cons.IH [OF 2(2)] Cons.prems by auto
  show ?case using 1 2 3 by (simp add: x scan_append)
qed

lemma scan_chunks:
  "scan s (concat chunks) =
     fold (\<lambda>chunk (s, fs). let (s', fs') = scan s chunk in (s', fs @ fs')) chunks (s, [])"
proof -
  have "fold (\<lambda>chunk (s, fs). let (s', fs') = scan s chunk in (s', fs @ fs')) chunks (s, gs) =
      (let (s', fs') = scan s (concat chunks) in (s', gs @ fs'))" for gs
    by (induction chunks arbitrary: s gs) (auto simp: scan_Nil scan_append Let_def case_prod_beta)
  then show ?thesis by (simp add: Let_def case_prod_beta)
qed

end

definition frame_ok :: "frame \<Rightarrow> bool" where
  "frame_ok f \<longleftrightarrow> length (snd f) < 255"

lemma rx_scan_append:
  "rx_scan s (xs @ ys) = (let (s1, fs1) = rx_scan s xs; (s2, fs2) = rx_scan s1 ys in (s2, fs1 @ fs2))"
  by (induction xs arbitrary: s) (auto simp: Let_def case_prod_beta)

lemma rx_scan_noise: "\<not> rx_in_frame s \<Longrightarrow> 0 \<notin> set xs \<Longrightarrow> rx_scan s xs = (s, [])"
  by (induction xs) (auto simp: rx_byte_def)

lemma rx_scan_body:
  assumes "rx_in_frame s" and "rx_need s = length (rx_buf s) + length xs" and "xs \<noteq> []"
  shows "rx_scan s xs = (s\<lparr>rx_in_frame := False, rx_buf := rx_buf s @ xs\<rparr>,
     [(hd (rx_buf s @ xs), tl (rx_buf s @ xs))])"
  using assms
proof (induction xs arbitrary: s)
  case (Cons x xs)
  show ?case
  proof (cases "xs = []")
    case True
    with Cons.prems show ?thesis by (simp add: rx_byte_def Let_def)
  next
    case False
    with Cons.prems have "rx_byte x s = (s\<lparr>rx_buf := rx_buf s @ [x]\<rparr>, [])"
      by (auto simp: rx_byte_def Let_def)
    with False Cons show ?thesis by simp
  qed
qed simp

lemma rx_scan_start:
  "\<not> rx_in_frame s \<Longrightarrow>
     rx_scan s (0 # n # xs) = rx_scan (s\<lparr>rx_in_frame := True, rx_need := unat n, rx_buf := []\<rparr>) xs"
  by (cases s) (simp add: rx_byte_def)

lemma rx_scan_frame:
  assumes "\<not> rx_in_frame s" and "frame_ok f"
  shows "rx_scan s (usb_frame f) =
     (s\<lparr>rx_in_frame := False, rx_need := Suc (length (snd f)), rx_buf := fst f # snd f\<rparr>, [f])"
proof -
  have n: "unat (of_nat (Suc (length (snd f))) :: byte) = Suc (length (snd f))"
    using assms(2) by (subst unat_of_nat) (simp add: frame_ok_def)
  show ?thesis
    unfolding usb_frame_def rx_scan_start [OF assms(1)] n
    by (subst rx_scan_body) simp_all
qed

interpretation usb: frame_scanner rx_scan "\<lambda>s. \<not> rx_in_frame s" usb_frame frame_ok "\<lambda>n. 0 \<notin> set n"
  by unfold_locales (auto simp: rx_scan_append rx_scan_frame rx_scan_noise)

section \<open>The link: outcome slot, state mirror, event queue\<close>

text \<open>
  \<open>lk_pending\<close> is the outcome slot: \<open>None\<close> when no send is in flight, \<open>Some None\<close> while one waits.
  \<open>lk_queue\<close> is the bounded queue, \<open>lk_emitted\<close> all events in the order the listeners see them,
  \<open>lk_wire\<close> the frames written.
\<close>

record link =
  lk_rx :: rx
  lk_pending :: "send_outcome option option"
  lk_state_byte :: int
  lk_state_ms :: int
  lk_queue :: "gw_event list"
  lk_emitted :: "gw_event list"
  lk_tx_events :: "tx_event list"
  lk_wire :: "byte list list"
  lk_stop :: bool

definition link_init :: link where
  "link_init = \<lparr>lk_rx = rx_init, lk_pending = None, lk_state_byte = GATEWAY_STATE_UNKNOWN,
     lk_state_ms = 0, lk_queue = [], lk_emitted = [], lk_tx_events = [], lk_wire = [], lk_stop = False\<rparr>"

definition QMAX :: nat where "QMAX = 1000"

definition emit :: "gw_event \<Rightarrow> link \<Rightarrow> link" where
  "emit ev s = s\<lparr>lk_queue := (if length (lk_queue s) < QMAX then lk_queue s @ [ev] else lk_queue s),
                 lk_emitted := lk_emitted s @ [ev]\<rparr>"

definition emit_tx :: "tx_event \<Rightarrow> link \<Rightarrow> link" where
  "emit_tx ev s = s\<lparr>lk_tx_events := lk_tx_events s @ [ev]\<rparr>"

definition fulfill_pending_outcome :: "send_outcome \<Rightarrow> link \<Rightarrow> link" where
  "fulfill_pending_outcome res s =
     (case lk_pending s of
        None \<Rightarrow> s
      | Some None \<Rightarrow> s\<lparr>lk_pending := Some (Some res)\<rparr>
      | Some (Some _) \<Rightarrow> s)"

definition update_gateway_state :: "int \<Rightarrow> int \<Rightarrow> link \<Rightarrow> link" where
  "update_gateway_state state_byte metadata_ms s =
     s\<lparr>lk_state_byte := state_byte AND 255, lk_state_ms := metadata_ms AND 65535\<rparr>"

fun parse_state_event_body :: "byte list \<Rightarrow> int \<times> int" where
  "parse_state_event_body [] = (GATEWAY_STATE_UNKNOWN, 0)"
| "parse_state_event_body [st] = (uint st, 0)"
| "parse_state_event_body [st, m] = (uint st, uint m)"
| "parse_state_event_body (st # m0 # m1 # _) = (uint st, unpack_u16 m0 m1)"

definition reply_rssi :: "byte list \<Rightarrow> int" where
  "reply_rssi data =
     (let raw = unpack_u16 (data ! (length data - 3)) (data ! (length data - 2))
      in if raw AND 32768 \<noteq> 0 then raw - 65536 else raw)"

definition handle_frame :: "rat \<Rightarrow> frame \<Rightarrow> link \<Rightarrow> link" where
  "handle_frame now fr s =
     (case fr of (type_byte, data) \<Rightarrow>
        if type_byte = EV_TX_DONE then
          emit (EvTxDone (case data of [] \<Rightarrow> 0 | b # _ \<Rightarrow> uint b) now)
            (fulfill_pending_outcome outcome_success s)
        else if type_byte = EV_TX_REJECTED then
          let rej_type_full = (case data of [] \<Rightarrow> 0 | b # _ \<Rightarrow> uint b);
              reason = (case data of _ # r # _ \<Rightarrow> uint r | _ \<Rightarrow> TX_REJECT_UNKNOWN)
          in emit (EvTxRejected rej_type_full reason (name_or TX_REJECT_REASON_NAME reason ''unknown'') now)
               (fulfill_pending_outcome (outcome_rejected reason) s)
        else if type_byte = EV_STATE_CHANGED \<or> type_byte = EV_STATE_REPORT then
          let (state_byte, metadata_ms) = parse_state_event_body data
          in emit (EvState type_byte state_byte (name_or GATEWAY_STATE_NAME state_byte ''UNKNOWN'')
                     metadata_ms now)
               (update_gateway_state state_byte metadata_ms s)
        else if type_byte = EV_ERROR then
          emit (EvError data now) (fulfill_pending_outcome outcome_usb_error s)
        else if uint type_byte AND 128 \<noteq> DIR_N2M then s
        else if length data < 10 then s
        else emit (EvReply (parse_reply_event type_byte data now (reply_rssi data)
                     (unpack_i8 (last data)))) s)"

text \<open>The reader: every byte through the machine, every completed frame through the handler.\<close>

definition reader :: "rat \<Rightarrow> byte list \<Rightarrow> link \<Rightarrow> link" where
  "reader now bs s =
     (let (rx', frames) = rx_scan (lk_rx s) bs
      in fold (handle_frame now) frames (s\<lparr>lk_rx := rx'\<rparr>))"

section \<open>Sending\<close>

definition handle_disconnect :: "link \<Rightarrow> link" where
  "handle_disconnect s = (emit EvDisconnected s)\<lparr>lk_stop := True\<rparr>"

text \<open>
  \<open>write_ok\<close> says whether the OS write succeeds, \<open>arrivals\<close> are the bytes the reader receives before
  the wait ends (by an outcome or by the timeout).
\<close>

definition send_m2n ::
  "rat \<Rightarrow> bool \<Rightarrow> byte list \<Rightarrow> int \<Rightarrow> byte list \<Rightarrow> byte list \<Rightarrow> link \<Rightarrow> send_outcome res \<times> link" where
  "send_m2n now write_ok arrivals type_full recv3 body s =
     (if length recv3 \<noteq> 3 then (Inl ValueError, s)
      else if type_full < 0 \<or> 255 < type_full then (Inl ValueError, s)
      else
        let payload = u8 type_full # recv3 @ body in
        if 255 < length payload then (Inl ValueError, s)
        else
          let fr = [0, of_nat (length payload)] @ payload;
              s = s\<lparr>lk_pending := Some None\<rparr>
          in if \<not> write_ok then
               let s = handle_disconnect (s\<lparr>lk_pending := None\<rparr>)
               in (Inr outcome_usb_error, emit_tx (TxOutcome type_full recv3 outcome_usb_error) s)
             else
               let s = reader now arrivals (s\<lparr>lk_wire := lk_wire s @ [fr]\<rparr>);
                   res = (case lk_pending s of Some (Some res) \<Rightarrow> res | _ \<Rightarrow> outcome_timeout);
                   s = emit_tx (TxM2N type_full recv3 (length body)) (s\<lparr>lk_pending := None\<rparr>)
               in (Inr res, emit_tx (TxOutcome type_full recv3 res) s))"

definition send_state_request :: "bool \<Rightarrow> link \<Rightarrow> bool \<times> link" where
  "send_state_request write_ok s =
     (if write_ok then (True, s\<lparr>lk_wire := lk_wire s @ [[0, 1, GW_CMD_STATE_REQUEST]]\<rparr>)
      else (False, handle_disconnect s))"

section \<open>The reader on a stream of frames\<close>

lemma emit_simps [simp]:
  "lk_rx (emit ev s) = lk_rx s" "lk_pending (emit ev s) = lk_pending s" "lk_wire (emit ev s) = lk_wire s"
  "emit ev (s\<lparr>lk_rx := r\<rparr>) = (emit ev s)\<lparr>lk_rx := r\<rparr>"
  by (simp_all add: emit_def)

lemma fulfill_simps [simp]:
  "lk_rx (fulfill_pending_outcome res s) = lk_rx s" "lk_wire (fulfill_pending_outcome res s) = lk_wire s"
  "fulfill_pending_outcome res (s\<lparr>lk_rx := r\<rparr>) = (fulfill_pending_outcome res s)\<lparr>lk_rx := r\<rparr>"
  by (simp_all add: fulfill_pending_outcome_def split: option.split)

lemma fulfill_pending:
  "lk_pending (fulfill_pending_outcome res s) =
     (if lk_pending s = Some None then Some (Some res) else lk_pending s)"
  by (auto simp: fulfill_pending_outcome_def split: option.split)

lemma update_gateway_state_simps [simp]:
  "lk_rx (update_gateway_state b m s) = lk_rx s" "lk_wire (update_gateway_state b m s) = lk_wire s"
  "lk_pending (update_gateway_state b m s) = lk_pending s"
  "update_gateway_state b m (s\<lparr>lk_rx := r\<rparr>) = (update_gateway_state b m s)\<lparr>lk_rx := r\<rparr>"
  by (simp_all add: update_gateway_state_def)

lemma handle_frame_rx: "handle_frame now f (s\<lparr>lk_rx := r\<rparr>) = (handle_frame now f s)\<lparr>lk_rx := r\<rparr>"
  by (cases f) (simp add: handle_frame_def Let_def case_prod_beta)

lemma fold_handle_frame_rx:
  "fold (handle_frame now) fs (s\<lparr>lk_rx := r\<rparr>) = (fold (handle_frame now) fs s)\<lparr>lk_rx := r\<rparr>"
  by (induction fs arbitrary: s) (simp_all add: handle_frame_rx)

lemma reader_eq:
  "rx_scan (lk_rx s) bs = (r, fs) \<Longrightarrow> reader now bs s = (fold (handle_frame now) fs s)\<lparr>lk_rx := r\<rparr>"
  by (simp add: reader_def fold_handle_frame_rx)

lemma handle_frame_lk_rx: "lk_rx (handle_frame now f s) = lk_rx s"
  by (cases f) (simp add: handle_frame_def Let_def case_prod_beta)

lemma fold_handle_frame_lk_rx: "lk_rx (fold (handle_frame now) fs s) = lk_rx s"
  by (induction fs arbitrary: s) (simp_all add: handle_frame_lk_rx)

lemma reader_append: "reader now (xs @ ys) s = reader now ys (reader now xs s)"
proof -
  obtain r1 fs1 where 1: "rx_scan (lk_rx s) xs = (r1, fs1)" by fastforce
  obtain r2 fs2 where 2: "rx_scan r1 ys = (r2, fs2)" by fastforce
  have "rx_scan (lk_rx s) (xs @ ys) = (r2, fs1 @ fs2)" using 1 2 by (simp add: rx_scan_append)
  then show ?thesis
    using reader_eq [OF 1, where now = now] reader_eq [of "s\<lparr>lk_rx := r1\<rparr>" ys r2 fs2 now] 2
    by (simp add: reader_eq [where r = r2] fold_handle_frame_rx)
qed

definition usb_stream :: "(byte list \<times> frame) list \<Rightarrow> byte list" where
  "usb_stream xs = concat (map (\<lambda>(n, f). n @ usb_frame f) xs)"

definition stream_ok :: "(byte list \<times> frame) list \<Rightarrow> bool" where
  "stream_ok xs \<longleftrightarrow> (\<forall>(n, f) \<in> set xs. 0 \<notin> set n \<and> frame_ok f)"

lemma reader_stream:
  assumes "\<not> rx_in_frame (lk_rx s)" and "stream_ok xs"
  obtains r where "\<not> rx_in_frame r"
    and "\<And>now. reader now (usb_stream xs) s = (fold (handle_frame now) (map snd xs) s)\<lparr>lk_rx := r\<rparr>"
proof -
  obtain r where "rx_scan (lk_rx s) (usb_stream xs) = (r, map snd xs)" "\<not> rx_in_frame r"
    using usb.scan_stream [where xs = xs, OF assms(1)] assms(2) by (auto simp: usb_stream_def stream_ok_def)
  with that show ?thesis using reader_eq by blast
qed

text \<open>
  C4.  However the bytes are cut into reads, and whatever bytes other than the start byte lie between
  frames, an idle reader recovers exactly the frames that were written, hands each to the handler
  once and in order, and is idle again.
\<close>

theorem reader_recovers_frames:
  assumes "\<not> rx_in_frame (lk_rx s)" and "stream_ok xs" and "concat chunks = usb_stream xs"
  shows "\<exists>r. \<not> rx_in_frame r \<and>
     fold (reader now) chunks s = (fold (handle_frame now) (map snd xs) s)\<lparr>lk_rx := r\<rparr>"
proof -
  have "fold (reader now) cs t = reader now (concat cs) t" for cs t
  proof (induction cs arbitrary: t)
    case Nil
    show ?case by (simp add: reader_def)
  next
    case (Cons c cs)
    then show ?case by (simp add: reader_append)
  qed
  with assms(3) have "fold (reader now) chunks s = reader now (usb_stream xs) s" by simp
  then show ?thesis using reader_stream [OF assms(1,2)] by (auto simp only:)
qed

theorem reader_recovers_frames_witness:
  "\<exists>r. \<not> rx_in_frame r \<and>
     fold (reader 0) [[9, 0], [2, 243], [17, 4, 0, 1], [245]] link_init =
       (fold (handle_frame 0) [(243, [17]), (245, [])] link_init)\<lparr>lk_rx := r\<rparr>"
  using reader_recovers_frames [of link_init "[([9], (243, [17])), ([4], (245, []))]"
      "[[9, 0], [2, 243], [17, 4, 0, 1], [245]]" 0]
  by (simp add: link_init_def rx_init_def stream_ok_def frame_ok_def usb_stream_def usb_frame_def)

section \<open>The outcome slot\<close>

text \<open>The outcome a frame reports, and the first one of a sequence.\<close>

definition frame_outcome :: "frame \<Rightarrow> send_outcome option" where
  "frame_outcome f =
     (if fst f = EV_TX_DONE then Some outcome_success
      else if fst f = EV_TX_REJECTED then
        Some (outcome_rejected (case snd f of _ # r # _ \<Rightarrow> uint r | _ \<Rightarrow> TX_REJECT_UNKNOWN))
      else if fst f = EV_ERROR then Some outcome_usb_error else None)"

fun first_outcome :: "frame list \<Rightarrow> send_outcome option" where
  "first_outcome [] = None"
| "first_outcome (f # fs) = (case frame_outcome f of None \<Rightarrow> first_outcome fs | Some r \<Rightarrow> Some r)"

lemma handle_frame_pending:
  "lk_pending (handle_frame now f s) =
     (if lk_pending s = Some None then Some (frame_outcome f) else lk_pending s)"
  by (cases f)
    (simp add: handle_frame_def frame_outcome_def fulfill_pending Let_def case_prod_beta ev_defs)

lemma fold_handle_frame_pending:
  "lk_pending (fold (handle_frame now) fs s) =
     (if lk_pending s = Some None then Some (first_outcome fs) else lk_pending s)"
proof (induction fs arbitrary: s)
  case (Cons f fs)
  then show ?case by (auto simp: handle_frame_pending split: option.splits)
qed simp

lemma handle_frame_wire: "lk_wire (handle_frame now f s) = lk_wire s"
  by (cases f) (simp add: handle_frame_def Let_def case_prod_beta)

lemma fold_handle_frame_wire: "lk_wire (fold (handle_frame now) fs s) = lk_wire s"
  by (induction fs arbitrary: s) (simp_all add: handle_frame_wire)

definition send_ok :: "int \<Rightarrow> byte list \<Rightarrow> byte list \<Rightarrow> bool" where
  "send_ok type_full recv3 body \<longleftrightarrow> length recv3 = 3 \<and> 0 \<le> type_full \<and> type_full \<le> 255 \<and> length body \<le> 251"

lemma send_m2n_stream:
  assumes "send_ok type_full recv3 body" and "\<not> rx_in_frame (lk_rx s)" and "stream_ok xs"
  obtains s' where "send_m2n now True (usb_stream xs) type_full recv3 body s =
       (Inr (case first_outcome (map snd xs) of Some r \<Rightarrow> r | None \<Rightarrow> outcome_timeout), s')"
    and "lk_pending s' = None" and "lk_wire s' = lk_wire s @ [usb_frame (u8 type_full, recv3 @ body)]"
    and "\<not> rx_in_frame (lk_rx s')"
proof -
  define fr where "fr = usb_frame (u8 type_full, recv3 @ body)"
  define s0 where "s0 = s\<lparr>lk_pending := Some None, lk_wire := lk_wire s @ [fr]\<rparr>"
  have fr: "[0, of_nat (length (u8 type_full # recv3 @ body))] @ u8 type_full # recv3 @ body = fr"
    by (simp add: fr_def usb_frame_def)
  have s0: "\<not> rx_in_frame (lk_rx s0)" "lk_pending s0 = Some None" "lk_wire s0 = lk_wire s @ [fr]"
    using assms(2) by (simp_all add: s0_def)
  obtain r where r: "\<not> rx_in_frame r"
    "\<And>now. reader now (usb_stream xs) s0 = (fold (handle_frame now) (map snd xs) s0)\<lparr>lk_rx := r\<rparr>"
    using reader_stream [OF s0(1) assms(3)] by blast
  define s1 where "s1 = reader now (usb_stream xs) s0"
  have s1: "lk_pending s1 = Some (first_outcome (map snd xs))" "lk_wire s1 = lk_wire s @ [fr]"
    "\<not> rx_in_frame (lk_rx s1)"
    by (simp_all add: s1_def r s0 fold_handle_frame_pending fold_handle_frame_wire)
  let ?res = "case first_outcome (map snd xs) of Some r \<Rightarrow> r | None \<Rightarrow> outcome_timeout"
  have "send_m2n now True (usb_stream xs) type_full recv3 body s =
      (let res = (case lk_pending s1 of Some (Some res) \<Rightarrow> res | _ \<Rightarrow> outcome_timeout)
       in (Inr res, emit_tx (TxOutcome type_full recv3 res)
             (emit_tx (TxM2N type_full recv3 (length body)) (s1\<lparr>lk_pending := None\<rparr>))))"
    using assms(1) unfolding send_m2n_def Let_def fr by (simp add: send_ok_def s1_def s0_def)
  then have "send_m2n now True (usb_stream xs) type_full recv3 body s =
      (Inr ?res, emit_tx (TxOutcome type_full recv3 ?res)
             (emit_tx (TxM2N type_full recv3 (length body)) (s1\<lparr>lk_pending := None\<rparr>)))"
    by (simp add: s1 Let_def split: option.splits)
  then show ?thesis by (rule that) (simp_all add: emit_tx_def s1 fr_def)
qed

text \<open>
  C39.  A send whose frame is well formed writes exactly one frame, returns the first outcome the gateway
  reports while it waits (success, rejection with its reason, error), or a timeout when none arrives,
  and leaves no slot behind.
\<close>

theorem send_m2n_outcome:
  assumes "send_ok type_full recv3 body" and "\<not> rx_in_frame (lk_rx s)" and "stream_ok xs"
  shows "\<exists>s'. send_m2n now True (usb_stream xs) type_full recv3 body s =
       (Inr (case first_outcome (map snd xs) of Some r \<Rightarrow> r | None \<Rightarrow> outcome_timeout), s')
     \<and> lk_pending s' = None \<and> lk_wire s' = lk_wire s @ [usb_frame (u8 type_full, recv3 @ body)]"
  by (rule send_m2n_stream [OF assms]) blast

theorem send_m2n_outcome_witness:
  "\<exists>s'. send_m2n 0 True (usb_stream [([], (241, [1])), ([], (244, [6, 2]))]) 6 [255, 255, 255] [1, 2, 3, 0] link_init =
       (Inr (outcome_rejected 2), s') \<and> lk_pending s' = None \<and>
     lk_wire s' = [usb_frame (6, [255, 255, 255, 1, 2, 3, 0])]"
  using send_m2n_outcome [of 6 "[255, 255, 255]" "[1, 2, 3, 0]" link_init
      "[([], (241, [1])), ([], (244, [6, 2]))]" 0]
  by (simp add: send_ok_def link_init_def rx_init_def stream_ok_def frame_ok_def frame_outcome_def ev_defs u8_def)

text \<open>
  The slot is matched by time, not by frame: when a send has timed out, its late EV_TX_DONE is taken
  as the outcome of the next send, which reports success although the gateway rejects it.
\<close>

theorem late_outcome_fills_next_send:
  assumes "send_ok t1 r1 b1" and "send_ok t2 r2 b2" and "\<not> rx_in_frame (lk_rx s)"
    and "stream_ok [(n1, (EV_TX_DONE, d1)), (n2, (EV_TX_REJECTED, d2))]"
  shows "\<exists>s1 s2. send_m2n now True [] t1 r1 b1 s = (Inr outcome_timeout, s1) \<and>
     send_m2n now True (usb_stream [(n1, (EV_TX_DONE, d1)), (n2, (EV_TX_REJECTED, d2))]) t2 r2 b2 s1
       = (Inr outcome_success, s2)"
proof -
  have nil: "stream_ok []" by (simp add: stream_ok_def)
  have "\<exists>s1. send_m2n now True (usb_stream []) t1 r1 b1 s = (Inr outcome_timeout, s1) \<and>
    \<not> rx_in_frame (lk_rx s1)"
    by (rule send_m2n_stream [where now = now, OF assms(1,3) nil]) simp
  then obtain s1 where 1: "send_m2n now True (usb_stream []) t1 r1 b1 s = (Inr outcome_timeout, s1)"
    "\<not> rx_in_frame (lk_rx s1)" by (elim exE conjE)
  from 1(1) have "send_m2n now True [] t1 r1 b1 s = (Inr outcome_timeout, s1)"
    by (simp add: usb_stream_def)
  moreover obtain s2 where
    "send_m2n now True (usb_stream [(n1, (EV_TX_DONE, d1)), (n2, (EV_TX_REJECTED, d2))]) t2 r2 b2 s1 =
      (Inr (case first_outcome (map snd [(n1, (EV_TX_DONE, d1)), (n2, (EV_TX_REJECTED, d2))]) of
              Some r \<Rightarrow> r | None \<Rightarrow> outcome_timeout), s2)"
    by (rule send_m2n_stream [OF assms(2) 1(2) assms(4)])
  ultimately show ?thesis by (simp add: frame_outcome_def)
qed

theorem late_outcome_fills_next_send_witness:
  "\<exists>s1 s2. send_m2n 0 True [] 8 [255, 255, 255] [1, 0, 0] link_init = (Inr outcome_timeout, s1) \<and>
     send_m2n 0 True (usb_stream [([], (EV_TX_DONE, [3])), ([], (EV_TX_REJECTED, [4, 1]))]) 4
       [255, 255, 255] [1, 1, 5, 9] s1 = (Inr outcome_success, s2)"
  by (rule late_outcome_fills_next_send)
    (simp_all add: send_ok_def link_init_def rx_init_def stream_ok_def frame_ok_def ev_defs)

text \<open>The guards of a send, and a failed write.\<close>

lemma send_m2n_guards:
  "\<not> send_ok type_full recv3 body \<Longrightarrow> send_m2n now w arrivals type_full recv3 body s = (Inl ValueError, s)"
  by (auto simp: send_m2n_def send_ok_def Let_def)

lemma send_m2n_usb_error:
  assumes "send_ok type_full recv3 body"
  shows "\<exists>s'. send_m2n now False arrivals type_full recv3 body s = (Inr outcome_usb_error, s') \<and>
     lk_pending s' = None \<and> lk_wire s' = lk_wire s \<and> lk_stop s'"
  using assms by (simp add: send_m2n_def send_ok_def Let_def handle_disconnect_def emit_tx_def)

section \<open>Replies of devices\<close>

text \<open>The device side: the body of a reply and the frame the gateway forwards.\<close>

fun reply_opc :: "reply \<Rightarrow> int" where
  "reply_opc (IdentifyReply _ _ _ _) = 1"
| "reply_opc (StatusReply _ _ _ _ _ _ _) = 3"
| "reply_opc (Ack _ _ _) = 126"
| "reply_opc _ = 0"

fun reply_body :: "reply \<Rightarrow> byte list" where
  "reply_body (IdentifyReply v c g mac6) = [u8 v, u8 c, u8 g] @ mac6"
| "reply_body (StatusReply fl cfg eff bri vbat rssi snr) =
     [u8 fl, u8 cfg, u8 eff, u8 bri, byte_lo vbat, byte_hi vbat, pack_i8 rssi, pack_i8 snr]"
| "reply_body (Ack a st q) = [u8 a, u8 st] @ (case q of None \<Rightarrow> [] | Some n \<Rightarrow> [u8 n])"
| "reply_body _ = []"

abbreviation byte_range :: "int \<Rightarrow> bool" where "byte_range n \<equiv> 0 \<le> n \<and> n \<le> 255"

fun reply_ok :: "reply \<Rightarrow> bool" where
  "reply_ok (IdentifyReply v c g mac6) = (byte_range v \<and> byte_range c \<and> byte_range g \<and> length mac6 = 6)"
| "reply_ok (StatusReply fl cfg eff bri vbat rssi snr) =
     (byte_range fl \<and> byte_range cfg \<and> byte_range eff \<and> byte_range bri \<and> 0 \<le> vbat \<and> vbat \<le> 65535 \<and>
      - 128 \<le> rssi \<and> rssi \<le> 127 \<and> - 128 \<le> snr \<and> snr \<le> 127)"
| "reply_ok (Ack a st q) = (0 \<le> a \<and> a \<le> 127 \<and> byte_range st \<and> (case q of None \<Rightarrow> True | Some n \<Rightarrow> byte_range n))"
| "reply_ok _ = False"

definition reply_frame :: "byte list \<Rightarrow> byte list \<Rightarrow> reply \<Rightarrow> int \<Rightarrow> int \<Rightarrow> frame" where
  "reply_frame sender3 receiver3 r rssi snr =
     (let t = u8 (make_type DIR_N2M (reply_opc r))
      in (t, sender3 @ receiver3 @ [t] @ reply_body r @ [byte_lo rssi, byte_hi rssi, pack_i8 snr]))"

lemma byte_range_mod: "byte_range n \<Longrightarrow> n mod 256 = n"
  by simp

lemma parse_reply_body: "reply_ok r \<Longrightarrow> parse_reply (reply_opc r) (reply_body r) = r"
  by (cases r) (auto simp: parse_reply_def byte_range_mod unpack_pack_i8 int_and_127 split: option.splits)

lemma raw_sign_bit: "raw = unpack_u16 lo hi \<Longrightarrow> raw AND 32768 \<noteq> 0 \<longleftrightarrow> 32768 \<le> raw"
proof -
  assume raw: "raw = unpack_u16 lo hi"
  have b: "0 \<le> raw" "raw \<le> 65535" using unpack_u16_bounds [of lo hi] raw by auto
  have "raw AND 2 ^ 15 = 0 \<longleftrightarrow> \<not> bit raw 15" by (rule and_exp_eq_0_iff_not_bit)
  moreover have "bit raw 15 \<longleftrightarrow> odd (raw div 32768)" by (simp add: bit_iff_odd)
  moreover have "raw div 32768 = (if 32768 \<le> raw then 1 else 0)"
    using b div_pos_pos_trivial [of raw 32768] div_pos_pos_trivial [of "raw - 32768" 32768]
      div_add_self2 [of 32768 "raw - 32768"] by auto
  ultimately show ?thesis by (simp split: if_splits)
qed

lemma reply_rssi_eq: "reply_rssi (xs @ [a, b, c]) = unpack_i16 a b"
  using raw_sign_bit [OF refl, of a b]
  by (auto simp: reply_rssi_def unpack_i16_def unpack_u16_def Let_def nth_append)

lemma reply_type:
  "reply_ok r \<Longrightarrow> reply_opc r \<in> {1, 3, 126}"
  by (cases r) auto

lemma reply_type_byte:
  assumes "n \<in> {1, 3, 126}"
  shows "uint (u8 (make_type DIR_N2M n)) AND 128 = 128" and "uint (u8 (make_type DIR_N2M n)) AND 127 = n"
    and "u8 (make_type DIR_N2M n) \<notin> {EV_TX_DONE, EV_TX_REJECTED, EV_STATE_CHANGED, EV_STATE_REPORT, EV_ERROR}"
  using assms by (auto simp: make_type_def DIR_N2M_def ev_defs u8_def)

text \<open>
  Every identify, status and acknowledge reply a device sends, framed by the gateway with its radio
  quality, reaches the listeners with exactly the values the device put in: sender, receiver, opcode,
  signed rssi and snr, and every field of the body.
\<close>

theorem device_reply_received:
  assumes "length sender3 = 3" and "length receiver3 = 3" and "reply_ok r"
    and "- 32768 \<le> rssi" and "rssi \<le> 32767" and "- 128 \<le> snr" and "snr \<le> 127"
  shows "handle_frame now (reply_frame sender3 receiver3 r rssi snr) s =
     emit (EvReply \<lparr>re_type = u8 (make_type DIR_N2M (reply_opc r)), re_dir = 128, re_opc = reply_opc r,
       re_sender3 = sender3, re_receiver3 = receiver3, re_host_rssi = rssi, re_host_snr = snr,
       re_ts = now, re_reply = r\<rparr>) s"
proof -
  let ?t = "u8 (make_type DIR_N2M (reply_opc r))"
  let ?data = "sender3 @ receiver3 @ [?t] @ reply_body r @ [byte_lo rssi, byte_hi rssi, pack_i8 snr]"
  note t = reply_type_byte [OF reply_type [OF assms(3)]]
  have "reply_rssi ?data = rssi"
    using reply_rssi_eq [of "sender3 @ receiver3 @ [?t] @ reply_body r"] assms(4,5) by simp
  moreover have "unpack_i8 (last ?data) = snr" using assms(6,7) by (simp add: unpack_pack_i8)
  moreover have "take (length ?data - 3 - 7) (drop 7 ?data) = reply_body r" and "take 3 (take 7 ?data) = sender3"
    and "take 3 (drop 3 (take 7 ?data)) = receiver3" and "\<not> length ?data < 10"
    using assms(1,2) by simp_all
  ultimately show ?thesis
    using t by (simp add: handle_frame_def reply_frame_def Let_def parse_reply_event_def DIR_N2M_def
        parse_reply_body [OF assms(3)] del: append_assoc append.simps take_append drop_append last_append length_append)
qed

theorem device_reply_received_witness:
  "\<forall>s. handle_frame 7 (reply_frame [1, 2, 3] [4, 5, 6] (StatusReply 1 2 3 128 3700 (- 90) 7) (- 101) (- 4)) s =
     emit (EvReply \<lparr>re_type = 131, re_dir = 128, re_opc = 3, re_sender3 = [1, 2, 3], re_receiver3 = [4, 5, 6],
       re_host_rssi = - 101, re_host_snr = - 4, re_ts = 7, re_reply = StatusReply 1 2 3 128 3700 (- 90) 7\<rparr>) s"
  using device_reply_received [of "[1, 2, 3]" "[4, 5, 6]" "StatusReply 1 2 3 128 3700 (- 90) 7" "- 101" "- 4" 7]
  by (simp add: make_type_def DIR_N2M_def u8_def)

section \<open>The gateway state mirror and the event queue\<close>

definition state_frame :: "frame \<Rightarrow> (int \<times> int) option" where
  "state_frame f = (if fst f = EV_STATE_CHANGED \<or> fst f = EV_STATE_REPORT
                    then Some (parse_state_event_body (snd f)) else None)"

fun last_state :: "int \<times> int \<Rightarrow> frame list \<Rightarrow> int \<times> int" where
  "last_state p [] = p"
| "last_state p (f # fs) = last_state (case state_frame f of None \<Rightarrow> p | Some q \<Rightarrow> q) fs"

definition mirror :: "link \<Rightarrow> int \<times> int" where
  "mirror s = (lk_state_byte s, lk_state_ms s)"

lemma mirror_simps [simp]:
  "mirror (emit ev s) = mirror s" "mirror (fulfill_pending_outcome res s) = mirror s"
  "mirror (s\<lparr>lk_rx := r\<rparr>) = mirror s"
  by (simp_all add: mirror_def emit_def fulfill_pending_outcome_def split: option.split)

lemma state_event_range:
  "parse_state_event_body d = (b, m) \<Longrightarrow> b AND 255 = b \<and> m AND 65535 = m"
proof -
  have w: "n AND 65535 = n mod 65536" for n :: int using take_bit_eq_mask [of 16 n] by (simp add: take_bit_eq_mod mask_eq_exp_minus_1)
  assume "parse_state_event_body d = (b, m)"
  then show ?thesis
  proof (cases d rule: parse_state_event_body.cases)
    case (3 st mb)
    then show ?thesis using \<open>parse_state_event_body d = (b, m)\<close> byte_bounds [of mb]
      by (auto simp: int_and_255 w)
  next
    case (4 st m0 m1 r)
    then show ?thesis using \<open>parse_state_event_body d = (b, m)\<close> unpack_u16_bounds [of m0 m1]
      by (auto simp: int_and_255 w)
  qed (auto simp: GATEWAY_STATE_UNKNOWN_def int_and_255)
qed

lemma handle_frame_mirror:
  "mirror (handle_frame now f s) = (case state_frame f of None \<Rightarrow> mirror s | Some q \<Rightarrow> q)"
proof (cases f)
  case (Pair t d)
  obtain b m where bm: "parse_state_event_body d = (b, m)" by fastforce
  have "mirror (update_gateway_state b m s) = (b, m)"
    using state_event_range [OF bm] by (simp add: mirror_def update_gateway_state_def)
  then show ?thesis
    by (simp add: Pair handle_frame_def state_frame_def Let_def bm ev_defs)
qed

lemma fold_handle_frame_mirror: "mirror (fold (handle_frame now) fs s) = last_state (mirror s) fs"
  by (induction fs arbitrary: s) (simp_all add: handle_frame_mirror)

text \<open>
  The gateway state the host shows is exactly the last state event received: after any stream of
  frames it is the state byte and metadata of the last EV_STATE_CHANGED or EV_STATE_REPORT, and no
  other frame moves it.
\<close>

theorem gateway_mirror_is_last_state_event:
  assumes "\<not> rx_in_frame (lk_rx s)" and "stream_ok xs"
  shows "mirror (reader now (usb_stream xs) s) = last_state (mirror s) (map snd xs)"
  by (rule reader_stream [OF assms]) (simp add: fold_handle_frame_mirror)

theorem gateway_mirror_is_last_state_event_witness:
  "mirror (reader 0 (usb_stream [([], (241, [1])), ([7], (245, [2, 44, 1])), ([], (243, [9]))]) link_init) = (2, 300)"
  using gateway_mirror_is_last_state_event [of link_init "[([], (241, [1])), ([7], (245, [2, 44, 1])), ([], (243, [9]))]" 0]
  by (simp add: link_init_def rx_init_def stream_ok_def frame_ok_def state_frame_def ev_defs unpack_u16_def)

definition queue_ok :: "link \<Rightarrow> bool" where
  "queue_ok s \<longleftrightarrow> lk_queue s = take QMAX (lk_emitted s)"

lemma emit_queue_ok: "queue_ok s \<Longrightarrow> queue_ok (emit ev s)"
  by (auto simp: queue_ok_def emit_def take_Cons' split: if_splits)

lemma handle_frame_queue_ok: "queue_ok s \<Longrightarrow> queue_ok (handle_frame now f s)"
proof -
  assume q: "queue_ok s"
  then have "queue_ok (fulfill_pending_outcome res s)" "queue_ok (update_gateway_state b m s)" for res b m
    by (simp_all add: queue_ok_def fulfill_pending_outcome_def update_gateway_state_def split: option.split)
  with q show ?thesis
    by (cases f) (simp add: handle_frame_def emit_queue_ok Let_def case_prod_beta)
qed

end
