(* ===== verification/Control.thy ===== *)
theory Control
  imports Planner Transport
begin

text \<open>
  \<^verbatim>\<open>racelink/services/control_service.py\<close>, \<^verbatim>\<open>sync_service.py\<close>,
  \<^verbatim>\<open>GatewayService.send_sync\<close> and the send wrappers of
  \<^verbatim>\<open>gateway_serial.py\<close>: the service calls that put presets, effect parameters,
  offsets and sync pulses on the wire and keep the cached device state.  The state is the device list and the
  packets handed to the transport; the outcome of the k-th send (what \<open>send_m2n\<close> returned) is
  the k-th value of a stream.
\<close>

record packet =
  pk_opc :: int
  pk_recv3 :: "byte list"
  pk_body :: "byte list"

record host =
  hs_devices :: "rl_device list"
  hs_transport :: bool
  hs_sent :: "packet list"
  hs_outcomes :: "nat \<Rightarrow> send_outcome"
  hs_clock :: "nat \<Rightarrow> int"
  hs_reads :: nat
  hs_slept :: "int list"

definition BROADCAST3 :: "byte list" where "BROADCAST3 = [255, 255, 255]"

section \<open>Send wrappers of the transport\<close>

definition transport_send :: "int \<Rightarrow> byte list \<Rightarrow> byte list \<Rightarrow> (host, send_outcome) proc" where
  "transport_send opc recv3 body h =
     (if send_ok (make_type DIR_M2N opc) recv3 body
      then (Inr (hs_outcomes h (length (hs_sent h))),
            h\<lparr>hs_sent := hs_sent h @ [\<lparr>pk_opc = opc, pk_recv3 = recv3, pk_body = body\<rparr>]\<rparr>)
      else (Inl ValueError, h))"

definition tr_send_preset :: "byte list \<Rightarrow> int \<Rightarrow> int \<Rightarrow> int \<Rightarrow> int \<Rightarrow> (host, send_outcome) proc" where
  "tr_send_preset recv3 group_id flags preset_id brightness =
     transport_send OPC_PRESET recv3 (build_preset_body group_id flags preset_id brightness)"

definition tr_send_control :: "byte list \<Rightarrow> int \<Rightarrow> int \<Rightarrow> ctrl_args \<Rightarrow> (host, send_outcome) proc" where
  "tr_send_control recv3 group_id flags args =
     pbind (plift (control_body_of group_id flags args)) (transport_send OPC_CONTROL recv3)"

definition tr_send_sync :: "byte list \<Rightarrow> int \<Rightarrow> int \<Rightarrow> int \<Rightarrow> (host, send_outcome) proc" where
  "tr_send_sync recv3 ts24 brightness flags =
     transport_send OPC_SYNC recv3 (build_sync_body ts24 brightness flags)"

definition tr_send_offset :: "byte list \<Rightarrow> int \<Rightarrow> string \<Rightarrow> offset_kwargs \<Rightarrow> (host, send_outcome) proc" where
  "tr_send_offset recv3 group_id mode kw =
     pbind (plift (build_offset_body group_id (PStr mode) kw)) (transport_send OPC_OFFSET recv3)"

section \<open>The control service\<close>

definition coerce_preset_values :: "int option \<Rightarrow> int option \<Rightarrow> int option \<Rightarrow> rl_device \<Rightarrow> int \<times> int \<times> int" where
  "coerce_preset_values flags preset_id brightness fallback =
     ((case flags of None \<Rightarrow> d_flags fallback | Some v \<Rightarrow> v) AND 255,
      (case preset_id of None \<Rightarrow> d_presetId fallback | Some v \<Rightarrow> v) AND 255,
      (case brightness of None \<Rightarrow> d_brightness fallback | Some v \<Rightarrow> v) AND 255)"

definition cache_preset :: "int \<Rightarrow> int \<Rightarrow> int \<Rightarrow> rl_device \<Rightarrow> rl_device" where
  "cache_preset flags preset_id brightness device =
     device\<lparr>d_flags := flags, d_presetId := preset_id, d_brightness := brightness\<rparr>"

definition update_group_preset_cache :: "int \<Rightarrow> int \<Rightarrow> int \<Rightarrow> int \<Rightarrow> host \<Rightarrow> host" where
  "update_group_preset_cache group_id flags preset_id brightness h =
     h\<lparr>hs_devices := map (\<lambda>device. if d_groupId device AND 255 \<noteq> group_id then device
                                  else cache_preset flags preset_id brightness device) (hs_devices h)\<rparr>"

definition send_device_preset :: "nat \<Rightarrow> int option \<Rightarrow> int option \<Rightarrow> int option \<Rightarrow> (host, bool) proc" where
  "send_device_preset i flags preset_id brightness h =
     (if \<not> hs_transport h then (Inr False, h)
      else
        let dev = hs_devices h ! i;
            (flags_b, preset_b, brightness_b) = coerce_preset_values flags preset_id brightness dev
        in pbind (plift (mac_last3_from_hex (d_addr dev))) (\<lambda>recv3.
           pbind (tr_send_preset recv3 (d_groupId dev AND 255) flags_b preset_b brightness_b) (\<lambda>_.
           pbind (pupd (\<lambda>h. h\<lparr>hs_devices := (hs_devices h)[i := cache_preset flags_b preset_b brightness_b dev]\<rparr>))
             (\<lambda>_. pret True))) h)"

definition send_group_preset :: "int \<Rightarrow> int \<Rightarrow> int \<Rightarrow> int \<Rightarrow> (host, bool) proc" where
  "send_group_preset group_id flags preset_id brightness h =
     (if \<not> hs_transport h then (Inr False, h)
      else
        let group_b = group_id AND 255;
            flags_b = flags AND 255; preset_b = preset_id AND 255; brightness_b = brightness AND 255
        in pbind (pupd (update_group_preset_cache group_b flags_b preset_b brightness_b)) (\<lambda>_.
           pbind (tr_send_preset BROADCAST3 group_b flags_b preset_b brightness_b) (\<lambda>_. pret True)) h)"

definition param_flags :: "bool \<Rightarrow> pydict \<Rightarrow> int" where
  "param_flags power_on params =
     build_flags_byte power_on True (py_truth (dget params ''arm_on_sync''))
       (py_truth (dget params ''force_tt0'')) (py_truth (dget params ''force_reapply''))
       (py_truth (dget params ''offset_mode''))"

definition send_wled_preset :: "nat option \<Rightarrow> int option \<Rightarrow> pydict \<Rightarrow> (host, bool) proc" where
  "send_wled_preset target_device target_group params =
     pbind (plift (py_int (dget_or params ''presetId'' (PInt 1)))) (\<lambda>preset_id.
     pbind (plift (py_int (dget_or params ''brightness'' (PInt 0)))) (\<lambda>brightness.
       let flags = param_flags (0 < brightness) params in
       case target_group of
         Some g \<Rightarrow> send_group_preset g flags preset_id brightness
       | None \<Rightarrow>
           (case target_device of
              Some i \<Rightarrow> send_device_preset i (Some flags) (Some preset_id) (Some brightness)
            | None \<Rightarrow> pret False)))"

definition send_offset :: "nat option \<Rightarrow> int option \<Rightarrow> string \<Rightarrow> offset_kwargs \<Rightarrow> (host, bool) proc" where
  "send_offset target_device target_group mode kw h =
     (if \<not> hs_transport h then (Inr False, h)
      else case target_group of
        Some g \<Rightarrow> pbind (tr_send_offset BROADCAST3 (g AND 255) mode kw) (\<lambda>_. pret True) h
      | None \<Rightarrow>
          (case target_device of
             Some i \<Rightarrow>
               pbind (plift (mac_last3_from_hex (d_addr (hs_devices h ! i)))) (\<lambda>recv3.
               pbind (tr_send_offset recv3 (d_groupId (hs_devices h ! i) AND 255) mode kw) (\<lambda>_.
                 pret True)) h
           | None \<Rightarrow> (Inr False, h)))"

definition send_wled_control :: "nat option \<Rightarrow> int option \<Rightarrow> pydict \<Rightarrow> (host, bool) proc" where
  "send_wled_control target_device target_group params h =
     (if \<not> hs_transport h then (Inr False, h)
      else
        pbind (plift (byte_param params ''brightness'')) (\<lambda>brightness.
          let brightness_val = (case brightness of None \<Rightarrow> 0 | Some b \<Rightarrow> b);
              flags = param_flags (0 < brightness_val) params
          in pbind (plift (ctrl_kwargs params)) (\<lambda>ctrl_args.
             case target_group of
               Some g \<Rightarrow> pbind (tr_send_control BROADCAST3 (g AND 255) flags ctrl_args) (\<lambda>_. pret True)
             | None \<Rightarrow>
                 (case target_device of
                    Some i \<Rightarrow>
                      pbind (plift (mac_last3_from_hex (d_addr (hs_devices h ! i)))) (\<lambda>recv3.
                      pbind (tr_send_control recv3 (d_groupId (hs_devices h ! i) AND 255) flags ctrl_args)
                        (\<lambda>_. pret True))
                  | None \<Rightarrow> pret False))) h)"

definition send_rl_preset_by_id ::
  "(int \<Rightarrow> preset option) option \<Rightarrow> pyval \<Rightarrow> nat option \<Rightarrow> int option \<Rightarrow> pyval \<Rightarrow> (host, bool) proc" where
  "send_rl_preset_by_id rl_service preset_id target_device target_group brightness_override =
     (case rl_service of
        None \<Rightarrow> pret False
      | Some get_by_id \<Rightarrow>
          (case py_int preset_id of
             Inl e \<Rightarrow> if e = TypeError \<or> e = ValueError then pret False else plift (Inl e)
           | Inr pid \<Rightarrow>
               (case get_by_id pid of
                  None \<Rightarrow> pret False
                | Some preset \<Rightarrow>
                    pbind (plift (if brightness_override = PNone then Inr (rp_params preset)
                                  else rbind (py_int brightness_override) (\<lambda>b.
                                         Inr (assoc_set ''brightness'' (PInt b) (rp_params preset))))) (\<lambda>merged.
                      let merged = fold (\<lambda>key m. if py_truth (dget (rp_flags preset) key)
                                               then assoc_set key (PBool True) m else m)
                                        USER_FLAG_KEYS merged
                      in send_wled_control target_device target_group merged))))"

section \<open>The sync service\<close>

definition gateway_send_sync :: "int \<Rightarrow> int \<Rightarrow> byte list \<Rightarrow> bool \<Rightarrow> (host, unit) proc" where
  "gateway_send_sync ts24 brightness recv3 trigger_armed h =
     (if \<not> hs_transport h then (Inr (), h)
      else pbind (tr_send_sync recv3 (ts24 AND 16777215) (brightness AND 255)
                    (if trigger_armed then SYNC_FLAG_TRIGGER_ARMED else 0)) (\<lambda>_. pret ()) h)"

definition send_sync :: "int \<Rightarrow> int \<Rightarrow> byte list \<Rightarrow> bool \<Rightarrow> (host, unit) proc" where
  "send_sync ts24 brightness recv3 trigger_armed h =
     (if \<not> hs_transport h then (Inr (), h)
      else gateway_send_sync ts24 brightness recv3 trigger_armed h)"

section \<open>Packets on the wire\<close>

text \<open>
  \<open>sends m h opc n\<close>: with a transport and well-formed device addresses the procedure returns True
  after handing over exactly one packet, of opcode \<open>opc\<close> and a body of \<open>n\<close> bytes; devices keep their
  addresses.
\<close>

definition addr_ok :: "rl_device \<Rightarrow> bool" where
  "addr_ok d \<longleftrightarrow> (\<exists>bs. mac_last3_from_hex (d_addr d) = Inr bs \<and> length bs = 3)"

definition ready :: "host \<Rightarrow> bool" where
  "ready h \<longleftrightarrow> hs_transport h \<and> list_all addr_ok (hs_devices h)"

definition sends :: "(host, bool) proc \<Rightarrow> host \<Rightarrow> int \<Rightarrow> nat \<Rightarrow> bool" where
  "sends m h opc n \<longleftrightarrow> fst (m h) = Inr True \<and> ready (snd (m h)) \<and>
     length (hs_devices (snd (m h))) = length (hs_devices h) \<and>
     (\<exists>recv3 body. hs_sent (snd (m h)) = hs_sent h @ [\<lparr>pk_opc = opc, pk_recv3 = recv3, pk_body = body\<rparr>]
        \<and> length body = n)"

lemma transport_send_run:
  assumes "length recv3 = 3" and "length body \<le> 251" and "opc \<in> {4, 6, 8, 9}"
  shows "transport_send opc recv3 body h =
     (Inr (hs_outcomes h (length (hs_sent h))),
      h\<lparr>hs_sent := hs_sent h @ [\<lparr>pk_opc = opc, pk_recv3 = recv3, pk_body = body\<rparr>]\<rparr>)"
  using assms by (auto simp: transport_send_def send_ok_def make_type_def DIR_M2N_def)

lemma addr_ok_nth: "ready h \<Longrightarrow> i < length (hs_devices h) \<Longrightarrow>
    \<exists>bs. mac_last3_from_hex (d_addr (hs_devices h ! i)) = Inr bs \<and> length bs = 3"
  by (auto simp: ready_def list_all_length addr_ok_def)

lemma addr_ok_cache [simp]: "addr_ok (cache_preset a b c d) = addr_ok d"
  by (simp add: addr_ok_def cache_preset_def)

lemma BROADCAST3_length [simp]: "length BROADCAST3 = 3"
  by (simp add: BROADCAST3_def)

lemma preset_body_length [simp]: "length (build_preset_body g f p b) = 4"
  by (simp add: build_preset_body_def)

lemma send_group_preset_sends:
  assumes "ready h"
  shows "sends (send_group_preset g f p b) h OPC_PRESET 4"
  unfolding sends_def
  by (use assms in \<open>auto simp: send_group_preset_def ready_def Let_def tr_send_preset_def pbind_def
        transport_send_run update_group_preset_cache_def OPC_PRESET_def list_all_iff\<close>)

lemma send_device_preset_sends:
  assumes "ready h" and "i < length (hs_devices h)"
  shows "sends (send_device_preset i f p b) h OPC_PRESET 4"
proof -
  obtain bs where bs: "mac_last3_from_hex (d_addr (hs_devices h ! i)) = Inr bs" "length bs = 3"
    using addr_ok_nth [OF assms] by blast
  have "addr_ok (hs_devices h ! i)" using assms by (auto simp: ready_def list_all_length)
  then show ?thesis using assms unfolding sends_def
    by (auto simp: send_device_preset_def ready_def Let_def case_prod_beta tr_send_preset_def pbind_def bs
        transport_send_run OPC_PRESET_def list_all_length nth_list_update)
qed

definition preset_args_ok :: "pydict \<Rightarrow> bool" where
  "preset_args_ok params \<longleftrightarrow> (\<exists>i. py_int (dget_or params ''presetId'' (PInt 1)) = Inr i) \<and>
     (\<exists>i. py_int (dget_or params ''brightness'' (PInt 0)) = Inr i)"

definition one_target :: "nat option \<Rightarrow> int option \<Rightarrow> host \<Rightarrow> bool" where
  "one_target dev grp h \<longleftrightarrow> grp \<noteq> None \<or> (\<exists>i. dev = Some i \<and> i < length (hs_devices h))"

lemma send_wled_preset_sends:
  assumes "ready h" and "one_target dev grp h" and "preset_args_ok params"
  shows "sends (send_wled_preset dev grp params) h OPC_PRESET 4"
proof -
  obtain i j where ij: "py_int (dget_or params ''presetId'' (PInt 1)) = Inr i"
    "py_int (dget_or params ''brightness'' (PInt 0)) = Inr j"
    using assms(3) by (auto simp: preset_args_ok_def)
  show ?thesis
  proof (cases grp)
    case (Some g)
    from send_group_preset_sends [OF assms(1)] show ?thesis
      by (simp add: sends_def send_wled_preset_def ij pbind_run Let_def Some)
  next
    case None
    with assms(2) obtain k where k: "dev = Some k" "k < length (hs_devices h)"
      by (auto simp: one_target_def)
    from send_device_preset_sends [OF assms(1) k(2)] show ?thesis
      by (simp add: sends_def send_wled_preset_def ij pbind_run Let_def None k(1))
  qed
qed

lemma send_offset_sends:
  assumes "ready h" and "coerce_mode (PStr mode) = Inr m"
  shows "sends (send_offset None (Some g) mode kw) h OPC_OFFSET (offset_body_len m)"
proof -
  obtain body where b: "build_offset_body (g AND 255) (PStr mode) kw = Inr body" "length body = offset_body_len m"
    using build_offset_body_cases [OF assms(2), of "g AND 255" kw] by auto
  have "length body \<le> 251" using b(2) by (simp add: offset_body_len_def split: if_splits)
  with assms(1) b show ?thesis unfolding sends_def
    by (auto simp: send_offset_def tr_send_offset_def pbind_def transport_send_run ready_def OPC_OFFSET_def)
qed

lemma control_body_of_eq:
  "control_body_of g fl args =
     (case control_body_of 0 0 args of Inl e \<Rightarrow> Inl e | Inr b \<Rightarrow> Inr (u8 g # u8 fl # drop 2 b))"
proof -
  have two: "drop 2 (control_body 0 0 f) = drop 2 (control_body g fl f)"
    "control_body g fl f = u8 g # u8 fl # drop 2 (control_body g fl f)" for f
    by (simp_all add: control_body_def)
  show ?thesis
    by (cases args) (auto simp: control_body_of_def rbind_def build_control_body_eq two(1) two(2) [symmetric]
        split: sum.splits)
qed

lemma send_wled_control_sends:
  assumes "ready h" and "one_target dev grp h" and "control_body_len params = Inr n"
  shows "sends (send_wled_control dev grp params) h OPC_CONTROL n"
proof -
  obtain args b where a: "ctrl_kwargs params = Inr args" and b: "control_body_of 0 0 args = Inr b" "length b = n"
    using assms(3) by (auto simp: control_body_len_def rbind_eq_Inr)
  obtain bri where bri: "byte_param params ''brightness'' = Inr bri"
    using a by (auto simp: ctrl_kwargs_def rbind_eq_Inr)
  obtain f c1 c2 c3 where "b = control_body 0 0 (f\<lparr>cf_color1 := c1, cf_color2 := c2, cf_color3 := c3\<rparr>)"
    using b(1) by (cases args) (auto simp: control_body_of_def rbind_eq_Inr build_control_body_eq)
  then have len: "2 \<le> length b" "length b \<le> 21" using control_body_length [of 0 0]
    by (simp_all add: control_body_def)
  have body: "control_body_of g fl args = Inr (u8 g # u8 fl # drop 2 b)" for g fl
    by (subst control_body_of_eq) (simp add: b(1))
  show ?thesis
  proof (cases grp)
    case (Some g)
    with assms(1) len b(2) show ?thesis unfolding sends_def
      by (auto simp: send_wled_control_def tr_send_control_def pbind_def Let_def bri a body
          transport_send_run ready_def OPC_CONTROL_def)
  next
    case None
    with assms(2) obtain k where k: "dev = Some k" "k < length (hs_devices h)"
      by (auto simp: one_target_def)
    obtain bs where "mac_last3_from_hex (d_addr (hs_devices h ! k)) = Inr bs" "length bs = 3"
      using addr_ok_nth [OF assms(1) k(2)] by blast
    with None k assms(1) len b(2) show ?thesis unfolding sends_def
      by (auto simp: send_wled_control_def tr_send_control_def pbind_def Let_def bri a body
          transport_send_run ready_def OPC_CONTROL_def)
  qed
qed

section \<open>The cache of a group preset\<close>

text \<open>
  A group preset updates the cached preset of exactly the devices whose stored group is the target;
  in particular the broadcast group 255 changes the cache of no device with a regular group, although
  every device applies the packet.
\<close>

theorem group_preset_cache:
  assumes "hs_transport h"
  shows "hs_devices (snd (send_group_preset g fl p b h)) =
     map (\<lambda>d. if d_groupId d AND 255 = g AND 255
              then d\<lparr>d_flags := fl AND 255, d_presetId := p AND 255, d_brightness := b AND 255\<rparr> else d)
       (hs_devices h) \<and>
     (g = 255 \<and> (\<forall>d \<in> set (hs_devices h). group_id_ok (d_groupId d)) \<longrightarrow>
        hs_devices (snd (send_group_preset g fl p b h)) = hs_devices h)"
proof -
  have dev: "hs_devices (snd (send_group_preset g fl p b h)) =
      hs_devices (update_group_preset_cache (g AND 255) (fl AND 255) (p AND 255) (b AND 255) h)"
    using assms by (simp add: send_group_preset_def Let_def pbind_def tr_send_preset_def
        transport_send_run OPC_PRESET_def)
  have "d_groupId d AND 255 \<noteq> 255" if "group_id_ok (d_groupId d)" for d :: rl_device
    using that by (simp add: int_and_255)
  then show ?thesis
    unfolding dev by (auto simp: update_group_preset_cache_def cache_preset_def intro!: map_idI)
qed

theorem group_preset_cache_witness:
  "hs_devices (snd (send_group_preset 255 1 7 9
      \<lparr>hs_devices = [default_device ''AABBCCDDEEFF'' 10 ''n''], hs_transport = True, hs_sent = [],
       hs_outcomes = (\<lambda>_. outcome_success), hs_clock = (\<lambda>_. 0), hs_reads = 0, hs_slept = []\<rparr>))
   = [default_device ''AABBCCDDEEFF'' 10 ''n'']"
  using group_preset_cache [of "\<lparr>hs_devices = [default_device ''AABBCCDDEEFF'' 10 ''n''], hs_transport = True,
      hs_sent = [], hs_outcomes = (\<lambda>_. outcome_success), hs_clock = (\<lambda>_. 0), hs_reads = 0, hs_slept = []\<rparr>" 255 1 7 9]
  by (simp add: default_device_def RL_Device_def)

end
