(* ===== verification/Pending.thy ===== *)
theory Pending
  imports Transport
begin

text \<open>
  \<^verbatim>\<open>racelink/services/pending_requests.py\<close>: the registry of unicast requests that wait
  for a reply.  The request objects are a list, a request is referred to by its position in it; the
  dictionary \<open>_by_key\<close> holds positions.  The locks make every operation atomic.
\<close>

section \<open>The registry\<close>

definition ev_ack_of :: "reply_event \<Rightarrow> int option" where
  "ev_ack_of ev = (case re_reply ev of Ack a st sq \<Rightarrow> Some a | _ \<Rightarrow> None)"

definition ev_ack_status :: "reply_event \<Rightarrow> int option" where
  "ev_ack_status ev = (case re_reply ev of Ack a st sq \<Rightarrow> Some st | _ \<Rightarrow> None)"

definition ev_ack_seq :: "reply_event \<Rightarrow> int option" where
  "ev_ack_seq ev = (case re_reply ev of Ack a st sq \<Rightarrow> sq | _ \<Rightarrow> None)"

record request =
  rq_sender3 :: "byte list"
  rq_key :: int
  rq_policy :: int
  rq_timeout :: rat
  rq_registered :: rat
  rq_done :: bool
  rq_reply :: "reply_event option"

type_synonym request_key = "byte list \<times> int \<times> int"

record registry =
  rg_requests :: "request list"
  rg_by_key :: "(request_key \<times> nat list) list"

definition empty_registry :: registry where
  "empty_registry = \<lparr>rg_requests = [], rg_by_key = []\<rparr>"

definition request_matches :: "request \<Rightarrow> reply_event \<Rightarrow> bool" where
  "request_matches r ev =
     (re_sender3 ev = rq_sender3 r \<and>
      (let opc = re_opc ev AND 127 in
       if rq_policy r = RESP_ACK
       then opc = OPC_ACK \<and> (case ev_ack_of ev of None \<Rightarrow> - 1 | Some a \<Rightarrow> a) = rq_key r
       else rq_policy r = RESP_SPECIFIC \<and> opc = rq_key r))"

definition request_key :: "request \<Rightarrow> request_key" where
  "request_key r = (rq_sender3 r, rq_policy r, rq_key r)"

definition bucket :: "registry \<Rightarrow> request_key \<Rightarrow> nat list" where
  "bucket rg key = (case map_of (rg_by_key rg) key of None \<Rightarrow> [] | Some b \<Rightarrow> b)"

definition register :: "byte list \<Rightarrow> int \<Rightarrow> int \<Rightarrow> rat \<Rightarrow> rat \<Rightarrow> registry \<Rightarrow> nat \<times> registry" where
  "register sender_last3 expected_key policy timeout_s now rg =
     (let req = \<lparr>rq_sender3 = sender_last3, rq_key = expected_key, rq_policy = policy, rq_timeout = timeout_s,
                 rq_registered = now, rq_done = False, rq_reply = None\<rparr>;
          key = request_key req; n = length (rg_requests rg)
      in (n, rg\<lparr>rg_requests := rg_requests rg @ [req],
                rg_by_key := assoc_set key (bucket rg key @ [n]) (rg_by_key rg)\<rparr>))"

definition drop_request :: "request_key \<Rightarrow> nat \<Rightarrow> registry \<Rightarrow> registry" where
  "drop_request key n rg =
     (let rest = remove1 n (bucket rg key)
      in rg\<lparr>rg_by_key := (if rest = [] then assoc_del key (rg_by_key rg) else assoc_set key rest (rg_by_key rg))\<rparr>)"

definition cancel :: "nat \<Rightarrow> registry \<Rightarrow> registry" where
  "cancel n rg =
     (let key = request_key (rg_requests rg ! n)
      in if bucket rg key = [] then rg else drop_request key n rg)"

definition candidates :: "reply_event \<Rightarrow> registry \<Rightarrow> (request_key \<times> nat) list" where
  "candidates ev rg =
     (let opc = re_opc ev AND 127;
          key_spec = (re_sender3 ev, RESP_SPECIFIC, opc)
      in (case ev_ack_of ev of
            None \<Rightarrow> []
          | Some a \<Rightarrow> if opc = OPC_ACK
                      then let key = (re_sender3 ev, RESP_ACK, a AND 127) in map (Pair key) (bucket rg key)
                      else [])
         @ map (Pair key_spec) (bucket rg key_spec))"

definition complete :: "nat \<Rightarrow> reply_event \<Rightarrow> registry \<Rightarrow> registry" where
  "complete n ev rg =
     rg\<lparr>rg_requests := (rg_requests rg)[n := (rg_requests rg ! n)\<lparr>rq_done := True, rq_reply := Some ev\<rparr>]\<rparr>"

definition try_match :: "reply_event \<Rightarrow> registry \<Rightarrow> nat option \<times> registry" where
  "try_match ev rg =
     (case find_where (\<lambda>(key, n). request_matches (rg_requests rg ! n) ev) (candidates ev rg) of
        None \<Rightarrow> (None, rg)
      | Some (key, n) \<Rightarrow> (Some n, drop_request key n (complete n ev rg)))"

definition pending_count :: "registry \<Rightarrow> nat" where
  "pending_count rg = sum_list (map (\<lambda>(key, b). length b) (rg_by_key rg))"

section \<open>The invariant\<close>

definition live :: "registry \<Rightarrow> nat \<Rightarrow> bool" where
  "live rg n \<longleftrightarrow> n < length (rg_requests rg) \<and> n \<in> set (bucket rg (request_key (rg_requests rg ! n)))"

definition bucket_ok :: "registry \<Rightarrow> request_key \<Rightarrow> nat list \<Rightarrow> bool" where
  "bucket_ok rg key b \<longleftrightarrow> sorted_wrt (<) b \<and>
     (\<forall>n \<in> set b. n < length (rg_requests rg) \<and> request_key (rg_requests rg ! n) = key \<and> \<not> rq_done (rg_requests rg ! n))"

definition registry_ok :: "registry \<Rightarrow> bool" where
  "registry_ok rg \<longleftrightarrow> distinct (map fst (rg_by_key rg)) \<and>
     (\<forall>p \<in> set (rg_by_key rg). snd p \<noteq> [] \<and> bucket_ok rg (fst p) (snd p))"

lemma bucket_entry: "registry_ok rg \<Longrightarrow> p \<in> set (rg_by_key rg) \<Longrightarrow> bucket rg (fst p) = snd p"
  by (cases p) (simp add: bucket_def registry_ok_def)

lemma bucket_okI: "registry_ok rg \<Longrightarrow> bucket_ok rg key (bucket rg key)"
proof (cases "map_of (rg_by_key rg) key")
  case (Some b)
  assume "registry_ok rg"
  moreover have "(key, b) \<in> set (rg_by_key rg)" using Some by (rule map_of_SomeD)
  ultimately show ?thesis using Some by (fastforce simp: registry_ok_def bucket_def)
qed (simp add: bucket_def bucket_ok_def)

lemma bucket_mem: "registry_ok rg \<Longrightarrow> n \<in> set (bucket rg key) \<Longrightarrow>
    n < length (rg_requests rg) \<and> request_key (rg_requests rg ! n) = key \<and> \<not> rq_done (rg_requests rg ! n)"
  using bucket_okI by (auto simp: bucket_ok_def)

lemma bucket_live: "registry_ok rg \<Longrightarrow> n \<in> set (bucket rg key) \<longleftrightarrow> live rg n \<and> request_key (rg_requests rg ! n) = key"
  using bucket_mem [of rg n key] by (auto simp: live_def)

lemma bucket_distinct: "registry_ok rg \<Longrightarrow> distinct (bucket rg key)"
  using bucket_okI [of rg key] by (auto simp: bucket_ok_def strict_sorted_iff)

text \<open>The invariant through the buckets alone.\<close>

lemma registry_ok_iff:
  "registry_ok rg \<longleftrightarrow> distinct (map fst (rg_by_key rg)) \<and> (\<forall>p \<in> set (rg_by_key rg). snd p \<noteq> []) \<and>
     (\<forall>key. bucket_ok rg key (bucket rg key))"
proof
  assume r: "distinct (map fst (rg_by_key rg)) \<and> (\<forall>p \<in> set (rg_by_key rg). snd p \<noteq> []) \<and>
     (\<forall>key. bucket_ok rg key (bucket rg key))"
  have "bucket rg (fst p) = snd p" if "p \<in> set (rg_by_key rg)" for p
    using that r by (simp add: bucket_def map_of_is_SomeI [of "rg_by_key rg" "fst p" "snd p"])
  with r show "registry_ok rg" unfolding registry_ok_def by metis
qed (simp_all add: bucket_okI registry_ok_def)

lemma bucket_assoc_set [simp]:
  "bucket (rg\<lparr>rg_requests := rs, rg_by_key := assoc_set key b (rg_by_key rg)\<rparr>) k = (if k = key then b else bucket rg k)"
  by (simp add: bucket_def)

lemma bucket_drop: "bucket (drop_request key n rg) k = (if k = key then remove1 n (bucket rg key) else bucket rg k)"
  by (simp add: drop_request_def bucket_def Let_def)

lemma bucket_complete [simp]: "bucket (complete n ev rg) k = bucket rg k"
  by (simp add: bucket_def complete_def)

lemma bucket_empty [simp]: "bucket empty_registry k = []"
  by (simp add: bucket_def empty_registry_def)

lemma registry_ok_empty [simp]: "registry_ok empty_registry"
  by (simp add: registry_ok_def empty_registry_def)

lemma set_assoc_set: "p \<in> set (assoc_set k v d) \<Longrightarrow> p = (k, v) \<or> p \<in> set d"
  by (induction k v d rule: assoc_set.induct) (auto split: if_splits)

lemma register_ok:
  assumes "registry_ok rg" shows "registry_ok (snd (register s k p t now rg))"
proof -
  have keep: "bucket_ok (snd (register s k p t now rg)) key b" if "bucket_ok rg key b" for key b
    using that by (auto simp: bucket_ok_def register_def Let_def nth_append)
  let ?key = "(s, p, k)"
  have "bucket_ok (snd (register s k p t now rg)) ?key (bucket rg ?key @ [length (rg_requests rg)])"
    using bucket_okI [OF assms, of ?key]
    by (auto simp: bucket_ok_def register_def Let_def nth_append sorted_wrt_append request_key_def)
  then show ?thesis using assms bucket_okI [OF assms] keep unfolding registry_ok_iff
    by (auto simp: register_def Let_def distinct_assoc_set request_key_def dest!: set_assoc_set)
qed

lemma drop_request_ok:
  assumes "registry_ok rg" shows "registry_ok (drop_request key n rg)"
proof -
  have keep: "bucket_ok (drop_request key n rg) k b" if "bucket_ok rg k b" for k b
    using that by (auto simp: bucket_ok_def drop_request_def Let_def)
  have "bucket_ok rg key (remove1 n (bucket rg key))"
    using bucket_okI [OF assms, of key] set_remove1_subset [of n "bucket rg key"]
    by (auto simp: bucket_ok_def strict_sorted_iff sorted_remove1)
  then have "bucket_ok (drop_request key n rg) k (bucket (drop_request key n rg) k)" for k
    using keep bucket_okI [OF assms] by (simp add: bucket_drop)
  then show ?thesis using assms unfolding registry_ok_iff
    by (auto simp: drop_request_def Let_def distinct_assoc_set distinct_assoc_del assoc_del_def distinct_map_filter dest!: set_assoc_set)
qed

lemma cancel_ok: "registry_ok rg \<Longrightarrow> registry_ok (cancel n rg)"
  by (simp add: cancel_def Let_def drop_request_ok)

lemma complete_ok:
  assumes "registry_ok rg" and "\<not> live rg n" shows "registry_ok (complete n ev rg)"
proof -
  have "bucket_ok (complete n ev rg) key (bucket rg key)" for key
  proof -
    have "n \<notin> set (bucket rg key)" using assms bucket_live by simp
    then have "rg_requests (complete n ev rg) ! m = rg_requests rg ! m" if "m \<in> set (bucket rg key)" for m
      using that by (auto simp: complete_def intro!: nth_list_update_neq)
    then show ?thesis
      using bucket_okI [OF assms(1), of key] unfolding bucket_ok_def by (auto simp: complete_def)
  qed
  then show ?thesis using assms(1) unfolding registry_ok_iff by (simp add: complete_def bucket_def)
qed

lemma drop_complete: "drop_request key n (complete m ev rg) = complete m ev (drop_request key n rg)"
  by (simp add: drop_request_def complete_def bucket_def Let_def)

lemma live_drop:
  assumes "registry_ok rg" and "n \<in> set (bucket rg key)"
  shows "live (drop_request key n rg) m \<longleftrightarrow> m \<noteq> n \<and> live rg m"
proof -
  have "distinct (bucket rg key)" using assms(1) by (rule bucket_distinct)
  moreover have "request_key (rg_requests rg ! n) = key" using bucket_mem [OF assms] by simp
  moreover have "rg_requests (drop_request key n rg) = rg_requests rg" by (simp add: drop_request_def Let_def)
  ultimately show ?thesis by (auto simp: live_def bucket_drop)
qed

section \<open>Keyed lookup and linear scan\<close>

text \<open>The reference: every waiting request is asked, those for an acknowledgement first, each kind by age.\<close>

definition scan_match :: "reply_event \<Rightarrow> registry \<Rightarrow> nat option" where
  "scan_match ev rg =
     (let all = [0 ..< length (rg_requests rg)]
      in find_where (\<lambda>n. live rg n \<and> request_matches (rg_requests rg ! n) ev)
           (filter (\<lambda>n. rq_policy (rg_requests rg ! n) = RESP_ACK) all @
            filter (\<lambda>n. rq_policy (rg_requests rg ! n) = RESP_SPECIFIC) all))"

lemma bucket_filter:
  assumes "registry_ok rg"
  shows "bucket rg key = filter (\<lambda>n. live rg n \<and> request_key (rg_requests rg ! n) = key) [0 ..< length (rg_requests rg)]"
proof (rule sorted_distinct_set_unique)
  show "sorted (bucket rg key)" "distinct (bucket rg key)"
    using bucket_okI [OF assms, of key] by (simp_all add: bucket_ok_def strict_sorted_iff)
  show "set (bucket rg key) = set (filter (\<lambda>n. live rg n \<and> request_key (rg_requests rg ! n) = key)
      [0 ..< length (rg_requests rg)])"
    using bucket_live [OF assms, of _ key] by (auto simp: live_def)
qed (simp_all add: sorted_wrt_filter)

lemma find_where_filter: "find_where P xs = (case filter P xs of [] \<Rightarrow> None | x # _ \<Rightarrow> Some x)"
  by (induction xs) auto

lemma find_where_map: "find_where P (map f xs) = map_option f (find_where (\<lambda>x. P (f x)) xs)"
  by (induction xs) auto

lemma find_where_congr: "filter P xs = filter Q ys \<Longrightarrow> find_where P xs = find_where Q ys"
  by (simp add: find_where_filter)

definition keys_ok :: "registry \<Rightarrow> bool" where
  "keys_ok rg \<longleftrightarrow> (\<forall>r \<in> set (rg_requests rg). 0 \<le> rq_key r \<and> rq_key r < 128)"

lemma ack_candidates:
  assumes "registry_ok rg" and "keys_ok rg"
  shows "filter (\<lambda>n. request_matches (rg_requests rg ! n) ev)
      (case ev_ack_of ev of None \<Rightarrow> [] | Some a \<Rightarrow> if re_opc ev AND 127 = OPC_ACK
         then bucket rg (re_sender3 ev, RESP_ACK, a AND 127) else []) =
    filter (\<lambda>n. live rg n \<and> request_matches (rg_requests rg ! n) ev)
      (filter (\<lambda>n. rq_policy (rg_requests rg ! n) = RESP_ACK) [0 ..< length (rg_requests rg)])"
proof (cases "ev_ack_of ev")
  case None
  have nonneg: "0 \<le> rq_key (rg_requests rg ! n)" if "n < length (rg_requests rg)" for n
    using assms(2) that by (simp add: keys_ok_def)
  have "filter (\<lambda>n. live rg n \<and> request_matches (rg_requests rg ! n) ev)
      (filter (\<lambda>n. rq_policy (rg_requests rg ! n) = RESP_ACK) [0 ..< length (rg_requests rg)]) = []"
    using None by (auto simp: request_matches_def Let_def filter_empty_conv dest!: nonneg)
  then show ?thesis by (simp add: None)
next
  case (Some a)
  have "a AND 127 = a" if "n < length (rg_requests rg)" "a = rq_key (rg_requests rg ! n)" for n
    using assms(2) that by (auto simp: keys_ok_def int_and_127)
  then show ?thesis
    by (auto simp: Some bucket_filter [OF assms(1)] request_matches_def request_key_def Let_def intro!: filter_cong)
qed

lemma specific_candidates:
  assumes "registry_ok rg"
  shows "filter (\<lambda>n. request_matches (rg_requests rg ! n) ev)
      (bucket rg (re_sender3 ev, RESP_SPECIFIC, re_opc ev AND 127)) =
    filter (\<lambda>n. live rg n \<and> request_matches (rg_requests rg ! n) ev)
      (filter (\<lambda>n. rq_policy (rg_requests rg ! n) = RESP_SPECIFIC) [0 ..< length (rg_requests rg)])"
  by (auto simp: bucket_filter [OF assms] request_matches_def request_key_def Let_def RESP_ACK_def RESP_SPECIFIC_def
      intro!: filter_cong)

lemma candidates_scan:
  assumes "registry_ok rg" and "keys_ok rg"
  shows "map_option snd (find_where (\<lambda>(key, n). request_matches (rg_requests rg ! n) ev) (candidates ev rg)) = scan_match ev rg"
proof -
  let ?m = "\<lambda>n. request_matches (rg_requests rg ! n) ev"
  let ?acks = "case ev_ack_of ev of None \<Rightarrow> [] | Some a \<Rightarrow> if re_opc ev AND 127 = OPC_ACK
         then bucket rg (re_sender3 ev, RESP_ACK, a AND 127) else []"
  let ?specs = "bucket rg (re_sender3 ev, RESP_SPECIFIC, re_opc ev AND 127)"
  have 1: "map_option snd (find_where (\<lambda>(key, n). P n) xs) = find_where P (map snd xs)" for P and xs :: "(request_key \<times> nat) list"
    by (induction xs) auto
  have 2: "map snd (candidates ev rg) = ?acks @ ?specs"
    by (cases "ev_ack_of ev") (simp_all add: candidates_def Let_def comp_def)
  have "map_option snd (find_where (\<lambda>(key, n). ?m n) (candidates ev rg)) = find_where ?m (?acks @ ?specs)"
    by (simp only: 1 2)
  also have "\<dots> = find_where (\<lambda>n. live rg n \<and> ?m n)
      (filter (\<lambda>n. rq_policy (rg_requests rg ! n) = RESP_ACK) [0 ..< length (rg_requests rg)] @
       filter (\<lambda>n. rq_policy (rg_requests rg ! n) = RESP_SPECIFIC) [0 ..< length (rg_requests rg)])"
    by (rule find_where_congr) (simp only: filter_append ack_candidates [OF assms] specific_candidates [OF assms(1)])
  finally show ?thesis by (simp only: scan_match_def Let_def)
qed

lemma candidates_mem: "(key, n) \<in> set (candidates ev rg) \<Longrightarrow> n \<in> set (bucket rg key)"
  by (auto simp: candidates_def Let_def split: option.splits if_splits)

lemma try_match_cases:
  assumes "registry_ok rg"
  obtains "find_where (\<lambda>(key, n). request_matches (rg_requests rg ! n) ev) (candidates ev rg) = None"
      and "try_match ev rg = (None, rg)"
  | key n where "find_where (\<lambda>(key, n). request_matches (rg_requests rg ! n) ev) (candidates ev rg) = Some (key, n)"
      and "n \<in> set (bucket rg key)" and "request_matches (rg_requests rg ! n) ev"
      and "try_match ev rg = (Some n, complete n ev (drop_request key n rg))"
proof (cases "find_where (\<lambda>(key, n). request_matches (rg_requests rg ! n) ev) (candidates ev rg)")
  case None
  then show ?thesis using that(1) by (simp add: try_match_def)
next
  case (Some p)
  obtain key n where p: "p = (key, n)" by (cases p)
  from find_where_Some [OF Some] have "n \<in> set (bucket rg key)" "request_matches (rg_requests rg ! n) ev"
    by (auto simp: p dest: candidates_mem)
  with that(2) [of key n] Some show ?thesis by (simp add: try_match_def p drop_complete)
qed

lemma hit_result:
  fixes ev :: reply_event and rg :: registry and key :: request_key and n :: nat
  assumes ok: "registry_ok rg" and n: "n \<in> set (bucket rg key)"
  defines "rg' \<equiv> complete n ev (drop_request key n rg)"
  shows "registry_ok rg'" and "live rg' m \<longleftrightarrow> m \<noteq> n \<and> live rg m"
    and "rg_requests rg' = (rg_requests rg)[n := (rg_requests rg ! n)\<lparr>rq_done := True, rq_reply := Some ev\<rparr>]"
    and "n < length (rg_requests rg)" and "bucket rg' k = (if k = key then remove1 n (bucket rg key) else bucket rg k)"
proof -
  note mem = bucket_mem [OF ok n]
  have l: "live (drop_request key n rg) m \<longleftrightarrow> m \<noteq> n \<and> live rg m" for m by (rule live_drop [OF ok n])
  show "registry_ok rg'" unfolding rg'_def by (rule complete_ok [OF drop_request_ok [OF ok]]) (simp add: l)
  show req: "rg_requests rg' = (rg_requests rg)[n := (rg_requests rg ! n)\<lparr>rq_done := True, rq_reply := Some ev\<rparr>]"
    by (simp add: rg'_def complete_def drop_request_def Let_def)
  have "request_key (rg_requests rg' ! m) = request_key (rg_requests rg ! m)" for m
    using mem by (simp add: req nth_list_update request_key_def)
  moreover have "rg_requests (drop_request key n rg) = rg_requests rg" by (simp add: drop_request_def Let_def)
  ultimately have "live rg' m \<longleftrightarrow> live (drop_request key n rg) m" for m
    by (simp add: live_def req) (simp add: rg'_def)
  with l show "live rg' m \<longleftrightarrow> m \<noteq> n \<and> live rg m" by simp
  show "n < length (rg_requests rg)" using mem by simp
  show "bucket rg' k = (if k = key then remove1 n (bucket rg key) else bucket rg k)"
    by (simp add: rg'_def bucket_drop)
qed

text \<open>
  C15.  The keyed lookup finds what a scan of all waiting requests would find, and a matched event
  completes exactly that request: it carries the event as its reply and is no longer waiting, and no other
  request changes.  An event nobody waits for changes nothing.
\<close>

theorem try_match_oldest:
  assumes "registry_ok rg" and "keys_ok rg"
  shows "fst (try_match ev rg) = scan_match ev rg \<and>
     (case scan_match ev rg of
        None \<Rightarrow> snd (try_match ev rg) = rg
      | Some n \<Rightarrow> live rg n \<and> registry_ok (snd (try_match ev rg)) \<and>
          rg_requests (snd (try_match ev rg)) =
            (rg_requests rg)[n := (rg_requests rg ! n)\<lparr>rq_done := True, rq_reply := Some ev\<rparr>] \<and>
          (\<forall>m. live (snd (try_match ev rg)) m \<longleftrightarrow> m \<noteq> n \<and> live rg m))"
proof (rule try_match_cases [OF assms(1), of ev])
  assume "find_where (\<lambda>(key, n). request_matches (rg_requests rg ! n) ev) (candidates ev rg) = None"
    and "try_match ev rg = (None, rg)"
  with candidates_scan [OF assms, of ev] show ?thesis by simp
next
  fix key n
  assume hit: "find_where (\<lambda>(key, n). request_matches (rg_requests rg ! n) ev) (candidates ev rg) = Some (key, n)"
    "n \<in> set (bucket rg key)" "try_match ev rg = (Some n, complete n ev (drop_request key n rg))"
  from candidates_scan [OF assms, of ev] hit(1) have "scan_match ev rg = Some n" by simp
  moreover have "live rg n" using bucket_live [OF assms(1)] hit(2) by blast
  ultimately show ?thesis using hit(3) hit_result [OF assms(1) hit(2)] by simp
qed

theorem try_match_oldest_witness:
  "scan_match \<lparr>re_type = 254, re_dir = 128, re_opc = 126, re_sender3 = [1, 2, 3], re_receiver3 = [0, 0, 0],
      re_host_rssi = - 50, re_host_snr = 5, re_ts = 1, re_reply = Ack 5 0 None\<rparr>
     (snd (register [1, 2, 3] 5 RESP_ACK 2 0 (snd (register [1, 2, 3] 2 RESP_ACK 2 0 empty_registry)))) = Some 1 \<and>
   fst (try_match \<lparr>re_type = 254, re_dir = 128, re_opc = 126, re_sender3 = [1, 2, 3], re_receiver3 = [0, 0, 0],
      re_host_rssi = - 50, re_host_snr = 5, re_ts = 1, re_reply = Ack 5 0 None\<rparr>
     (snd (register [1, 2, 3] 5 RESP_ACK 2 0 (snd (register [1, 2, 3] 2 RESP_ACK 2 0 empty_registry))))) = Some 1"
proof -
  let ?rg = "snd (register [1, 2, 3] 5 RESP_ACK 2 0 (snd (register [1, 2, 3] 2 RESP_ACK 2 0 empty_registry)))"
  let ?ev = "\<lparr>re_type = 254, re_dir = 128, re_opc = 126, re_sender3 = [1, 2, 3], re_receiver3 = [0, 0, 0],
      re_host_rssi = - 50, re_host_snr = 5, re_ts = 1, re_reply = Ack 5 0 None\<rparr>"
  have ok: "registry_ok ?rg" by (intro register_ok registry_ok_empty)
  have keys: "keys_ok ?rg" by (simp add: keys_ok_def register_def empty_registry_def Let_def)
  have "scan_match ?ev ?rg = Some 1"
    by (simp add: scan_match_def register_def empty_registry_def Let_def live_def bucket_def request_key_def
        request_matches_def ev_ack_of_def RESP_ACK_def OPC_ACK_def)
  with try_match_oldest [OF ok keys, of ?ev] show ?thesis by (simp only: simp_thms)
qed

section \<open>A waiter sees the first event it waits for\<close>

text \<open>
  What a client of the registry relies on: \<open>asks s n q\<close> says that request \<open>n\<close> waits for \<open>q\<close>, alone under
  its key, and \<open>settled\<close> that nobody waits for it any more.
\<close>

locale reply_registry =
  fixes enter :: "'q \<Rightarrow> 's \<Rightarrow> nat \<times> 's"
    and offer :: "'e \<Rightarrow> 's \<Rightarrow> 's"
    and answer :: "'s \<Rightarrow> nat \<Rightarrow> 'e option"
    and asks :: "'s \<Rightarrow> nat \<Rightarrow> 'q \<Rightarrow> bool"
    and settled :: "'s \<Rightarrow> nat \<Rightarrow> bool"
    and free :: "'s \<Rightarrow> 'q \<Rightarrow> bool"
    and accepts :: "'q \<Rightarrow> 'e \<Rightarrow> bool"
  assumes enter: "free s q \<Longrightarrow> enter q s = (n, s') \<Longrightarrow> asks s' n q"
    and unanswered: "asks s n q \<Longrightarrow> answer s n = None"
    and offer_hit: "asks s n q \<Longrightarrow> accepts q e \<Longrightarrow> settled (offer e s) n \<and> answer (offer e s) n = Some e"
    and offer_miss: "asks s n q \<Longrightarrow> \<not> accepts q e \<Longrightarrow> asks (offer e s) n q"
    and offer_settled: "settled s n \<Longrightarrow> settled (offer e s) n \<and> answer (offer e s) n = answer s n"
begin

lemma settled_fold: "settled s n \<Longrightarrow> answer (fold offer es s) n = answer s n"
proof (induction es arbitrary: s)
  case (Cons e es)
  with offer_settled [OF Cons.prems, of e] show ?case by simp
qed simp

lemma answer_first: "asks s n q \<Longrightarrow> answer (fold offer es s) n = find_where (accepts q) es"
proof (induction es arbitrary: s)
  case Nil
  then show ?case by (simp add: unanswered)
next
  case (Cons e es)
  show ?case
  proof (cases "accepts q e")
    case True
    with offer_hit [OF Cons.prems True] show ?thesis by (simp add: settled_fold)
  next
    case False
    with Cons.IH [OF offer_miss [OF Cons.prems False]] show ?thesis by simp
  qed
qed

lemma enter_answer: "free s q \<Longrightarrow> enter q s = (n, s') \<Longrightarrow> answer (fold offer es s') n = find_where (accepts q) es"
  by (rule answer_first [OF enter])

end

type_synonym question = "byte list \<times> int \<times> int"

definition enter_request :: "question \<Rightarrow> registry \<Rightarrow> nat \<times> registry" where
  "enter_request q rg = (case q of (sender3, policy, key) \<Rightarrow> register sender3 key policy 0 0 rg)"

definition question_ok :: "question \<Rightarrow> bool" where
  "question_ok q \<longleftrightarrow> (case q of (sender3, policy, key) \<Rightarrow>
     0 \<le> key \<and> key < 128 \<and> (policy = RESP_ACK \<or> policy = RESP_SPECIFIC \<and> key \<noteq> OPC_ACK))"

definition answers :: "question \<Rightarrow> reply_event \<Rightarrow> bool" where
  "answers q ev \<longleftrightarrow> (case q of (sender3, policy, key) \<Rightarrow>
     re_sender3 ev = sender3 \<and>
     (if policy = RESP_ACK then re_opc ev AND 127 = OPC_ACK \<and> ev_ack_of ev = Some key
      else re_opc ev AND 127 = key))"

definition reply_of :: "registry \<Rightarrow> nat \<Rightarrow> reply_event option" where
  "reply_of rg n = rq_reply (rg_requests rg ! n)"

definition vacant :: "registry \<Rightarrow> question \<Rightarrow> bool" where
  "vacant rg q \<longleftrightarrow> registry_ok rg \<and> keys_ok rg \<and> bucket rg q = [] \<and> question_ok q"

definition asks :: "registry \<Rightarrow> nat \<Rightarrow> question \<Rightarrow> bool" where
  "asks rg n q \<longleftrightarrow> registry_ok rg \<and> keys_ok rg \<and> bucket rg q = [n] \<and> question_ok q \<and> reply_of rg n = None"

definition settled :: "registry \<Rightarrow> nat \<Rightarrow> bool" where
  "settled rg n \<longleftrightarrow> registry_ok rg \<and> \<not> live rg n"

lemma request_answers:
  assumes "question_ok q" and "request_key r = q"
  shows "request_matches r ev \<longleftrightarrow> answers q ev"
  using assms
  by (auto simp: question_ok_def answers_def request_matches_def request_key_def Let_def RESP_ACK_def RESP_SPECIFIC_def
      split: option.splits if_splits)

lemma asksD:
  assumes "asks rg n q"
  shows "registry_ok rg" "n < length (rg_requests rg)" "request_key (rg_requests rg ! n) = q"
    "request_matches (rg_requests rg ! n) ev \<longleftrightarrow> answers q ev"
  using assms bucket_mem [of rg n q] request_answers [of q "rg_requests rg ! n" ev] by (auto simp: asks_def)

lemma keys_ok_complete: "keys_ok rg \<Longrightarrow> rg_requests rg' = (rg_requests rg)[n := (rg_requests rg ! n)\<lparr>rq_done := True, rq_reply := Some ev\<rparr>] \<Longrightarrow>
    n < length (rg_requests rg) \<Longrightarrow> keys_ok rg'"
  by (auto simp: keys_ok_def dest!: set_update_subset_insert [THEN subsetD])

lemma asks_candidates:
  assumes "asks rg n q" and "answers q ev"
  shows "find_where (\<lambda>(key, n). request_matches (rg_requests rg ! n) ev) (candidates ev rg) = Some (q, n)"
proof -
  obtain s p k where q: "q = (s, p, k)" by (cases q)
  have a: "question_ok q" "bucket rg q = [n]" using assms(1) by (simp_all add: asks_def)
  have m: "request_matches (rg_requests rg ! n) ev" using asksD(4) [OF assms(1)] assms(2) by simp
  show ?thesis
  proof (cases "p = RESP_ACK")
    case True
    then have "re_opc ev AND 127 = OPC_ACK" "ev_ack_of ev = Some k" "k AND 127 = k" "re_sender3 ev = s"
      using a(1) assms(2) by (auto simp: q answers_def question_ok_def int_and_127)
    with True a(2) m show ?thesis by (simp add: candidates_def Let_def q)
  next
    case False
    then have "re_opc ev AND 127 = k" "k \<noteq> OPC_ACK" "re_sender3 ev = s" "p = RESP_SPECIFIC"
      using a(1) assms(2) by (auto simp: q answers_def question_ok_def)
    with a(2) m show ?thesis by (cases "ev_ack_of ev") (simp_all add: candidates_def Let_def q)
  qed
qed

lemma try_match_hit:
  assumes "asks rg n q" and "answers q ev"
  shows "settled (snd (try_match ev rg)) n" and "reply_of (snd (try_match ev rg)) n = Some ev"
    and "rq_done (rg_requests (snd (try_match ev rg)) ! n)"
proof -
  have n: "n \<in> set (bucket rg q)" using assms(1) by (simp add: asks_def)
  note h = hit_result [OF asksD(1) [OF assms(1)] n]
  have "try_match ev rg = (Some n, complete n ev (drop_request q n rg))"
    using asks_candidates [OF assms] by (simp add: try_match_def drop_complete)
  then show "settled (snd (try_match ev rg)) n" and "reply_of (snd (try_match ev rg)) n = Some ev"
    and "rq_done (rg_requests (snd (try_match ev rg)) ! n)"
    using h asksD(2) [OF assms(1)] by (simp_all add: settled_def reply_of_def)
qed

lemma try_match_miss:
  assumes "asks rg n q" and "\<not> answers q ev"
  shows "asks (snd (try_match ev rg)) n q" and "rq_done (rg_requests (snd (try_match ev rg)) ! n) = rq_done (rg_requests rg ! n)"
proof -
  note ok = asksD(1) [OF assms(1)]
  have "asks (snd (try_match ev rg)) n q \<and>
      rq_done (rg_requests (snd (try_match ev rg)) ! n) = rq_done (rg_requests rg ! n)"
  proof (rule try_match_cases [OF ok, of ev])
    fix key m
    assume hit: "m \<in> set (bucket rg key)" "request_matches (rg_requests rg ! m) ev"
      "try_match ev rg = (Some m, complete m ev (drop_request key m rg))"
    note h = hit_result [OF ok hit(1)]
    have mn: "m \<noteq> n" using hit(2) asksD(4) [OF assms(1), of ev] assms(2) by auto
    have "key \<noteq> q"
    proof
      assume "key = q"
      with hit(1) assms(1) mn show False by (simp add: asks_def)
    qed
    with h mn hit(3) assms(1) keys_ok_complete [OF _ h(3) h(4)] show ?thesis
      by (auto simp: asks_def reply_of_def)
  qed (use assms(1) in simp)
  then show "asks (snd (try_match ev rg)) n q"
    and "rq_done (rg_requests (snd (try_match ev rg)) ! n) = rq_done (rg_requests rg ! n)" by simp_all
qed

lemma try_match_settled:
  assumes "settled rg n"
  shows "settled (snd (try_match ev rg)) n" and "reply_of (snd (try_match ev rg)) n = reply_of rg n"
proof -
  have ok: "registry_ok rg" and nl: "\<not> live rg n" using assms by (simp_all add: settled_def)
  have "settled (snd (try_match ev rg)) n \<and> reply_of (snd (try_match ev rg)) n = reply_of rg n"
  proof (rule try_match_cases [OF ok, of ev])
    fix key m
    assume hit: "m \<in> set (bucket rg key)" "try_match ev rg = (Some m, complete m ev (drop_request key m rg))"
    note h = hit_result [OF ok hit(1)]
    have "m \<noteq> n" using hit(1) bucket_live [OF ok] nl by auto
    with h hit(2) nl show ?thesis by (simp add: settled_def reply_of_def)
  qed (use assms in simp)
  then show "settled (snd (try_match ev rg)) n" and "reply_of (snd (try_match ev rg)) n = reply_of rg n" by simp_all
qed

lemma register_asks:
  assumes "vacant rg (s, p, k)" and "register s k p t now rg = (n, rg')"
  shows "asks rg' n (s, p, k)" and "\<not> rq_done (rg_requests rg' ! n)"
proof -
  have ok: "registry_ok rg" "keys_ok rg" "question_ok (s, p, k)" "bucket rg (s, p, k) = []" using assms(1) by (simp_all add: vacant_def)
  have rg': "rg' = snd (register s k p t now rg)" "n = length (rg_requests rg)"
    using assms(2) by (simp, simp add: register_def Let_def)
  have "0 \<le> k" "k < 128" using ok(3) by (simp_all add: question_ok_def)
  with ok show "asks rg' n (s, p, k)" unfolding rg' asks_def
    by (intro conjI register_ok) (auto simp: register_def Let_def keys_ok_def reply_of_def request_key_def)
  show "\<not> rq_done (rg_requests rg' ! n)" unfolding rg' by (simp add: register_def Let_def)
qed

lemma asks_unanswered: "asks rg n q \<Longrightarrow> reply_of rg n = None"
  by (simp add: asks_def)

interpretation pending: reply_registry enter_request "\<lambda>ev rg. snd (try_match ev rg)" reply_of asks settled vacant answers
proof unfold_locales
  show "asks s' n q" if "vacant s q" "enter_request q s = (n, s')" for s q n s'
    using that register_asks(1) by (cases q) (auto simp: enter_request_def)
qed (simp_all add: try_match_hit try_match_miss try_match_settled asks_unanswered)

text \<open>How a request stands: still asking, or answered, done and out of the registry.\<close>

definition stands :: "registry \<Rightarrow> nat \<Rightarrow> question \<Rightarrow> reply_event option \<Rightarrow> bool" where
  "stands rg n q r \<longleftrightarrow>
     (case r of
        None \<Rightarrow> asks rg n q
      | Some ev \<Rightarrow> settled rg n \<and> reply_of rg n = Some ev \<and> rq_done (rg_requests rg ! n) \<and>
          request_key (rg_requests rg ! n) = q \<and> vacant rg q)"

lemma asks_not_done: "asks rg n q \<Longrightarrow> \<not> rq_done (rg_requests rg ! n)"
  using bucket_mem [of rg n q] by (simp add: asks_def)

lemma stands_done: "stands rg n q r \<Longrightarrow> rq_done (rg_requests rg ! n) \<longleftrightarrow> r \<noteq> None"
  by (cases r) (simp_all add: stands_def asks_not_done)

lemma stands_reply: "stands rg n q r \<Longrightarrow> rq_reply (rg_requests rg ! n) = r"
  by (cases r) (simp_all add: stands_def asks_def reply_of_def)

lemma try_match_keeps:
  assumes "settled rg n" and "vacant rg q" and "rq_done (rg_requests rg ! n)"
  shows "vacant (snd (try_match ev rg)) q" and "rq_done (rg_requests (snd (try_match ev rg)) ! n)"
    and "request_key (rg_requests (snd (try_match ev rg)) ! n) = request_key (rg_requests rg ! n)"
proof -
  have ok: "registry_ok rg" and nl: "\<not> live rg n" using assms(1) by (simp_all add: settled_def)
  have "vacant (snd (try_match ev rg)) q \<and> rq_done (rg_requests (snd (try_match ev rg)) ! n) \<and>
      request_key (rg_requests (snd (try_match ev rg)) ! n) = request_key (rg_requests rg ! n)"
  proof (rule try_match_cases [OF ok, of ev])
    fix key m
    assume hit: "m \<in> set (bucket rg key)" "try_match ev rg = (Some m, complete m ev (drop_request key m rg))"
    note h = hit_result [OF ok hit(1)]
    have "m \<noteq> n" using hit(1) bucket_live [OF ok] nl by auto
    moreover have "key \<noteq> q" using hit(1) assms(2) by (auto simp: vacant_def)
    ultimately show ?thesis using h hit(2) assms(2,3) keys_ok_complete [OF _ h(3) h(4)] by (auto simp: vacant_def)
  qed (use assms in simp)
  then show "vacant (snd (try_match ev rg)) q" and "rq_done (rg_requests (snd (try_match ev rg)) ! n)"
    and "request_key (rg_requests (snd (try_match ev rg)) ! n) = request_key (rg_requests rg ! n)" by simp_all
qed

lemma try_match_hit_vacant:
  assumes "asks rg n q" and "answers q ev"
  shows "vacant (snd (try_match ev rg)) q" and "request_key (rg_requests (snd (try_match ev rg)) ! n) = q"
proof -
  have n: "n \<in> set (bucket rg q)" using assms(1) by (simp add: asks_def)
  note h = hit_result [OF asksD(1) [OF assms(1)] n]
  have "try_match ev rg = (Some n, complete n ev (drop_request q n rg))"
    using asks_candidates [OF assms] by (simp add: try_match_def drop_complete)
  with h assms(1) keys_ok_complete [OF _ h(3) h(4)] asksD(3) [OF assms(1)]
  show "vacant (snd (try_match ev rg)) q" and "request_key (rg_requests (snd (try_match ev rg)) ! n) = q"
    by (auto simp: vacant_def asks_def request_key_def)
qed

lemma stands_step:
  assumes "stands rg n q r"
  shows "stands (snd (try_match ev rg)) n q (case r of None \<Rightarrow> if answers q ev then Some ev else None | Some e \<Rightarrow> Some e)"
proof (cases r)
  case None
  with assms show ?thesis
    using try_match_hit [of rg n q ev] try_match_miss [of rg n q ev] try_match_hit_vacant [of rg n q ev]
    by (simp add: stands_def)
next
  case (Some e)
  with assms show ?thesis
    using try_match_settled [of rg n ev] try_match_keeps [of rg n q ev] by (simp add: stands_def)
qed

lemma stands_fold:
  "stands rg n q r \<Longrightarrow> stands (fold (\<lambda>ev rg. snd (try_match ev rg)) evs rg) n q
     (case r of None \<Rightarrow> find_where (answers q) evs | Some e \<Rightarrow> Some e)"
proof (induction evs arbitrary: rg r)
  case Nil
  then show ?case by (cases r) simp_all
next
  case (Cons ev evs)
  from Cons.IH [OF stands_step [OF Cons.prems, of ev]] show ?case by (cases r) (simp_all split: if_splits)
qed

lemma cancel_stands:
  assumes "stands rg n q r"
  shows "vacant (cancel n rg) q" and "rg_requests (cancel n rg) = rg_requests rg"
proof -
  show "rg_requests (cancel n rg) = rg_requests rg" by (simp add: cancel_def drop_request_def Let_def)
  show "vacant (cancel n rg) q"
  proof (cases r)
    case None
    then have a: "asks rg n q" using assms by (simp add: stands_def)
    with asksD(3) [OF a] have "cancel n rg = drop_request q n rg" by (simp add: cancel_def asks_def)
    with a show ?thesis
      by (simp add: asks_def vacant_def drop_request_ok bucket_drop keys_ok_def) (simp add: drop_request_def Let_def)
  next
    case (Some e)
    with assms show ?thesis by (simp add: stands_def cancel_def vacant_def)
  qed
qed

end
