(* ===== verification/Gateway.thy ===== *)
theory Gateway
  imports Control Pending
begin

text \<open>
  \<^verbatim>\<open>racelink/services/gateway_service.py\<close>: what the host does with every gateway
  event, the unicast request with its reply, the retries, the broadcast collector; with the parts of
  \<^verbatim>\<open>controller.py\<close> they use.  The state is the controller's, together with the
  environment it meets: a clock, the timed events the reader thread will deliver, and what becomes of each
  send.  While a call blocks, the reader delivers the events that arrive; handlers are atomic.  Wall clock
  and monotonic clock are one.
\<close>

section \<open>Controller state\<close>

record expectation =
  ex_dev :: nat
  ex_rule :: packet_rule
  ex_opcode7 :: int
  ex_sender_last3 :: string
  ex_ts :: rat

datatype job = RestoreGroup nat int | Reconnect

text \<open>
  \<open>ct_tx k\<close> is the fate of the k-th send: \<open>None\<close> when the USB write fails, otherwise the time until
  its outcome and the outcome.  \<open>ct_listener\<close> is the predicate of the collector that listens at present
  (there is at most one), \<open>ct_collected\<close> what it has collected.  \<open>ct_jobs\<close> are the background jobs
  submitted, \<open>ct_notices\<close> counts the notifications of the operator.
\<close>

record ctl =
  ct_devices :: "rl_device list"
  ct_groups :: "rl_group list"
  ct_transport :: bool
  ct_hooks :: bool
  ct_ready :: bool
  ct_discovery :: bool
  ct_registry :: registry
  ct_expect :: "expectation option"
  ct_pending_config :: "(string \<times> int \<times> int) list"
  ct_last_error_notify :: rat
  ct_notices :: nat
  ct_reconnecting :: bool
  ct_last_reconnect :: rat
  ct_link_recovery :: bool
  ct_reassign_recent :: "(string \<times> rat) list"
  ct_pool :: bool
  ct_jobs :: "job list"
  ct_listener :: "(gw_event \<Rightarrow> bool) option"
  ct_collected :: "(rat \<times> gw_event) list"
  ct_sent :: "packet list"
  ct_now :: rat
  ct_incoming :: "(rat \<times> gw_event) list"
  ct_tx :: "nat \<Rightarrow> (rat \<times> send_outcome) option"
  ct_sends :: nat

definition GATEWAY_STATE_RX_WINDOW :: int where "GATEWAY_STATE_RX_WINDOW = 2"

definition upd_device :: "nat \<Rightarrow> (rl_device \<Rightarrow> rl_device) \<Rightarrow> ctl \<Rightarrow> ctl" where
  "upd_device i f s = s\<lparr>ct_devices := (ct_devices s)[i := f (ct_devices s ! i)]\<rparr>"

definition device_at :: "string \<Rightarrow> ctl \<Rightarrow> nat option" where
  "device_at addr s = get_device_from_address (ct_devices s) addr"

definition stash_pending_config :: "string \<Rightarrow> int \<Rightarrow> int \<Rightarrow> ctl \<Rightarrow> ctl" where
  "stash_pending_config recv3_hex option_no data0 s =
     s\<lparr>ct_pending_config := assoc_set recv3_hex (option_no AND 255, data0 AND 255) (ct_pending_config s)\<rparr>"

definition take_pending_config :: "string \<Rightarrow> ctl \<Rightarrow> (int \<times> int) option \<times> ctl" where
  "take_pending_config recv3_hex s =
     (map_of (ct_pending_config s) recv3_hex,
      s\<lparr>ct_pending_config := assoc_del recv3_hex (ct_pending_config s)\<rparr>)"

definition set_pending_expect :: "nat \<Rightarrow> packet_rule \<Rightarrow> int \<Rightarrow> string \<Rightarrow> rat \<Rightarrow> ctl \<Rightarrow> ctl" where
  "set_pending_expect dev rule opcode7 sender_last3 ts s =
     s\<lparr>ct_expect := Some \<lparr>ex_dev = dev, ex_rule = rule, ex_opcode7 = opcode7,
                           ex_sender_last3 = upper sender_last3, ex_ts = ts\<rparr>\<rparr>"

definition clear_pending_expect_if :: "expectation \<Rightarrow> ctl \<Rightarrow> ctl" where
  "clear_pending_expect_if expected s = (if ct_expect s = Some expected then s\<lparr>ct_expect := None\<rparr> else s)"

section \<open>Configuration updates\<close>

definition config_bit :: "int \<Rightarrow> nat option" where
  "config_bit option_no = map_of [(1, 0), (3, 1), (4, 2)] option_no"

definition apply_config_update :: "int \<Rightarrow> int \<Rightarrow> rl_device \<Rightarrow> rl_device" where
  "apply_config_update option_no data0 dev =
     (case config_bit option_no of
        None \<Rightarrow> dev
      | Some b \<Rightarrow>
          let mask = push_bit b 1 in
          if data0 \<noteq> 0 then dev\<lparr>d_configByte := d_configByte dev OR mask\<rparr>
          else dev\<lparr>d_configByte := d_configByte dev AND (NOT mask AND 255)\<rparr>)"

section \<open>Received events\<close>

definition handle_ack_event :: "reply_event \<Rightarrow> ctl \<Rightarrow> ctl" where
  "handle_ack_event ev s =
     (let sender3_hex = hex_bytes (re_sender3 ev) in
      case device_at sender3_hex s of
        None \<Rightarrow> s
      | Some i \<Rightarrow>
          (case re_reply ev of
             Ack ack_of ack_status ack_seq \<Rightarrow>
               let s1 = upd_device i (ack_update (ct_now s) ack_of ack_status ack_seq
                                        (Some (re_host_rssi ev)) (Some (re_host_snr ev))) s
               in if ack_of = OPC_CONFIG \<and> ack_status = 0 then
                    (case take_pending_config sender3_hex s1 of
                       (Some (option_no, data0), s2) \<Rightarrow> upd_device i (apply_config_update option_no data0) s2
                     | (None, s2) \<Rightarrow> s2)
                  else s1
           | _ \<Rightarrow> s))"

definition schedule_reconnect :: "ctl \<Rightarrow> ctl" where
  "schedule_reconnect s =
     (if ct_reconnecting s \<or> ct_now s - ct_last_reconnect s < 5 then s
      else s\<lparr>ct_last_reconnect := ct_now s, ct_reconnecting := True, ct_link_recovery := True,
             ct_jobs := ct_jobs s @ [Reconnect]\<rparr>)"

definition on_gateway_error :: "ctl \<Rightarrow> ctl" where
  "on_gateway_error s =
     (let s1 = s\<lparr>ct_ready := False\<rparr>;
          s2 = (if ct_now s1 - ct_last_error_notify s1 > 2
                then s1\<lparr>ct_last_error_notify := ct_now s1, ct_notices := Suc (ct_notices s1)\<rparr> else s1)
      in schedule_reconnect s2)"

definition pending_window_closed :: "ctl \<Rightarrow> ctl" where
  "pending_window_closed s =
     (case ct_expect s of
        None \<Rightarrow> s
      | Some p \<Rightarrow> clear_pending_expect_if p
          (upd_device (ex_dev p) (mark_offline (ct_now s) (''Missing reply ('' @ pr_name (ex_rule p) @ '')'')) s))"

definition expectation_met :: "expectation \<Rightarrow> reply_event \<Rightarrow> bool" where
  "expectation_met p ev =
     (let opcode7 = ex_opcode7 p AND 127; policy = response_policy opcode7 in
      if policy = RESP_ACK then re_opc ev = OPC_ACK \<and> (case ev_ack_of ev of None \<Rightarrow> - 2 | Some a \<Rightarrow> a) = opcode7
      else policy = RESP_SPECIFIC \<and> re_opc ev = response_opcode opcode7)"

definition pending_try_match :: "reply_event \<Rightarrow> ctl \<Rightarrow> ctl" where
  "pending_try_match ev s =
     (case ct_expect s of
        None \<Rightarrow> s
      | Some p \<Rightarrow>
          let sender3_hex = hex_bytes (re_sender3 ev) in
          if sender3_hex = [] \<or> sender3_hex \<noteq> upper (ex_sender_last3 p) then s
          else if expectation_met p ev
               then clear_pending_expect_if p (upd_device (ex_dev p) (mark_online (ct_now s)) s)
               else s)"

section \<open>Restoring the group of a known device\<close>

definition AUTO_REASSIGN_COOLDOWN :: rat where "AUTO_REASSIGN_COOLDOWN = 2"

definition prune_auto_reassign_cache :: "rat \<Rightarrow> ctl \<Rightarrow> ctl" where
  "prune_auto_reassign_cache now s =
     s\<lparr>ct_reassign_recent := filter (\<lambda>p. now - snd p < max (AUTO_REASSIGN_COOLDOWN * 4) 5) (ct_reassign_recent s)\<rparr>"

definition auto_reassign_suppressed :: "string \<Rightarrow> ctl \<Rightarrow> bool \<times> ctl" where
  "auto_reassign_suppressed mac s =
     (let s = prune_auto_reassign_cache (ct_now s) s;
          last_ts = (case map_of (ct_reassign_recent s) mac of None \<Rightarrow> 0 | Some t \<Rightarrow> t)
      in (ct_now s - last_ts < AUTO_REASSIGN_COOLDOWN, s))"

definition mark_auto_reassign :: "string \<Rightarrow> ctl \<Rightarrow> ctl" where
  "mark_auto_reassign mac s = s\<lparr>ct_reassign_recent := assoc_set mac (ct_now s) (ct_reassign_recent s)\<rparr>"

definition spawn_auto_reassign_worker :: "nat \<Rightarrow> int \<Rightarrow> ctl \<Rightarrow> ctl" where
  "spawn_auto_reassign_worker i stored_group s =
     (if ct_pool s then s\<lparr>ct_jobs := ct_jobs s @ [RestoreGroup i stored_group]\<rparr> else s)"

text \<open>The stored group; one that no longer exists is reset to 0.\<close>

definition valid_stored_group :: "nat \<Rightarrow> ctl \<Rightarrow> int \<times> ctl" where
  "valid_stored_group i s =
     (let stored_group = d_groupId (ct_devices s ! i) AND 255
      in if int (length (ct_groups s)) \<le> stored_group
         then (0, upd_device i (\<lambda>d. d\<lparr>d_groupId := 0\<rparr>) s) else (stored_group, s))"

definition request_restore :: "nat \<Rightarrow> int \<Rightarrow> ctl \<Rightarrow> ctl" where
  "request_restore i stored_group s =
     (let mac = upper (d_addr (ct_devices s ! i)) in
      if mac = [] then s
      else case auto_reassign_suppressed mac s of (suppressed, s1) \<Rightarrow>
        if suppressed then s1
        else spawn_auto_reassign_worker i stored_group (mark_auto_reassign mac s1))"

definition restore_known_device_group :: "nat \<Rightarrow> int \<Rightarrow> bool \<Rightarrow> ctl \<Rightarrow> ctl" where
  "restore_known_device_group i reported_group is_known_device s =
     (if \<not> is_known_device \<or> reported_group AND 255 \<noteq> 0 \<or> ct_discovery s then s
      else case valid_stored_group i s of (stored_group, s1) \<Rightarrow>
        if stored_group = 0 then s1 else request_restore i stored_group s1)"

definition handle_identify :: "reply_event \<Rightarrow> int \<Rightarrow> int \<Rightarrow> int \<Rightarrow> byte list \<Rightarrow> ctl \<Rightarrow> ctl" where
  "handle_identify ev version caps groupId mac6 s =
     (if length mac6 \<noteq> 6 then s
      else
        let mac12 = hex_bytes mac6;
            known = device_at mac12 s;
            s1 = (if known = None
                  then s\<lparr>ct_devices := ct_devices s @ [create_device mac12 caps (''WLED '' @ mac12) []]\<rparr> else s);
            i = (case known of None \<Rightarrow> length (ct_devices s) | Some i \<Rightarrow> i);
            s2 = upd_device i (update_from_identify (ct_now s) (Some version) (Some caps) (Some groupId)
                                 (Some (re_host_rssi ev)) (Some (re_host_snr ev))) s1
        in restore_known_device_group i groupId (known \<noteq> None) s2)"

definition status_fields :: "reply \<Rightarrow> (int option \<times> int option \<times> int option \<times> int option \<times> int option \<times> int option \<times> int option) option" where
  "status_fields r =
     (case r of
        StatusReply flags cfg eff bri vbat rssi snr \<Rightarrow>
          Some (Some flags, Some cfg, Some eff, Some bri, Some vbat, Some rssi, Some snr)
      | StatusRaw body \<Rightarrow> Some (None, None, None, None, None, None, None)
      | _ \<Rightarrow> None)"

definition handle_status :: "reply_event \<Rightarrow> ctl \<Rightarrow> ctl" where
  "handle_status ev s =
     (case (status_fields (re_reply ev), device_at (hex_bytes (re_sender3 ev)) s) of
        (Some (flags, cfg, eff, bri, vbat, rssi, snr), Some i) \<Rightarrow>
          upd_device i (update_from_status (ct_now s) flags cfg eff bri vbat rssi snr
            (Some (re_host_rssi ev)) (Some (re_host_snr ev))) s
      | _ \<Rightarrow> s)"

definition on_reply :: "reply_event \<Rightarrow> ctl \<Rightarrow> ctl" where
  "on_reply ev s =
     (let s1 = s\<lparr>ct_registry := snd (try_match ev (ct_registry s))\<rparr>;
          s2 = (if re_opc ev = OPC_ACK then handle_ack_event ev s1
                else if re_opc ev = OPC_STATUS then handle_status ev s1
                else if re_opc ev = OPC_DEVICES then
                  (case re_reply ev of
                     IdentifyReply version caps groupId mac6 \<Rightarrow> handle_identify ev version caps groupId mac6 s1
                   | _ \<Rightarrow> s1)
                else s1)
      in pending_try_match ev s2)"

definition on_transport_event :: "gw_event \<Rightarrow> ctl \<Rightarrow> ctl" where
  "on_transport_event ev s =
     (case ev of
        EvError data ts \<Rightarrow> on_gateway_error s
      | EvDisconnected \<Rightarrow> on_gateway_error s
      | EvState ty state_byte name ms ts \<Rightarrow>
          if state_byte \<noteq> GATEWAY_STATE_RX_WINDOW then pending_window_closed s else s
      | EvTxRejected t r n ts \<Rightarrow> s
      | EvTxDone n ts \<Rightarrow> s
      | EvReply re \<Rightarrow> on_reply re s)"

text \<open>One event of the reader thread: first the service, then the collector that listens.\<close>

definition deliver :: "gw_event \<Rightarrow> ctl \<Rightarrow> ctl" where
  "deliver ev s =
     (let s1 = (if ct_hooks s then on_transport_event ev s else s)
      in case ct_listener s1 of
           Some p \<Rightarrow> if p ev then s1\<lparr>ct_collected := ct_collected s1 @ [(ct_now s1, ev)]\<rparr> else s1
         | None \<Rightarrow> s1)"

section \<open>Sending and waiting\<close>

definition install_transport_hooks :: "ctl \<Rightarrow> ctl" where
  "install_transport_hooks s = (if ct_transport s then s\<lparr>ct_hooks := True\<rparr> else s)"

definition on_transport_tx :: "int \<Rightarrow> byte list \<Rightarrow> ctl \<Rightarrow> ctl" where
  "on_transport_tx opc recv3 s =
     (if length recv3 \<noteq> 3 \<or> recv3 = BROADCAST3 then s
      else
        let opcode7 = opc AND 127 in
        case find_rule opcode7 of
          None \<Rightarrow> s
        | Some rule \<Rightarrow>
            if request_direction opcode7 \<noteq> DIR_M2N \<or> response_policy opcode7 = RESP_NONE then s
            else case device_at (hex_bytes recv3) s of
              None \<Rightarrow> s
            | Some i \<Rightarrow> set_pending_expect i rule opcode7 (last_n 6 (upper (d_addr (ct_devices s ! i)))) (ct_now s) s)"

text \<open>Everything that arrives until the clock shows \<open>deadline\<close>.\<close>

fun advance :: "rat \<Rightarrow> (rat \<times> gw_event) list \<Rightarrow> ctl \<Rightarrow> ctl" where
  "advance deadline [] s = s\<lparr>ct_now := max (ct_now s) deadline, ct_incoming := []\<rparr>"
| "advance deadline ((t, ev) # evs) s =
     (if deadline < t then s\<lparr>ct_now := max (ct_now s) deadline, ct_incoming := (t, ev) # evs\<rparr>
      else advance deadline evs (deliver ev (s\<lparr>ct_now := max (ct_now s) t\<rparr>)))"

definition sleep :: "rat \<Rightarrow> ctl \<Rightarrow> ctl" where
  "sleep d s = advance (ct_now s + d) (ct_incoming s) s"

text \<open>
  \<open>_send_m2n\<close> as the services see it: it blocks until the outcome is known (or reports the lost link),
  and then the TX listener is told.
\<close>

definition tx :: "int \<Rightarrow> byte list \<Rightarrow> byte list \<Rightarrow> (ctl, send_outcome) proc" where
  "tx opc recv3 body s =
     (if \<not> send_ok (make_type DIR_M2N opc) recv3 body then (Inl ValueError, s)
      else
        let fate = ct_tx s (ct_sends s); s1 = s\<lparr>ct_sends := Suc (ct_sends s)\<rparr> in
        case fate of
          None \<Rightarrow> (Inr outcome_usb_error, deliver EvDisconnected s1)
        | Some (dur, res) \<Rightarrow>
            let s2 = sleep dur (s1\<lparr>ct_sent := ct_sent s1 @ [\<lparr>pk_opc = opc, pk_recv3 = recv3, pk_body = body\<rparr>]\<rparr>)
            in (Inr res, if ct_hooks s2 then on_transport_tx opc recv3 s2 else s2))"

type_synonym send_fn = "(ctl, unit) proc"

definition tx_fn :: "int \<Rightarrow> byte list \<Rightarrow> byte list \<Rightarrow> send_fn" where
  "tx_fn opc recv3 body = pbind (tx opc recv3 body) (\<lambda>_. pret ())"

text \<open>\<open>req.done.wait(timeout)\<close>: events are delivered until the request is done or the time is up.\<close>

fun wait_done :: "nat \<Rightarrow> rat \<Rightarrow> (rat \<times> gw_event) list \<Rightarrow> ctl \<Rightarrow> ctl" where
  "wait_done n deadline [] s =
     (if rq_done (rg_requests (ct_registry s) ! n) then s\<lparr>ct_incoming := []\<rparr>
      else s\<lparr>ct_now := max (ct_now s) deadline, ct_incoming := []\<rparr>)"
| "wait_done n deadline ((t, ev) # evs) s =
     (if rq_done (rg_requests (ct_registry s) ! n) then s\<lparr>ct_incoming := (t, ev) # evs\<rparr>
      else if deadline < t then s\<lparr>ct_now := max (ct_now s) deadline, ct_incoming := (t, ev) # evs\<rparr>
      else wait_done n deadline evs (deliver ev (s\<lparr>ct_now := max (ct_now s) t\<rparr>)))"

text \<open>
  The loop of \<open>send_and_collect\<close>: it ends when enough has been collected, at the hard deadline, or
  when the idle time has passed since the last match.
\<close>

definition last_match :: "ctl \<Rightarrow> rat option" where
  "last_match s = (if ct_collected s = [] then None else Some (fst (last (ct_collected s))))"

definition collect_deadline :: "rat \<Rightarrow> rat \<Rightarrow> ctl \<Rightarrow> rat" where
  "collect_deadline idle hard s = (case last_match s of None \<Rightarrow> hard | Some l \<Rightarrow> min (l + idle) hard)"

definition collect_full :: "int option \<Rightarrow> ctl \<Rightarrow> bool" where
  "collect_full expected s =
     (case expected of None \<Rightarrow> False | Some n \<Rightarrow> ct_collected s \<noteq> [] \<and> n \<le> int (length (ct_collected s)))"

fun collect_loop :: "int option \<Rightarrow> rat \<Rightarrow> rat \<Rightarrow> (rat \<times> gw_event) list \<Rightarrow> ctl \<Rightarrow> ctl" where
  "collect_loop expected idle hard [] s =
     (if collect_full expected s \<or> collect_deadline idle hard s \<le> ct_now s then s\<lparr>ct_incoming := []\<rparr>
      else s\<lparr>ct_now := collect_deadline idle hard s, ct_incoming := []\<rparr>)"
| "collect_loop expected idle hard ((t, ev) # evs) s =
     (if collect_full expected s \<or> collect_deadline idle hard s \<le> ct_now s then s\<lparr>ct_incoming := (t, ev) # evs\<rparr>
      else if collect_deadline idle hard s < t
           then s\<lparr>ct_now := collect_deadline idle hard s, ct_incoming := (t, ev) # evs\<rparr>
      else collect_loop expected idle hard evs (deliver ev (s\<lparr>ct_now := max (ct_now s) t\<rparr>)))"

definition send_and_collect ::
  "send_fn \<Rightarrow> (gw_event \<Rightarrow> bool) \<Rightarrow> int option \<Rightarrow> rat \<Rightarrow> rat \<Rightarrow> (ctl, gw_event list) proc" where
  "send_and_collect send_fn collect_pred expected idle_timeout_s max_timeout_s s =
     (if \<not> ct_transport s then (Inr [], s)
      else
        let s = (install_transport_hooks s)\<lparr>ct_listener := Some collect_pred, ct_collected := []\<rparr>;
            hard_deadline = ct_now s + max_timeout_s
        in case send_fn s of
             (Inl e, s) \<Rightarrow> (Inl e, s\<lparr>ct_listener := None\<rparr>)
           | (Inr _, s) \<Rightarrow>
               let s = collect_loop expected idle_timeout_s hard_deadline (ct_incoming s) s
               in (Inr (map snd (ct_collected s)), s\<lparr>ct_listener := None\<rparr>))"

section \<open>Timing\<close>

definition UNICAST_ATTEMPT_TIMEOUT_S :: rat where "UNICAST_ATTEMPT_TIMEOUT_S = 3/2"
definition UNICAST_MAX_ATTEMPTS :: int where "UNICAST_MAX_ATTEMPTS = 3"
definition UNICAST_RETRY_DELAY_S :: rat where "UNICAST_RETRY_DELAY_S = 1/10"
definition COLLECT_IDLE_TIMEOUT_S :: rat where "COLLECT_IDLE_TIMEOUT_S = 3/5"
definition COLLECT_MAX_CEILING_S :: rat where "COLLECT_MAX_CEILING_S = 5"
definition COLLECT_PER_DEVICE_S :: rat where "COLLECT_PER_DEVICE_S = 3/20"
definition COLLECT_BASE_S :: rat where "COLLECT_BASE_S = 1"
definition STREAM_ATTEMPT_TIMEOUT_S :: rat where "STREAM_ATTEMPT_TIMEOUT_S = 6"
definition STREAM_MAX_ATTEMPTS :: int where "STREAM_MAX_ATTEMPTS = 3"
definition STREAM_RETRY_DELAY_S :: rat where "STREAM_RETRY_DELAY_S = 1/10"

lemmas rf_timing = UNICAST_ATTEMPT_TIMEOUT_S_def UNICAST_MAX_ATTEMPTS_def UNICAST_RETRY_DELAY_S_def
  COLLECT_IDLE_TIMEOUT_S_def COLLECT_MAX_CEILING_S_def COLLECT_PER_DEVICE_S_def COLLECT_BASE_S_def
  STREAM_ATTEMPT_TIMEOUT_S_def STREAM_MAX_ATTEMPTS_def STREAM_RETRY_DELAY_S_def

definition compute_collect_max_timeout :: "int \<Rightarrow> rat \<Rightarrow> rat" where
  "compute_collect_max_timeout expected ceiling_s =
     min ceiling_s (COLLECT_BASE_S + of_int (max 0 expected) * COLLECT_PER_DEVICE_S)"

section \<open>Unicast requests\<close>

text \<open>The predicate of the broadcast fallback.\<close>

definition bcast_pred :: "int \<Rightarrow> int \<Rightarrow> int \<Rightarrow> gw_event \<Rightarrow> bool" where
  "bcast_pred policy opcode7 rsp_opc ev =
     (case ev of
        EvReply re \<Rightarrow>
          if policy = RESP_ACK then re_opc re = OPC_ACK \<and> (case ev_ack_of re of None \<Rightarrow> - 1 | Some a \<Rightarrow> a) = opcode7
          else policy = RESP_SPECIFIC \<and> re_opc re = rsp_opc
      | _ \<Rightarrow> False)"

text \<open>The unicast wait for request \<open>n\<close>, from \<open>req.done.wait\<close> to the result.\<close>

definition await_reply :: "nat \<Rightarrow> rat \<Rightarrow> nat option \<Rightarrow> (ctl, reply_event list \<times> bool) proc" where
  "await_reply n timeout_s sender_dev s =
     (let s = wait_done n (ct_now s + timeout_s) (ct_incoming s) s;
          s = s\<lparr>ct_registry := cancel n (ct_registry s)\<rparr>;
          req = rg_requests (ct_registry s) ! n
      in case (if rq_done req then rq_reply req else None) of
           None \<Rightarrow> (Inr ([], False), s)
         | Some reply \<Rightarrow>
             (Inr ([reply], True),
              case sender_dev of None \<Rightarrow> s | Some i \<Rightarrow> upd_device i (mark_online (ct_now s)) s))"

definition send_and_wait_for_reply ::
  "byte list \<Rightarrow> int \<Rightarrow> send_fn \<Rightarrow> rat \<Rightarrow> (ctl, reply_event list \<times> bool) proc" where
  "send_and_wait_for_reply recv3 opcode send_fn timeout_s s =
     (if \<not> ct_transport s then (Inr ([], False), s)
      else
        let s = install_transport_hooks s;
            opcode7 = opcode AND 127;
            sender_filter = (if recv3 \<noteq> [] \<and> recv3 \<noteq> BROADCAST3 then Some recv3 else None);
            sender_dev = (case sender_filter of None \<Rightarrow> None | Some b \<Rightarrow> device_at (hex_bytes b) s);
            policy = response_policy opcode7
        in if policy = RESP_NONE then pbind send_fn (\<lambda>_. pret ([], False)) s
           else case sender_filter of
             None \<Rightarrow>
               pbind (send_and_collect send_fn (bcast_pred policy opcode7 (response_opcode opcode7)) (Some 1)
                        COLLECT_IDLE_TIMEOUT_S timeout_s)
                 (\<lambda>replies. let rs = concat (map (\<lambda>ev. case ev of EvReply re \<Rightarrow> [re] | _ \<Rightarrow> []) replies)
                            in pret (rs, rs \<noteq> [])) s
           | Some sender \<Rightarrow>
               let expected_key = (if policy = RESP_ACK then opcode7 else response_opcode opcode7 AND 127);
                   (n, rg) = register sender expected_key policy timeout_s (ct_now s) (ct_registry s)
               in case send_fn (s\<lparr>ct_registry := rg\<rparr>) of
                    (Inl e, s) \<Rightarrow> (Inl e, s\<lparr>ct_registry := cancel n (ct_registry s)\<rparr>)
                  | (Inr _, s) \<Rightarrow> await_reply n timeout_s sender_dev s)"

text \<open>The loop over the attempts that are left, \<open>last_events\<close> from the attempt before.\<close>

fun retry_loop ::
  "nat \<Rightarrow> byte list \<Rightarrow> int \<Rightarrow> send_fn \<Rightarrow> rat \<Rightarrow> rat \<Rightarrow> reply_event list \<Rightarrow> (ctl, reply_event list \<times> bool) proc" where
  "retry_loop 0 recv3 opcode7 send_fn per delay last_events = pret (last_events, False)"
| "retry_loop (Suc n) recv3 opcode7 send_fn per delay last_events =
     pbind (send_and_wait_for_reply recv3 opcode7 send_fn per) (\<lambda>(events, ok).
       if ok then pret (events, True)
       else pbind (pupd (if n \<noteq> 0 \<and> 0 < delay then sleep delay else id)) (\<lambda>_.
         retry_loop n recv3 opcode7 send_fn per delay events))"

definition send_and_wait_with_retries ::
  "byte list \<Rightarrow> int \<Rightarrow> send_fn \<Rightarrow> int option \<Rightarrow> rat option \<Rightarrow> rat option \<Rightarrow> (ctl, reply_event list \<times> bool) proc" where
  "send_and_wait_with_retries recv3 opcode7 send_fn attempts per_attempt_timeout_s retry_delay_s =
     (let n = (case attempts of None \<Rightarrow> UNICAST_MAX_ATTEMPTS | Some a \<Rightarrow> a);
          n = (if n < 1 then 1 else n);
          per = (case per_attempt_timeout_s of None \<Rightarrow> UNICAST_ATTEMPT_TIMEOUT_S | Some p \<Rightarrow> p);
          delay = (case retry_delay_s of None \<Rightarrow> UNICAST_RETRY_DELAY_S | Some d \<Rightarrow> d)
      in retry_loop (nat n) recv3 opcode7 send_fn per delay [])"

section \<open>What a handler leaves alone\<close>

text \<open>The fields no event handler touches, as one projection.\<close>

definition frame_of :: "ctl \<Rightarrow> (bool \<times> bool \<times> bool \<times> rl_group list) \<times> (gw_event \<Rightarrow> bool) option \<times> packet list \<times>
    (rat \<times> (rat \<times> gw_event) list) \<times> (nat \<Rightarrow> (rat \<times> send_outcome) option) \<times> nat" where
  "frame_of s = ((ct_transport s, ct_hooks s, ct_pool s, ct_groups s), ct_listener s, ct_sent s,
     (ct_now s, ct_incoming s), ct_tx s, ct_sends s)"

named_theorems ctl_frame \<open>fields kept by the handlers\<close>

lemma frame_ofD:
  "frame_of s' = frame_of s \<Longrightarrow> ct_transport s' = ct_transport s \<and> ct_hooks s' = ct_hooks s \<and>
     ct_groups s' = ct_groups s \<and> ct_listener s' = ct_listener s \<and> ct_sent s' = ct_sent s \<and>
     ct_now s' = ct_now s \<and> ct_incoming s' = ct_incoming s \<and> ct_tx s' = ct_tx s \<and> ct_sends s' = ct_sends s"
  by (simp add: frame_of_def)

lemma frame_upd_device [ctl_frame, simp]: "frame_of (upd_device i f s) = frame_of s"
  "ct_registry (upd_device i f s) = ct_registry s" "length (ct_devices (upd_device i f s)) = length (ct_devices s)"
  "ct_expect (upd_device i f s) = ct_expect s" "ct_collected (upd_device i f s) = ct_collected s"
  by (simp_all add: upd_device_def frame_of_def)

lemma frame_expect [simp]: "frame_of (clear_pending_expect_if p s) = frame_of s"
  "ct_registry (clear_pending_expect_if p s) = ct_registry s"
  "ct_devices (clear_pending_expect_if p s) = ct_devices s" "ct_collected (clear_pending_expect_if p s) = ct_collected s"
  by (simp_all add: clear_pending_expect_if_def frame_of_def)

lemma frame_take: "take_pending_config h s = (v, s') \<Longrightarrow> frame_of s' = frame_of s \<and>
    ct_registry s' = ct_registry s \<and> ct_devices s' = ct_devices s \<and> ct_collected s' = ct_collected s"
  by (auto simp: take_pending_config_def frame_of_def)

lemma frame_ack [simp]: "frame_of (handle_ack_event ev s) = frame_of s"
  "ct_registry (handle_ack_event ev s) = ct_registry s"
  "length (ct_devices (handle_ack_event ev s)) = length (ct_devices s)"
  "ct_collected (handle_ack_event ev s) = ct_collected s"
  by (auto simp: handle_ack_event_def Let_def dest: frame_take split: option.split reply.split prod.split)

lemma frame_status [simp]: "frame_of (handle_status ev s) = frame_of s"
  "ct_registry (handle_status ev s) = ct_registry s"
  "length (ct_devices (handle_status ev s)) = length (ct_devices s)"
  "ct_collected (handle_status ev s) = ct_collected s"
  by (auto simp: handle_status_def split: option.split)

lemma frame_error [simp]: "frame_of (on_gateway_error s) = frame_of s"
  "ct_registry (on_gateway_error s) = ct_registry s" "ct_devices (on_gateway_error s) = ct_devices s"
  "ct_collected (on_gateway_error s) = ct_collected s"
  by (simp_all add: on_gateway_error_def schedule_reconnect_def frame_of_def Let_def)

lemma frame_window [simp]: "frame_of (pending_window_closed s) = frame_of s"
  "ct_registry (pending_window_closed s) = ct_registry s"
  "length (ct_devices (pending_window_closed s)) = length (ct_devices s)"
  "ct_collected (pending_window_closed s) = ct_collected s"
  by (auto simp: pending_window_closed_def split: option.split)

lemma frame_match [simp]: "frame_of (pending_try_match ev s) = frame_of s"
  "ct_registry (pending_try_match ev s) = ct_registry s"
  "length (ct_devices (pending_try_match ev s)) = length (ct_devices s)"
  "ct_collected (pending_try_match ev s) = ct_collected s"
  by (auto simp: pending_try_match_def Let_def split: option.split)

lemma frame_reassign [simp]:
  "frame_of (prune_auto_reassign_cache t s) = frame_of s" "frame_of (mark_auto_reassign m s) = frame_of s"
  "frame_of (spawn_auto_reassign_worker i g s) = frame_of s"
  "ct_registry (prune_auto_reassign_cache t s) = ct_registry s" "ct_registry (mark_auto_reassign m s) = ct_registry s"
  "ct_registry (spawn_auto_reassign_worker i g s) = ct_registry s"
  "ct_devices (prune_auto_reassign_cache t s) = ct_devices s" "ct_devices (mark_auto_reassign m s) = ct_devices s"
  "ct_devices (spawn_auto_reassign_worker i g s) = ct_devices s"
  "ct_collected (prune_auto_reassign_cache t s) = ct_collected s" "ct_collected (mark_auto_reassign m s) = ct_collected s"
  "ct_collected (spawn_auto_reassign_worker i g s) = ct_collected s"
  by (simp_all add: prune_auto_reassign_cache_def mark_auto_reassign_def spawn_auto_reassign_worker_def frame_of_def)

lemma suppressed_state [simp]: "snd (auto_reassign_suppressed m s) = prune_auto_reassign_cache (ct_now s) s"
  by (simp add: auto_reassign_suppressed_def Let_def)

lemma frame_request_restore [simp]: "frame_of (request_restore i g s) = frame_of s"
  "ct_registry (request_restore i g s) = ct_registry s" "ct_devices (request_restore i g s) = ct_devices s"
  "ct_collected (request_restore i g s) = ct_collected s"
  by (simp_all add: request_restore_def Let_def case_prod_beta)

lemma frame_valid_group [simp]: "frame_of (snd (valid_stored_group i s)) = frame_of s"
  "ct_registry (snd (valid_stored_group i s)) = ct_registry s"
  "length (ct_devices (snd (valid_stored_group i s))) = length (ct_devices s)"
  "ct_collected (snd (valid_stored_group i s)) = ct_collected s"
  by (simp_all add: valid_stored_group_def Let_def)

lemma frame_restore [simp]: "frame_of (restore_known_device_group i g k s) = frame_of s"
  "ct_registry (restore_known_device_group i g k s) = ct_registry s"
  "length (ct_devices (restore_known_device_group i g k s)) = length (ct_devices s)"
  "ct_collected (restore_known_device_group i g k s) = ct_collected s"
  by (simp_all add: restore_known_device_group_def case_prod_beta)

lemma frame_identify [simp]: "frame_of (handle_identify ev v c g m s) = frame_of s"
  "ct_registry (handle_identify ev v c g m s) = ct_registry s"
  "length (ct_devices (handle_identify ev v c g m s)) \<le> Suc (length (ct_devices s))"
  "ct_collected (handle_identify ev v c g m s) = ct_collected s"
proof -
  have grow: "frame_of (s\<lparr>ct_devices := ds\<rparr>) = frame_of s" for ds by (simp add: frame_of_def)
  show "frame_of (handle_identify ev v c g m s) = frame_of s"
    "ct_registry (handle_identify ev v c g m s) = ct_registry s"
    "length (ct_devices (handle_identify ev v c g m s)) \<le> Suc (length (ct_devices s))"
    "ct_collected (handle_identify ev v c g m s) = ct_collected s"
    by (simp_all add: handle_identify_def Let_def grow)
qed

lemma frame_reply [simp]: "frame_of (on_reply ev s) = frame_of s"
  "ct_registry (on_reply ev s) = snd (try_match ev (ct_registry s))"
  "length (ct_devices (on_reply ev s)) \<le> Suc (length (ct_devices s))"
  "ct_collected (on_reply ev s) = ct_collected s"
proof -
  let ?s1 = "s\<lparr>ct_registry := snd (try_match ev (ct_registry s))\<rparr>"
  have 1: "frame_of ?s1 = frame_of s" by (simp add: frame_of_def)
  show "frame_of (on_reply ev s) = frame_of s" "ct_registry (on_reply ev s) = snd (try_match ev (ct_registry s))"
    "ct_collected (on_reply ev s) = ct_collected s"
    by (simp_all add: on_reply_def Let_def 1 split: reply.split)
  show "length (ct_devices (on_reply ev s)) \<le> Suc (length (ct_devices s))"
    using frame_identify(3) [of ev _ _ _ _ ?s1] by (auto simp: on_reply_def Let_def split: reply.split)
qed

definition event_reply :: "gw_event \<Rightarrow> reply_event option" where
  "event_reply ev = (case ev of EvReply re \<Rightarrow> Some re | _ \<Rightarrow> None)"

lemma event_reply_simps [simp]: "event_reply (EvReply re) = Some re" "event_reply (EvError d t) = None"
  "event_reply EvDisconnected = None" "event_reply (EvState ty b n m t) = None"
  "event_reply (EvTxRejected i j k t) = None" "event_reply (EvTxDone i t) = None"
  by (simp_all add: event_reply_def)

lemma frame_event [simp]: "frame_of (on_transport_event ev s) = frame_of s"
  "ct_registry (on_transport_event ev s) =
     (case event_reply ev of Some re \<Rightarrow> snd (try_match re (ct_registry s)) | None \<Rightarrow> ct_registry s)"
  "length (ct_devices (on_transport_event ev s)) \<le> Suc (length (ct_devices s))"
  "ct_collected (on_transport_event ev s) = ct_collected s"
  by (cases ev; simp add: on_transport_event_def)+

lemma frame_deliver [simp]: "frame_of (deliver ev s) = frame_of s"
proof -
  have "frame_of (s'\<lparr>ct_collected := c\<rparr>) = frame_of s'" for s' c by (simp add: frame_of_def)
  then show ?thesis by (simp add: deliver_def Let_def split: option.split)
qed

lemma deliver_frame [simp]:
  "ct_transport (deliver ev s) = ct_transport s" "ct_hooks (deliver ev s) = ct_hooks s"
  "ct_groups (deliver ev s) = ct_groups s" "ct_listener (deliver ev s) = ct_listener s"
  "ct_sent (deliver ev s) = ct_sent s" "ct_now (deliver ev s) = ct_now s"
  "ct_incoming (deliver ev s) = ct_incoming s" "ct_tx (deliver ev s) = ct_tx s" "ct_sends (deliver ev s) = ct_sends s"
  using frame_ofD [OF frame_deliver [of ev s]] by simp_all

lemma deliver_registry: "ct_hooks s \<Longrightarrow> ct_registry (deliver ev s) =
    (case event_reply ev of Some re \<Rightarrow> snd (try_match re (ct_registry s)) | None \<Rightarrow> ct_registry s)"
  by (simp add: deliver_def Let_def split: option.split)

lemma deliver_devices: "length (ct_devices (deliver ev s)) \<le> Suc (length (ct_devices s))"
  by (auto simp: deliver_def Let_def split: option.split)

lemma deliver_collected: "ct_collected (deliver ev s) =
    (case ct_listener s of Some p \<Rightarrow> if p ev then ct_collected s @ [(ct_now s, ev)] else ct_collected s
     | None \<Rightarrow> ct_collected s)"
proof -
  have "ct_listener (on_transport_event ev s) = ct_listener s" "ct_now (on_transport_event ev s) = ct_now s"
    using frame_ofD [OF frame_event(1)] by blast+
  then show ?thesis by (simp add: deliver_def Let_def split: option.split)
qed

end
