(* ===== verification/Waits.thy ===== *)
theory Waits
  imports Gateway
begin

text \<open>
  What the waits of \<^verbatim>\<open>gateway_service.py\<close> guarantee: which events a call sees, the reply it
  returns, how many packets it sends and how long it takes.
\<close>

section \<open>Time passes\<close>

definition replies :: "(rat \<times> gw_event) list \<Rightarrow> reply_event list" where
  "replies evs = concat (map (\<lambda>p. case event_reply (snd p) of None \<Rightarrow> [] | Some re \<Rightarrow> [re]) evs)"

definition until :: "rat \<Rightarrow> (rat \<times> gw_event) list \<Rightarrow> (rat \<times> gw_event) list" where
  "until d evs = takeWhile (\<lambda>p. fst p \<le> d) evs"

definition after :: "rat \<Rightarrow> (rat \<times> gw_event) list \<Rightarrow> (rat \<times> gw_event) list" where
  "after d evs = dropWhile (\<lambda>p. fst p \<le> d) evs"

lemma replies_simps [simp]: "replies [] = []"
  "replies ((t, ev) # evs) = (case event_reply ev of None \<Rightarrow> [] | Some re \<Rightarrow> [re]) @ replies evs"
  "replies (xs @ ys) = replies xs @ replies ys"
  by (simp_all add: replies_def)

lemma until_simps [simp]: "until d [] = []" "until d ((t, ev) # evs) = (if t \<le> d then (t, ev) # until d evs else [])"
  by (simp_all add: until_def)

lemma after_simps [simp]: "after d [] = []" "after d ((t, ev) # evs) = (if t \<le> d then after d evs else (t, ev) # evs)"
  by (simp_all add: after_def)

lemma until_after: "d \<le> e \<Longrightarrow> until d evs @ until e (after d evs) = until e evs"
  by (induction evs) auto

lemma after_subset: "set (after d evs) \<subseteq> set evs"
  by (auto simp: after_def dest: set_dropWhileD)

lemma until_subset: "set (until d evs) \<subseteq> set evs"
  by (auto simp: until_def dest: set_takeWhileD)

lemma event_reply_Some: "event_reply ev = Some re \<longleftrightarrow> ev = EvReply re"
  by (cases ev) simp_all

lemma replies_mem: "re \<in> set (replies evs) \<longleftrightarrow> EvReply re \<in> snd ` set evs"
proof (induction evs)
  case (Cons p evs)
  obtain t ev where "p = (t, ev)" by fastforce
  with Cons show ?case by (cases ev) auto
qed simp

definition match_all :: "reply_event list \<Rightarrow> registry \<Rightarrow> registry" where
  "match_all evs rg = fold (\<lambda>ev rg. snd (try_match ev rg)) evs rg"

definition static_of :: "ctl \<Rightarrow> (bool \<times> bool \<times> rl_group list) \<times> (gw_event \<Rightarrow> bool) option \<times>
    (nat \<Rightarrow> (rat \<times> send_outcome) option)" where
  "static_of s = ((ct_transport s, ct_hooks s, ct_groups s), ct_listener s, ct_tx s)"

lemma static_ofD: "static_of s' = static_of s \<Longrightarrow> ct_transport s' = ct_transport s \<and> ct_hooks s' = ct_hooks s \<and>
    ct_groups s' = ct_groups s \<and> ct_listener s' = ct_listener s \<and> ct_tx s' = ct_tx s"
  by (simp add: static_of_def)

lemma static_simps [simp]: "static_of (deliver ev s) = static_of s" "static_of (upd_device i f s) = static_of s"
  "static_of (s\<lparr>ct_now := t\<rparr>) = static_of s" "static_of (s\<lparr>ct_incoming := evs\<rparr>) = static_of s"
  "static_of (s\<lparr>ct_registry := rg\<rparr>) = static_of s" "static_of (s\<lparr>ct_sends := k\<rparr>) = static_of s"
  "static_of (s\<lparr>ct_sent := ps\<rparr>) = static_of s"
  by (simp_all add: static_of_def upd_device_def)

lemma advance_static [simp]: "static_of (advance d evs s) = static_of s" "ct_sent (advance d evs s) = ct_sent s"
  "ct_sends (advance d evs s) = ct_sends s"
  by (induction d evs s rule: advance.induct) simp_all

lemma advance_now [simp]: "ct_now (advance d evs s) = max (ct_now s) d"
  by (induction d evs s rule: advance.induct) (simp_all add: max.assoc max.absorb2)

lemma advance_incoming [simp]: "ct_incoming (advance d evs s) = after d evs"
  by (induction d evs s rule: advance.induct) simp_all

lemma advance_registry: "ct_hooks s \<Longrightarrow> ct_registry (advance d evs s) = match_all (replies (until d evs)) (ct_registry s)"
  by (induction d evs s rule: advance.induct) (auto simp: match_all_def deliver_registry split: option.splits)

lemma wait_static [simp]: "static_of (wait_done n d evs s) = static_of s" "ct_sent (wait_done n d evs s) = ct_sent s"
  "ct_sends (wait_done n d evs s) = ct_sends s"
  by (induction n d evs s rule: wait_done.induct) simp_all

lemma wait_now: "ct_now s \<le> ct_now (wait_done n d evs s) \<and> ct_now (wait_done n d evs s) \<le> max (ct_now s) d"
  by (induction n d evs s rule: wait_done.induct) auto

lemma wait_incoming: "\<exists>pre. evs = pre @ ct_incoming (wait_done n d evs s)"
proof (induction n d evs s rule: wait_done.induct)
  case (2 n d t ev evs s)
  show ?case
  proof (cases "rq_done (rg_requests (ct_registry s) ! n) \<or> d < t")
    case True
    then show ?thesis by auto
  next
    case False
    with 2 obtain pre where "evs = pre @ ct_incoming (wait_done n d evs (deliver ev (s\<lparr>ct_now := max (ct_now s) t\<rparr>)))"
      by blast
    with False show ?thesis by (metis append_Cons wait_done.simps(2))
  qed
qed simp

lemma wait_done_stop: "rq_done (rg_requests (ct_registry s) ! n) \<Longrightarrow> wait_done n d evs s = s\<lparr>ct_incoming := evs\<rparr>"
  by (cases evs) (auto simp: surj_pair)

lemma wait_stands:
  assumes "stands (ct_registry s) n q r" and "ct_hooks s"
  shows "stands (ct_registry (wait_done n d evs s)) n q
     (case r of None \<Rightarrow> find_where (answers q) (replies (until d evs)) | Some e \<Rightarrow> Some e)"
  using assms
proof (induction n d evs s arbitrary: r rule: wait_done.induct)
  case (1 n d s)
  then show ?case by (cases r) (simp_all add: stands_done)
next
  case (2 n d t ev evs s)
  show ?case
  proof (cases r)
    case (Some e)
    with 2(2) show ?thesis by (simp add: stands_done)
  next
    case None
    then have nd: "\<not> rq_done (rg_requests (ct_registry s) ! n)" using stands_done [OF 2(2)] by simp
    show ?thesis
    proof (cases "d < t")
      case True
      with nd None 2(2) show ?thesis by simp
    next
      case False
      let ?s = "deliver ev (s\<lparr>ct_now := max (ct_now s) t\<rparr>)"
      have h: "ct_hooks ?s" using 2(3) by simp
      have rg: "ct_registry ?s = (case event_reply ev of Some re \<Rightarrow> snd (try_match re (ct_registry s)) | None \<Rightarrow> ct_registry s)"
        using 2(3) by (simp add: deliver_registry split: option.split)
      have st: "stands (ct_registry s) n q None" using 2(2) \<open>r = None\<close> by simp
      have w: "wait_done n d ((t, ev) # evs) s = wait_done n d evs ?s" and u: "until d ((t, ev) # evs) = (t, ev) # until d evs"
        using nd False by simp_all
      show ?thesis
      proof (cases "event_reply ev")
        case None
        with rg st have "stands (ct_registry ?s) n q None" by simp
        from 2(1) [OF nd False this h] show ?thesis unfolding w u using None \<open>r = None\<close> by simp
      next
        case (Some re)
        have "stands (ct_registry ?s) n q (if answers q re then Some re else None)"
          using stands_step [OF st, of re] rg Some by simp
        from 2(1) [OF nd False this h] show ?thesis unfolding w u using Some \<open>r = None\<close> by (simp split: if_splits)
      qed
    qed
  qed
qed

section \<open>Unicast requests\<close>

lemma try_match_vacant:
  assumes "vacant rg q"
  shows "vacant (snd (try_match ev rg)) q"
proof -
  have ok: "registry_ok rg" using assms by (simp add: vacant_def)
  show ?thesis
  proof (rule try_match_cases [OF ok, of ev])
    fix key m
    assume hit: "m \<in> set (bucket rg key)" "try_match ev rg = (Some m, complete m ev (drop_request key m rg))"
    note h = hit_result [OF ok hit(1)]
    have "key \<noteq> q" using hit(1) assms by (auto simp: vacant_def)
    then show ?thesis using h hit(2) assms keys_ok_complete [OF _ h(3) h(4)] by (auto simp: vacant_def)
  qed (use assms in simp)
qed

lemma deliver_vacant: "vacant (ct_registry s) q \<Longrightarrow> vacant (ct_registry (deliver ev s)) q"
proof (cases "ct_hooks s")
  case True
  assume "vacant (ct_registry s) q"
  with True show ?thesis by (simp add: deliver_registry try_match_vacant split: option.split)
qed (simp add: deliver_def Let_def split: option.split)

lemma advance_vacant: "vacant (ct_registry s) q \<Longrightarrow> vacant (ct_registry (advance d evs s)) q"
  by (induction d evs s rule: advance.induct) (simp_all add: deliver_vacant)

lemma static_tx_hook [simp]: "static_of (on_transport_tx opc recv3 s) = static_of s"
  "ct_registry (on_transport_tx opc recv3 s) = ct_registry s" "ct_sent (on_transport_tx opc recv3 s) = ct_sent s"
  "ct_sends (on_transport_tx opc recv3 s) = ct_sends s" "ct_now (on_transport_tx opc recv3 s) = ct_now s"
  "ct_incoming (on_transport_tx opc recv3 s) = ct_incoming s"
  by (simp_all add: on_transport_tx_def set_pending_expect_def static_of_def Let_def split: option.split)

definition question_of :: "byte list \<Rightarrow> int \<Rightarrow> question" where
  "question_of recv3 opcode =
     (let opcode7 = opcode AND 127; policy = response_policy opcode7
      in (recv3, policy, if policy = RESP_ACK then opcode7 else response_opcode opcode7 AND 127))"

abbreviation packet_of :: "int \<Rightarrow> byte list \<Rightarrow> byte list \<Rightarrow> packet" where
  "packet_of opc recv3 body \<equiv> \<lparr>pk_opc = opc, pk_recv3 = recv3, pk_body = body\<rparr>"

lemma tx_fn_result:
  assumes "send_ok (make_type DIR_M2N opc) recv3 body" and "ct_tx s (ct_sends s) = Some (dur, res)" and "0 \<le> dur"
  obtains s' where "tx_fn opc recv3 body s = (Inr (), s')" and "static_of s' = static_of s"
    and "ct_sent s' = ct_sent s @ [packet_of opc recv3 body]" and "ct_sends s' = Suc (ct_sends s)"
    and "ct_now s' = ct_now s + dur" and "ct_incoming s' = after (ct_now s + dur) (ct_incoming s)"
    and "ct_hooks s \<Longrightarrow> ct_registry s' = match_all (replies (until (ct_now s + dur) (ct_incoming s))) (ct_registry s)"
proof -
  let ?s2 = "sleep dur (s\<lparr>ct_sends := Suc (ct_sends s), ct_sent := ct_sent s @ [packet_of opc recv3 body]\<rparr>)"
  let ?s3 = "if ct_hooks ?s2 then on_transport_tx opc recv3 ?s2 else ?s2"
  have "tx_fn opc recv3 body s = (Inr (), ?s3)"
    using assms by (simp add: tx_fn_def tx_def pbind_def Let_def)
  moreover have "static_of ?s3 = static_of s" "ct_sent ?s3 = ct_sent s @ [packet_of opc recv3 body]"
    "ct_sends ?s3 = Suc (ct_sends s)" "ct_now ?s3 = ct_now s + dur"
    "ct_incoming ?s3 = after (ct_now s + dur) (ct_incoming s)"
    using assms(3) by (simp_all add: sleep_def)
  moreover have "ct_registry ?s3 = match_all (replies (until (ct_now s + dur) (ct_incoming s))) (ct_registry s)"
    if "ct_hooks s" using that by (simp add: sleep_def advance_registry)
  ultimately show ?thesis by (rule that)
qed


text \<open>
  A unicast request can be made: there is a transport, nobody else waits for the same reply, and the
  sends go through, none taking longer than \<open>d\<close>.
\<close>

definition fate_ok :: "rat \<Rightarrow> (rat \<times> send_outcome) option \<Rightarrow> bool" where
  "fate_ok d fate = (case fate of None \<Rightarrow> False | Some (dur, res) \<Rightarrow> 0 \<le> dur \<and> dur \<le> d)"

definition can_ask :: "ctl \<Rightarrow> question \<Rightarrow> rat \<Rightarrow> bool" where
  "can_ask s q d \<longleftrightarrow> ct_transport s \<and> vacant (ct_registry s) q \<and>
     (\<forall>k. fate_ok d (ct_tx s k))"

definition first_answer :: "question \<Rightarrow> rat \<Rightarrow> (rat \<times> gw_event) list \<Rightarrow> reply_event option" where
  "first_answer q deadline evs = find_where (answers q) (replies (until deadline evs))"

lemma until_after_id: "until d evs @ after d evs = evs"
  by (simp add: until_def after_def)

lemma first_answerD: "first_answer q d evs = Some e \<Longrightarrow> answers q e \<and> EvReply e \<in> snd ` set evs"
  using image_mono [OF until_subset [of d evs], of snd]
  by (auto simp: first_answer_def replies_mem dest!: find_where_Some)

lemma first_answer_split:
  assumes "d \<le> e"
  shows "first_answer q e evs =
    (case first_answer q d evs of Some r \<Rightarrow> Some r | None \<Rightarrow> first_answer q e (after d evs))"
proof -
  have "replies (until e evs) = replies (until d evs) @ replies (until e (after d evs))"
    by (subst until_after [OF assms, symmetric]) (rule replies_simps(3))
  then show ?thesis by (simp add: first_answer_def find_where_append split: option.split)
qed

definition reply_pair :: "reply_event option \<Rightarrow> reply_event list \<times> bool" where
  "reply_pair r = (case r of None \<Rightarrow> ([], False) | Some e \<Rightarrow> ([e], True))"

lemma question_policy: "question_ok (question_of recv3 opc) \<Longrightarrow> response_policy (opc AND 127) \<noteq> RESP_NONE"
  by (auto simp: question_ok_def question_of_def Let_def RESP_ACK_def RESP_SPECIFIC_def RESP_NONE_def)

lemma static_hooks [simp]: "ct_transport s \<Longrightarrow> ct_hooks (install_transport_hooks s)"
  "ct_transport (install_transport_hooks s) = ct_transport s" "ct_registry (install_transport_hooks s) = ct_registry s"
  "ct_sent (install_transport_hooks s) = ct_sent s" "ct_sends (install_transport_hooks s) = ct_sends s"
  "ct_tx (install_transport_hooks s) = ct_tx s" "ct_now (install_transport_hooks s) = ct_now s"
  "ct_incoming (install_transport_hooks s) = ct_incoming s" "ct_devices (install_transport_hooks s) = ct_devices s"
  by (simp_all add: install_transport_hooks_def)

text \<open>The state after the wait, before the reply is looked at.\<close>

definition after_wait :: "nat \<Rightarrow> rat \<Rightarrow> ctl \<Rightarrow> ctl" where
  "after_wait n timeout_s s =
     (let s1 = wait_done n (ct_now s + timeout_s) (ct_incoming s) s
      in s1\<lparr>ct_registry := cancel n (ct_registry s1)\<rparr>)"

lemma after_wait_facts:
  assumes "stands (ct_registry s) n q r" and "ct_hooks s" and "0 \<le> t"
  shows "vacant (ct_registry (after_wait n t s)) q"
    and "rq_reply (rg_requests (ct_registry (after_wait n t s)) ! n) =
      (case r of None \<Rightarrow> first_answer q (ct_now s + t) (ct_incoming s) | Some e \<Rightarrow> Some e)"
    and "rq_done (rg_requests (ct_registry (after_wait n t s)) ! n) \<longleftrightarrow>
      rq_reply (rg_requests (ct_registry (after_wait n t s)) ! n) \<noteq> None"
    and "static_of (after_wait n t s) = static_of s" and "ct_sent (after_wait n t s) = ct_sent s"
    and "ct_sends (after_wait n t s) = ct_sends s"
    and "ct_now s \<le> ct_now (after_wait n t s) \<and> ct_now (after_wait n t s) \<le> ct_now s + t"
    and "\<exists>pre. ct_incoming s = pre @ ct_incoming (after_wait n t s)"
proof -
  note w = wait_stands [OF assms(1,2), of "ct_now s + t" "ct_incoming s"]
  show "vacant (ct_registry (after_wait n t s)) q"
    using cancel_stands(1) [OF w] by (simp add: after_wait_def Let_def)
  show "rq_reply (rg_requests (ct_registry (after_wait n t s)) ! n) =
      (case r of None \<Rightarrow> first_answer q (ct_now s + t) (ct_incoming s) | Some e \<Rightarrow> Some e)"
    using stands_reply [OF w] cancel_stands(2) [OF w] by (simp add: after_wait_def first_answer_def Let_def split: option.split)
  show "rq_done (rg_requests (ct_registry (after_wait n t s)) ! n) \<longleftrightarrow>
      rq_reply (rg_requests (ct_registry (after_wait n t s)) ! n) \<noteq> None"
    using stands_done [OF w] stands_reply [OF w] cancel_stands(2) [OF w] by (simp add: after_wait_def Let_def)
  show "static_of (after_wait n t s) = static_of s" "ct_sent (after_wait n t s) = ct_sent s"
    "ct_sends (after_wait n t s) = ct_sends s"
    by (simp_all add: after_wait_def Let_def)
  show "ct_now s \<le> ct_now (after_wait n t s) \<and> ct_now (after_wait n t s) \<le> ct_now s + t"
    using wait_now [of s n "ct_now s + t" "ct_incoming s"] assms(3) by (simp add: after_wait_def Let_def max_def)
  show "\<exists>pre. ct_incoming s = pre @ ct_incoming (after_wait n t s)"
    using wait_incoming [of "ct_incoming s" n "ct_now s + t" s] by (simp add: after_wait_def Let_def)
qed

lemma send_and_wait_after:
  assumes "ct_transport s" and "recv3 \<noteq> []" and "recv3 \<noteq> BROADCAST3" and "question_ok (question_of recv3 opc)"
    and "register recv3 (snd (snd (question_of recv3 opc))) (fst (snd (question_of recv3 opc))) t (ct_now s) (ct_registry s) = (n, rg)"
    and "send ((install_transport_hooks s)\<lparr>ct_registry := rg\<rparr>) = (Inr (), s1)"
    and "rq_done (rg_requests (ct_registry (after_wait n t s1)) ! n) \<longleftrightarrow>
      rq_reply (rg_requests (ct_registry (after_wait n t s1)) ! n) \<noteq> None"
  shows "\<exists>f. send_and_wait_for_reply recv3 opc send t s =
    (Inr (reply_pair (rq_reply (rg_requests (ct_registry (after_wait n t s1)) ! n))), f (after_wait n t s1)) \<and>
    (f = id \<or> (\<exists>i. f = (\<lambda>s. upd_device i (mark_online (ct_now s)) s)))"
proof -
  have pol: "response_policy (opc AND 127) \<noteq> RESP_NONE" by (rule question_policy [OF assms(4)])
  define r where "r = rq_reply (rg_requests (ct_registry (after_wait n t s1)) ! n)"
  define dev where "dev = device_at (hex_bytes recv3) (install_transport_hooks s)"
  have "send_and_wait_for_reply recv3 opc send t s =
    (case r of None \<Rightarrow> (Inr ([], False), after_wait n t s1)
     | Some e \<Rightarrow> (Inr ([e], True), case dev of None \<Rightarrow> after_wait n t s1
        | Some i \<Rightarrow> upd_device i (mark_online (ct_now (after_wait n t s1))) (after_wait n t s1)))"
    using assms pol
    by (auto simp: send_and_wait_for_reply_def await_reply_def question_of_def Let_def r_def dev_def after_wait_def split: option.split)
  then show ?thesis
    by (cases r; cases dev) (auto simp: reply_pair_def r_def [symmetric] intro: exI [of _ id])
qed


lemma can_ask_kept: "can_ask s q d \<Longrightarrow> static_of s' = static_of (install_transport_hooks s) \<Longrightarrow> vacant (ct_registry s') q \<Longrightarrow> can_ask s' q d"
  using static_ofD [of s' "install_transport_hooks s"] by (simp add: can_ask_def)

lemma unicast_reply_state:
  assumes "can_ask s (question_of recv3 opc) d" and "recv3 \<noteq> []" and "recv3 \<noteq> BROADCAST3"
    and "send_ok (make_type DIR_M2N opc) recv3 body" and "0 \<le> t" and "ct_tx s (ct_sends s) = Some (dur, res)"
  shows "\<exists>s'. send_and_wait_for_reply recv3 opc (tx_fn opc recv3 body) t s =
      (Inr (reply_pair (first_answer (question_of recv3 opc) (ct_now s + dur + t) (ct_incoming s))), s') \<and>
    ct_sent s' = ct_sent s @ [packet_of opc recv3 body] \<and> ct_now s + dur \<le> ct_now s' \<and> ct_now s' \<le> ct_now s + dur + t \<and>
    snd ` set (ct_incoming s') \<subseteq> snd ` set (ct_incoming s) \<and> can_ask s' (question_of recv3 opc) d"
proof -
  obtain sn pol key where q: "question_of recv3 opc = (recv3, pol, key)" by (simp add: question_of_def Let_def)
  have tr: "ct_transport s" and v: "vacant (ct_registry s) (recv3, pol, key)" and dur: "0 \<le> dur"
    using assms(1,6) q spec [of "\<lambda>k. fate_ok d (ct_tx s k)" "ct_sends s"] by (simp_all add: can_ask_def fate_ok_def)
  obtain n rg where reg: "register recv3 key pol t (ct_now s) (ct_registry s) = (n, rg)" by fastforce
  have ok: "question_ok (question_of recv3 opc)" using v q by (simp add: vacant_def)
  have reg': "register recv3 (snd (snd (question_of recv3 opc))) (fst (snd (question_of recv3 opc))) t (ct_now s) (ct_registry s) = (n, rg)"
    using reg by (simp add: q)
  let ?s0 = "(install_transport_hooks s)\<lparr>ct_registry := rg\<rparr>"
  have a: "stands rg n (recv3, pol, key) None" using register_asks(1) [OF v reg] by (simp add: stands_def)
  obtain s1 where s1: "tx_fn opc recv3 body ?s0 = (Inr (), s1)" "static_of s1 = static_of ?s0"
      "ct_sent s1 = ct_sent ?s0 @ [packet_of opc recv3 body]"
      "ct_now s1 = ct_now ?s0 + dur" "ct_incoming s1 = after (ct_now ?s0 + dur) (ct_incoming ?s0)"
      "ct_hooks ?s0 \<Longrightarrow> ct_registry s1 = match_all (replies (until (ct_now ?s0 + dur) (ct_incoming ?s0))) (ct_registry ?s0)"
    by (rule tx_fn_result [OF assms(4), of ?s0 dur res]) (use assms(6) dur in auto)
  let ?r = "first_answer (recv3, pol, key) (ct_now s + dur) (ct_incoming s)"
  have h: "ct_hooks s1" using static_ofD [OF s1(2)] tr by simp
  have st: "stands (ct_registry s1) n (recv3, pol, key) ?r"
    using stands_fold [OF a] s1(6) tr by (simp add: match_all_def first_answer_def)
  note w = after_wait_facts [OF st h assms(5)]
  have res: "rq_reply (rg_requests (ct_registry (after_wait n t s1)) ! n) =
      first_answer (recv3, pol, key) (ct_now s + dur + t) (ct_incoming s)"
    using w(2) s1(4,5) first_answer_split [of "ct_now s + dur" "ct_now s + dur + t" "(recv3, pol, key)" "ct_incoming s"] assms(5)
    by (simp split: option.split)
  obtain f where f: "send_and_wait_for_reply recv3 opc (tx_fn opc recv3 body) t s =
      (Inr (reply_pair (first_answer (recv3, pol, key) (ct_now s + dur + t) (ct_incoming s))), f (after_wait n t s1))"
      "f = id \<or> (\<exists>i. f = (\<lambda>s. upd_device i (mark_online (ct_now s)) s))"
    using send_and_wait_after [where s = s and send = "tx_fn opc recv3 body" and ?s1.0 = s1 and n = n and t = t and ?recv3.0 = recv3
      and opc = opc and rg = rg, OF tr assms(2,3) ok reg' s1(1) w(3)] unfolding res by metis
  let ?s' = "f (after_wait n t s1)"
  have f': "static_of ?s' = static_of s1" "ct_registry ?s' = ct_registry (after_wait n t s1)" "ct_sent ?s' = ct_sent s1"
      "ct_now ?s' = ct_now (after_wait n t s1)" "ct_incoming ?s' = ct_incoming (after_wait n t s1)"
    using f(2) w(4,5) by (elim disjE exE; simp; simp add: upd_device_def)+
  have "can_ask ?s' (recv3, pol, key) d"
    by (rule can_ask_kept) (use assms(1) q f' s1(2) w(1) in simp_all)
  moreover have "set (ct_incoming ?s') \<subseteq> set (ct_incoming s)"
    using w(8) s1(5) f'(5) after_subset [of "ct_now s + dur" "ct_incoming s"] by auto
  ultimately show ?thesis
    unfolding q using f(1) f' s1(3,4) w(7) by (intro exI [of _ ?s']) (simp add: image_mono)
qed


lemma sleep_facts: "0 \<le> t \<Longrightarrow> static_of (sleep t s) = static_of s \<and> ct_sent (sleep t s) = ct_sent s \<and>
    ct_sends (sleep t s) = ct_sends s \<and> ct_now (sleep t s) = ct_now s + t \<and>
    ct_incoming (sleep t s) = after (ct_now s + t) (ct_incoming s)"
  by (simp add: sleep_def)

lemma sleep_can_ask: "can_ask s q d \<Longrightarrow> can_ask (sleep t s) q d"
  using static_ofD [of "sleep t s" s] by (simp add: can_ask_def sleep_def advance_vacant)

definition pause :: "nat \<Rightarrow> rat \<Rightarrow> ctl \<Rightarrow> ctl" where
  "pause n delay = (if n \<noteq> 0 \<and> 0 < delay then sleep delay else id)"

lemma pause_facts:
  assumes "can_ask s q d" and "0 \<le> delay"
  shows "can_ask (pause n delay s) q d \<and> ct_sent (pause n delay s) = ct_sent s \<and>
    ct_now (pause n delay s) \<le> ct_now s + delay \<and> (n = 0 \<longrightarrow> ct_now (pause n delay s) = ct_now s) \<and>
    snd ` set (ct_incoming (pause n delay s)) \<subseteq> snd ` set (ct_incoming s)"
  using assms sleep_facts [of delay s] sleep_can_ask [of s q d delay] image_mono [OF after_subset, of snd "ct_now s + delay" "ct_incoming s"]
  by (simp add: pause_def)

definition bounded_run :: "question \<Rightarrow> rat \<Rightarrow> packet \<Rightarrow> rat \<Rightarrow> rat \<Rightarrow> nat \<Rightarrow> ctl \<Rightarrow> nat \<Rightarrow> reply_event option \<Rightarrow> ctl \<Rightarrow> bool" where
  "bounded_run q d pkt per delay n s m r s' \<longleftrightarrow>
     m \<le> n \<and> ct_sent s' = ct_sent s @ replicate m pkt \<and>
     ct_now s' \<le> ct_now s + rat_of_nat m * (d + per) + rat_of_nat (m - 1) * delay \<and>
     (r = None \<longrightarrow> m = n) \<and> (\<forall>e. r = Some e \<longrightarrow> 0 < m \<and> answers q e \<and> EvReply e \<in> snd ` set (ct_incoming s)) \<and>
     can_ask s' q d"

lemma retry_loop_Suc:
  assumes "send_and_wait_for_reply recv3 opc send per s = (Inr (reply_pair r), s1)"
  shows "retry_loop (Suc n) recv3 opc send per delay last_events s =
    (case r of Some e \<Rightarrow> (Inr (reply_pair r), s1) | None \<Rightarrow> retry_loop n recv3 opc send per delay [] (pause n delay s1))"
  using assms by (cases r) (simp_all add: pbind_def reply_pair_def pause_def)

lemma retry_loop_bounded:
  assumes "recv3 \<noteq> []" and "recv3 \<noteq> BROADCAST3" and "send_ok (make_type DIR_M2N opc) recv3 body" and "0 \<le> per" and "0 \<le> delay"
  shows "can_ask s (question_of recv3 opc) d \<Longrightarrow>
    \<exists>m r s'. retry_loop n recv3 opc (tx_fn opc recv3 body) per delay [] s = (Inr (reply_pair r), s') \<and>
      bounded_run (question_of recv3 opc) d (packet_of opc recv3 body) per delay n s m r s'"
proof (induction n arbitrary: s)
  case 0
  then show ?case by (auto simp: bounded_run_def reply_pair_def intro!: exI [of _ None])
next
  case (Suc n)
  obtain dur res where dur: "ct_tx s (ct_sends s) = Some (dur, res)" "dur \<le> d" 
    using Suc.prems spec [of "\<lambda>k. fate_ok d (ct_tx s k)" "ct_sends s"]
    by (cases "ct_tx s (ct_sends s)") (auto simp: can_ask_def fate_ok_def)
  let ?q = "question_of recv3 opc" and ?p = "packet_of opc recv3 body"
  let ?r = "first_answer ?q (ct_now s + dur + per) (ct_incoming s)"
  obtain s1 where s1: "send_and_wait_for_reply recv3 opc (tx_fn opc recv3 body) per s = (Inr (reply_pair ?r), s1)"
      "ct_sent s1 = ct_sent s @ [?p]" "ct_now s1 \<le> ct_now s + dur + per" "can_ask s1 ?q d"
      "snd ` set (ct_incoming s1) \<subseteq> snd ` set (ct_incoming s)"
    using unicast_reply_state [OF Suc.prems assms(1-4) dur(1)] by blast
  note loop = retry_loop_Suc [OF s1(1), of n delay "[]"]
  show ?case
  proof (cases ?r)
    case (Some e)
    with loop s1 dur(2) first_answerD [OF Some] show ?thesis
      by (intro exI [of _ 1] exI [of _ "Some e"] exI [of _ s1]) (simp add: bounded_run_def)
  next
    case None
    note p = pause_facts [OF s1(4) assms(5), of n]
    obtain m r s' where ih: "retry_loop n recv3 opc (tx_fn opc recv3 body) per delay [] (pause n delay s1) = (Inr (reply_pair r), s')"
        "bounded_run ?q d ?p per delay n (pause n delay s1) m r s'"
      using Suc.IH [of "pause n delay s1"] conjunct1 [OF p] by blast
    have sub: "snd ` set (ct_incoming (pause n delay s1)) \<subseteq> snd ` set (ct_incoming s)"
      using p s1(5) by (meson order_trans)
    have time: "ct_now s' \<le> ct_now s + rat_of_nat (Suc m) * (d + per) + rat_of_nat (Suc m - 1) * delay"
    proof (cases m)
      case 0
      with ih(2) have "n = 0" by (cases r) (auto simp: bounded_run_def)
      with 0 ih(2) p s1(3) dur(2) show ?thesis by (simp add: bounded_run_def)
    next
      case (Suc k)
      with ih(2) p s1(3) dur(2) show ?thesis by (simp add: bounded_run_def algebra_simps)
    qed
    have "bounded_run ?q d ?p per delay (Suc n) s (Suc m) r s'"
      using ih(2) p s1(2) sub time unfolding bounded_run_def by (simp add: subset_iff)
    with ih(1) loop None show ?thesis by auto
  qed
qed

text \<open>
  C7.  A unicast request over a healthy link returns exactly the first event that answers it among those
  the reader delivers until the send time and the time-out have passed (a single event, paired with success,
  or nothing); it puts one packet on the air, is back at the latest when the time is up, and leaves the
  registry with no trace of the request, so that the same question can be asked again.
\<close>

theorem unicast_reply:
  assumes "can_ask s (question_of recv3 opc) d" and "recv3 \<noteq> []" and "recv3 \<noteq> BROADCAST3"
    and "send_ok (make_type DIR_M2N opc) recv3 body" and "0 \<le> t" and "ct_tx s (ct_sends s) = Some (dur, res)"
  shows "\<exists>s'. send_and_wait_for_reply recv3 opc (tx_fn opc recv3 body) t s =
      (Inr (reply_pair (find_where (answers (question_of recv3 opc)) (replies (until (ct_now s + dur + t) (ct_incoming s))))), s') \<and>
    ct_sent s' = ct_sent s @ [packet_of opc recv3 body] \<and> ct_now s + dur \<le> ct_now s' \<and> ct_now s' \<le> ct_now s + dur + t \<and>
    can_ask s' (question_of recv3 opc) d"
  using unicast_reply_state [OF assms] unfolding first_answer_def by blast

text \<open>A controller at rest, for the concrete instances.\<close>

definition idle_ctl :: "rl_device list \<Rightarrow> (rat \<times> gw_event) list \<Rightarrow> ctl" where
  "idle_ctl devices incoming =
     \<lparr>ct_devices = devices, ct_groups = [], ct_transport = True, ct_hooks = True, ct_ready = True,
      ct_discovery = False, ct_registry = empty_registry, ct_expect = None, ct_pending_config = [],
      ct_last_error_notify = 0, ct_notices = 0, ct_reconnecting = False, ct_last_reconnect = 0,
      ct_link_recovery = False, ct_reassign_recent = [], ct_pool = True, ct_jobs = [], ct_listener = None,
      ct_collected = [], ct_sent = [], ct_now = 100, ct_incoming = incoming,
      ct_tx = (\<lambda>k. Some (1/10, outcome_success)), ct_sends = 0\<rparr>"

definition node3 :: "byte list" where "node3 = [0xAA, 0xBB, 0xCC]"

definition reply_from :: "byte list \<Rightarrow> int \<Rightarrow> reply \<Rightarrow> reply_event" where
  "reply_from sender opc r =
     \<lparr>re_type = 0, re_dir = DIR_N2M, re_opc = opc, re_sender3 = sender, re_receiver3 = [0, 0, 0],
      re_host_rssi = - 60, re_host_snr = 7, re_ts = 0, re_reply = r\<rparr>"

lemma idle_can_ask: "question_ok (question_of recv3 opc) \<Longrightarrow> can_ask (idle_ctl ds evs) (question_of recv3 opc) (1/10)"
  by (simp add: can_ask_def vacant_def idle_ctl_def fate_ok_def keys_ok_def) (simp add: empty_registry_def)

lemma unicast_reply_witness:
  "\<exists>s'. send_and_wait_for_reply node3 OPC_SET_GROUP (tx_fn OPC_SET_GROUP node3 [1]) (3/2)
      (idle_ctl [] [(101, EvReply (reply_from node3 OPC_STATUS (StatusRaw []))),
                    (1015/10, EvReply (reply_from node3 OPC_ACK (Ack OPC_SET_GROUP 0 None)))]) =
      (Inr ([reply_from node3 OPC_ACK (Ack OPC_SET_GROUP 0 None)], True), s')"
proof -
  let ?s = "idle_ctl [] [(101, EvReply (reply_from node3 OPC_STATUS (StatusRaw []))),
                    (1015/10, EvReply (reply_from node3 OPC_ACK (Ack OPC_SET_GROUP 0 None)))]"
  have q: "question_of node3 OPC_SET_GROUP = (node3, RESP_ACK, OPC_SET_GROUP)" by code_simp
  have ok: "question_ok (question_of node3 OPC_SET_GROUP)" unfolding q by code_simp
  have "reply_pair (find_where (answers (question_of node3 OPC_SET_GROUP))
      (replies (until (ct_now ?s + 1/10 + 3/2) (ct_incoming ?s)))) =
      ([reply_from node3 OPC_ACK (Ack OPC_SET_GROUP 0 None)], True)"
    unfolding q by (simp add: idle_ctl_def answers_def reply_from_def ev_ack_of_def reply_pair_def
      OPC_ACK_def OPC_STATUS_def OPC_SET_GROUP_def RESP_ACK_def)
  moreover have "node3 \<noteq> []" "node3 \<noteq> BROADCAST3" "send_ok (make_type DIR_M2N OPC_SET_GROUP) node3 [1]" by code_simp+
  ultimately show ?thesis
    using unicast_reply [OF idle_can_ask [OF ok, of "[]" "ct_incoming ?s"], of "[1]" "3/2" "1/10" outcome_success]
    by (auto simp: idle_ctl_def)
qed



section \<open>Collecting\<close>

lemma deliver_heard: "ct_listener s = Some p \<Longrightarrow>
    map snd (ct_collected (deliver ev s)) = map snd (ct_collected s) @ filter p [ev]"
  by (simp add: deliver_collected)

lemma advance_heard: "ct_listener s = Some p \<Longrightarrow>
    map snd (ct_collected (advance d evs s)) = map snd (ct_collected s) @ filter p (map snd (until d evs))"
  by (induction d evs s rule: advance.induct) (simp_all add: deliver_heard)

lemma tx_hook_collected [simp]: "ct_collected (on_transport_tx opc recv3 s) = ct_collected s"
  by (simp add: on_transport_tx_def set_pending_expect_def Let_def split: option.split)

definition collecting :: "(gw_event \<Rightarrow> bool) \<Rightarrow> int option \<Rightarrow> rat \<Rightarrow> rat \<Rightarrow> (rat \<times> gw_event) list \<Rightarrow> ctl \<Rightarrow> (rat \<times> gw_event) list \<Rightarrow> ctl \<Rightarrow> bool" where
  "collecting p expected idle hard evs s pre s' \<longleftrightarrow>
     evs = pre @ ct_incoming s' \<and> static_of s' = static_of s \<and> ct_sent s' = ct_sent s \<and>
     map snd (ct_collected s') = map snd (ct_collected s) @ filter p (map snd pre) \<and>
     ct_now s \<le> ct_now s' \<and> ct_now s' \<le> max (ct_now s) hard \<and>
     (collect_full expected s' \<or> collect_deadline idle hard s' \<le> ct_now s')"

lemma collect_deadline_keep [simp]:
  "collect_deadline idle hard (s\<lparr>ct_incoming := evs\<rparr>) = collect_deadline idle hard s"
  "collect_deadline idle hard (s\<lparr>ct_now := t, ct_incoming := evs\<rparr>) = collect_deadline idle hard s"
  "collect_deadline idle hard (s\<lparr>ct_now := t\<rparr>) = collect_deadline idle hard s"
  "collect_deadline idle hard (s\<lparr>ct_listener := l\<rparr>) = collect_deadline idle hard s"
  "collect_full expected (s\<lparr>ct_incoming := evs\<rparr>) = collect_full expected s"
  "collect_full expected (s\<lparr>ct_listener := l\<rparr>) = collect_full expected s"
  by (simp_all add: collect_deadline_def last_match_def collect_full_def split: option.split)

lemma collect_deadline_hard: "collect_deadline idle hard s \<le> hard"
  by (simp add: collect_deadline_def split: option.split)

lemma collect_loop_collecting: "ct_listener s = Some p \<Longrightarrow>
    \<exists>pre. collecting p expected idle hard evs s pre (collect_loop expected idle hard evs s)"
proof (induction expected idle hard evs s rule: collect_loop.induct)
  case (1 expected idle hard s)
  show ?case
    using collect_deadline_hard [of idle hard s]
    by (intro exI [of _ "[]"]) (auto simp: collecting_def)
next
  case (2 expected idle hard t ev evs s)
  let ?stop = "collect_full expected s \<or> collect_deadline idle hard s \<le> ct_now s"
  show ?case
  proof (cases "?stop \<or> collect_deadline idle hard s < t")
    case True
    then show ?thesis
      using collect_deadline_hard [of idle hard s]
      by (intro exI [of _ "[]"]) (auto simp: collecting_def)
  next
    case False
    let ?s = "deliver ev (s\<lparr>ct_now := max (ct_now s) t\<rparr>)"
    have "ct_listener ?s = Some p" using 2(2) by simp
    with 2(1) False obtain pre where pre: "collecting p expected idle hard evs ?s pre (collect_loop expected idle hard evs ?s)"
      by blast
    have t: "t \<le> hard" using False collect_deadline_hard [of idle hard s] by simp
    have "map snd (ct_collected ?s) = map snd (ct_collected s) @ filter p [ev]"
      using deliver_heard [of "s\<lparr>ct_now := max (ct_now s) t\<rparr>" p ev] 2(2) by simp
    with pre t have "collecting p expected idle hard ((t, ev) # evs) s ((t, ev) # pre) (collect_loop expected idle hard evs ?s)"
      by (auto simp: collecting_def max_def split: if_splits)
    with False show ?thesis by auto
  qed
qed


lemma tx_fn_heard:
  assumes "send_ok (make_type DIR_M2N opc) recv3 body" and "ct_tx s (ct_sends s) = Some (dur, res)" and "0 \<le> dur"
    and "ct_listener s = Some p"
  shows "map snd (ct_collected (snd (tx_fn opc recv3 body s))) =
    map snd (ct_collected s) @ filter p (map snd (until (ct_now s + dur) (ct_incoming s)))"
proof -
  let ?s1 = "s\<lparr>ct_sends := Suc (ct_sends s), ct_sent := ct_sent s @ [packet_of opc recv3 body]\<rparr>"
  have "map snd (ct_collected (sleep dur ?s1)) =
      map snd (ct_collected s) @ filter p (map snd (until (ct_now s + dur) (ct_incoming s)))"
    using assms(4) advance_heard [of ?s1 p "ct_now s + dur" "ct_incoming s"] by (simp add: sleep_def)
  with assms show ?thesis by (simp add: tx_fn_def tx_def pbind_def Let_def)
qed

lemma collect_result:
  assumes "ct_transport s" and "send_ok (make_type DIR_M2N opc) recv3 body"
    and "ct_tx s (ct_sends s) = Some (dur, res)" and "0 \<le> dur"
  shows "\<exists>pre s'. send_and_collect (tx_fn opc recv3 body) p expected idle maxt s = (Inr (filter p (map snd pre)), s') \<and>
    ct_incoming s = pre @ ct_incoming s' \<and> ct_sent s' = ct_sent s @ [packet_of opc recv3 body] \<and> ct_listener s' = None \<and>
    map snd (ct_collected s') = filter p (map snd pre) \<and>
    (collect_full expected s' \<or> collect_deadline idle (ct_now s + maxt) s' \<le> ct_now s') \<and>
    ct_now s' \<le> max (ct_now s + dur) (ct_now s + maxt)"
proof -
  let ?s0 = "(install_transport_hooks s)\<lparr>ct_listener := Some p, ct_collected := []\<rparr>"
  obtain s1 where s1: "tx_fn opc recv3 body ?s0 = (Inr (), s1)" "static_of s1 = static_of ?s0"
      "ct_sent s1 = ct_sent ?s0 @ [packet_of opc recv3 body]"
      "ct_now s1 = ct_now ?s0 + dur" "ct_incoming s1 = after (ct_now ?s0 + dur) (ct_incoming ?s0)"
    by (rule tx_fn_result [OF assms(2), of ?s0 dur res]) (use assms(3,4) in auto)
  have heard: "map snd (ct_collected s1) = filter p (map snd (until (ct_now s + dur) (ct_incoming s)))"
    using tx_fn_heard [OF assms(2), of ?s0 dur res p] assms(3,4) s1(1) by simp
  have lis: "ct_listener s1 = Some p" using static_ofD [OF s1(2)] by simp
  let ?s2 = "collect_loop expected idle (ct_now s + maxt) (ct_incoming s1) s1"
  obtain pre where pre: "collecting p expected idle (ct_now s + maxt) (ct_incoming s1) s1 pre ?s2"
    using collect_loop_collecting [OF lis] by blast
  let ?pre = "until (ct_now s + dur) (ct_incoming s) @ pre"
  have "send_and_collect (tx_fn opc recv3 body) p expected idle maxt s =
      (Inr (map snd (ct_collected ?s2)), ?s2\<lparr>ct_listener := None\<rparr>)"
    using assms(1) s1(1) by (simp add: send_and_collect_def Let_def)
  moreover have "map snd (ct_collected ?s2) = filter p (map snd ?pre)"
    using pre heard by (simp add: collecting_def)
  moreover have "ct_incoming s = ?pre @ ct_incoming ?s2"
    using pre s1(5) until_after_id [of "ct_now s + dur" "ct_incoming s"] by (simp add: collecting_def)
  ultimately show ?thesis using pre s1(3,4)
    by (intro exI [of _ ?pre] exI [of _ "?s2\<lparr>ct_listener := None\<rparr>"]) (simp add: collecting_def)
qed

text \<open>
  C9.  A broadcast collection returns exactly the events that satisfy its predicate among all that arrived
  from the start of the send until it returned, in their order and with none lost; it sends one packet and
  stops listening.  It ends only when the expected number has been collected, or when the hard deadline or
  the idle time after the last match has passed, and never later than the hard deadline (or the end of the
  send, when that takes longer).
\<close>

theorem collect_complete:
  assumes "ct_transport s" and "send_ok (make_type DIR_M2N opc) recv3 body"
    and "ct_tx s (ct_sends s) = Some (dur, res)" and "0 \<le> dur"
  shows "\<exists>pre s'. send_and_collect (tx_fn opc recv3 body) p expected idle maxt s = (Inr (filter p (map snd pre)), s') \<and>
    ct_incoming s = pre @ ct_incoming s' \<and> ct_sent s' = ct_sent s @ [packet_of opc recv3 body] \<and> ct_listener s' = None \<and>
    map snd (ct_collected s') = filter p (map snd pre) \<and>
    ((\<exists>n. expected = Some n \<and> filter p (map snd pre) \<noteq> [] \<and> n \<le> int (length (filter p (map snd pre)))) \<or>
      ct_now s + maxt \<le> ct_now s' \<or> (ct_collected s' \<noteq> [] \<and> fst (last (ct_collected s')) + idle \<le> ct_now s')) \<and>
    ct_now s' \<le> max (ct_now s + dur) (ct_now s + maxt)"
proof -
  from collect_result [OF assms, of p expected idle maxt] obtain pre s' where
    r: "send_and_collect (tx_fn opc recv3 body) p expected idle maxt s = (Inr (filter p (map snd pre)), s')"
      "ct_incoming s = pre @ ct_incoming s'" "ct_sent s' = ct_sent s @ [packet_of opc recv3 body]" "ct_listener s' = None"
      "ct_now s' \<le> max (ct_now s + dur) (ct_now s + maxt)" and
    c: "map snd (ct_collected s') = filter p (map snd pre)" and
    e: "collect_full expected s' \<or> collect_deadline idle (ct_now s + maxt) s' \<le> ct_now s'"
    by blast
  have len: "length (ct_collected s') = length (filter p (map snd pre))"
    using arg_cong [OF c, of length] by simp
  then have "ct_collected s' = [] \<longleftrightarrow> filter p (map snd pre) = []"
    by (metis length_0_conv)
  with e len have "(\<exists>n. expected = Some n \<and> filter p (map snd pre) \<noteq> [] \<and> n \<le> int (length (filter p (map snd pre)))) \<or>
      ct_now s + maxt \<le> ct_now s' \<or> (ct_collected s' \<noteq> [] \<and> fst (last (ct_collected s')) + idle \<le> ct_now s')"
    unfolding collect_full_def collect_deadline_def last_match_def by (auto split: option.splits if_splits)
  with r c show ?thesis by blast
qed

lemma collect_complete_witness:
  "\<exists>pre s'. send_and_collect (tx_fn OPC_STATUS BROADCAST3 [255, 0]) (\<lambda>ev. event_reply ev \<noteq> None) (Some 2) (3/5) 5
      (idle_ctl [] [(101, EvReply (reply_from node3 OPC_STATUS (StatusRaw [])))]) = (Inr (filter (\<lambda>ev. event_reply ev \<noteq> None) (map snd pre)), s') \<and>
    [(101, EvReply (reply_from node3 OPC_STATUS (StatusRaw [])))] = pre @ ct_incoming s' \<and> ct_now s' \<le> 105"
proof -
  have "send_ok (make_type DIR_M2N OPC_STATUS) BROADCAST3 [255, 0]" by code_simp
  from collect_complete [OF _ this, of "idle_ctl [] [(101, EvReply (reply_from node3 OPC_STATUS (StatusRaw [])))]"
      "1/10" outcome_success "\<lambda>ev. event_reply ev \<noteq> None" "Some 2" "3/5" 5]
  show ?thesis by (simp add: idle_ctl_def) blast
qed

section \<open>What a call may cost\<close>

text \<open>
  \<open>spent k s s'\<close>: from \<open>s\<close> to \<open>s'\<close> at most \<open>k\<close> sends were tried, and every device that is new was
  announced by an event that was delivered.
\<close>

definition spent :: "nat \<Rightarrow> ctl \<Rightarrow> ctl \<Rightarrow> bool" where
  "spent k s s' \<longleftrightarrow> ct_sends s' \<le> ct_sends s + k \<and>
     length (ct_devices s') + length (ct_incoming s') \<le> length (ct_devices s) + length (ct_incoming s)"

lemma spent_refl: "spent 0 s s"
  by (simp add: spent_def)

lemma spent_trans: "spent k s s1 \<Longrightarrow> spent l s1 s2 \<Longrightarrow> spent (k + l) s s2"
  by (simp add: spent_def)

lemma spent_mono: "spent k s s' \<Longrightarrow> k \<le> l \<Longrightarrow> spent l s s'"
  by (simp add: spent_def)

lemma spent_same: "ct_sends s' = ct_sends s \<Longrightarrow> length (ct_devices s') = length (ct_devices s) \<Longrightarrow>
    ct_incoming s' = ct_incoming s \<Longrightarrow> spent 0 s s'"
  by (simp add: spent_def)

definition costs :: "nat \<Rightarrow> (ctl, 'a) proc \<Rightarrow> bool" where
  "costs k m \<longleftrightarrow> (\<forall>s. spent k s (snd (m s)))"

lemma costsI: "(\<And>s. spent k s (snd (m s))) \<Longrightarrow> costs k m"
  by (simp add: costs_def)

lemma costsD: "costs k m \<Longrightarrow> m s = (r, s') \<Longrightarrow> spent k s s'"
  by (metis costs_def snd_conv)

lemma costs_pret: "costs 0 (pret x)"
  by (simp add: costs_def spent_refl)

lemma costs_pbind: "costs k m \<Longrightarrow> (\<And>x. costs l (f x)) \<Longrightarrow> costs (k + l) (pbind m f)"
proof (rule costsI)
  fix s
  assume m: "costs k m" and f: "\<And>x. costs l (f x)"
  obtain r s1 where r: "m s = (r, s1)" by fastforce
  show "spent (k + l) s (snd (pbind m f s))"
  proof (cases r)
    case (Inl e)
    with r costsD [OF m r] show ?thesis by (simp add: pbind_def spent_mono)
  next
    case (Inr x)
    have "spent l s1 (snd (f x s1))" using f by (simp add: costs_def)
    with Inr r costsD [OF m r] show ?thesis by (simp add: pbind_def spent_trans)
  qed
qed

lemma advance_spent: "length (ct_devices (advance d evs s)) + length (ct_incoming (advance d evs s)) \<le> length (ct_devices s) + length evs"
proof (induction d evs s rule: advance.induct)
  case (2 d t ev evs s)
  then show ?case using deliver_devices [of ev "s\<lparr>ct_now := max (ct_now s) t\<rparr>"] by fastforce
qed simp

lemma wait_spent: "length (ct_devices (wait_done n d evs s)) + length (ct_incoming (wait_done n d evs s)) \<le> length (ct_devices s) + length evs"
proof (induction n d evs s rule: wait_done.induct)
  case (2 n d t ev evs s)
  show ?case
  proof (cases "rq_done (rg_requests (ct_registry s) ! n) \<or> d < t")
    case True
    then show ?thesis by auto
  next
    case False
    with 2(1) deliver_devices [of ev "s\<lparr>ct_now := max (ct_now s) t\<rparr>"] show ?thesis by (simp del: wait_static)
  qed
qed simp

lemma sleep_spent: "spent 0 s (sleep d s)"
  using advance_spent [of "ct_now s + d" "ct_incoming s" s] by (simp add: spent_def sleep_def)

lemma sends_upd [simp]: "ct_sends (upd_device i f s) = ct_sends s" "ct_incoming (upd_device i f s) = ct_incoming s"
  by (simp_all add: upd_device_def)

lemma install_spent: "spent 0 s (install_transport_hooks s)"
  by (rule spent_same) simp_all

lemma disconnect_spent: "spent 0 s (deliver EvDisconnected s)"
proof (rule spent_same)
  show "length (ct_devices (deliver EvDisconnected s)) = length (ct_devices s)"
    by (simp add: deliver_def on_transport_event_def Let_def split: option.split)
qed simp_all

lemma tx_fn_costs: "costs 1 (tx_fn opc recv3 body)"
proof (rule costsI)
  fix s
  have hook: "ct_devices (on_transport_tx opc recv3 s') = ct_devices s'" for s'
    by (simp add: on_transport_tx_def set_pending_expect_def Let_def split: option.split)
  have one: "spent 1 s s2" if "spent 0 s1 s2" "ct_sends s1 = Suc (ct_sends s)" "ct_devices s1 = ct_devices s" "ct_incoming s1 = ct_incoming s" for s1 s2
    using that by (simp add: spent_def)
  have "spent 1 s (snd (tx opc recv3 body s))"
  proof (cases "send_ok (make_type DIR_M2N opc) recv3 body")
    case True
    show ?thesis
    proof (cases "ct_tx s (ct_sends s)")
      case None
      with True show ?thesis using one [OF disconnect_spent] by (simp add: tx_def Let_def)
    next
      case (Some fate)
      obtain dur res where f: "fate = (dur, res)" by fastforce
      let ?s1 = "s\<lparr>ct_sends := Suc (ct_sends s), ct_sent := ct_sent s @ [packet_of opc recv3 body]\<rparr>"
      have "spent 1 s (sleep dur ?s1)" by (rule one [OF sleep_spent]) simp_all
      then have "spent 1 s (if ct_hooks (sleep dur ?s1) then on_transport_tx opc recv3 (sleep dur ?s1) else sleep dur ?s1)"
        by (simp add: spent_def hook)
      with True Some f show ?thesis by (simp add: tx_def Let_def)
    qed
  qed (simp add: tx_def spent_def)
  then show "spent 1 s (snd (tx_fn opc recv3 body s))" by (simp add: tx_fn_def pbind_pret_snd)
qed

lemma await_costs: "costs 0 (await_reply n t dev)"
proof (rule costsI)
  fix s
  have "spent 0 s (wait_done n (ct_now s + t) (ct_incoming s) s)"
    using wait_spent [of n "ct_now s + t" "ct_incoming s" s] by (simp add: spent_def)
  then show "spent 0 s (snd (await_reply n t dev s))"
    by (simp add: await_reply_def Let_def spent_def split: option.split)
qed


lemma collect_spent: "length (ct_devices (collect_loop e i h evs s)) + length (ct_incoming (collect_loop e i h evs s)) \<le> length (ct_devices s) + length evs"
proof (induction e i h evs s rule: collect_loop.induct)
  case (2 e i h t ev evs s)
  show ?case
  proof (cases "(collect_full e s \<or> collect_deadline i h s \<le> ct_now s) \<or> collect_deadline i h s < t")
    case True
    then show ?thesis by auto
  next
    case False
    with 2(1) deliver_devices [of ev "s\<lparr>ct_now := max (ct_now s) t\<rparr>"] show ?thesis by simp
  qed
qed simp

lemma spent_keep: "spent k s (s'\<lparr>ct_registry := rg\<rparr>) = spent k s s'" "spent k s (s'\<lparr>ct_listener := l\<rparr>) = spent k s s'"
  "spent k (s\<lparr>ct_registry := rg\<rparr>) s' = spent k s s'" "spent k (s\<lparr>ct_listener := l, ct_collected := c\<rparr>) s' = spent k s s'"
  "spent k (install_transport_hooks s) s' = spent k s s'" "spent k s (install_transport_hooks s') = spent k s s'"
  "spent k s (upd_device i f s') = spent k s s'" "spent k (upd_device i f s) s' = spent k s s'"
  by (simp_all add: spent_def)

lemma loop_sends [simp]: "ct_sends (collect_loop e i h evs s) = ct_sends s"
  by (induction e i h evs s rule: collect_loop.induct) simp_all

lemma collect_costs:
  assumes "costs k send"
  shows "costs k (send_and_collect send p e i maxt)"
proof (rule costsI)
  fix s
  obtain r s1 where r: "send ((install_transport_hooks s)\<lparr>ct_listener := Some p, ct_collected := []\<rparr>) = (r, s1)" by fastforce
  have 1: "spent k s s1" using costsD [OF assms r] by (simp add: spent_keep)
  have "spent 0 s1 (collect_loop e i h (ct_incoming s1) s1)" for h
    using collect_spent [of e i h "ct_incoming s1" s1] by (simp add: spent_def)
  then have 2: "spent k s (collect_loop e i h (ct_incoming s1) s1)" for h using spent_trans [OF 1] by force
  have "spent k s s" by (simp add: spent_def)
  then show "spent k s (snd (send_and_collect send p e i maxt s))"
    using r 1 2 by (cases r) (simp_all add: send_and_collect_def Let_def spent_keep)
qed

lemma request_costs:
  assumes "costs k send"
  shows "costs k (send_and_wait_for_reply recv3 opc send t)"
proof (rule costsI)
  fix s
  have s: "spent k s s" by (simp add: spent_def)
  have run: "spent k s (snd (m (install_transport_hooks s)))" if "costs k m" for m :: "(ctl, reply_event list \<times> bool) proc"
    using that by (simp add: costs_def) (metis spent_keep(5))
  have b: "costs k (pbind send (\<lambda>_. pret x))" for x :: "reply_event list \<times> bool"
    using costs_pbind [OF assms costs_pret] by force
  have c: "costs k (pbind (send_and_collect send p e i maxt) (\<lambda>rs. pret (f rs)))" for p e i maxt and f :: "gw_event list \<Rightarrow> reply_event list \<times> bool"
    using costs_pbind [OF collect_costs [OF assms] costs_pret] by force
  have a: "spent k s (snd (case send ((install_transport_hooks s)\<lparr>ct_registry := rg\<rparr>) of
      (Inl e, s2) \<Rightarrow> (Inl e, s2\<lparr>ct_registry := cancel n (ct_registry s2)\<rparr>) | (Inr u, s2) \<Rightarrow> await_reply n t dev s2))" for rg n dev
  proof -
    obtain r s1 where r: "send ((install_transport_hooks s)\<lparr>ct_registry := rg\<rparr>) = (r, s1)" by fastforce
    have 1: "spent k s s1" using costsD [OF assms r] by (simp add: spent_keep)
    have "spent 0 s1 (snd (await_reply n t dev s1))" using await_costs by (simp add: costs_def)
    with 1 have "spent k s (snd (await_reply n t dev s1))" using spent_trans by force
    with 1 r show ?thesis by (cases r) (simp_all add: spent_keep)
  qed
  show "spent k s (snd (send_and_wait_for_reply recv3 opc send t s))"
    unfolding send_and_wait_for_reply_def Let_def
    using s a run [OF b] run [OF c] by (auto split: option.split prod.split simp del: split_paired_All)
qed


lemma pause_spent: "spent 0 s ((if b then sleep d else id) s)"
  by (simp add: sleep_spent spent_refl)

lemma retry_costs: "costs 1 send \<Longrightarrow> costs n (retry_loop n recv3 opc send per delay evs)"
proof (induction n arbitrary: evs)
  case 0
  show ?case unfolding retry_loop.simps by (rule costs_pret)
next
  case (Suc n)
  have p: "costs 0 (pupd (if n \<noteq> 0 \<and> 0 < delay then sleep delay else id))"
    by (rule costsI) (simp only: pupd_run snd_conv pause_spent)
  have r: "costs n (pret x)" for x :: "reply_event list \<times> bool"
    by (simp add: costs_def spent_def)
  have "costs (1 + n) (retry_loop (Suc n) recv3 opc send per delay evs)"
    unfolding retry_loop.simps
  proof (rule costs_pbind [OF request_costs [OF Suc.prems]])
    fix x :: "reply_event list \<times> bool"
    have "costs (0 + n) (pbind (pupd (if n \<noteq> 0 \<and> 0 < delay then sleep delay else id)) (\<lambda>_. retry_loop n recv3 opc send per delay evs'))" for evs'
      by (rule costs_pbind [OF p Suc.IH [OF Suc.prems]])
    then have again: "costs n (pbind (pupd (if n \<noteq> 0 \<and> 0 < delay then sleep delay else id)) (\<lambda>_. retry_loop n recv3 opc send per delay evs'))" for evs'
      by (simp only: add_0)
    obtain e ok where x: "x = (e, ok)" by fastforce
    show "costs n (case x of (events, ok) \<Rightarrow> if ok then pret (events, True)
        else pbind (pupd (if n \<noteq> 0 \<and> 0 < delay then sleep delay else id)) (\<lambda>_. retry_loop n recv3 opc send per delay events))"
      unfolding x using r again by (cases ok) (simp_all only: prod.case if_True if_False)
  qed
  then show ?case by simp
qed

lemma retries_cost: "costs 1 send \<Longrightarrow> costs 3 (send_and_wait_with_retries recv3 opc send None p r)"
  unfolding send_and_wait_with_retries_def Let_def UNICAST_MAX_ATTEMPTS_def
  using retry_costs [of send 3] by simp

end
