(* ===== verification/Nodes.thy ===== *)
theory Nodes
  imports Waits
begin

text \<open>
  The operations on nodes over the gateway service: \<open>setNodeGroupId\<close> and \<open>forceGroups\<close> of
  \<^verbatim>\<open>controller.py\<close>, \<open>send_config\<close> and \<open>send_stream\<close> of
  \<^verbatim>\<open>gateway_service.py\<close> with their service wrappers, the status poll of
  \<^verbatim>\<open>status_service.py\<close> and the discovery of
  \<^verbatim>\<open>discovery_service.py\<close>.  A device argument is its position in the repository.
\<close>

section \<open>Groups\<close>

definition acked_ok :: "reply_event \<Rightarrow> bool" where
  "acked_ok ev \<longleftrightarrow> (case ev_ack_status ev of None \<Rightarrow> 1 | Some st \<Rightarrow> st) = 0"

definition set_node_group_id :: "nat \<Rightarrow> bool \<Rightarrow> (ctl, bool) proc" where
  "set_node_group_id i wait_for_ack s =
     (if \<not> ct_transport s then (Inr False, s)
      else
        pbind (plift (mac_last3_from_hex (d_addr (ct_devices s ! i)))) (\<lambda>recv3.
          let group_id = d_groupId (ct_devices s ! i) AND 255;
              is_broadcast = (recv3 = BROADCAST3);
              send = tx_fn OPC_SET_GROUP recv3 (build_set_group_body group_id)
          in pbind (pupd (if is_broadcast then id else upd_device i ack_clear)) (\<lambda>_.
             if \<not> wait_for_ack \<or> is_broadcast then pbind send (\<lambda>_. pret True)
             else
               pbind (send_and_wait_with_retries recv3 OPC_SET_GROUP send None None None) (\<lambda>(events, _).
                 if events = [] then
                   pbind (pupd (\<lambda>s. upd_device i (mark_offline (ct_now s) ''Missing reply (SET_GROUP)'') s))
                     (\<lambda>_. pret False)
                 else pret (acked_ok (last events))))) (install_transport_hooks s))"

lemma node_group_costs: "costs 3 (set_node_group_id i w)"
proof (rule costsI)
  fix s :: ctl
  have upd: "costs 0 (pupd (\<lambda>s. upd_device i (g s) s))" "costs 0 (pupd (upd_device i f))" "costs 0 (pupd (if b then id else upd_device i f))" for g f b
    by (simp_all add: costs_def spent_keep spent_refl)
  have lift: "costs 0 (plift x)" for x :: "'b res" by (simp add: costs_def spent_refl)
  have any: "costs 3 (pret x)" "costs 2 (pret x)" "costs 0 (pret x)" for x :: bool by (simp_all add: costs_def spent_def)
  have one: "costs 3 (pbind (tx_fn opc recv3 body) (\<lambda>_. pret True))" for opc recv3 body
    using costs_pbind [OF tx_fn_costs any(2) [of True]] by (simp add: numeral_3_eq_3)
  have tail: "costs 0 (case x of (events, ok) \<Rightarrow> if events = [] then
        pbind (pupd (\<lambda>s. upd_device i (mark_offline (ct_now s) ''Missing reply (SET_GROUP)'') s)) (\<lambda>_. pret False)
      else pret (acked_ok (last events)))" for x
    using costs_pbind [OF upd(1) any(3) [of False]] any(3) by (simp split: prod.split)
  have three: "costs 3 (pbind (send_and_wait_with_retries recv3 OPC_SET_GROUP (tx_fn OPC_SET_GROUP recv3 body) None None None)
      (\<lambda>(events, _). if events = [] then
        pbind (pupd (\<lambda>s. upd_device i (mark_offline (ct_now s) ''Missing reply (SET_GROUP)'') s)) (\<lambda>_. pret False)
      else pret (acked_ok (last events))))" for recv3 body
    using costs_pbind [OF retries_cost [OF tx_fn_costs] tail] by simp
  have m: "costs 3 (pbind (plift x) (\<lambda>recv3. pbind (pupd (if b recv3 then id else upd_device i ack_clear)) (\<lambda>_.
      if w' recv3 then pbind (tx_fn OPC_SET_GROUP recv3 body) (\<lambda>_. pret True)
      else pbind (send_and_wait_with_retries recv3 OPC_SET_GROUP (tx_fn OPC_SET_GROUP recv3 body) None None None)
      (\<lambda>(events, _). if events = [] then
        pbind (pupd (\<lambda>s. upd_device i (mark_offline (ct_now s) ''Missing reply (SET_GROUP)'') s)) (\<lambda>_. pret False)
      else pret (acked_ok (last events))))))" for x b w' body
    using one three by (intro costs_pbind [OF lift, of 3, simplified] costs_pbind [OF upd(3), of 3, simplified]) simp
  have run: "costs 3 p \<Longrightarrow> spent 3 s (snd (p (install_transport_hooks s)))" for p :: "(ctl, bool) proc"
    by (simp add: costs_def) (metis spent_keep(5))
  show "spent 3 s (snd (set_node_group_id i w s))"
  proof (cases "ct_transport s")
    case True
    then show ?thesis unfolding set_node_group_id_def Let_def by (simp only: simp_thms if_False) (rule run [OF m])
  qed (simp add: set_node_group_id_def spent_def)
qed

definition in_known_group :: "bool \<Rightarrow> nat \<Rightarrow> nat \<Rightarrow> ctl \<Rightarrow> ctl" where
  "in_known_group sanity_check num_groups i s =
     (if sanity_check \<and> int num_groups \<le> d_groupId (ct_devices s ! i)
      then upd_device i (\<lambda>d. d\<lparr>d_groupId := 0\<rparr>) s else s)"

lemma known_group_spent: "set_node_group_id i True (in_known_group sanity ng i s) = (r, s') \<Longrightarrow>
    spent 3 s s'"
  using costsD [OF node_group_costs, of i True "in_known_group sanity ng i s" r s']
  by (simp add: in_known_group_def spent_keep split: if_splits)

text \<open>
  The loop of \<open>forceGroups\<close> over the live device list: Python's list iterator compares its position with
  the length of the list as it is at that moment, so devices announced meanwhile are visited as well.
\<close>

function force_loop :: "bool \<Rightarrow> nat \<Rightarrow> nat \<Rightarrow> (ctl, unit) proc" where
  "force_loop sanity_check num_groups i s =
     (if i < length (ct_devices s)
      then case set_node_group_id i True (in_known_group sanity_check num_groups i s) of
             (Inl e, s') \<Rightarrow> (Inl e, s')
           | (Inr ok, s') \<Rightarrow> force_loop sanity_check num_groups (Suc i) s'
      else (Inr (), s))"
  by pat_completeness auto

termination
proof (relation "measure (\<lambda>(sanity, ng, i, s). length (ct_devices s) + length (ct_incoming s) - i)", goal_cases)
  case (2 sanity ng i s r s' ok)
  from known_group_spent [OF 2(2) [unfolded 2(3), symmetric]] 2(1) show ?case by (auto simp: spent_def)
qed simp

definition force_groups :: "bool \<Rightarrow> (ctl, unit) proc" where
  "force_groups sanity_check s = force_loop sanity_check (length (ct_groups s)) 0 s"

declare force_loop.simps [simp del]

lemma force_loop_spent: "force_loop sanity ng i s = (r, s') \<Longrightarrow>
    length (ct_devices s') + length (ct_incoming s') \<le> length (ct_devices s) + length (ct_incoming s) \<and>
    ct_sends s' \<le> ct_sends s + 3 * (length (ct_devices s) + length (ct_incoming s) - i)"
proof (induction sanity ng i s rule: force_loop.induct)
  case (1 sanity ng i s)
  show ?case
  proof (cases "i < length (ct_devices s)")
    case True
    obtain ok s1 where s1: "set_node_group_id i True (in_known_group sanity ng i s) = (ok, s1)" by fastforce
    note sp = known_group_spent [OF s1]
    show ?thesis
    proof (cases ok)
      case (Inl e)
      with 1(2) s1 True sp show ?thesis by (auto simp: force_loop.simps [of sanity ng i s] spent_def)
    next
      case (Inr b)
      with 1(2) s1 True have "force_loop sanity ng (Suc i) s1 = (r, s')" by (simp add: force_loop.simps [of sanity ng i s])
      with 1(1) [OF True s1 [symmetric] Inr] sp True show ?thesis by (auto simp: spent_def)
    qed
  qed (use 1(2) in \<open>auto simp: force_loop.simps [of sanity ng i s]\<close>)
qed

text \<open>The job of the auto-restore pool; an exception ends it.\<close>

definition run_restore_job :: "nat \<Rightarrow> ctl \<Rightarrow> ctl" where
  "run_restore_job i s =
     (case set_node_group_id i True s of
        (Inl e, s') \<Rightarrow> s'
      | (Inr ok, s') \<Rightarrow>
          if ok then s' else upd_device i (mark_offline (ct_now s') ''Auto-restore SET_GROUP timeout'') s')"

section \<open>Configuration\<close>

text \<open>\<open>None\<close> is Python's: no transport and nobody waits.\<close>

definition gw_send_config ::
  "int \<Rightarrow> int \<Rightarrow> int \<Rightarrow> int \<Rightarrow> int \<Rightarrow> byte list \<Rightarrow> bool \<Rightarrow> rat option \<Rightarrow> (ctl, bool option) proc" where
  "gw_send_config option_no data0 data1 data2 data3 recv3 wait_for_ack timeout_s s =
     (if \<not> ct_transport s then (Inr (if wait_for_ack then Some False else None), s)
      else
        let recv3_hex = hex_bytes recv3;
            unicast = (recv3_hex \<noteq> [] \<and> recv3_hex \<noteq> ''FFFFFF'');
            s1 = (if unicast then stash_pending_config recv3_hex option_no data0 s else s);
            dev = (if unicast then device_at recv3_hex s1 else None);
            s2 = (case dev of Some i \<Rightarrow> if wait_for_ack then upd_device i ack_clear s1 else s1 | None \<Rightarrow> s1);
            send = tx_fn OPC_CONFIG recv3 (build_config_body (option_no AND 255) (data0 AND 255) (data1 AND 255)
                     (data2 AND 255) (data3 AND 255))
        in if wait_for_ack then
             (case dev of
                None \<Rightarrow> pbind send (\<lambda>_. pret (Some False)) s2
              | Some i \<Rightarrow>
                  pbind (send_and_wait_with_retries recv3 OPC_CONFIG send None
                           (Some (case timeout_s of None \<Rightarrow> UNICAST_ATTEMPT_TIMEOUT_S | Some t \<Rightarrow> t)) None)
                    (\<lambda>(events, _). pret (Some (events \<noteq> [] \<and> acked_ok (last events)))) s2)
           else pbind send (\<lambda>_. pret (Some True)) s2)"

definition send_config ::
  "int \<Rightarrow> int \<Rightarrow> int \<Rightarrow> int \<Rightarrow> int \<Rightarrow> byte list \<Rightarrow> bool \<Rightarrow> rat option \<Rightarrow> (ctl, bool option) proc" where
  "send_config option_no data0 data1 data2 data3 recv3 wait_for_ack timeout_s =
     gw_send_config option_no data0 data1 data2 data3 recv3 wait_for_ack
       (Some (case timeout_s of None \<Rightarrow> UNICAST_ATTEMPT_TIMEOUT_S | Some t \<Rightarrow> t))"

section \<open>Streams\<close>

definition stream_pred :: "byte list list \<Rightarrow> gw_event \<Rightarrow> bool" where
  "stream_pred targets ev =
     (case ev of
        EvReply re \<Rightarrow> re_opc re = OPC_ACK \<and> ev_ack_of re = Some OPC_STREAM \<and> re_sender3 re \<in> set targets
      | _ \<Rightarrow> False)"

definition senders :: "gw_event list \<Rightarrow> byte list list" where
  "senders evs = concat (map (\<lambda>ev. case ev of EvReply re \<Rightarrow> [re_sender3 re] | _ \<Rightarrow> []) evs)"

fun stream_loop ::
  "nat \<Rightarrow> byte list \<Rightarrow> byte list \<Rightarrow> byte list list \<Rightarrow> rat \<Rightarrow> byte list list \<Rightarrow> (ctl, byte list list) proc" where
  "stream_loop 0 recv3 data targets max_timeout acked = pret acked"
| "stream_loop (Suc n) recv3 data targets max_timeout acked =
     pbind (send_and_collect (tx_fn OPC_STREAM recv3 data) (stream_pred targets) (Some (int (length targets)))
              COLLECT_IDLE_TIMEOUT_S max_timeout) (\<lambda>replies.
       let acked = remdups (acked @ senders replies) in
       if length targets \<le> length acked then pret acked
       else pbind (pupd (if n \<noteq> 0 then sleep STREAM_RETRY_DELAY_S else id)) (\<lambda>_.
         stream_loop n recv3 data targets max_timeout acked))"

datatype stream_target = ToGroup int | ToDevice nat

definition stream_targets :: "stream_target \<Rightarrow> ctl \<Rightarrow> byte list list res" where
  "stream_targets target s =
     (let devs = (case target of
                    ToGroup g \<Rightarrow> filter (\<lambda>d. d_groupId d = g) (ct_devices s)
                  | ToDevice i \<Rightarrow> [ct_devices s ! i])
      in rbind (rmap (\<lambda>d. mac_last3_from_hex (d_addr d)) (filter (\<lambda>d. d_addr d \<noteq> []) devs)) (\<lambda>ms.
           Inr (filter (\<lambda>m. m \<noteq> BROADCAST3) (remdups ms))))"

text \<open>Expected and acknowledged receivers; \<open>None\<close> is the empty dictionary of a missing transport.\<close>

definition gw_send_stream ::
  "byte list \<Rightarrow> stream_target \<Rightarrow> int \<Rightarrow> rat \<Rightarrow> (ctl, (nat \<times> nat) option) proc" where
  "gw_send_stream payload target retries timeout_s s =
     (if \<not> ct_transport s then (Inr None, s)
      else
        pbind (plift (if 128 < length payload then Inl ValueError else Inr ())) (\<lambda>_.
        pbind (plift (stream_targets target s)) (\<lambda>targets.
          if targets = [] then pret (Some (0, 0))
          else
            let recv3 = (case target of ToGroup g \<Rightarrow> BROADCAST3 | ToDevice i \<Rightarrow> hd targets);
                max_timeout = min timeout_s (compute_collect_max_timeout (int (length targets)) timeout_s)
            in pbind (stream_loop (Suc (nat (max 0 retries))) recv3 payload targets max_timeout []) (\<lambda>acked.
                 pret (Some (length targets, length acked))))) (install_transport_hooks s))"

definition send_stream :: "byte list \<Rightarrow> stream_target \<Rightarrow> (ctl, (nat \<times> nat) option) proc" where
  "send_stream payload target = gw_send_stream payload target (STREAM_MAX_ATTEMPTS - 1) STREAM_ATTEMPT_TIMEOUT_S"

section \<open>Status\<close>

definition status_pred :: "byte list option \<Rightarrow> gw_event \<Rightarrow> bool" where
  "status_pred sender_filter ev =
     (case ev of
        EvReply re \<Rightarrow> re_opc re = OPC_STATUS \<and> status_fields (re_reply re) \<noteq> None \<and>
          (case sender_filter of None \<Rightarrow> True | Some b \<Rightarrow> re_sender3 re = b)
      | _ \<Rightarrow> False)"

definition responder_hex :: "gw_event list \<Rightarrow> string list" where
  "responder_hex evs = map hex_bytes (filter (\<lambda>b. length b = 3) (senders evs))"

definition answered :: "string list \<Rightarrow> rl_device \<Rightarrow> bool" where
  "answered responders d \<longleftrightarrow>
     (let mac = upper (d_addr d) in mac \<in> set responders \<or> last_n 6 mac \<in> set responders)"

definition mark_missing :: "rat \<Rightarrow> string list \<Rightarrow> (rl_device \<Rightarrow> bool) \<Rightarrow> rl_device list \<Rightarrow> rl_device list" where
  "mark_missing now responders targeted ds =
     map (\<lambda>d. if targeted d \<and> d_addr d \<noteq> [] \<and> \<not> answered responders d
              then mark_offline now ''Missing reply (STATUS)'' d else d) ds"

datatype status_target = StatusGroup int | StatusDevice nat

definition status_group :: "int \<Rightarrow> rl_device \<Rightarrow> bool" where
  "status_group g d \<longleftrightarrow> g = 255 \<or> d_groupId d = g"

definition get_status :: "status_target \<Rightarrow> (ctl, nat \<times> string list) proc" where
  "get_status target s =
     (if \<not> ct_transport s then (Inr (0, []), s)
      else
        pbind (plift (case target of
                 StatusGroup g \<Rightarrow> Inr (BROADCAST3, g AND 255)
               | StatusDevice i \<Rightarrow> rbind (mac_last3_from_hex (d_addr (ct_devices s ! i))) (\<lambda>b.
                   Inr (b, d_groupId (ct_devices s ! i) AND 255)))) (\<lambda>(recv3, group_id).
          let sender_filter = (case target of StatusGroup g \<Rightarrow> None | StatusDevice i \<Rightarrow> Some recv3);
              expected = (case target of
                  StatusGroup g \<Rightarrow> int (length (filter (status_group g) (ct_devices s)))
                | StatusDevice i \<Rightarrow> 1);
              max_timeout = compute_collect_max_timeout expected COLLECT_MAX_CEILING_S
          in pbind (send_and_collect (tx_fn OPC_STATUS recv3 [u8 group_id, u8 0]) (status_pred sender_filter)
                      (if 0 < expected then Some expected else None) COLLECT_IDLE_TIMEOUT_S max_timeout) (\<lambda>replies.
             let responders = responder_hex replies in
             pbind (pupd (\<lambda>s. case target of
                 StatusGroup g \<Rightarrow>
                   s\<lparr>ct_devices := mark_missing (ct_now s) responders (status_group g) (ct_devices s)\<rparr>
               | StatusDevice i \<Rightarrow>
                   if replies = [] then upd_device i (mark_offline (ct_now s) ''Missing reply (STATUS)'') s else s)) (\<lambda>_.
               pret (length replies, responders)))) (install_transport_hooks s))"

section \<open>Discovery\<close>

definition discover_pred :: "gw_event \<Rightarrow> bool" where
  "discover_pred ev =
     (case ev of
        EvReply re \<Rightarrow> re_opc re = OPC_DEVICES \<and>
          (case re_reply re of IdentifyReply v c g m \<Rightarrow> True | IdentifyRaw b \<Rightarrow> True | _ \<Rightarrow> False)
      | _ \<Rightarrow> False)"

definition discovered_addr :: "gw_event \<Rightarrow> string list" where
  "discovered_addr ev =
     (case ev of
        EvReply re \<Rightarrow>
          (case re_reply re of
             IdentifyReply v c g m \<Rightarrow> [hex_bytes (if length m = 6 then m else re_sender3 re)]
           | _ \<Rightarrow> if re_sender3 re = [] then [] else [hex_bytes (re_sender3 re)])
      | _ \<Rightarrow> [])"

fun assign_group :: "int \<Rightarrow> string list \<Rightarrow> (ctl, unit) proc" where
  "assign_group g [] = pret ()"
| "assign_group g (addr # addrs) =
     pbind (pread (device_at addr)) (\<lambda>dev.
       case dev of
         None \<Rightarrow> assign_group g addrs
       | Some i \<Rightarrow>
           pbind (pupd (upd_device i (\<lambda>d. d\<lparr>d_groupId := g\<rparr>))) (\<lambda>_.
           pbind (set_node_group_id i True) (\<lambda>_. assign_group g addrs)))"

text \<open>\<open>order\<close> is the order in which Python walks the set of responders.\<close>

definition discover_devices ::
  "(string list \<Rightarrow> string list) \<Rightarrow> int \<Rightarrow> nat option \<Rightarrow> int \<Rightarrow> (ctl, nat \<times> string list \<times> int option) proc" where
  "discover_devices order group_filter target_device add_to_group s =
     (if \<not> ct_transport s then (Inr (0, [], None), s)
      else
        pbind (plift (case target_device of
                 None \<Rightarrow> Inr (BROADCAST3, group_filter AND 255)
               | Some i \<Rightarrow> rbind (mac_last3_from_hex (d_addr (ct_devices s ! i))) (\<lambda>b.
                   Inr (b, d_groupId (ct_devices s ! i) AND 255)))) (\<lambda>(recv3, group_id).
          pbind (send_and_collect (tx_fn OPC_DEVICES recv3 (build_get_devices_body group_id 0)) discover_pred None
                   COLLECT_IDLE_TIMEOUT_S COLLECT_MAX_CEILING_S) (\<lambda>replies.
            let responders = remdups (concat (map discovered_addr replies)) in
            if 0 < add_to_group \<and> add_to_group < 255
            then pbind (assign_group add_to_group (order responders)) (\<lambda>_.
                   pret (length replies, responders, Some add_to_group))
            else pret (length replies, responders, None))) (install_transport_hooks s))"

fun discover_devices_in_groups ::
  "(string list \<Rightarrow> string list) \<Rightarrow> pyval list \<Rightarrow> int \<Rightarrow> (ctl, nat \<times> string list \<times> int option) proc" where
  "discover_devices_in_groups order [] add_to_group = pret (0, [], None)"
| "discover_devices_in_groups order (gid # gids) add_to_group =
     (case py_int gid of
        Inl e \<Rightarrow>
          if e = TypeError \<or> e = ValueError then discover_devices_in_groups order gids add_to_group
          else plift (Inl e)
      | Inr g \<Rightarrow>
          if g < 0 \<or> 254 < g then discover_devices_in_groups order gids add_to_group
          else
            pbind (discover_devices order g None add_to_group) (\<lambda>(found, responders, assigned).
            pbind (discover_devices_in_groups order gids add_to_group) (\<lambda>(found', responders', assigned').
              pret (found + found', remdups (responders @ responders'),
                    (case assigned' of None \<Rightarrow> assigned | Some g \<Rightarrow> Some g)))))"

end
