(* ===== verification/Repository.thy ===== *)
theory Repository
  imports Nodes
begin

text \<open>
  What stays true of the device repository under every gateway event and every operation of the
  services: the calculus for invariants of the controller, and the invariant itself.
\<close>

section \<open>Invariants of the controller\<close>

definition keeps :: "('s \<Rightarrow> bool) \<Rightarrow> ('s, 'a) proc \<Rightarrow> bool" where
  "keeps I m \<longleftrightarrow> (\<forall>s. I s \<longrightarrow> I (snd (m s)))"

named_theorems keeps \<open>procedures that keep an invariant\<close>

lemma keepsI: "(\<And>s. I s \<Longrightarrow> I (snd (m s))) \<Longrightarrow> keeps I m"
  by (simp add: keeps_def)

lemma keepsD: "keeps I m \<Longrightarrow> I s \<Longrightarrow> I (snd (m s))"
  by (simp add: keeps_def)

lemma keepsE: "keeps I m \<Longrightarrow> m s = (r, s') \<Longrightarrow> I s \<Longrightarrow> I s'"
  by (metis keepsD snd_conv)

lemma keeps_pret [keeps]: "keeps I (pret x)"
  by (simp add: keeps_def)

lemma keeps_plift [keeps]: "keeps I (plift x)"
  by (simp add: keeps_def)

lemma keeps_pread [keeps]: "keeps I (pread f)"
  by (simp add: keeps_def)

lemma keeps_pupd: "(\<And>s. I s \<Longrightarrow> I (f s)) \<Longrightarrow> keeps I (pupd f)"
  by (simp add: keeps_def)

lemma keeps_pbind [keeps]: "keeps I m \<Longrightarrow> (\<And>x. keeps I (f x)) \<Longrightarrow> keeps I (pbind m f)"
  by (auto simp: keeps_def pbind_def split: prod.split sum.split)

lemma keeps_if [keeps]: "(b \<Longrightarrow> keeps I m) \<Longrightarrow> (\<not> b \<Longrightarrow> keeps I m') \<Longrightarrow> keeps I (if b then m else m')"
  by simp

lemma keeps_option [keeps]: "keeps I a \<Longrightarrow> (\<And>x. keeps I (b x)) \<Longrightarrow> keeps I (case v of None \<Rightarrow> a | Some x \<Rightarrow> b x)"
  by (cases v) simp_all

lemma keeps_sum [keeps]: "(\<And>x. keeps I (a x)) \<Longrightarrow> (\<And>x. keeps I (b x)) \<Longrightarrow> keeps I (case v of Inl x \<Rightarrow> a x | Inr x \<Rightarrow> b x)"
  by (cases v) simp_all

lemma keeps_prod [keeps]: "(\<And>x y. keeps I (a x y)) \<Longrightarrow> keeps I (case v of (x, y) \<Rightarrow> a x y)"
  by (cases v) simp

text \<open>An update of a device that keeps its address, its byte fields and the range of its group.\<close>

definition soft :: "(rl_device \<Rightarrow> rl_device) \<Rightarrow> bool" where
  "soft f \<longleftrightarrow> (\<forall>d. d_addr (f d) = d_addr d \<and> (device_ok d \<longrightarrow> device_ok (f d)) \<and>
     (d_groupId d \<in> {0..255} \<longrightarrow> d_groupId (f d) \<in> {0..255}))"

lemma byte_OR: "0 \<le> x \<Longrightarrow> x < 256 \<Longrightarrow> 0 \<le> y \<Longrightarrow> y < 256 \<Longrightarrow> 0 \<le> x OR y \<and> x OR y < 256" for x y :: int
  using OR_upper [of x 8 y] by simp

lemma byte_AND: "0 \<le> x \<Longrightarrow> x < 256 \<Longrightarrow> 0 \<le> x AND y \<and> x AND y < 256" for x y :: int
  using AND_upper1 [of x y] by simp

lemma soft_config [simp]: "soft (apply_config_update opt d0)"
proof (cases "config_bit opt")
  case (Some b)
  then have "b \<in> {0, 1, 2}" by (auto simp: config_bit_def split: if_splits)
  then have "0 \<le> push_bit b (1 :: int) \<and> push_bit b (1 :: int) < 256" by auto
  with Some show ?thesis
    by (auto simp: soft_def device_ok_def apply_config_update_def Let_def byte_OR byte_AND)
qed (simp add: soft_def apply_config_update_def)

lemma soft_simps [simp]: "soft (mark_online t)" "soft (mark_offline t r)" "soft ack_clear" "soft (ack_update t a st sq hr hs)"
  "soft (update_from_status t fl cfg eff bri vb nr ns hr hs)" "soft (update_from_identify t v c g hr hs)"
  "k \<in> {0..255} \<Longrightarrow> soft (\<lambda>d. d\<lparr>d_groupId := k\<rparr>)"
  by (auto simp: soft_def device_ok_def device_ops int_and_255 split: option.splits)

text \<open>Updating every device in turn updates the whole list.\<close>

lemma upd_upto: "n \<le> length (ct_devices s) \<Longrightarrow> ct_devices (fold (\<lambda>i. upd_device i f) [0..<n] s) =
    map f (take n (ct_devices s)) @ drop n (ct_devices s)"
proof (induction n)
  case (Suc n)
  then have "drop n (ct_devices s) = ct_devices s ! n # drop (Suc n) (ct_devices s)" by (simp add: Cons_nth_drop_Suc)
  with Suc show ?case by (simp add: upd_device_def nth_append list_update_append take_Suc_conv_app_nth)
qed simp

lemma upd_all: "ct_devices (fold (\<lambda>i. upd_device i f) [0..<length (ct_devices s)] s) = map f (ct_devices s)"
  by (simp add: upd_upto)

locale ctl_invariant =
  fixes I :: "ctl \<Rightarrow> bool"
  assumes event: "I s \<Longrightarrow> I (deliver ev s)"
    and frame: "ct_devices s' = ct_devices s \<Longrightarrow> I s \<Longrightarrow> I s'"
    and update: "soft f \<Longrightarrow> I s \<Longrightarrow> I (upd_device i f s)"
begin

lemma run: "keeps I m \<Longrightarrow> I s \<Longrightarrow> I (snd (m s))"
  by (rule keepsD)

lemma ran: "keeps I m \<Longrightarrow> m s = (r, s') \<Longrightarrow> I s \<Longrightarrow> I s'"
  by (rule keepsE)

lemma branch:
  "(b \<Longrightarrow> I (snd m)) \<Longrightarrow> (\<not> b \<Longrightarrow> I (snd m')) \<Longrightarrow> I (snd (if b then m else m'))"
  "(v = None \<Longrightarrow> I (snd m)) \<Longrightarrow> (\<And>x. v = Some x \<Longrightarrow> I (snd (f x))) \<Longrightarrow> I (snd (case v of None \<Rightarrow> m | Some x \<Rightarrow> f x))"
  "(\<And>x y. p = (x, y) \<Longrightarrow> I (snd (g x y))) \<Longrightarrow> I (snd (case p of (x, y) \<Rightarrow> g x y))"
  "(\<And>x. r = Inl x \<Longrightarrow> I (snd (k x))) \<Longrightarrow> (\<And>x. r = Inr x \<Longrightarrow> I (snd (l x))) \<Longrightarrow> I (snd (case r of Inl x \<Rightarrow> k x | Inr x \<Rightarrow> l x))"
  by (auto split: option.split prod.split sum.split)

lemma guard: "I s \<Longrightarrow> I (snd x) \<Longrightarrow> I (snd (if b then (r, s) else x))"
  by simp

lemma advance: "I s \<Longrightarrow> I (advance d evs s)"
proof (induction d evs s rule: advance.induct)
  case (1 d s)
  show ?case by (rule frame [OF _ 1]) simp
next
  case (2 d t ev evs s)
  show ?case
  proof (cases "d < t")
    case True
    then show ?thesis by (simp, intro frame [OF _ 2(2)]) simp
  next
    case False
    have "I (s\<lparr>ct_now := max (ct_now s) t\<rparr>)" by (rule frame [OF _ 2(2)]) simp
    from event [OF this] 2(1) [OF False] False show ?thesis by simp
  qed
qed

lemma sleep: "I s \<Longrightarrow> I (sleep d s)"
  by (simp add: sleep_def advance)

lemma wait: "I s \<Longrightarrow> I (wait_done n d evs s)"
proof (induction n d evs s rule: wait_done.induct)
  case (1 n d s)
  show ?case by (rule frame [OF _ 1]) simp
next
  case (2 n d t ev evs s)
  show ?case
  proof (cases "rq_done (rg_requests (ct_registry s) ! n) \<or> d < t")
    case True
    show ?thesis by (rule frame [OF _ 2(2)]) (use True in auto)
  next
    case False
    have "I (s\<lparr>ct_now := max (ct_now s) t\<rparr>)" by (rule frame [OF _ 2(2)]) simp
    from event [OF this] 2(1) False show ?thesis by simp
  qed
qed

lemma collect: "I s \<Longrightarrow> I (collect_loop expected idle hard evs s)"
proof (induction expected idle hard evs s rule: collect_loop.induct)
  case (1 expected idle hard s)
  show ?case by (rule frame [OF _ 1]) simp
next
  case (2 expected idle hard t ev evs s)
  show ?case
  proof (cases "(collect_full expected s \<or> collect_deadline idle hard s \<le> ct_now s) \<or> collect_deadline idle hard s < t")
    case True
    show ?thesis by (rule frame [OF _ 2(2)]) (use True in auto)
  next
    case False
    have "I (s\<lparr>ct_now := max (ct_now s) t\<rparr>)" by (rule frame [OF _ 2(2)]) simp
    from event [OF this] 2(1) False show ?thesis by simp
  qed
qed

lemma tx_fn [keeps]: "keeps I (tx_fn opc recv3 body)"
proof -
  have hook: "ct_devices (on_transport_tx opc recv3 s) = ct_devices s" for s
    by (simp add: on_transport_tx_def set_pending_expect_def Let_def split: option.split)
  have "I (snd (tx opc recv3 body s))" if s: "I s" for s
  proof -
    have sent: "I (s\<lparr>ct_sends := k\<rparr>)" "I (s\<lparr>ct_sends := k, ct_sent := p\<rparr>)" for k p
      by (rule frame [OF _ s]; simp)+
    have "I (if ct_hooks s' then on_transport_tx opc recv3 s' else s')" if "I s'" for s'
      by (rule frame [OF _ that]) (simp add: hook)
    with s sent show ?thesis
      by (auto simp: tx_def Let_def event sleep split: option.split)
  qed
  then have "keeps I (tx opc recv3 body)" by (rule keepsI)
  then show ?thesis unfolding tx_fn_def by (intro keeps)
qed

lemma hooks: "I s \<Longrightarrow> I (install_transport_hooks s)"
  by (rule frame) (simp_all add: install_transport_hooks_def)

lemma collected [keeps]:
  assumes "keeps I send"
  shows "keeps I (send_and_collect send p expected idle maxt)"
proof (rule keepsI)
  fix s
  assume s: "I s"
  have "I ((install_transport_hooks s)\<lparr>ct_listener := Some p, ct_collected := []\<rparr>)"
    by (rule frame [OF _ s]) simp
  moreover have "I (s'\<lparr>ct_listener := None\<rparr>)" if "I s'" for s' by (rule frame [OF _ that]) simp
  ultimately show "I (snd (send_and_collect send p expected idle maxt s))"
    using ran [OF assms] s
    by (auto simp: send_and_collect_def Let_def collect split: prod.split sum.split)
qed

lemma requested [keeps]:
  assumes "keeps I send"
  shows "keeps I (send_and_wait_for_reply recv3 opc send t)"
proof (rule keepsI)
  fix s
  assume s: "I s"
  note h = hooks [OF s]
  have reg: "I (s'\<lparr>ct_registry := rg\<rparr>)" if "I s'" for s' rg by (rule frame [OF _ that]) simp
  have c: "I (snd (pbind (send_and_collect send p (Some 1) i t) (\<lambda>rs. pret (f rs)) (install_transport_hooks s)))"
    for p i and f :: "gw_event list \<Rightarrow> reply_event list \<times> bool"
    by (rule run [OF _ h]) (intro keeps_pbind collected [OF assms] keeps_pret)
  have b: "keeps I (pbind send (\<lambda>_. pret x))" for x :: "reply_event list \<times> bool" using assms by (intro keeps)
  have aw: "I (snd (await_reply n t dev s'))" if "I s'" for n dev s'
    using reg [OF wait [OF that]] update [OF soft_simps(1)]
    by (simp add: await_reply_def Let_def split: option.split)
  have sent: "I s'" if "send ((install_transport_hooks s)\<lparr>ct_registry := rg\<rparr>) = (r, s')" for rg r s'
    by (rule ran [OF assms that reg [OF h]])
  have leaves: "I (snd (Inr ([] :: reply_event list, False), s))"
    "I (snd (pbind send (\<lambda>_. pret ([] :: reply_event list, False)) (install_transport_hooks s)))"
    using s run [OF b h] by simp_all
  show "I (snd (send_and_wait_for_reply recv3 opc send t s))"
    unfolding send_and_wait_for_reply_def Let_def
    by (intro branch) (use leaves c in simp_all, auto dest!: sent intro: reg aw)
qed

lemma paused: "I s \<Longrightarrow> I ((if b then sleep d else id) s)"
  by (simp add: sleep)

lemma retried [keeps]: "keeps I send \<Longrightarrow> keeps I (retry_loop n recv3 opc send per delay evs)"
proof (induction n arbitrary: evs)
  case (Suc n)
  then show ?case unfolding retry_loop.simps by (intro keeps requested keeps_pupd paused)
qed (simp add: keeps_pret)

lemma with_retries [keeps]: "keeps I send \<Longrightarrow> keeps I (send_and_wait_with_retries recv3 opc send a p r)"
  unfolding send_and_wait_with_retries_def Let_def by (intro retried)

lemma node_group [keeps]: "keeps I (set_node_group_id i w)"
proof (rule keepsI)
  fix s
  assume s: "I s"
  have u: "I (upd_device i (mark_offline t r) s)" "I (upd_device i ack_clear s)" if "I s" for s t r
    using update that by simp_all
  show "I (snd (set_node_group_id i w s))"
    unfolding set_node_group_id_def Let_def
    by (rule guard [OF s], rule run [OF _ hooks [OF s]]) (intro keeps keeps_pupd; use u in simp)
qed

lemma known_group: "I s \<Longrightarrow> I (in_known_group sanity ng i s)"
  using update [OF soft_simps(7) [of 0]] by (simp add: in_known_group_def)

lemma forced_loop: "I s \<Longrightarrow> I (snd (force_loop sanity ng i s))"
proof (induction sanity ng i s rule: force_loop.induct)
  case (1 sanity ng i s)
  obtain ok s1 where s1: "set_node_group_id i True (in_known_group sanity ng i s) = (ok, s1)" by fastforce
  have "I s1" using ran [OF node_group s1 known_group [OF 1(2)]] .
  then show ?case using 1(1) [OF _ s1 [symmetric]] 1(2) s1
    by (cases ok) (simp_all add: force_loop.simps [of sanity ng i s])
qed

lemma forced [keeps]: "keeps I (force_groups sanity)"
  by (rule keepsI) (simp add: force_groups_def forced_loop)

lemma restore_job: "I s \<Longrightarrow> I (run_restore_job i s)"
  using run [OF node_group, of s i True] update [OF soft_simps(2)]
  by (auto simp: run_restore_job_def split: prod.split sum.split)

lemma config [keeps]: "keeps I (send_config opt d0 d1 d2 d3 recv3 w t)"
proof (rule keepsI)
  fix s
  assume s: "I s"
  define s1 where "s1 = (if hex_bytes recv3 \<noteq> [] \<and> hex_bytes recv3 \<noteq> ''FFFFFF'' then stash_pending_config (hex_bytes recv3) opt d0 s else s)"
  have s1: "I s1" unfolding s1_def by (rule frame [OF _ s]) (simp add: stash_pending_config_def)
  have s2: "I (case dev of None \<Rightarrow> s1 | Some i \<Rightarrow> if w then upd_device i ack_clear s1 else s1)" for dev
    using s1 update [OF soft_simps(3) s1] by (simp split: option.split)
  show "I (snd (send_config opt d0 d1 d2 d3 recv3 w t s))"
    unfolding send_config_def gw_send_config_def Let_def s1_def [symmetric]
    by (rule guard [OF s], intro branch) (rule run [OF _ s2], intro keeps)+
qed

lemma streamed [keeps]: "keeps I (stream_loop n recv3 data targets mt acked)"
proof (induction n arbitrary: acked)
  case (Suc n)
  then show ?case unfolding stream_loop.simps Let_def by (intro keeps keeps_pupd paused)
qed (simp add: keeps_pret)

lemma stream [keeps]: "keeps I (send_stream payload target)"
proof (rule keepsI)
  fix s
  assume s: "I s"
  show "I (snd (send_stream payload target s))"
    unfolding send_stream_def gw_send_stream_def Let_def
    by (rule guard [OF s], rule run [OF _ hooks [OF s]]) (intro keeps)
qed

lemma missing: "I s \<Longrightarrow> I (s\<lparr>ct_devices := mark_missing t rs p (ct_devices s)\<rparr>)"
proof -
  assume s: "I s"
  let ?f = "\<lambda>d. if p d \<and> d_addr d \<noteq> [] \<and> \<not> answered rs d then mark_offline t ''Missing reply (STATUS)'' d else d"
  have "soft ?f" using soft_simps(2) [of t "''Missing reply (STATUS)''"] by (simp add: soft_def)
  then have up: "I s \<Longrightarrow> I (upd_device i ?f s)" for i s by (rule update)
  have "I (fold (\<lambda>i. upd_device i ?f) js s)" for js using s by (induction js arbitrary: s) (simp_all add: up)
  then have all: "I (fold (\<lambda>i. upd_device i ?f) [0..<length (ct_devices s)] s)" .
  show ?thesis by (rule frame [OF _ all]) (simp add: mark_missing_def upd_all)
qed


lemma status [keeps]: "keeps I (get_status target)"
proof (rule keepsI)
  fix s
  assume s: "I s"
  have up: "I (case target of StatusGroup g \<Rightarrow> s\<lparr>ct_devices := mark_missing (ct_now s) rs (status_group g) (ct_devices s)\<rparr>
      | StatusDevice i \<Rightarrow> if rp = [] then upd_device i (mark_offline (ct_now s) ''Missing reply (STATUS)'') s else s)"
    if "I s" for s rs and rp :: "gw_event list"
    using missing [OF that] update [OF soft_simps(2) that] that by (simp split: status_target.split)
  show "I (snd (get_status target s))"
    unfolding get_status_def Let_def
    by (rule guard [OF s], rule run [OF _ hooks [OF s]]) (intro keeps keeps_pupd up)
qed

lemma grouped [keeps]: "g \<in> {0..255} \<Longrightarrow> keeps I (assign_group g addrs)"
proof (induction g addrs rule: assign_group.induct)
  case (2 g a addrs)
  have "keeps I (pupd (upd_device i (\<lambda>d. d\<lparr>d_groupId := g\<rparr>)))" for i
    using update [OF soft_simps(7) [OF 2(3)]] by (intro keeps_pupd)
  with 2 show ?case unfolding assign_group.simps by (intro keeps) auto
qed (simp add: keeps_pret)

lemma discovered [keeps]: "keeps I (discover_devices order gf td g)"
proof (rule keepsI)
  fix s
  assume s: "I s"
  show "I (snd (discover_devices order gf td g s))"
    unfolding discover_devices_def Let_def
    by (rule guard [OF s], rule run [OF _ hooks [OF s]]) (intro keeps, auto)
qed

lemma discovered_in [keeps]: "keeps I (discover_devices_in_groups order gids g)"
proof (induction order gids g rule: discover_devices_in_groups.induct)
  case (2 order gid gids g)
  then show ?case unfolding discover_devices_in_groups.simps by (auto intro!: keeps split: sum.split)
qed (unfold discover_devices_in_groups.simps, rule keeps_pret)

end

section \<open>The repository\<close>

definition repository_ok :: "rl_device list \<Rightarrow> bool" where
  "repository_ok ds \<longleftrightarrow> distinct (map (\<lambda>d. upper (d_addr d)) ds) \<and>
     (\<forall>d \<in> set ds. device_ok d \<and> d_groupId d \<in> {0..255})"

definition kept :: "string list \<Rightarrow> ctl \<Rightarrow> bool" where
  "kept as s \<longleftrightarrow> repository_ok (ct_devices s) \<and> (\<exists>bs. map d_addr (ct_devices s) = as @ bs)"

lemma map_upd_same: "f (xs ! i) = f v \<Longrightarrow> map f (xs[i := v]) = map f xs"
  by (metis list_update_beyond list_update_id map_update not_le nth_map)

lemma repository_update:
  assumes "soft f" and "repository_ok ds"
  shows "repository_ok (ds[i := f (ds ! i)]) \<and> map d_addr (ds[i := f (ds ! i)]) = map d_addr ds"
proof -
  have a: "d_addr (f d) = d_addr d" for d using assms(1) by (simp add: soft_def)
  have m: "map d_addr (ds[i := f (ds ! i)]) = map d_addr ds"
    "map (\<lambda>d. upper (d_addr d)) (ds[i := f (ds ! i)]) = map (\<lambda>d. upper (d_addr d)) ds"
    by (rule map_upd_same; simp add: a)+
  have "device_ok d \<and> d_groupId d \<in> {0..255}" if d: "d \<in> set (ds[i := f (ds ! i)])" for d
  proof (cases "i < length ds")
    case True
    then have "d \<in> set ds \<or> d = f (ds ! i) \<and> ds ! i \<in> set ds" using d set_update_subset_insert by fastforce
    with assms show ?thesis unfolding soft_def repository_ok_def by blast
  next
    case False
    with d have "d \<in> set ds" by (simp add: list_update_beyond)
    with assms(2) show ?thesis unfolding repository_ok_def by blast
  qed
  with m assms(2) show ?thesis unfolding repository_ok_def m by simp
qed

lemma kept_update: "soft f \<Longrightarrow> kept as s \<Longrightarrow> kept as (upd_device i f s)"
  using repository_update [of f "ct_devices s" i] by (auto simp: kept_def upd_device_def)

lemma kept_frame: "ct_devices s' = ct_devices s \<Longrightarrow> kept as s \<Longrightarrow> kept as s'"
  by (simp add: kept_def)


lemma hex_bytes_chars: "c \<in> set (hex_bytes bs) \<Longrightarrow> upper_char c = c \<and> \<not> is_space c"
  using hex_digit_facts byte_nibbles by (auto simp: hex_bytes_def hex2_def)

lemma upper_hex_bytes: "upper (hex_bytes bs) = hex_bytes bs"
  using hex_bytes_chars by (intro map_idI) blast

lemma length_hex_bytes: "length (hex_bytes bs) = 2 * length bs"
  by (induction bs) (simp_all add: hex_bytes_def hex2_def)

lemma strip_hex_bytes: "strip (hex_bytes bs) = hex_bytes bs"
proof (rule strip_with_no_ends)
  show "hex_bytes bs = [] \<or> \<not> is_space (hd (hex_bytes bs)) \<and> \<not> is_space (last (hex_bytes bs))"
    using hex_bytes_chars by (metis hd_in_set last_in_set)
qed

lemma mac_unknown:
  assumes "length mac6 = 6" and "device_at (hex_bytes mac6) s = None" and "d \<in> set (ct_devices s)"
  shows "upper (d_addr d) \<noteq> hex_bytes mac6"
proof -
  have "length (hex_bytes mac6) = 12" "hex_bytes mac6 \<noteq> []" using assms(1) length_hex_bytes [of mac6] by auto
  with assms(2) have "index_where (addr_matches (hex_bytes mac6)) (ct_devices s) = None"
    by (simp add: device_at_def get_device_from_address_def get_by_addr_def strip_hex_bytes upper_hex_bytes Let_def)
  with assms(3) show ?thesis by (auto simp: index_where_None addr_matches_def)
qed

lemma created_ok: "device_ok (create_device addr ty nm sp) \<and> d_groupId (create_device addr ty nm sp) = 0 \<and>
    d_addr (create_device addr ty nm sp) = addr"
  by (simp add: create_device_def default_device_def RL_Device_def device_ok_def RL_FLAG_POWER_ON_def int_and_255)

lemma kept_append:
  assumes "kept as s" and "\<forall>d' \<in> set (ct_devices s). upper (d_addr d') \<noteq> upper (d_addr d)" and "device_ok d" and "d_groupId d = 0"
  shows "kept as (s\<lparr>ct_devices := ct_devices s @ [d]\<rparr>)"
proof -
  obtain bs where bs: "map d_addr (ct_devices s) = as @ bs" and ok: "repository_ok (ct_devices s)"
    using assms(1) by (auto simp: kept_def)
  have "upper (d_addr d) \<notin> set (map (\<lambda>d. upper (d_addr d)) (ct_devices s))" using assms(2) by auto
  with ok assms(3,4) have "repository_ok (ct_devices s @ [d])" by (simp add: repository_ok_def)
  moreover have "map d_addr (ct_devices s @ [d]) = as @ (bs @ [d_addr d])" using bs by simp
  ultimately show ?thesis unfolding kept_def by auto
qed

lemma kept_valid_group: "kept as s \<Longrightarrow> kept as (snd (valid_stored_group i s))"
  by (simp add: valid_stored_group_def Let_def kept_update)

lemma kept_restore: "kept as s \<Longrightarrow> kept as (restore_known_device_group i g k s)"
proof -
  assume k: "kept as s"
  have "kept as (request_restore i sg (snd (valid_stored_group i s)))" for sg
    by (rule kept_frame [OF _ kept_valid_group [OF k]]) simp
  with k kept_valid_group [OF k, of i] show ?thesis
    by (auto simp: restore_known_device_group_def split: prod.split)
qed

lemma kept_identify: "kept as s \<Longrightarrow> kept as (handle_identify ev v c g mac6 s)"
proof (cases "length mac6 = 6")
  case True
  assume k: "kept as s"
  let ?mac = "hex_bytes mac6"
  have "kept as (if device_at ?mac s = None
      then s\<lparr>ct_devices := ct_devices s @ [create_device ?mac c (''WLED '' @ ?mac) []]\<rparr> else s)"
    using k kept_append [OF k, of "create_device ?mac c (''WLED '' @ ?mac) []"] mac_unknown [OF True]
      created_ok [of ?mac c "''WLED '' @ ?mac" "[]"] by (simp add: upper_hex_bytes)
  then show ?thesis
    using True by (simp add: handle_identify_def Let_def kept_restore kept_update)
qed (simp add: handle_identify_def)

lemma kept_ack: "kept as s \<Longrightarrow> kept as (handle_ack_event ev s)"
proof -
  assume k: "kept as s"
  have up: "kept as (upd_device i (ack_update t a st sq hr hs) s)" for i t a st sq hr hs by (rule kept_update [OF _ k]) simp
  have take: "kept as (snd (take_pending_config h s'))" if "kept as s'" for h s'
  proof -
    have "ct_devices (s'\<lparr>ct_pending_config := x\<rparr>) = ct_devices s'" for x by (cases s') (simp only: ctl.simps)
    with that show ?thesis unfolding take_pending_config_def kept_def snd_conv by (simp only:)
  qed
  have "kept as (case take_pending_config h s' of (Some (opt, d0), s2) \<Rightarrow> upd_device i (apply_config_update opt d0) s2 | (None, s2) \<Rightarrow> s2)"
    if "kept as s'" for h s' i
  proof -
    obtain v s2 where v: "take_pending_config h s' = (v, s2)" by (cases "take_pending_config h s'") blast
    with take [OF that, of h] have "kept as s2" by simp
    then show ?thesis unfolding v using kept_update [OF soft_config] by (cases v) (simp_all split: prod.split)
  qed
  note applied = this
  show ?thesis
  proof (cases "device_at (hex_bytes (re_sender3 ev)) s")
    case (Some i)
    then show ?thesis using k applied [OF up] up by (cases "re_reply ev") (simp_all add: handle_ack_event_def Let_def)
  qed (simp add: handle_ack_event_def k)
qed

lemma kept_status: "kept as s \<Longrightarrow> kept as (handle_status ev s)"
  by (auto simp: handle_status_def kept_update split: option.split)

lemma kept_clear: "kept as (clear_pending_expect_if p s) = kept as s"
  by (simp add: kept_def)

lemma kept_reply: "kept as s \<Longrightarrow> kept as (on_reply ev s)"
proof -
  assume k: "kept as s"
  have k1: "kept as (s\<lparr>ct_registry := rg\<rparr>)" for rg by (rule kept_frame [OF _ k]) simp
  have "kept as (pending_try_match ev s')" if "kept as s'" for s'
    using that by (auto simp: pending_try_match_def Let_def kept_clear kept_update split: option.split)
  with k1 kept_ack kept_status kept_identify show ?thesis
    by (auto simp: on_reply_def Let_def split: reply.split)
qed

lemma kept_event: "kept as s \<Longrightarrow> kept as (deliver ev s)"
proof -
  assume k: "kept as s"
  have "kept as (on_transport_event ev s)"
  proof (cases ev)
    case (EvReply re)
    with k show ?thesis by (simp add: on_transport_event_def kept_reply)
  next
    case (EvState ty b n m t)
    with k show ?thesis
      by (auto simp: on_transport_event_def pending_window_closed_def kept_clear kept_update split: option.split)
  qed (use k in \<open>simp_all add: on_transport_event_def kept_def\<close>)
  then have "kept as (if ct_hooks s then on_transport_event ev s else s)" using k by simp
  then show ?thesis by (rule kept_frame [rotated]) (simp add: deliver_def Let_def split: option.split)
qed

interpretation repository: ctl_invariant "kept as"
  by unfold_locales (rule kept_event kept_frame kept_update; assumption)+


section \<open>Runs\<close>

text \<open>What can happen to the controller: an event of the reader, time, or an operation of the services.\<close>

datatype node_op =
    Arrive gw_event
  | Sleep rat
  | SetGroup nat bool
  | ForceGroups bool
  | RestoreJob nat
  | SendConfig int int int int int "byte list" bool "rat option"
  | SendStream "byte list" stream_target
  | GetStatus status_target
  | Discover "string list \<Rightarrow> string list" int "nat option" int

fun node_step :: "node_op \<Rightarrow> ctl \<Rightarrow> ctl" where
  "node_step (Arrive ev) s = deliver ev s"
| "node_step (Sleep d) s = sleep d s"
| "node_step (SetGroup i wait_for_ack) s = snd (set_node_group_id i wait_for_ack s)"
| "node_step (ForceGroups sanity_check) s = snd (force_groups sanity_check s)"
| "node_step (RestoreJob i) s = run_restore_job i s"
| "node_step (SendConfig option_no d0 d1 d2 d3 recv3 wait_for_ack t) s =
     snd (send_config option_no d0 d1 d2 d3 recv3 wait_for_ack t s)"
| "node_step (SendStream payload target) s = snd (send_stream payload target s)"
| "node_step (GetStatus target) s = snd (get_status target s)"
| "node_step (Discover order group_filter target add_to_group) s =
     snd (discover_devices order group_filter target add_to_group s)"

lemma kept_step: "kept as s \<Longrightarrow> kept as (node_step op s)"
  by (cases op)
    (simp_all add: repository.event repository.sleep repository.run [OF repository.node_group] repository.run [OF repository.forced]
      repository.restore_job repository.run [OF repository.config] repository.run [OF repository.stream]
      repository.run [OF repository.status] repository.run [OF repository.discovered])

text \<open>
  C16.  Whatever sequence of events, time steps and service operations the controller goes through, on any
  answers of the nodes: the device repository keeps distinct addresses, bytes in the byte fields and group
  ids from 0 to 255, and the devices it had stay at their positions under their addresses (new ones are
  only appended).
\<close>

theorem repository_invariant:
  assumes "repository_ok (ct_devices s)"
  shows "repository_ok (ct_devices (fold node_step ops s)) \<and>
    take (length (ct_devices s)) (map d_addr (ct_devices (fold node_step ops s))) = map d_addr (ct_devices s)"
proof -
  have "kept as (fold node_step ops s)" if "kept as s" for as
    using that by (induction ops arbitrary: s) (simp_all add: kept_step)
  from this [of "map d_addr (ct_devices s)"] assms show ?thesis by (auto simp: kept_def)
qed

lemma repository_invariant_witness:
  "repository_ok (ct_devices (fold node_step [SetGroup 0 True, ForceGroups True]
     (idle_ctl [default_device ''AABBCCDDEEFF'' 10 ''n''] [])))"
proof -
  have "repository_ok (ct_devices (idle_ctl [default_device ''AABBCCDDEEFF'' 10 ''n''] []))" by code_simp
  from conjunct1 [OF repository_invariant [OF this]] show ?thesis .
qed


end
