(* ===== verification/Outcomes.thy ===== *)
theory Outcomes
  imports Repository
begin

text \<open>
  What the operations on nodes achieve: the result of a group assignment, the devices a status poll finds
  silent, the configuration an acknowledgement applies, and what gateway state events do to the link marks.
\<close>


section \<open>SET_GROUP\<close>

lemma can_ask_upd: "can_ask s q d \<Longrightarrow> can_ask (upd_device i f (install_transport_hooks s)) q d"
  by (simp add: can_ask_def upd_device_def)

lemma set_group_body_ok: "length recv3 = 3 \<Longrightarrow> send_ok (make_type DIR_M2N OPC_SET_GROUP) recv3 (build_set_group_body g)"
  by (simp add: send_ok_def build_set_group_body_def make_type_def DIR_M2N_def OPC_SET_GROUP_def)




section \<open>Status\<close>

lemma missing_marked:
  assumes "d \<in> set (mark_missing t rs p ds)" and "p d" and "d_addr d \<noteq> []" and "\<not> answered rs d"
    and "\<And>d t r. p (mark_offline t r d) = p d"
  shows "d_link_online d = Some False \<and> d_link_error d = Some ''Missing reply (STATUS)''"
proof -
  obtain d0 where d0: "d = (if p d0 \<and> d_addr d0 \<noteq> [] \<and> \<not> answered rs d0 then mark_offline t ''Missing reply (STATUS)'' d0 else d0)"
    using assms(1) unfolding mark_missing_def set_map by (elim imageE)
  have "answered rs (mark_offline t r d) = answered rs d" "d_addr (mark_offline t r d) = d_addr d" for t r d
    by (simp_all add: answered_def mark_offline_def)
  then have "p d0 \<and> d_addr d0 \<noteq> [] \<and> \<not> answered rs d0" using assms(2-5) d0 by metis
  then show ?thesis using d0 by (simp add: mark_offline_def)
qed

text \<open>
  C18.  A status poll of a group sends one packet and reports exactly the status replies that arrived before it
  returned.  When it returns, every device of the group (every device at all for group 255) from which no
  reply came is marked offline with the error that says so.
\<close>

theorem status_poll_sweeps:
  assumes "ct_transport s" and "ct_tx s (ct_sends s) = Some (dur, res)" and "0 \<le> dur"
  shows "\<exists>pre replies s'. get_status (StatusGroup g) s = (Inr (length replies, responder_hex replies), s') \<and>
    ct_incoming s = pre @ ct_incoming s' \<and> replies = filter (status_pred None) (map snd pre) \<and>
    ct_sent s' = ct_sent s @ [packet_of OPC_STATUS BROADCAST3 [u8 (g AND 255), u8 0]] \<and>
    (\<forall>d \<in> set (ct_devices s'). status_group g d \<and> d_addr d \<noteq> [] \<and> \<not> answered (responder_hex replies) d \<longrightarrow>
       d_link_online d = Some False \<and> d_link_error d = Some ''Missing reply (STATUS)'')"
proof -
  let ?s0 = "install_transport_hooks s"
  let ?expected = "int (length (filter (status_group g) (ct_devices s)))"
  let ?e = "if 0 < ?expected then Some ?expected else None"
  let ?mt = "compute_collect_max_timeout ?expected COLLECT_MAX_CEILING_S"
  have ok: "send_ok (make_type DIR_M2N OPC_STATUS) BROADCAST3 [u8 (g AND 255), u8 0]"
    by (simp add: send_ok_def BROADCAST3_def make_type_def DIR_M2N_def OPC_STATUS_def)
  obtain pre s1 where run: "send_and_collect (tx_fn OPC_STATUS BROADCAST3 [u8 (g AND 255), u8 0]) (status_pred None) ?e COLLECT_IDLE_TIMEOUT_S ?mt ?s0 =
      (Inr (filter (status_pred None) (map snd pre)), s1)"
    and s1: "ct_incoming ?s0 = pre @ ct_incoming s1" "ct_sent s1 = ct_sent ?s0 @ [packet_of OPC_STATUS BROADCAST3 [u8 (g AND 255), u8 0]]"
    using collect_result [of ?s0 OPC_STATUS BROADCAST3 "[u8 (g AND 255), u8 0]" dur res "status_pred None" ?e COLLECT_IDLE_TIMEOUT_S ?mt]
      ok assms by auto
  let ?rs = "filter (status_pred None) (map snd pre)"
  let ?s' = "s1\<lparr>ct_devices := mark_missing (ct_now s1) (responder_hex ?rs) (status_group g) (ct_devices s1)\<rparr>"
  have "get_status (StatusGroup g) s = (Inr (length ?rs, responder_hex ?rs), ?s')"
    using run assms(1) by (simp add: get_status_def Let_def pbind_def)
  moreover have "status_group g (mark_offline t r d) = status_group g d" for t r d
    by (simp add: status_group_def mark_offline_def)
  then have "\<forall>d \<in> set (ct_devices ?s'). status_group g d \<and> d_addr d \<noteq> [] \<and> \<not> answered (responder_hex ?rs) d \<longrightarrow>
       d_link_online d = Some False \<and> d_link_error d = Some ''Missing reply (STATUS)''"
    using missing_marked [of _ "ct_now s1" "responder_hex ?rs" "status_group g" "ct_devices s1"] by simp
  ultimately show ?thesis using s1
    by (intro exI [of _ pre] exI [of _ ?rs] exI [of _ ?s']) simp
qed

lemma status_poll_sweeps_witness:
  "\<exists>n r s'. get_status (StatusGroup 255) (idle_ctl [default_device ''AABBCCDDEEFF'' 10 ''n''] []) = (Inr (n, r), s') \<and>
     length (ct_sent s') = 1"
proof -
  let ?s = "idle_ctl [default_device ''AABBCCDDEEFF'' 10 ''n''] []"
  have "ct_transport ?s" "ct_tx ?s (ct_sends ?s) = Some (1/10, outcome_success)" and e: "ct_sent ?s = []"
    by (simp_all add: idle_ctl_def)
  note out = status_poll_sweeps [OF this(1,2), of 255]
  show ?thesis
    by (insert out, simp only: zero_le_divide_1_iff zero_le_numeral simp_thms True_implies_equals, elim exE conjE)
      (rule exI, rule exI, rule exI, erule conjI, simp add: e)
qed

section \<open>CONFIG\<close>

lemma config_bits:
  assumes "k < 8"
  shows "bit (d_configByte (apply_config_update opt d0 d)) k =
    (if config_bit opt = Some k then d0 \<noteq> 0 else bit (d_configByte d) k)"
proof (cases "config_bit opt")
  case (Some b)
  have "bit (255 :: int) k" using mask_eq_exp_minus_1 [of 8, where 'a = int] assms bit_mask_iff [of 8 k, where 'a = int] by simp
  with Some assms show ?thesis
    by (auto simp: apply_config_update_def Let_def bit_or_iff bit_and_iff bit_not_iff bit_push_bit_iff bit_1_iff bit_exp_iff)
qed (simp add: apply_config_update_def)

lemma deliver_fields: "ct_devices (deliver ev s) = ct_devices (if ct_hooks s then on_transport_event ev s else s)"
  "ct_pending_config (deliver ev s) = ct_pending_config (if ct_hooks s then on_transport_event ev s else s)"
  by (simp_all add: deliver_def Let_def split: option.split)

lemma on_reply_ack: "re_opc ev = OPC_ACK \<Longrightarrow> on_reply ev s =
    pending_try_match ev (handle_ack_event ev (s\<lparr>ct_registry := snd (try_match ev (ct_registry s))\<rparr>))"
  by (simp add: on_reply_def Let_def)

lemma stash_hooks: "ct_hooks (stash_pending_config h a b s) = ct_hooks s"
  by (simp add: stash_pending_config_def)

lemma expectation_config [simp]:
  "map d_configByte (ct_devices (pending_try_match ev s)) = map d_configByte (ct_devices s)"
  "ct_pending_config (pending_try_match ev s) = ct_pending_config s"
proof -
  have "map d_configByte (ct_devices (upd_device i (mark_online t) s)) = map d_configByte (ct_devices s)" for i t
    by (simp add: upd_device_def, rule map_upd_same) (simp add: mark_online_def)
  then show "map d_configByte (ct_devices (pending_try_match ev s)) = map d_configByte (ct_devices s)"
    by (simp add: pending_try_match_def Let_def split: option.split)
  show "ct_pending_config (pending_try_match ev s) = ct_pending_config s"
    by (simp add: pending_try_match_def Let_def upd_device_def clear_pending_expect_if_def split: option.split)
qed


lemma config_ack_facts:
  assumes "ct_hooks s" and "re_opc ev = OPC_ACK" and "re_reply ev = Ack OPC_CONFIG 0 sq"
    and "device_at (hex_bytes (re_sender3 ev)) s = Some i" and "i < length (ct_devices s)" and "k < 8"
    and "s1 = deliver (EvReply ev) (stash_pending_config (hex_bytes (re_sender3 ev)) option_no data0 s)"
  shows "bit (d_configByte (ct_devices s1 ! i)) k =
      (if config_bit (option_no AND 255) = Some k then data0 AND 255 \<noteq> 0 else bit (d_configByte (ct_devices s ! i)) k)"
    and "map_of (ct_pending_config s1) (hex_bytes (re_sender3 ev)) = None"
proof -
  let ?h = "hex_bytes (re_sender3 ev)"
  let ?d = "ack_update (ct_now s) OPC_CONFIG 0 sq (Some (re_host_rssi ev)) (Some (re_host_snr ev)) (ct_devices s ! i)"
  let ?d' = "apply_config_update (option_no AND 255) (data0 AND 255) ?d"
  have at: "device_at ?h (stash_pending_config ?h option_no data0 s\<lparr>ct_registry := rg\<rparr>) = Some i" for rg
    using assms(4) by (simp add: device_at_def stash_pending_config_def)
  obtain s2 where s2: "s2 = handle_ack_event ev (stash_pending_config ?h option_no data0 s
      \<lparr>ct_registry := snd (try_match ev (ct_registry (stash_pending_config ?h option_no data0 s)))\<rparr>)"
    by blast
  have dev: "ct_devices s2 = (ct_devices s)[i := ?d']" and pend: "map_of (ct_pending_config s2) ?h = None"
    using at assms(3,5) unfolding s2
    by (simp_all add: handle_ack_event_def Let_def take_pending_config_def stash_pending_config_def upd_device_def)
  have s1: "ct_devices s1 = ct_devices (pending_try_match ev s2)" "ct_pending_config s1 = ct_pending_config (pending_try_match ev s2)"
    unfolding assms(7) s2 deliver_fields using assms(1,2)
    by (simp_all add: on_transport_event_def on_reply_ack stash_hooks)
  show "map_of (ct_pending_config s1) ?h = None" using s1(2) pend by simp
  have "map d_configByte (ct_devices s1) ! i = map d_configByte (ct_devices s2) ! i" using s1(1) by simp
  moreover have "length (ct_devices s1) = length (ct_devices s)" using s1(1) dev by simp
  ultimately have "d_configByte (ct_devices s1 ! i) = d_configByte ?d'" using assms(5) dev by simp
  moreover have "d_configByte ?d = d_configByte (ct_devices s ! i)" by (simp add: device_ops)
  ultimately show "bit (d_configByte (ct_devices s1 ! i)) k =
      (if config_bit (option_no AND 255) = Some k then data0 AND 255 \<noteq> 0 else bit (d_configByte (ct_devices s ! i)) k)"
    using config_bits [OF assms(6)] by simp
qed

text \<open>
  An acknowledged OPC_CONFIG with status 0 changes exactly the configuration bit of the option stashed
  last for that sender (options 1, 3, 4 have one), sets it when the stashed byte is not 0 and clears it
  otherwise, whichever send the acknowledgement answers.  It consumes the entry, so that a
  duplicate of the acknowledgement changes nothing.
\<close>

theorem config_ack_applies:
  assumes "ct_hooks s" and "re_opc ev = OPC_ACK" and "re_reply ev = Ack OPC_CONFIG 0 sq"
    and "device_at (hex_bytes (re_sender3 ev)) s = Some i" and "i < length (ct_devices s)" and "k < 8"
    and "s1 = deliver (EvReply ev) (stash_pending_config (hex_bytes (re_sender3 ev)) option_no data0 s)"
  shows "bit (d_configByte (ct_devices s1 ! i)) k =
      (if config_bit (option_no AND 255) = Some k then data0 AND 255 \<noteq> 0 else bit (d_configByte (ct_devices s ! i)) k) \<and>
    map_of (ct_pending_config s1) (hex_bytes (re_sender3 ev)) = None"
  by (intro conjI config_ack_facts [OF assms])

lemma config_ack_applies_witness:
  "bit (d_configByte (ct_devices (deliver (EvReply (reply_from [0xDD, 0xEE, 0xFF] OPC_ACK (Ack OPC_CONFIG 0 None)))
     (stash_pending_config ''DDEEFF'' 3 1 (idle_ctl [default_device ''AABBCCDDEEFF'' 10 ''n''] []))) ! 0)) 1"
proof -
  let ?ev = "reply_from [0xDD, 0xEE, 0xFF] OPC_ACK (Ack OPC_CONFIG 0 None)"
  let ?s = "idle_ctl [default_device ''AABBCCDDEEFF'' 10 ''n''] []"
  have h: "hex_bytes (re_sender3 ?ev) = ''DDEEFF''" by code_simp
  have "get_device_from_address [default_device ''AABBCCDDEEFF'' 10 ''n''] ''DDEEFF'' = Some 0" by code_simp
  then have at: "device_at (hex_bytes (re_sender3 ?ev)) ?s = Some 0" unfolding h by (simp add: device_at_def idle_ctl_def)
  have o: "config_bit (3 AND 255) = Some 1" "(1 :: int) AND 255 \<noteq> 0" by code_simp+
  have "ct_hooks ?s" "re_opc ?ev = OPC_ACK" "re_reply ?ev = Ack OPC_CONFIG 0 None" "0 < length (ct_devices ?s)"
    by (simp_all add: idle_ctl_def reply_from_def)
  from conjunct1 [OF config_ack_applies [OF this(1-3) at this(4), of 1 _ 3 1, OF _ refl]] show ?thesis
    unfolding h using o by simp
qed

section \<open>Link marks\<close>

text \<open>
  Every state event whose state is not RX_WINDOW, a mere report included, ends the legacy expectation of
  a unicast send: the device is marked offline for a missing reply, although the request itself still waits
  in the registry.  An RX_WINDOW event changes nothing.
\<close>

theorem state_event_drops_expectation:
  assumes "ct_hooks s" and "ct_listener s = None" and "ct_expect s = Some p" and "ex_dev p < length (ct_devices s)"
  shows "let s' = deliver (EvState ty state_byte name ms ts) s in
    ct_registry s' = ct_registry s \<and>
    (if state_byte = GATEWAY_STATE_RX_WINDOW then s' = s
     else ct_expect s' = None \<and> d_link_online (ct_devices s' ! ex_dev p) = Some False \<and>
       d_link_error (ct_devices s' ! ex_dev p) = Some (''Missing reply ('' @ pr_name (ex_rule p) @ '')''))"
  using assms
  by (simp add: deliver_def on_transport_event_def pending_window_closed_def clear_pending_expect_if_def
      upd_device_def mark_offline_def)

lemma state_event_drops_expectation_witness:
  "d_link_online (ct_devices (deliver (EvState EV_STATE_REPORT 0 ''IDLE'' 0 0)
     (set_pending_expect 0 (hd RULES) 1 ''DDEEFF'' 99 (idle_ctl [default_device ''AABBCCDDEEFF'' 10 ''n''] []))) ! 0) = Some False"
proof -
  let ?s = "set_pending_expect 0 (hd RULES) 1 ''DDEEFF'' 99 (idle_ctl [default_device ''AABBCCDDEEFF'' 10 ''n''] [])"
  obtain p where "ct_expect ?s = Some p" and "ex_dev p = 0" by (simp add: set_pending_expect_def)
  moreover have "ct_hooks ?s" "ct_listener ?s = None" "0 < length (ct_devices ?s)" by (simp_all add: set_pending_expect_def idle_ctl_def)
  ultimately show ?thesis
    using state_event_drops_expectation [of ?s p EV_STATE_REPORT 0 "''IDLE''" 0 0]
    by (simp add: Let_def GATEWAY_STATE_RX_WINDOW_def)
qed

end
