(* ===== verification/Keyed_Store.thy ===== *)
theory Keyed_Store
  imports Py_Values
begin

text \<open>
  The JSON store behind both \<^verbatim>\<open>racelink/services/scenes_service.py\<close> and
  \<^verbatim>\<open>racelink/services/rl_presets_service.py\<close>: two classes with the same
  persistence, cache, id counter and key generation, which differ in the items they keep.  What differs
  is a record \<open>store_kind\<close>; the shared operations take it as an argument, and the contract a
  kind must meet is the locale \<open>keyed_store\<close>, interpreted on both services.  The disk either
  takes a write or raises, the clock does not tick within one operation, and a file holds what
  \<open>json.load\<close> returns for it.
\<close>

section \<open>Slugs and unique keys\<close>

definition slug_char :: "char \<Rightarrow> bool" where
  "slug_char c = (let n = (of_char c :: nat) in 97 \<le> n \<and> n \<le> 122 \<or> 48 \<le> n \<and> n \<le> 57)"

text \<open>Every maximal run of other characters becomes one underscore.\<close>

fun slug_sub :: "bool \<Rightarrow> string \<Rightarrow> string" where
  "slug_sub in_run [] = []"
| "slug_sub in_run (c # cs) =
     (if slug_char c then c # slug_sub False cs
      else if in_run then slug_sub True cs
      else CHR ''_'' # slug_sub True cs)"

definition slugify :: "string \<Rightarrow> string \<Rightarrow> string" where
  "slugify fallback text =
     (let base = strip_with (\<lambda>c. c = CHR ''_'') (slug_sub False (lower (strip text)))
      in if base = [] then fallback else base)"

definition suffix_keys :: "string \<Rightarrow> string list" where
  "suffix_keys desired = map (\<lambda>i. desired @ ''_'' @ str_nat i) [2 ..< 1000]"

definition unique_key :: "string \<Rightarrow> string list \<Rightarrow> string option \<Rightarrow> string res" where
  "unique_key desired existing exclude_key =
     (let taken = (case exclude_key of None \<Rightarrow> existing
                   | Some k \<Rightarrow> if k = [] then existing else filter (\<lambda>x. x \<noteq> k) existing)
      in if desired \<notin> set taken then Inr desired
         else case find_where (\<lambda>c. c \<notin> set taken) (suffix_keys desired) of
           Some c \<Rightarrow> Inr c
         | None \<Rightarrow> Inl RuntimeError)"

section \<open>Files\<close>

datatype json_file = Missing | Unreadable | Document pyval

lemma size_dict_entry: "p \<in> set d \<Longrightarrow> size (snd p) < Suc (size_list (size_prod (\<lambda>_. 0) size) d)"
  by (induction d) auto

text \<open>What \<open>json.load\<close> reads after \<open>json.dump\<close>: tuples come back as lists.\<close>

function json_norm :: "pyval \<Rightarrow> pyval" where
  "json_norm (PList xs) = PList (map json_norm xs)"
| "json_norm (PTuple xs) = PList (map json_norm xs)"
| "json_norm (PDict d) = PDict (map (\<lambda>p. (fst p, json_norm (snd p))) d)"
| "json_norm PNone = PNone"
| "json_norm (PBool b) = PBool b"
| "json_norm (PInt i) = PInt i"
| "json_norm (PFloat f) = PFloat f"
| "json_norm (PStr s) = PStr s"
  by pat_completeness auto
termination
  by (relation "measure size") (auto simp: size_dict_entry less_Suc_eq_le size_list_estimation')

text \<open>\<open>_now_iso\<close>: the UTC time to the second, with \<open>Z\<close> for the zone.\<close>

definition now_iso :: "string \<Rightarrow> pyval" where
  "now_iso utc = PStr (utc @ ''Z'')"

section \<open>Stores\<close>

record 'a store_kind =
  sk_schema :: int
  sk_migrates :: bool
  sk_field :: string
  sk_id :: "'a \<Rightarrow> int"
  sk_key :: "'a \<Rightarrow> string"
  sk_dict :: "'a \<Rightarrow> pydict"
  sk_entry :: "string \<Rightarrow> int \<Rightarrow> string \<Rightarrow> string \<Rightarrow> pydict \<Rightarrow> 'a res"

record 'a store =
  st_file :: json_file
  st_disk_ok :: bool
  st_now :: string
  st_cache :: "'a list option"
  st_next_id :: "int option"
  st_notified :: nat

text \<open>\<open>while id in used: id += 1\<close>\<close>

function bump_id :: "int list \<Rightarrow> int \<Rightarrow> int" where
  "bump_id used i = (if i \<in> set used then bump_id used (i + 1) else i)"
  by pat_completeness auto
termination
proof (relation "measure (\<lambda>(used, i). card {x \<in> set used. i \<le> x})")
  fix used and i :: int
  assume i: "i \<in> set used"
  have "i \<notin> {x \<in> set used. i + 1 \<le> x}" by simp
  then have "{x \<in> set used. i + 1 \<le> x} \<subset> {x \<in> set used. i \<le> x}" using i by force
  then show "((used, i + 1), (used, i)) \<in> measure (\<lambda>(used, i). card {x \<in> set used. i \<le> x})"
    by (simp add: psubset_card_mono)
qed simp

declare bump_id.simps [simp del]

definition entry_id :: "pydict \<Rightarrow> nat \<Rightarrow> int res" where
  "entry_id entry index =
     (if dget entry ''id'' = PNone then Inr (int index)
      else case py_int (dget entry ''id'') of
        Inr i \<Rightarrow> Inr i
      | Inl e \<Rightarrow> if e = TypeError \<or> e = ValueError then Inr (int index) else Inl e)"

fun load_entries ::
  "'a store_kind \<Rightarrow> string \<Rightarrow> nat \<Rightarrow> int list \<Rightarrow> pyval list \<Rightarrow> ('a list \<times> int list) res" where
  "load_entries k now index used [] = Inr ([], used)"
| "load_entries k now index used (e # es) =
     (case e of
        PDict entry \<Rightarrow>
          (case (dget entry ''key'', dget entry ''label'') of
             (PStr key, PStr label) \<Rightarrow>
               rbind (entry_id entry index) (\<lambda>i0.
               let i = bump_id used i0 in
               rbind (sk_entry k now i key label entry) (\<lambda>item.
               rbind (load_entries k now (Suc index) (i # used) es) (\<lambda>(items, used').
                 Inr (item # items, used'))))
           | _ \<Rightarrow> load_entries k now (Suc index) used es)
      | _ \<Rightarrow> load_entries k now (Suc index) used es)"

definition seed_next_id :: "pyval \<Rightarrow> int list \<Rightarrow> int" where
  "seed_next_id persisted used =
     (let top = (if used = [] then - 1 else Max (set used));
          fallback = (if used = [] then 0 else Max (set used) + 1)
      in case persisted of
           PInt n \<Rightarrow> if n > top then n else fallback
         | PBool b \<Rightarrow> if (if b then 1 else 0) > top then (if b then 1 else 0) else fallback
         | _ \<Rightarrow> fallback)"

text \<open>The items, the counter, and whether a document of an older schema has been read to its end.\<close>

definition load_document :: "'a store_kind \<Rightarrow> string \<Rightarrow> pyval \<Rightarrow> ('a list \<times> int \<times> bool) res" where
  "load_document k now data =
     (case data of
        PDict d \<Rightarrow>
          rbind (py_int (py_or (dget_or d ''schema_version'' (PInt 0)) (PInt 0))) (\<lambda>schema.
            case dget d (sk_field k) of
              PList raw \<Rightarrow>
                rbind (load_entries k now 0 [] raw) (\<lambda>(items, used).
                  Inr (items, seed_next_id (dget d ''next_id'') used, schema < sk_schema k))
            | _ \<Rightarrow> Inr ([], 0, False))
      | _ \<Rightarrow> Inr ([], 0, False))"

definition store_doc :: "'a store_kind \<Rightarrow> int \<Rightarrow> 'a list \<Rightarrow> pyval" where
  "store_doc k next_id items =
     PDict [(''schema_version'', PInt (sk_schema k)), (''next_id'', PInt next_id),
            (sk_field k, PList (map (\<lambda>x. PDict (sk_dict k x)) items))]"

definition write_atomic :: "'a store_kind \<Rightarrow> 'a list \<Rightarrow> ('a store, unit) proc" where
  "write_atomic k items s =
     (if st_disk_ok s then
        let next_id = (case st_next_id s of Some n \<Rightarrow> n
                       | None \<Rightarrow> (if items = [] then - 1 else Max (set (map (sk_id k) items))) + 1)
        in (Inr (), s\<lparr>st_file := Document (json_norm (store_doc k next_id items))\<rparr>)
      else (Inl OSError, s))"

definition store_load :: "'a store_kind \<Rightarrow> ('a store, 'a list) proc" where
  "store_load k s =
     (case st_file s of
        Document data \<Rightarrow>
          (case load_document k (st_now s) data of
             Inl e \<Rightarrow> (Inl e, s)
           | Inr (items, next_id, old) \<Rightarrow>
               let s1 = s\<lparr>st_next_id := Some next_id\<rparr> in
               if sk_migrates k \<and> old
               then pbind (write_atomic k items) (\<lambda>_. pret items) s1
               else (Inr items, s1))
      | _ \<Rightarrow> (Inr [], s\<lparr>st_next_id := Some 0\<rparr>))"

definition store_items :: "'a store_kind \<Rightarrow> ('a store, 'a list) proc" where
  "store_items k s =
     (case st_cache s of
        Some items \<Rightarrow> (Inr items, s)
      | None \<Rightarrow> pbind (store_load k) (\<lambda>items. pbind (pupd (\<lambda>s. s\<lparr>st_cache := Some items\<rparr>)) (\<lambda>_. pret items)) s)"

definition invalidate :: "('a store, unit) proc" where
  "invalidate = pupd (\<lambda>s. s\<lparr>st_cache := None\<rparr>)"

definition fire_changed :: "('a store, unit) proc" where
  "fire_changed = pupd (\<lambda>s. s\<lparr>st_notified := Suc (st_notified s)\<rparr>)"

definition store_get :: "'a store_kind \<Rightarrow> string \<Rightarrow> ('a store, 'a option) proc" where
  "store_get k key = pbind (store_items k) (\<lambda>items. pret (find_where (\<lambda>x. sk_key k x = key) items))"

definition store_get_by_id :: "'a store_kind \<Rightarrow> pyval \<Rightarrow> ('a store, 'a option) proc" where
  "store_get_by_id k raw s =
     (case py_int raw of
        Inr i \<Rightarrow> pbind (store_items k) (\<lambda>items. pret (find_where (\<lambda>x. sk_id k x = i) items)) s
      | Inl e \<Rightarrow> if e = TypeError \<or> e = ValueError then (Inr None, s) else (Inl e, s))"

text \<open>
  The locked part of \<open>create\<close>: the new item is appended to the cached list itself, before the
  write.
\<close>

definition store_create ::
  "'a store_kind \<Rightarrow> string \<Rightarrow> (int \<Rightarrow> string \<Rightarrow> string \<Rightarrow> 'a res) \<Rightarrow> ('a store, 'a) proc" where
  "store_create k desired build =
     pbind (store_items k) (\<lambda>items.
     pbind (plift (unique_key desired (map (sk_key k) items) None)) (\<lambda>final_key.
     pbind (pread (\<lambda>s. (case st_next_id s of Some n \<Rightarrow> n | None \<Rightarrow> 0, st_now s))) (\<lambda>(new_id, now).
     pbind (pupd (\<lambda>s. s\<lparr>st_next_id := Some (new_id + 1)\<rparr>)) (\<lambda>_.
     pbind (plift (build new_id final_key now)) (\<lambda>item.
     pbind (pupd (\<lambda>s. s\<lparr>st_cache := Some (items @ [item])\<rparr>)) (\<lambda>_.
     pbind (write_atomic k (items @ [item])) (\<lambda>_.
     pbind invalidate (\<lambda>_.
     pbind fire_changed (\<lambda>_. pret item)))))))))"

definition store_update ::
  "'a store_kind \<Rightarrow> string \<Rightarrow> (string \<Rightarrow> 'a \<Rightarrow> 'a res) \<Rightarrow> ('a store, 'a option) proc" where
  "store_update k key modify =
     pbind (store_items k) (\<lambda>items.
       case index_where (\<lambda>x. sk_key k x = key) items of
         None \<Rightarrow> pret None
       | Some i \<Rightarrow>
           pbind (pread st_now) (\<lambda>now.
           pbind (plift (modify now (items ! i))) (\<lambda>item.
           pbind (write_atomic k (items[i := item])) (\<lambda>_.
           pbind invalidate (\<lambda>_.
           pbind fire_changed (\<lambda>_. pret (Some item)))))))"

definition store_delete :: "'a store_kind \<Rightarrow> string \<Rightarrow> ('a store, bool) proc" where
  "store_delete k key =
     pbind (store_items k) (\<lambda>items.
       let rest = filter (\<lambda>x. sk_key k x \<noteq> key) items in
       if length rest = length items then pret False
       else
         pbind (write_atomic k rest) (\<lambda>_.
         pbind invalidate (\<lambda>_.
         pbind fire_changed (\<lambda>_. pret True))))"

text \<open>
  The bulk replacement: a fresh id per entry, claimed before the entry's fields are read.  \<open>import\<close>
  builds an item from the clock, its id, its key and the entry.
\<close>

definition import_key :: "string \<Rightarrow> string list \<Rightarrow> pydict \<Rightarrow> string res" where
  "import_key fallback seen e =
     (case py_or (py_or (dget e ''key'') (dget e ''label'')) (PStr []) of
        PStr t \<Rightarrow>
          let key = slugify fallback t in
          if key \<in> set seen then unique_key key seen None else Inr key
      | _ \<Rightarrow> Inl AttributeError)"

fun replace_entries ::
  "string \<Rightarrow> (string \<Rightarrow> int \<Rightarrow> string \<Rightarrow> pydict \<Rightarrow> 'a res) \<Rightarrow> string list \<Rightarrow> pydict list \<Rightarrow> ('a store, 'a list) proc" where
  "replace_entries fallback import_item seen [] = pret []"
| "replace_entries fallback import_item seen (e # es) =
     pbind (plift (import_key fallback seen e)) (\<lambda>key.
     pbind (pread (\<lambda>s. (case st_next_id s of Some n \<Rightarrow> n | None \<Rightarrow> 0, st_now s))) (\<lambda>(new_id, now).
     pbind (pupd (\<lambda>s. s\<lparr>st_next_id := Some (new_id + 1)\<rparr>)) (\<lambda>_.
     pbind (plift (import_item now new_id key e)) (\<lambda>item.
     pbind (replace_entries fallback import_item (key # seen) es) (\<lambda>items. pret (item # items))))))"

definition store_replace_all ::
  "'a store_kind \<Rightarrow> string \<Rightarrow> (string \<Rightarrow> int \<Rightarrow> string \<Rightarrow> pydict \<Rightarrow> 'a res) \<Rightarrow> pydict list \<Rightarrow> ('a store, unit) proc" where
  "store_replace_all k fallback import_item entries =
     pbind (store_items k) (\<lambda>_.
     pbind (replace_entries fallback import_item [] entries) (\<lambda>canonical.
     pbind (write_atomic k canonical) (\<lambda>_.
     pbind invalidate (\<lambda>_.
     pbind fire_changed (\<lambda>_. pret ())))))"

section \<open>Keys\<close>

lemma unique_key_fresh: "unique_key desired existing None = Inr key \<Longrightarrow> key \<notin> set existing"
  by (auto simp: unique_key_def Let_def dest: find_where_Some split: if_splits option.splits)

lemma suffix_keys_card: "card (set (suffix_keys desired)) = 998"
proof -
  have "inj (\<lambda>i. desired @ ''_'' @ str_nat i)" by (auto simp: inj_on_def dest: inj_str_nat)
  then have "card ((\<lambda>i. desired @ ''_'' @ str_nat i) ` {2 ..< 1000}) = card {2 ..< 1000 :: nat}"
    by (intro card_image) (auto simp: inj_on_def)
  then show ?thesis unfolding suffix_keys_def set_map set_upt by simp
qed

text \<open>Fewer than 998 keys in use: a free one is found.\<close>

lemma unique_key_exists:
  assumes "length existing < 998"
  obtains key where "unique_key desired existing None = Inr key"
proof -
  have "\<exists>c \<in> set (suffix_keys desired). c \<notin> set existing"
  proof (rule ccontr)
    assume "\<not> ?thesis"
    then have "set (suffix_keys desired) \<subseteq> set existing" by blast
    then have "card (set (suffix_keys desired)) \<le> card (set existing)" by (rule card_mono [OF finite_set])
    also have "\<dots> \<le> length existing" by (rule card_length)
    finally show False using assms by (simp add: suffix_keys_card)
  qed
  then have "find_where (\<lambda>c. c \<notin> set existing) (suffix_keys desired) \<noteq> None"
    unfolding find_where_None by blast
  then show ?thesis using that by (cases "desired \<in> set existing") (auto simp: unique_key_def)
qed

lemma length_filter_all: "length (filter P xs) = length xs \<longleftrightarrow> (\<forall>x \<in> set xs. P x)"
proof (induction xs)
  case (Cons x xs)
  have "length (filter P xs) \<noteq> Suc (length xs)" using length_filter_le [of P xs] by linarith
  with Cons show ?case by auto
qed simp

lemma slug_sub_lower: "slug_char c \<Longrightarrow> lower_char c = c"
  by (auto simp: slug_char_def lower_char_def Let_def)

section \<open>What a store represents\<close>

definition store_ok :: "'a store_kind \<Rightarrow> ('a \<Rightarrow> bool) \<Rightarrow> 'a list \<Rightarrow> int \<Rightarrow> bool" where
  "store_ok k item_ok xs n =
     ((\<forall>x \<in> set xs. item_ok x \<and> sk_id k x < n) \<and> distinct (map (sk_id k) xs) \<and> distinct (map (sk_key k) xs) \<and> 0 \<le> n)"

lemma store_ok_lists:
  "store_ok k item_ok xs n \<longleftrightarrow> (\<forall>x \<in> set xs. item_ok x) \<and> (\<forall>i \<in> set (map (sk_id k) xs). i < n) \<and>
     distinct (map (sk_id k) xs) \<and> distinct (map (sk_key k) xs) \<and> 0 \<le> n"
  by (auto simp: store_ok_def)

text \<open>
  The file holds a good list \<open>xs\<close> with its counter; the service shows \<open>ys\<close> with counter
  \<open>m\<close>, which are those of the file when nothing is cached.  After a failed write the two differ.
\<close>

definition file_holds :: "'a store_kind \<Rightarrow> 'a store \<Rightarrow> 'a list \<Rightarrow> int \<Rightarrow> bool" where
  "file_holds k s xs n = (st_file s = Document (store_doc k n xs) \<or> st_file s = Missing \<and> xs = [] \<and> n = 0)"

definition represents :: "'a store_kind \<Rightarrow> ('a \<Rightarrow> bool) \<Rightarrow> 'a store \<Rightarrow> 'a list \<Rightarrow> int \<Rightarrow> bool" where
  "represents k item_ok s ys m =
     (store_ok k item_ok ys m \<and>
      (\<exists>xs n. file_holds k s xs n \<and> store_ok k item_ok xs n \<and> n \<le> m \<and>
        (case st_cache s of None \<Rightarrow> ys = xs \<and> m = n | Some zs \<Rightarrow> zs = ys \<and> st_next_id s = Some m)))"

lemma bump_id_free: "i \<notin> set used \<Longrightarrow> bump_id used i = i"
  by (simp add: bump_id.simps)

lemma bump_id_fresh: "bump_id used i \<notin> set used"
proof (induction used i rule: bump_id.induct)
  case (1 used i)
  then show ?case by (cases "i \<in> set used") (simp_all add: bump_id.simps [of used i])
qed

locale keyed_store =
  fixes k :: "'a store_kind" and item_ok :: "'a \<Rightarrow> bool"
  assumes field: "sk_field k \<noteq> ''schema_version''" "sk_field k \<noteq> ''next_id''"
    and dict_id: "dget (sk_dict k x) ''id'' = PInt (sk_id k x)"
    and dict_key: "dget (sk_dict k x) ''key'' = PStr (sk_key k x)"
    and dict_entry: "item_ok x \<Longrightarrow> \<exists>label. dget (sk_dict k x) ''label'' = PStr label \<and>
      (\<forall>now. sk_entry k now (sk_id k x) (sk_key k x) label (sk_dict k x) = Inr x)"
    and plain: "item_ok x \<Longrightarrow> json_norm (PDict (sk_dict k x)) = PDict (sk_dict k x)"
begin

lemma load_stored_entries:
  "\<forall>x \<in> set xs. item_ok x \<Longrightarrow> distinct (map (sk_id k) xs) \<Longrightarrow> set (map (sk_id k) xs) \<inter> set used = {} \<Longrightarrow>
     load_entries k now index used (map (\<lambda>x. PDict (sk_dict k x)) xs) = Inr (xs, rev (map (sk_id k) xs) @ used)"
proof (induction xs arbitrary: index used)
  case (Cons x xs)
  obtain label where l: "dget (sk_dict k x) ''label'' = PStr label"
    "sk_entry k now (sk_id k x) (sk_key k x) label (sk_dict k x) = Inr x"
    using dict_entry [of x] Cons.prems(1) by auto
  have i: "entry_id (sk_dict k x) index = Inr (sk_id k x)" by (simp add: entry_id_def dict_id)
  have "load_entries k now (Suc index) (sk_id k x # used) (map (\<lambda>x. PDict (sk_dict k x)) xs) =
      Inr (xs, rev (map (sk_id k) xs) @ (sk_id k x # used))"
    using Cons.prems by (intro Cons.IH) auto
  with l i Cons.prems(3) show ?case by (simp add: dict_key bump_id_free Let_def)
qed simp

lemma seed_stored:
  assumes "\<forall>x \<in> set xs. sk_id k x < n" and "xs = [] \<longrightarrow> 0 \<le> n"
  shows "seed_next_id (PInt n) (rev (map (sk_id k) xs)) = n"
proof -
  have "xs \<noteq> [] \<Longrightarrow> Max (set (map (sk_id k) xs)) < n" using assms(1) by (subst Max_less_iff) auto
  with assms(2) show ?thesis by (auto simp: seed_next_id_def Let_def)
qed

text \<open>Loading what was written gives back the items and the counter; keys need not be unique for this.\<close>

lemma load_written:
  assumes "\<forall>x \<in> set xs. item_ok x \<and> sk_id k x < n" and "distinct (map (sk_id k) xs)" and "xs = [] \<longrightarrow> 0 \<le> n"
  shows "load_document k now (store_doc k n xs) = Inr (xs, n, False)"
proof -
  have d: "dget_or d ''schema_version'' (PInt 0) = PInt (sk_schema k)" "dget d ''next_id'' = PInt n"
    "dget d (sk_field k) = PList (map (\<lambda>x. PDict (sk_dict k x)) xs)"
    if "d = [(''schema_version'', PInt (sk_schema k)), (''next_id'', PInt n),
            (sk_field k, PList (map (\<lambda>x. PDict (sk_dict k x)) xs))]" for d
    using that field by (simp_all add: dget_or_def)
  have "py_int (py_or (PInt (sk_schema k)) (PInt 0)) = Inr (sk_schema k)" by (simp add: py_or_def)
  moreover have "load_entries k now 0 [] (map (\<lambda>x. PDict (sk_dict k x)) xs) = Inr (xs, rev (map (sk_id k) xs))"
    using assms load_stored_entries [of xs "[]" now 0] by simp
  ultimately show ?thesis
    using d seed_stored [of xs n] assms by (simp add: load_document_def store_doc_def)
qed

lemma load_stored: "store_ok k item_ok xs n \<Longrightarrow> load_document k now (store_doc k n xs) = Inr (xs, n, False)"
  by (rule load_written) (simp_all add: store_ok_def)

lemma norm_doc:
  assumes "\<forall>x \<in> set xs. item_ok x" shows "json_norm (store_doc k n xs) = store_doc k n xs"
proof -
  have "map (\<lambda>x. json_norm (PDict (sk_dict k x))) xs = map (\<lambda>x. PDict (sk_dict k x)) xs"
    using assms plain by (intro map_cong refl) auto
  then show ?thesis by (simp add: store_doc_def comp_def)
qed

lemma representsD: "represents k item_ok s ys m \<Longrightarrow> store_ok k item_ok ys m"
  by (simp add: represents_def)

lemma items_run:
  assumes "represents k item_ok s ys m"
  shows "store_items k s = (Inr ys, s\<lparr>st_cache := Some ys, st_next_id := Some m\<rparr>)"
proof (cases "st_cache s")
  case None
  with assms have "file_holds k s ys m" "store_ok k item_ok ys m" by (auto simp: represents_def)
  then show ?thesis using None load_stored [of ys m]
    by (auto simp: file_holds_def store_items_def store_load_def pbind_def Let_def)
next
  case (Some zs)
  then have "zs = ys" "st_next_id s = Some m" using assms by (auto simp: represents_def)
  with Some show ?thesis by (simp add: store_items_def)
qed

lemma represents_loaded:
  "represents k item_ok s ys m \<Longrightarrow> represents k item_ok (s\<lparr>st_cache := Some ys, st_next_id := Some m\<rparr>) ys m"
  by (cases "st_cache s") (auto simp: represents_def file_holds_def)

text \<open>A cached list may run ahead of the file.\<close>

lemma represents_ahead:
  assumes "represents k item_ok s ys m" and "store_ok k item_ok zs m'" and "m \<le> m'"
  shows "represents k item_ok (s\<lparr>st_cache := Some zs, st_next_id := Some m'\<rparr>) zs m'"
proof -
  obtain xs n where "file_holds k s xs n" "store_ok k item_ok xs n" "n \<le> m"
    using assms(1) by (auto simp: represents_def)
  with assms(2,3) show ?thesis by (auto simp: represents_def file_holds_def intro!: exI [of _ xs] exI [of _ n])
qed

lemma write_run:
  assumes "st_next_id s = Some n" and "\<forall>x \<in> set xs. item_ok x"
  shows "write_atomic k xs s =
    (if st_disk_ok s then (Inr (), s\<lparr>st_file := Document (store_doc k n xs)\<rparr>) else (Inl OSError, s))"
  using assms norm_doc by (simp add: write_atomic_def Let_def)

text \<open>A successful write, then the cache dropped and the listeners told.\<close>

definition committed :: "'a store \<Rightarrow> 'a list \<Rightarrow> int \<Rightarrow> 'a store" where
  "committed s xs n = s\<lparr>st_file := Document (store_doc k n xs), st_cache := None, st_next_id := Some n,
     st_notified := Suc (st_notified s)\<rparr>"

lemma represents_committed: "store_ok k item_ok xs n \<Longrightarrow> represents k item_ok (committed s xs n) xs n"
  by (auto simp: represents_def committed_def file_holds_def)

lemma commit_run:
  assumes "st_next_id s = Some n" and "store_ok k item_ok xs n"
  shows "pbind (write_atomic k xs) (\<lambda>_. pbind invalidate (\<lambda>_. pbind fire_changed (\<lambda>_. pret r))) s =
    (if st_disk_ok s then (Inr r, committed s xs n) else (Inl OSError, s))"
  using write_run [OF assms(1), of xs] assms
  by (simp add: store_ok_def pbind_def invalidate_def fire_changed_def committed_def)

lemma store_ok_append:
  assumes "store_ok k item_ok xs n" and "item_ok item" and "sk_id k item = n"
    and "sk_key k item \<notin> set (map (sk_key k) xs)"
  shows "store_ok k item_ok (xs @ [item]) (n + 1)"
proof -
  have "n \<notin> set (map (sk_id k) xs)" using assms(1) by (force simp: store_ok_def)
  with assms show ?thesis by (auto simp: store_ok_def)
qed

lemma create_run:
  assumes r: "represents k item_ok s xs n"
    and "unique_key desired (map (sk_key k) xs) None = Inr key"
    and "build n key (st_now s) = Inr item" and "item_ok item" and "sk_id k item = n" and "sk_key k item = key"
  shows "store_create k desired build s =
    (if st_disk_ok s then (Inr item, committed s (xs @ [item]) (n + 1))
     else (Inl OSError, s\<lparr>st_cache := Some (xs @ [item]), st_next_id := Some (n + 1)\<rparr>))"
    and "store_ok k item_ok (xs @ [item]) (n + 1)"
proof -
  show ok: "store_ok k item_ok (xs @ [item]) (n + 1)"
    using store_ok_append [OF representsD [OF r] assms(4,5)] unique_key_fresh [OF assms(2)] assms(6) by simp
  show "store_create k desired build s =
    (if st_disk_ok s then (Inr item, committed s (xs @ [item]) (n + 1))
     else (Inl OSError, s\<lparr>st_cache := Some (xs @ [item]), st_next_id := Some (n + 1)\<rparr>))"
    using items_run [OF r] assms(2,3)
    by (simp add: store_create_def pbind_Inr pbind_run commit_run [OF _ ok] committed_def)
qed

lemma store_ok_update:
  assumes "store_ok k item_ok xs n" and "item_ok item" and "i < length xs"
    and "sk_id k item = sk_id k (xs ! i)" and "sk_key k item = sk_key k (xs ! i)"
  shows "store_ok k item_ok (xs[i := item]) n"
proof -
  have "\<forall>x \<in> set (xs[i := item]). item_ok x \<and> sk_id k x < n"
    using assms set_update_subset_insert [of xs i item] by (auto simp: store_ok_def)
  moreover have "map (sk_id k) (xs[i := item]) = map (sk_id k) xs"
    using assms(3,4) by (metis list_update_id map_update)
  moreover have "map (sk_key k) (xs[i := item]) = map (sk_key k) xs"
    using assms(3,5) by (metis list_update_id map_update)
  ultimately show ?thesis using assms(1) by (simp add: store_ok_def)
qed

lemma update_run:
  assumes r: "represents k item_ok s xs n"
    and i: "index_where (\<lambda>x. sk_key k x = key) xs = Some i"
    and "modify (st_now s) (xs ! i) = Inr item" and "item_ok item"
    and "sk_id k item = sk_id k (xs ! i)" and "sk_key k item = sk_key k (xs ! i)"
  shows "store_update k key modify s =
    (if st_disk_ok s then (Inr (Some item), committed s (xs[i := item]) n)
     else (Inl OSError, s\<lparr>st_cache := Some xs, st_next_id := Some n\<rparr>))"
    and "store_ok k item_ok (xs[i := item]) n"
proof -
  show ok: "store_ok k item_ok (xs[i := item]) n"
    using store_ok_update [OF representsD [OF r] assms(4)] assms(5,6) index_where_SomeD [OF i] by simp
  show "store_update k key modify s =
    (if st_disk_ok s then (Inr (Some item), committed s (xs[i := item]) n)
     else (Inl OSError, s\<lparr>st_cache := Some xs, st_next_id := Some n\<rparr>))"
    using items_run [OF r] i assms(3)
    by (simp add: store_update_def pbind_Inr pbind_run commit_run [OF _ ok] committed_def)
qed

lemma update_missing_run:
  assumes "represents k item_ok s xs n" and "key \<notin> set (map (sk_key k) xs)"
  shows "store_update k key modify s = (Inr None, s\<lparr>st_cache := Some xs, st_next_id := Some n\<rparr>)"
proof -
  have "index_where (\<lambda>x. sk_key k x = key) xs = None" using assms(2) by (auto simp: index_where_None)
  then show ?thesis using items_run [OF assms(1)] by (simp add: store_update_def pbind_def)
qed

lemma update_refused_run:
  assumes "represents k item_ok s xs n" and "index_where (\<lambda>x. sk_key k x = key) xs = Some i"
    and "modify (st_now s) (xs ! i) = Inl e"
  shows "store_update k key modify s = (Inl e, s\<lparr>st_cache := Some xs, st_next_id := Some n\<rparr>)"
  using items_run [OF assms(1)] assms(2,3) by (simp add: store_update_def pbind_def)

lemma store_ok_filter: "store_ok k item_ok xs n \<Longrightarrow> store_ok k item_ok (filter P xs) n"
  by (auto simp: store_ok_def distinct_map_filter)

lemma delete_run:
  assumes "represents k item_ok s xs n"
  shows "store_delete k key s =
    (if key \<notin> set (map (sk_key k) xs) then (Inr False, s\<lparr>st_cache := Some xs, st_next_id := Some n\<rparr>)
     else if st_disk_ok s then (Inr True, committed s (filter (\<lambda>x. sk_key k x \<noteq> key) xs) n)
     else (Inl OSError, s\<lparr>st_cache := Some xs, st_next_id := Some n\<rparr>))"
proof -
  let ?rest = "filter (\<lambda>x. sk_key k x \<noteq> key) xs"
  have len: "length ?rest = length xs \<longleftrightarrow> key \<notin> set (map (sk_key k) xs)"
    by (auto simp: length_filter_all)
  have "store_ok k item_ok ?rest n" by (rule store_ok_filter [OF representsD [OF assms]])
  then show ?thesis
    using items_run [OF assms] len commit_run [of "s\<lparr>st_cache := Some xs, st_next_id := Some n\<rparr>" n ?rest True]
    by (simp add: store_delete_def pbind_Inr Let_def committed_def)
qed

lemma get_run:
  assumes "represents k item_ok s xs n"
  shows "store_get k key s =
    (Inr (find_where (\<lambda>x. sk_key k x = key) xs), s\<lparr>st_cache := Some xs, st_next_id := Some n\<rparr>)"
  using items_run [OF assms] by (simp add: store_get_def pbind_def)

lemma get_by_id_run:
  assumes "represents k item_ok s xs n"
  shows "store_get_by_id k (PInt i) s =
    (Inr (find_where (\<lambda>x. sk_id k x = i) xs), s\<lparr>st_cache := Some xs, st_next_id := Some n\<rparr>)"
  using items_run [OF assms] by (simp add: store_get_by_id_def pbind_def)

lemma find_unique:
  assumes "distinct (map f xs)" and "x \<in> set xs"
  shows "find_where (\<lambda>y. f y = f x) xs = Some x"
proof -
  have "find_where (\<lambda>y. f y = f x) xs \<noteq> None" using assms(2) by (auto simp: find_where_None)
  then obtain y where y: "find_where (\<lambda>y. f y = f x) xs = Some y" by blast
  from find_where_Some [OF y] assms have "y = x" by (auto simp: distinct_map dest: inj_onD)
  with y show ?thesis by simp
qed

text \<open>Every operation leaves a represented store; only a failed creation runs ahead of the file.\<close>

definition coherent :: "'a store \<Rightarrow> bool" where
  "coherent s = (\<exists>xs n. represents k item_ok s xs n)"

lemma coherent_items: "coherent s \<Longrightarrow> coherent (snd (store_items k s))"
  using items_run represents_loaded by (fastforce simp: coherent_def)

lemma coherent_get: "coherent s \<Longrightarrow> coherent (snd (store_get k key s))"
  using get_run represents_loaded by (fastforce simp: coherent_def)

lemma coherent_get_by_id: "coherent s \<Longrightarrow> coherent (snd (store_get_by_id k v s))"
  using items_run represents_loaded
  by (fastforce simp: coherent_def store_get_by_id_def pbind_def split: sum.splits)

lemma coherent_delete: "coherent s \<Longrightarrow> coherent (snd (store_delete k key s))"
proof -
  assume "coherent s"
  then obtain xs n where r: "represents k item_ok s xs n" by (auto simp: coherent_def)
  show ?thesis unfolding delete_run [OF r]
    using represents_loaded [OF r] represents_committed [OF store_ok_filter [OF representsD [OF r]]]
    by (auto simp: coherent_def)
qed

lemma coherent_update:
  assumes "coherent s"
    and keeps: "\<And>now x y. item_ok x \<Longrightarrow> modify now x = Inr y \<Longrightarrow> item_ok y \<and> sk_id k y = sk_id k x \<and> sk_key k y = sk_key k x"
  shows "coherent (snd (store_update k key modify s))"
proof -
  obtain xs n where r: "represents k item_ok s xs n" using assms(1) by (auto simp: coherent_def)
  show ?thesis
  proof (cases "index_where (\<lambda>x. sk_key k x = key) xs")
    case None
    then have "key \<notin> set (map (sk_key k) xs)" by (auto simp: index_where_None)
    with represents_loaded [OF r] show ?thesis by (auto simp: update_missing_run [OF r] coherent_def)
  next
    case (Some i)
    show ?thesis
    proof (cases "modify (st_now s) (xs ! i)")
      case (Inl e)
      with represents_loaded [OF r] show ?thesis by (auto simp: update_refused_run [OF r Some] coherent_def)
    next
      case (Inr y)
      have "item_ok (xs ! i)" using representsD [OF r] index_where_SomeD [OF Some] by (simp add: store_ok_def)
      with keeps Inr have y: "item_ok y" "sk_id k y = sk_id k (xs ! i)" "sk_key k y = sk_key k (xs ! i)" by blast+
      show ?thesis unfolding update_run(1) [where modify = modify, OF r Some Inr y]
        using represents_loaded [OF r] represents_committed [OF update_run(2) [where modify = modify, OF r Some Inr y]]
        by (auto simp: coherent_def)
    qed
  qed
qed

lemma coherent_create:
  assumes "coherent s"
    and built: "\<And>n key now x. build n key now = Inr x \<Longrightarrow> item_ok x \<and> sk_id k x = n \<and> sk_key k x = key"
  shows "coherent (snd (store_create k desired build s))"
proof -
  obtain xs n where r: "represents k item_ok s xs n" using assms(1) by (auto simp: coherent_def)
  note it = items_run [OF r]
  show ?thesis
  proof (cases "unique_key desired (map (sk_key k) xs) None")
    case (Inl e)
    with represents_loaded [OF r] show ?thesis
      by (auto simp: store_create_def pbind_Inr [where m = "store_items k" and s = s, OF it] pbind_run coherent_def)
  next
    case (Inr key)
    show ?thesis
    proof (cases "build n key (st_now s)")
      case (Inl e)
      have "represents k item_ok (s\<lparr>st_cache := Some xs, st_next_id := Some (n + 1)\<rparr>) xs (n + 1)"
        using representsD [OF r] by (intro represents_ahead [OF r]) (auto simp: store_ok_def)
      with Inl Inr show ?thesis by (auto simp: store_create_def pbind_Inr [where m = "store_items k" and s = s, OF it] pbind_run coherent_def)
    next
      case b: (Inr x)
      note x = built [OF b]
      note c = create_run [where build = build, OF r Inr b] x
      have ok: "store_ok k item_ok (xs @ [x]) (n + 1)" using c by blast
      then have "represents k item_ok (s\<lparr>st_cache := Some (xs @ [x]), st_next_id := Some (n + 1)\<rparr>) (xs @ [x]) (n + 1)"
        by (intro represents_ahead [OF r]) simp_all
      with c represents_committed [OF ok] show ?thesis by (auto simp: coherent_def)
    qed
  qed
qed

lemma coherent_commit:
  assumes "represents k item_ok s xs n" and "store_ok k item_ok ys n"
  shows "coherent (snd (pbind (write_atomic k ys) (\<lambda>_. pbind invalidate (\<lambda>_. pbind fire_changed (\<lambda>_. pret r)))
    (s\<lparr>st_cache := Some xs, st_next_id := Some n\<rparr>)))"
  using represents_loaded [OF assms(1)] represents_committed [OF assms(2)]
  by (auto simp: commit_run [OF _ assms(2)] coherent_def)

lemma import_key_fresh: "import_key fallback seen e = Inr key \<Longrightarrow> key \<notin> set seen"
  by (auto simp: import_key_def Let_def dest: unique_key_fresh split: pyval.split_asm if_split_asm)

definition imports_ok :: "(string \<Rightarrow> int \<Rightarrow> string \<Rightarrow> pydict \<Rightarrow> 'a res) \<Rightarrow> pydict list \<Rightarrow> bool" where
  "imports_ok import_item es = (\<forall>e \<in> set es. \<forall>now n key x. import_item now n key e = Inr x \<longrightarrow>
      item_ok x \<and> sk_id k x = n \<and> sk_key k x = key)"

lemma replace_entries_run:
  assumes "imports_ok import_item es"
    and "st_next_id s = Some m"
  shows "\<exists>r m'. replace_entries fallback import_item seen es s = (r, s\<lparr>st_next_id := Some m'\<rparr>) \<and> m \<le> m' \<and>
    (\<forall>ys. r = Inr ys \<longrightarrow> (\<forall>y \<in> set ys. item_ok y \<and> m \<le> sk_id k y \<and> sk_id k y < m' \<and> sk_key k y \<notin> set seen) \<and>
       distinct (map (sk_id k) ys) \<and> distinct (map (sk_key k) ys))"
  using assms
proof (induction es arbitrary: s m seen)
  case Nil
  then show ?case by (intro exI [of _ "Inr []"] exI [of _ m]) simp
next
  case (Cons e es)
  show ?case
  proof (cases "import_key fallback seen e")
    case (Inl err)
    with Cons.prems(2) show ?thesis
      by (intro exI [of _ "Inl err"] exI [of _ m]) (simp add: pbind_run)
  next
    case key: (Inr key)
    note run = key Cons.prems(2)
    show ?thesis
    proof (cases "import_item (st_now s) m key e")
      case (Inl err)
      with run show ?thesis by (intro exI [of _ "Inl err"] exI [of _ "m + 1"]) (simp add: pbind_run)
    next
      case (Inr x)
      let ?s = "s\<lparr>st_next_id := Some (m + 1)\<rparr>"
      have x: "item_ok x" "sk_id k x = m" "sk_key k x = key" using Cons.prems(1) Inr by (simp_all add: imports_ok_def)
      have es: "imports_ok import_item es" using Cons.prems(1) by (simp add: imports_ok_def)
      obtain r m' where r: "replace_entries fallback import_item (key # seen) es ?s = (r, ?s\<lparr>st_next_id := Some m'\<rparr>)"
        and m': "m + 1 \<le> m'"
        and ys: "\<forall>ys. r = Inr ys \<longrightarrow> (\<forall>y \<in> set ys. item_ok y \<and> m + 1 \<le> sk_id k y \<and> sk_id k y < m' \<and>
            sk_key k y \<notin> set (key # seen)) \<and> distinct (map (sk_id k) ys) \<and> distinct (map (sk_key k) ys)"
        using Cons.IH [OF es, of ?s "m + 1" "key # seen"] by auto
      show ?thesis
      proof (cases r)
        case (Inl err)
        with r run Inr m' show ?thesis
          by (intro exI [of _ "Inl err"] exI [of _ m']) (simp add: pbind_run pbind_def)
      next
        case ys': (Inr ys)
        have "replace_entries fallback import_item seen (e # es) s = (Inr (x # ys), s\<lparr>st_next_id := Some m'\<rparr>)"
          using r run Inr ys' by (simp add: pbind_run pbind_def)
        moreover have "(\<forall>y \<in> set (x # ys). item_ok y \<and> m \<le> sk_id k y \<and> sk_id k y < m' \<and> sk_key k y \<notin> set seen) \<and>
            distinct (map (sk_id k) (x # ys)) \<and> distinct (map (sk_key k) (x # ys))"
          using ys ys' x m' import_key_fresh [OF key] by force
        ultimately show ?thesis using m' by (intro exI [of _ "Inr (x # ys)"] exI [of _ m']) simp
      qed
    qed
  qed
qed

lemma coherent_replace_all:
  assumes c: "coherent s" and imp: "imports_ok import_item es"
  shows "coherent (snd (store_replace_all k fallback import_item es s))"
proof -
  obtain xs n where rep: "represents k item_ok s xs n" using c by (auto simp: coherent_def)
  let ?s = "s\<lparr>st_cache := Some xs, st_next_id := Some n\<rparr>"
  obtain r m where r: "replace_entries fallback import_item [] es ?s = (r, ?s\<lparr>st_next_id := Some m\<rparr>)" and m: "n \<le> m"
    and ys: "\<forall>ys. r = Inr ys \<longrightarrow> (\<forall>y \<in> set ys. item_ok y \<and> n \<le> sk_id k y \<and> sk_id k y < m) \<and>
       distinct (map (sk_id k) ys) \<and> distinct (map (sk_key k) ys)"
    using replace_entries_run [OF imp, of ?s n fallback "[]"] by auto
  have ok: "store_ok k item_ok xs m" "0 \<le> m" using representsD [OF rep] m by (auto simp: store_ok_def)
  have ahead: "represents k item_ok (s\<lparr>st_cache := Some xs, st_next_id := Some m\<rparr>) xs m"
    by (rule represents_ahead [OF rep ok(1) m])
  show ?thesis
  proof (cases r)
    case (Inl e)
    with r ahead show ?thesis
      by (auto simp: store_replace_all_def pbind_def items_run [OF rep] coherent_def)
  next
    case (Inr ys)
    with ys ok(2) have "store_ok k item_ok ys m" by (simp add: store_ok_def)
    from commit_run [OF _ this, of "s\<lparr>st_cache := Some xs, st_next_id := Some m\<rparr>" "()"]
      represents_committed [OF this] ahead
    show ?thesis using r Inr
      by (auto simp: store_replace_all_def pbind_Inr [where m = "store_items k" and s = s, OF items_run [OF rep]]
          pbind_Inr [where m = "replace_entries fallback import_item [] es"] coherent_def)
  qed
qed

lemma coherent_restart: "coherent s \<Longrightarrow> coherent (s\<lparr>st_cache := None, st_next_id := None\<rparr>)"
  by (fastforce simp: coherent_def represents_def file_holds_def)

lemma coherent_world: "coherent s \<Longrightarrow> coherent (s\<lparr>st_disk_ok := ok, st_now := now\<rparr>)"
  by (cases "st_cache s") (simp_all add: coherent_def represents_def file_holds_def)

lemma coherent_fresh: "st_file s = Missing \<Longrightarrow> st_cache s = None \<Longrightarrow> coherent s"
  by (auto simp: coherent_def represents_def file_holds_def store_ok_def)

lemma coherentD:
  assumes "coherent s"
  obtains xs n where "store_items k s = (Inr xs, s\<lparr>st_cache := Some xs, st_next_id := Some n\<rparr>)"
    and "store_ok k item_ok xs n"
  using assms items_run representsD by (auto simp: coherent_def)

end

section \<open>JSON values\<close>

text \<open>A value without tuples is what \<open>json.load\<close> can return; dumping and loading keeps it.\<close>

definition json_plain :: "pyval \<Rightarrow> bool" where
  "json_plain v = (json_norm v = v)"

lemma json_plain_list [simp]: "json_plain (PList xs) \<longleftrightarrow> (\<forall>x \<in> set xs. json_plain x)"
  unfolding json_plain_def by (induction xs) auto

lemma json_plain_dict [simp]: "json_plain (PDict d) \<longleftrightarrow> (\<forall>p \<in> set d. json_plain (snd p))"
  unfolding json_plain_def by (induction d) auto

lemma json_plain_simps [simp]:
  "\<not> json_plain (PTuple xs)" "json_plain PNone" "json_plain (PBool b)" "json_plain (PInt i)"
  "json_plain (PFloat f)" "json_plain (PStr s)"
  by (simp_all add: json_plain_def)

lemma dget_plain: "json_plain (PDict d) \<Longrightarrow> json_plain dflt \<Longrightarrow> json_plain (dget_or d key dflt)"
  unfolding dget_or_def by (cases "map_of d key") (auto dest!: map_of_SomeD)

lemma py_or_plain: "json_plain a \<Longrightarrow> json_plain b \<Longrightarrow> json_plain (py_or a b)"
  by (simp add: py_or_def)

lemma assoc_set_plain:
  "json_plain v \<Longrightarrow> \<forall>p \<in> set d. json_plain (snd p) \<Longrightarrow> \<forall>p \<in> set (assoc_set key v d). json_plain (snd p)"
  by (induction key v d rule: assoc_set.induct) auto

lemma now_iso_props [simp]: "py_truth (now_iso t)" "json_plain (now_iso t)"
  by (simp_all add: now_iso_def)

lemma load_entries_append:
  "load_entries k now index used (xs @ ys) =
     rbind (load_entries k now index used xs) (\<lambda>(items, used').
     rbind (load_entries k now (index + length xs) used' ys) (\<lambda>(items', used'').
       Inr (items @ items', used'')))"
proof (induction xs arbitrary: index used)
  case Nil
  then show ?case by (cases "load_entries k now index used ys") auto
next
  case (Cons e es)
  note IH = Cons.IH [of "Suc index"]
  show ?case
  proof (cases "\<exists>entry key label. e = PDict entry \<and> dget entry ''key'' = PStr key \<and> dget entry ''label'' = PStr label")
    case True
    then obtain entry key label where e: "e = PDict entry" "dget entry ''key'' = PStr key" "dget entry ''label'' = PStr label"
      by blast
    show ?thesis
    proof (cases "entry_id entry index")
      case (Inr i0)
      show ?thesis
      proof (cases "sk_entry k now (bump_id used i0) key label entry")
        case b: (Inr item)
        from e Inr b IH [of "bump_id used i0 # used"] show ?thesis
          by (cases "load_entries k now (Suc index) (bump_id used i0 # used) es") (auto simp: Let_def rbind_def split: sum.split)
      qed (use e Inr in \<open>simp add: Let_def\<close>)
    qed (use e in simp)
  next
    case False
    then have "load_entries k now index used (e # zs) = load_entries k now (Suc index) used zs" for zs
      by (cases e) (auto split: pyval.split)
    with IH [of used] show ?thesis by simp
  qed
qed

text \<open>Whatever a file holds, the ids a load gives out are unique and below the counter.\<close>

lemma load_entries_ids:
  assumes "\<And>now i key label e x. sk_entry k now i key label e = Inr x \<Longrightarrow> sk_id k x = i"
    and "load_entries k now index used es = Inr (xs, used')"
  shows "used' = rev (map (sk_id k) xs) @ used \<and> distinct (map (sk_id k) xs) \<and> sk_id k ` set xs \<inter> set used = {}"
  using assms(2)
proof (induction es arbitrary: index used xs used')
  case (Cons e es)
  show ?case
  proof (cases "\<exists>entry key label. e = PDict entry \<and> dget entry ''key'' = PStr key \<and> dget entry ''label'' = PStr label")
    case True
    then obtain entry key label where e: "e = PDict entry" "dget entry ''key'' = PStr key" "dget entry ''label'' = PStr label"
      by blast
    obtain i0 item items where i0: "entry_id entry index = Inr i0"
      and item: "sk_entry k now (bump_id used i0) key label entry = Inr item"
      and rest: "load_entries k now (Suc index) (bump_id used i0 # used) es = Inr (items, used')" and xs: "xs = item # items"
      using Cons.prems e by (auto simp: Let_def elim!: rbind_InrE)
    from assms(1) [OF item] Cons.IH [OF rest] bump_id_fresh [of used i0] xs show ?thesis by auto
  next
    case False
    then have "load_entries k now index used (e # es) = load_entries k now (Suc index) used es"
      by (cases e) (auto split: pyval.split)
    with Cons.prems have "load_entries k now (Suc index) used es = Inr (xs, used')" by (simp only:)
    then show ?thesis by (rule Cons.IH)
  qed
qed simp

lemma seed_next_id_above: "(\<forall>i \<in> set used. i < seed_next_id v used) \<and> (used = [] \<longrightarrow> 0 \<le> seed_next_id v used)"
proof -
  have above: "\<forall>i \<in> set used. i < n" if "Max (set used) < n" for n
    using that by (metis Max_ge List.finite_set le_less_trans)
  have nxt: "\<forall>i \<in> set used. i < Max (set used) + 1" by (rule above) simp
  show ?thesis
  proof (cases "used = []")
    case True
    then show ?thesis by (auto simp: seed_next_id_def Let_def split: pyval.split)
  next
    case False
    have "seed_next_id v used = Max (set used) + 1 \<or> Max (set used) < seed_next_id v used"
      using False by (cases v) (simp_all add: seed_next_id_def Let_def del: Max_less_iff)
    with False above nxt show ?thesis by metis
  qed
qed

lemma load_document_ids:
  assumes "\<And>now i key label e x. sk_entry k now i key label e = Inr x \<Longrightarrow> sk_id k x = i"
    and "load_document k now data = Inr (xs, n, old)"
  shows "distinct (map (sk_id k) xs) \<and> (\<forall>x \<in> set xs. sk_id k x < n) \<and> (xs = [] \<longrightarrow> 0 \<le> n)"
proof (cases "xs = [] \<and> n = 0")
  case False
  then obtain v raw used where l: "load_entries k now 0 [] raw = Inr (xs, used)" and n: "n = seed_next_id v used"
    using assms(2) by (auto simp: load_document_def elim!: rbind_InrE split: pyval.split_asm)
  from load_entries_ids [OF assms(1) l] have "used = rev (map (sk_id k) xs)" "distinct (map (sk_id k) xs)" by simp_all
  with seed_next_id_above [of used v] n show ?thesis by simp
qed simp

lemma load_entries_mem:
  "load_entries k now index used es = Inr (xs, used') \<Longrightarrow> x \<in> set xs \<Longrightarrow>
     \<exists>entry i key label. PDict entry \<in> set es \<and> sk_entry k now i key label entry = Inr x"
proof (induction es arbitrary: index used xs used')
  case (Cons e es)
  show ?case
  proof (cases "\<exists>entry key label. e = PDict entry \<and> dget entry ''key'' = PStr key \<and> dget entry ''label'' = PStr label")
    case True
    then obtain entry key label where e: "e = PDict entry" "dget entry ''key'' = PStr key" "dget entry ''label'' = PStr label"
      by blast
    obtain i0 item items where item: "sk_entry k now (bump_id used i0) key label entry = Inr item"
      and rest: "load_entries k now (Suc index) (bump_id used i0 # used) es = Inr (items, used')" and xs: "xs = item # items"
      using Cons.prems(1) e by (auto simp: Let_def elim!: rbind_InrE)
    show ?thesis
    proof (cases "x = item")
      case True
      with item e show ?thesis by auto
    next
      case False
      with Cons.prems(2) xs have "x \<in> set items" by simp
      from Cons.IH [OF rest this] show ?thesis by auto
    qed
  next
    case False
    then have "load_entries k now index used (e # es) = load_entries k now (Suc index) used es"
      by (cases e) (auto split: pyval.split)
    with Cons.prems(1) Cons.IH [OF _ Cons.prems(2), of "Suc index" used used'] show ?thesis by auto
  qed
qed simp

end
