(* ===== verification/State_File.thy ===== *)
theory State_File
  imports Devices Keyed_Store
begin

text \<open>
  The persisted state of the host: \<^verbatim>\<open>racelink/state/persistence.py\<close>,
  \<^verbatim>\<open>racelink/state/migrations.py\<close>, \<^verbatim>\<open>racelink/domain/state_scope.py\<close> and
  \<open>save_to_db\<close>, \<open>load_from_db\<close> with the legacy keys of \<^verbatim>\<open>controller.py\<close>.  An option of the embedding
  host is a text, of which the model keeps what the code asks of it (whether it is empty or blank, the
  quick test for JSON, what \<open>json.loads\<close> and \<open>ast.literal_eval\<close> return for it), or another value.
\<close>

section \<open>Scopes\<close>

definition ALL_SCOPES :: "string set" where
  "ALL_SCOPES = {''devices'', ''device_membership'', ''device_specials'', ''groups'', ''presets'', ''scenes'', ''full'', ''none''}"

definition normalize_scopes :: "string list option \<Rightarrow> string set" where
  "normalize_scopes scopes =
     (case scopes of
        None \<Rightarrow> {''full''}
      | Some ss \<Rightarrow>
          if ss = [] then {''full''}
          else let normalized = set (filter (\<lambda>s. s \<in> ALL_SCOPES) ss)
               in if normalized = {} then {''full''} else normalized)"

definition sse_what_from_scopes :: "string list option \<Rightarrow> string list" where
  "sse_what_from_scopes scopes =
     (let resolved = normalize_scopes scopes in
      if ''full'' \<in> resolved then [''groups'', ''devices'']
      else if resolved = {''none''} then []
      else
        (if resolved \<inter> {''devices'', ''device_membership'', ''device_specials''} \<noteq> {} then [''devices''] else []) @
        (if resolved \<inter> {''groups'', ''device_membership''} \<noteq> {} then [''groups''] else []) @
        (if ''presets'' \<in> resolved then [''presets''] else []) @
        (if ''scenes'' \<in> resolved then [''scenes''] else []))"

section \<open>Records\<close>

datatype text_content = EmptyText | BlankText | FullText bool "pyval option" "pyval res"
datatype option_value = NoOption | OptionText text_content | OptionValue pyval

definition CURRENT_SCHEMA_VERSION :: int where "CURRENT_SCHEMA_VERSION = 1"

definition dicts_of :: "pyval list \<Rightarrow> pydict list" where
  "dicts_of xs = concat (map (\<lambda>v. case v of PDict d \<Rightarrow> [d] | _ \<Rightarrow> []) xs)"

fun normalize_records :: "pyval \<Rightarrow> pydict list res" where
  "normalize_records PNone = Inr []"
| "normalize_records (PList xs) = Inr (dicts_of xs)"
| "normalize_records (PTuple xs) = Inr (dicts_of xs)"
| "normalize_records v = Inl TypeError"

definition or_default :: "pydict list \<Rightarrow> pyval \<Rightarrow> pydict list" where
  "or_default dflt v = (case normalize_records v of Inl e \<Rightarrow> dflt | Inr rs \<Rightarrow> rs)"

text \<open>\<open>load_records\<close> of a value that is neither a text nor a list has no JSON reading: the default.\<close>

definition load_records :: "option_value \<Rightarrow> pydict list \<Rightarrow> pydict list" where
  "load_records raw dflt =
     (case raw of
        NoOption \<Rightarrow> dflt
      | OptionText EmptyText \<Rightarrow> []
      | OptionText BlankText \<Rightarrow> []
      | OptionText (FullText quoted json literal) \<Rightarrow>
          (case json of None \<Rightarrow> dflt | Some v \<Rightarrow> or_default dflt v)
      | OptionValue v \<Rightarrow> (case v of PList xs \<Rightarrow> dicts_of xs | PTuple xs \<Rightarrow> dicts_of xs | _ \<Rightarrow> dflt))"

text \<open>\<open>literal_eval\<close> that raises something else than \<open>ValueError\<close> and \<open>SyntaxError\<close> (both \<open>ValueError\<close> here).\<close>

definition try_parse_legacy_repr :: "option_value \<Rightarrow> pydict list option res" where
  "try_parse_legacy_repr raw =
     (case raw of
        OptionText (FullText quoted json literal) \<Rightarrow>
          (case literal of
             Inl e \<Rightarrow> if e = ValueError then Inr None else Inl e
           | Inr v \<Rightarrow> Inr (case normalize_records v of Inl e \<Rightarrow> None | Inr rs \<Rightarrow> Some rs))
      | OptionValue (PList xs) \<Rightarrow> Inr (Some (dicts_of xs))
      | OptionValue (PTuple xs) \<Rightarrow> Inr (Some (dicts_of xs))
      | _ \<Rightarrow> Inr None)"

definition load_legacy_records :: "option_value \<Rightarrow> pydict list \<Rightarrow> pydict list res" where
  "load_legacy_records raw dflt =
     (case raw of
        NoOption \<Rightarrow> Inr dflt
      | OptionText EmptyText \<Rightarrow> Inr dflt
      | OptionText BlankText \<Rightarrow> Inr dflt
      | OptionText (FullText True json literal) \<Rightarrow> Inr (load_records raw dflt)
      | _ \<Rightarrow> rbind (try_parse_legacy_repr raw) (\<lambda>salvaged.
               Inr (case salvaged of Some rs \<Rightarrow> rs | None \<Rightarrow> load_records raw dflt)))"

definition state_document :: "pydict list \<Rightarrow> pydict list \<Rightarrow> pydict" where
  "state_document devices groups =
     [(''schema_version'', PInt CURRENT_SCHEMA_VERSION), (''devices'', PList (map PDict devices)),
      (''groups'', PList (map PDict groups))]"

text \<open>The text \<open>json.dumps\<close> writes for a dictionary; it starts with a brace.\<close>

definition dump_state :: "pydict list \<Rightarrow> pydict list \<Rightarrow> option_value" where
  "dump_state devices groups =
     OptionText (FullText False (Some (json_norm (PDict (state_document devices groups)))) (Inl ValueError))"

definition payload_of :: "option_value \<Rightarrow> pydict option" where
  "payload_of raw =
     (case raw of
        OptionText (FullText quoted (Some (PDict d)) literal) \<Rightarrow> Some d
      | OptionValue (PDict d) \<Rightarrow> Some d
      | _ \<Rightarrow> None)"

definition stored_version :: "pydict \<Rightarrow> int" where
  "stored_version payload =
     max 0 (case py_int (py_or (dget_or payload ''schema_version'' (PInt 0)) (PInt 0)) of Inl e \<Rightarrow> 0 | Inr v \<Rightarrow> v)"

definition payload_records :: "pydict \<Rightarrow> string \<Rightarrow> pydict list \<Rightarrow> pydict list" where
  "payload_records payload key dflt =
     (case map_of payload key of None \<Rightarrow> dflt | Some v \<Rightarrow> or_default dflt v)"

definition load_state :: "option_value \<Rightarrow> pydict list \<Rightarrow> pydict list \<Rightarrow> pydict list \<times> pydict list \<times> int" where
  "load_state raw default_devices default_groups =
     (case payload_of raw of
        None \<Rightarrow> (default_devices, default_groups, 0)
      | Some payload \<Rightarrow>
          (payload_records payload ''devices'' default_devices, payload_records payload ''groups'' default_groups,
           stored_version payload))"

section \<open>Migrations\<close>

type_synonym migration = "pydict list \<times> pydict list \<Rightarrow> pydict list \<times> pydict list"

definition MIGRATIONS :: "(int \<times> migration) list" where "MIGRATIONS = []"

function migrate_loop :: "int \<Rightarrow> int \<Rightarrow> pydict list \<times> pydict list \<Rightarrow> (pydict list \<times> pydict list) \<times> int" where
  "migrate_loop version target rs =
     (if version < target
      then migrate_loop (version + 1) target (case map_of MIGRATIONS version of None \<Rightarrow> rs | Some step \<Rightarrow> step rs)
      else (rs, version))"
  by pat_completeness auto
termination
  by (relation "measure (\<lambda>(version, target, rs). nat (target - version))") auto

declare migrate_loop.simps [simp del]

definition migrate_state :: "pydict list \<Rightarrow> pydict list \<Rightarrow> int \<Rightarrow> int \<Rightarrow> pydict list \<times> pydict list \<times> int" where
  "migrate_state devices groups from_version to_version =
     (let version = max 0 from_version;
          target = max version to_version;
          ((devices, groups), version) = migrate_loop version target (devices, groups)
      in (devices, groups, version))"

section \<open>Devices and groups as dictionaries\<close>

definition opt_int :: "int option \<Rightarrow> pyval" where
  "opt_int v = (case v of None \<Rightarrow> PNone | Some i \<Rightarrow> PInt i)"

definition ack_dict :: "ack_state \<Rightarrow> pydict" where
  "ack_dict a =
     [(''ok'', PBool (ak_ok a)), (''opcode'', opt_int (ak_opcode a)), (''status'', opt_int (ak_status a)),
      (''seq'', opt_int (ak_seq a)), (''ts'', PFloat (Fin (ak_ts a)))]"

definition int_dict :: "(string \<times> int) list \<Rightarrow> pydict" where
  "int_dict d = map (\<lambda>(k, v). (k, PInt v)) d"

definition device_dict :: "rl_device \<Rightarrow> pydict" where
  "device_dict d =
     [(''addr'', PStr (d_addr d)), (''dev_type'', PInt (d_dev_type d)), (''name'', PStr (d_name d)),
      (''version'', PInt (d_version d)), (''caps'', PInt (d_caps d)), (''groupId'', PInt (d_groupId d)),
      (''flags'', PInt (d_flags d)), (''presetId'', PInt (d_presetId d)), (''effectId'', PInt (d_effectId d)),
      (''brightness'', PInt (d_brightness d)), (''configByte'', PInt (d_configByte d)),
      (''specials'', PDict (int_dict (d_specials d))), (''voltage_mV'', PInt (d_voltage_mV d)),
      (''node_rssi'', PInt (d_node_rssi d)), (''node_snr'', PInt (d_node_snr d)),
      (''host_rssi'', PInt (d_host_rssi d)), (''host_snr'', PInt (d_host_snr d)),
      (''last_seen_ts'', PFloat (Fin (d_last_seen_ts d))),
      (''link_online'', case d_link_online d of None \<Rightarrow> PNone | Some b \<Rightarrow> PBool b),
      (''link_ts'', PFloat (Fin (d_link_ts d))),
      (''link_error'', case d_link_error d of None \<Rightarrow> PNone | Some e \<Rightarrow> PStr e),
      (''last_ack'', PDict (ack_dict (d_last_ack d)))]"

text \<open>\<open>RL_DeviceGroup\<close> stores the name and the static mark as it gets them; a stored file may hold anything there.\<close>

record group_obj =
  go_name :: pyval
  go_static_group :: pyval
  go_dev_type :: int

definition group_dict :: "group_obj \<Rightarrow> pydict" where
  "group_dict g = [(''name'', go_name g), (''static_group'', go_static_group g), (''dev_type'', PInt (go_dev_type g))]"

definition all_nodes_group :: group_obj where
  "all_nodes_group = \<lparr>go_name = PStr ''All WLED Nodes'', go_static_group = PInt 1, go_dev_type = 0\<rparr>"

definition default_backup_groups :: "group_obj list" where "default_backup_groups = [all_nodes_group]"

text \<open>\<open>str(v)\<close>; the parameter prints floats and containers.\<close>

fun py_str :: "(pyval \<Rightarrow> string) \<Rightarrow> pyval \<Rightarrow> string" where
  "py_str rp (PStr s) = s"
| "py_str rp PNone = ''None''"
| "py_str rp (PBool b) = (if b then ''True'' else ''False'')"
| "py_str rp (PInt i) = str_int i"
| "py_str rp v = rp v"

definition int_or_0 :: "pyval \<Rightarrow> int res" where
  "int_or_0 v = py_int (py_or v (PInt 0))"

definition stored_flags :: "pydict \<Rightarrow> int res" where
  "stored_flags device =
     (let flags = dget device ''flags'' in
      if flags \<noteq> PNone then py_int flags
      else rbind (int_or_0 (dget_or device ''state'' (PInt 1))) (\<lambda>legacy_state.
        Inr ((if legacy_state \<noteq> 0 then RL_FLAG_POWER_ON else 0) OR
             (if has_key device ''brightness'' then RL_FLAG_HAS_BRI else 0))))"

definition stored_preset :: "pydict \<Rightarrow> int res" where
  "stored_preset device =
     (let preset_id = dget device ''presetId'' in
      if preset_id \<noteq> PNone then py_int preset_id
      else py_int (py_or (dget_or device ''effect'' (PInt 1)) (PInt 1)))"

definition stored_dev_type :: "pydict \<Rightarrow> pyval" where
  "stored_dev_type device =
     (if dget device ''dev_type'' \<noteq> PNone then dget device ''dev_type''
      else if dget device ''device_type'' \<noteq> PNone then dget device ''device_type''
      else dget_or device ''caps'' (dget_or device ''type'' (PInt 0)))"

definition load_device :: "(pyval \<Rightarrow> string) \<Rightarrow> pydict \<Rightarrow> rl_device res" where
  "load_device rp device =
     rbind (stored_flags device) (\<lambda>flags.
     rbind (stored_preset device) (\<lambda>preset_id.
     rbind (int_or_0 (dget_or device ''brightness'' (PInt 70))) (\<lambda>brightness.
     rbind (int_or_0 (stored_dev_type device)) (\<lambda>dev_type.
     rbind (int_or_0 (dget_or device ''groupId'' (PInt 0))) (\<lambda>groupId.
     rbind (int_or_0 (dget_or device ''version'' (PInt 0))) (\<lambda>version.
       Inr ((RL_Device (upper (py_str rp (dget_or device ''addr'' (PStr [])))) dev_type
               (py_str rp (dget_or device ''name'' (PStr []))) groupId version dev_type 0 0 0
               (flags AND 255) (preset_id AND 255) (brightness AND 255) 0 0)
            \<lparr>d_specials := build_specials_state (Some dev_type)
               (int_dict (build_specials_state (Some dev_type) device))\<rparr>)))))))"

fun load_devices :: "(pyval \<Rightarrow> string) \<Rightarrow> pydict list \<Rightarrow> rl_device list" where
  "load_devices rp [] = []"
| "load_devices rp (d # ds) =
     (case load_device rp d of Inl e \<Rightarrow> load_devices rp ds | Inr dev \<Rightarrow> dev # load_devices rp ds)"

definition load_group :: "pydict \<Rightarrow> group_obj res" where
  "load_group stored =
     (case map_of stored ''name'' of
        None \<Rightarrow> Inl KeyError
      | Some name \<Rightarrow>
          (case map_of stored ''static_group'' of
             None \<Rightarrow> Inl KeyError
           | Some static_group \<Rightarrow>
               rbind (py_int (dget_or stored ''dev_type'' (dget_or stored ''device_type'' (PInt 0)))) (\<lambda>dev_type.
                 Inr \<lparr>go_name = name, go_static_group = static_group, go_dev_type = dev_type\<rparr>)))"

definition group_key :: "(pyval \<Rightarrow> string) \<Rightarrow> group_obj \<Rightarrow> string" where
  "group_key rp g = lower (strip (py_str rp (go_name g)))"

definition canonical_groups :: "(pyval \<Rightarrow> string) \<Rightarrow> group_obj list \<Rightarrow> group_obj list" where
  "canonical_groups rp loaded =
     (let groups = filter (\<lambda>g. group_key rp g \<notin> {''unconfigured'', ''all wled devices''}) loaded in
      if \<not> list_ex (\<lambda>g. group_key rp g = ''all wled nodes'') groups then groups @ [all_nodes_group]
      else map (\<lambda>g. if group_key rp g = ''all wled nodes'' then all_nodes_group else g) groups)"

section \<open>Saving and loading\<close>

text \<open>
  The options of the embedding host, whether it takes a write, the repositories, and the scopes of
  every call of the persistence callback.
\<close>

record host_state =
  ho_options :: "(string \<times> option_value) list"
  ho_writable :: bool
  ho_repr :: "pyval \<Rightarrow> string"
  ho_devices :: "rl_device list"
  ho_groups :: "group_obj list"
  ho_backup_devices :: "rl_device list"
  ho_backup_groups :: "group_obj list"
  ho_fired :: "string set list"

definition read_option :: "string \<Rightarrow> host_state \<Rightarrow> option_value" where
  "read_option key h = (case map_of (ho_options h) key of None \<Rightarrow> NoOption | Some v \<Rightarrow> v)"

definition fire_persistence_changed :: "string list option \<Rightarrow> host_state \<Rightarrow> host_state" where
  "fire_persistence_changed scopes h = h\<lparr>ho_fired := ho_fired h @ [normalize_scopes scopes]\<rparr>"

definition groups_to_dump :: "host_state \<Rightarrow> group_obj list" where
  "groups_to_dump h =
     (if length (ho_groups h) < length (ho_backup_groups h) then ho_backup_groups h else ho_groups h)"

definition save_to_db :: "string list option \<Rightarrow> (host_state, unit) proc" where
  "save_to_db scopes h =
     (if ho_writable h
      then (Inr (), fire_persistence_changed scopes
              (h\<lparr>ho_options := assoc_set ''rl_state_v1''
                   (dump_state (map device_dict (ho_devices h)) (map group_dict (groups_to_dump h))) (ho_options h)\<rparr>))
      else (Inl OSError, h))"

text \<open>\<open>None\<close>: a fresh install.\<close>

definition load_from_legacy_keys :: "host_state \<Rightarrow> (pydict list \<times> pydict list) option res" where
  "load_from_legacy_keys h =
     (let devices = read_option ''rl_device_config'' h; groups = read_option ''rl_groups_config'' h in
      if devices = NoOption \<and> groups = NoOption then Inr None
      else
        rbind (load_legacy_records devices (map device_dict (ho_backup_devices h))) (\<lambda>ds.
        rbind (load_legacy_records groups (map group_dict (ho_backup_groups h))) (\<lambda>gs.
          Inr (Some (ds, gs)))))"

text \<open>The records of the options, their version and whether the state has to be saved again.\<close>

definition stored_records :: "host_state \<Rightarrow> (pydict list \<times> pydict list \<times> int \<times> bool) res" where
  "stored_records h =
     (let combined = read_option ''rl_state_v1'' h;
          backup_devices = map device_dict (ho_backup_devices h);
          backup_groups = map group_dict (ho_backup_groups h) in
      if combined = NoOption \<or> combined = OptionText EmptyText
      then rbind (load_from_legacy_keys h) (\<lambda>legacy.
             Inr (case legacy of None \<Rightarrow> (backup_devices, backup_groups, 0, True)
                  | Some (ds, gs) \<Rightarrow> (ds, gs, 0, True)))
      else
        let (ds, gs, version) = load_state combined backup_devices backup_groups in
        if version = 0
        then rbind (load_from_legacy_keys h) (\<lambda>legacy.
               Inr (case legacy of None \<Rightarrow> (ds, gs, version, True)
                    | Some (ds', gs') \<Rightarrow> (ds', gs', version, True)))
        else Inr (ds, gs, version, False))"

definition load_from_db :: "(host_state, unit) proc" where
  "load_from_db h =
     (case stored_records h of
        Inl e \<Rightarrow> (Inl e, h)
      | Inr (ds, gs, version, needs_save) \<Rightarrow>
          let (ds, gs, version) = migrate_state ds gs version CURRENT_SCHEMA_VERSION;
              needs_save = (needs_save \<or> version < CURRENT_SCHEMA_VERSION);
              h = h\<lparr>ho_devices := load_devices (ho_repr h) ds\<rparr>;
              gs = (if gs = [] then map group_dict (ho_backup_groups h) else gs)
          in case rmap load_group gs of
               Inl e \<Rightarrow> (Inl e, h)
             | Inr loaded \<Rightarrow>
                 let h = h\<lparr>ho_groups := canonical_groups (ho_repr h) loaded\<rparr>
                 in if needs_save then (Inr (), snd (save_to_db (Some [''full'']) h))
                    else (Inr (), fire_persistence_changed (Some [''full'']) h))"


section \<open>What survives a restart\<close>

lemma json_norm_ints [simp]: "map (\<lambda>p. (fst p, json_norm (snd p))) (int_dict d) = int_dict d"
  by (induction d) (auto simp: int_dict_def)

lemma json_norm_ack [simp]: "map (\<lambda>p. (fst p, json_norm (snd p))) (ack_dict a) = ack_dict a"
  by (simp add: ack_dict_def opt_int_def split: option.split)

lemma json_norm_device [simp]: "map (\<lambda>p. (fst p, json_norm (snd p))) (device_dict d) = device_dict d"
  by (simp add: device_dict_def split: option.split)

definition restored_group :: "group_obj \<Rightarrow> group_obj" where
  "restored_group g = g\<lparr>go_name := json_norm (go_name g), go_static_group := json_norm (go_static_group g)\<rparr>"

lemma json_norm_group [simp]: "map (\<lambda>p. (fst p, json_norm (snd p))) (group_dict g) = group_dict (restored_group g)"
  by (simp add: group_dict_def restored_group_def)

text \<open>
  A device after a restart.  The address comes back in upper case, the byte fields as bytes; the capability code is the device
  type; what the device last reported and the specials are those of a new device.
\<close>

definition restored :: "rl_device \<Rightarrow> rl_device" where
  "restored d =
     (RL_Device (upper (d_addr d)) (d_dev_type d) (d_name d) (d_groupId d) (d_version d) (d_dev_type d) 0 0 0
        (d_flags d AND 255) (d_presetId d AND 255) (d_brightness d AND 255) 0 0)
     \<lparr>d_specials := build_specials_state (Some (d_dev_type d)) []\<rparr>"

lemma int_or_0_int [simp]: "int_or_0 (PInt i) = Inr i"
  by (simp add: int_or_0_def py_or_def)

lemma specials_toplevel:
  assumes "map_of stored ''startblock_slots'' = None" and "map_of stored ''startblock_first_slot'' = None"
  shows "build_specials_state t stored = build_specials_state t []"
  by (simp add: build_specials_state_correct stored_int_def dget_or_def assms)

lemma specials_again [simp]:
  "build_specials_state t (int_dict (build_specials_state t stored)) = build_specials_state t stored"
  by (simp add: build_specials_state_correct stored_int_def dget_or_def int_dict_def)

lemma load_dumped_device: "load_device rp (device_dict d) = Inr (restored d)"
proof -
  have g: "dget_or (device_dict d) ''addr'' x = PStr (d_addr d)" "dget_or (device_dict d) ''dev_type'' x = PInt (d_dev_type d)"
    "dget_or (device_dict d) ''name'' x = PStr (d_name d)" "dget_or (device_dict d) ''version'' x = PInt (d_version d)"
    "dget_or (device_dict d) ''groupId'' x = PInt (d_groupId d)" "dget_or (device_dict d) ''flags'' x = PInt (d_flags d)"
    "dget_or (device_dict d) ''presetId'' x = PInt (d_presetId d)" "dget_or (device_dict d) ''brightness'' x = PInt (d_brightness d)"
    "map_of (device_dict d) ''startblock_slots'' = None" "map_of (device_dict d) ''startblock_first_slot'' = None" for x
    by (simp_all add: dget_or_def device_dict_def)
  show ?thesis
    by (simp add: load_device_def stored_flags_def stored_preset_def stored_dev_type_def g Let_def restored_def
        specials_toplevel [OF g(9,10)])
qed

lemma load_dumped_devices: "load_devices rp (map device_dict ds) = map restored ds"
  by (induction ds) (simp_all add: load_dumped_device)

lemma load_dumped_group [simp]: "load_group (group_dict g) = Inr g"
  by (simp add: load_group_def group_dict_def dget_or_def)

lemma load_dumped_groups: "rmap load_group (map group_dict gs) = Inr gs"
  by (induction gs) simp_all

lemma dicts_of_dicts [simp]: "dicts_of (map PDict ds) = ds"
  by (induction ds) (simp_all add: dicts_of_def)

lemma migrate_id: "migrate_loop version target rs = (rs, max version target)"
  by (induction version target rs rule: migrate_loop.induct) (subst migrate_loop.simps, auto simp: MIGRATIONS_def)

lemma migrate_state_id: "migrate_state ds gs v w = (ds, gs, max (max 0 v) w)"
  by (simp add: migrate_state_def Let_def migrate_id)

lemma load_dumped_state: "load_state (dump_state (map device_dict ds) (map group_dict gs)) dd dg =
    (map device_dict ds, map group_dict (map restored_group gs), 1)"
  by (simp add: load_state_def dump_state_def payload_of_def state_document_def payload_records_def or_default_def
      stored_version_def dget_or_def py_or_def CURRENT_SCHEMA_VERSION_def comp_def)
     (simp add: dicts_of_dicts [of "map device_dict ds", unfolded map_map comp_def]
      dicts_of_dicts [of "map (\<lambda>g. group_dict (restored_group g)) gs", unfolded map_map comp_def])

lemma load_saved:
  assumes "read_option ''rl_state_v1'' h = dump_state (map device_dict ds) (map group_dict gs)"
    and "gs = [] \<longrightarrow> ho_backup_groups h = []"
  shows "load_from_db h = (Inr (), fire_persistence_changed (Some [''full'']) (h\<lparr>ho_devices := map restored ds,
    ho_groups := canonical_groups (ho_repr h) (map restored_group gs)\<rparr>))"
proof -
  have "stored_records h = Inr (map device_dict ds, map group_dict (map restored_group gs), 1, False)"
    unfolding stored_records_def Let_def assms(1) load_dumped_state by (simp add: dump_state_def)
  then show ?thesis
    using assms(2) load_dumped_groups [of "map restored_group gs"]
    by (auto simp: load_from_db_def migrate_state_id Let_def CURRENT_SCHEMA_VERSION_def load_dumped_devices comp_def)
qed

lemma group_key_all_nodes [simp]: "group_key rp all_nodes_group = ''all wled nodes''"
proof -
  have "lower (strip ''All WLED Nodes'') = ''all wled nodes''" by code_simp
  then show ?thesis by (simp add: group_key_def all_nodes_group_def)
qed

lemma canonical_group:
  assumes "g \<in> set (canonical_groups rp gs)"
  shows "group_key rp g \<notin> {''unconfigured'', ''all wled devices''}"
    and "group_key rp g = ''all wled nodes'' \<Longrightarrow> g = all_nodes_group"
  using assms by (auto simp: canonical_groups_def Let_def list_ex_iff split: if_splits)

lemma canonical_has_all_nodes: "all_nodes_group \<in> set (canonical_groups rp gs)"
  by (auto simp: canonical_groups_def Let_def list_ex_iff)

lemma canonical_fix:
  assumes "\<forall>g \<in> set gs. group_key rp g \<notin> {''unconfigured'', ''all wled devices''}"
    and "\<forall>g \<in> set gs. group_key rp g = ''all wled nodes'' \<longrightarrow> g = all_nodes_group"
    and "all_nodes_group \<in> set gs"
  shows "canonical_groups rp gs = gs"
proof -
  have f: "filter (\<lambda>g. group_key rp g \<noteq> ''unconfigured'' \<and> group_key rp g \<noteq> ''all wled devices'') gs = gs"
    using assms(1) by (simp add: filter_id_conv)
  have m: "map (\<lambda>g. if group_key rp g = ''all wled nodes'' then all_nodes_group else g) gs = gs"
    using assms(2) by (intro map_idI) auto
  have "list_ex (\<lambda>g. group_key rp g = ''all wled nodes'') gs"
    using assms(3) by (auto simp: list_ex_iff intro: bexI [of _ all_nodes_group])
  then show ?thesis by (simp add: canonical_groups_def Let_def f m)
qed

lemma canonical_idem [simp]: "canonical_groups rp (canonical_groups rp gs) = canonical_groups rp gs"
  using canonical_group canonical_has_all_nodes by (intro canonical_fix) blast+

text \<open>
  C12.  What a restart keeps.  After \<open>save_to_db\<close>, a host that starts with the same options and backups and
  any devices and groups loads exactly the saved devices and groups in their order, the devices as
  \<open>restored\<close> says and the groups canonicalised, writes nothing back and reports the scope \<open>full\<close> once.
\<close>

theorem state_survives_restart:
  assumes "save_to_db scopes h = (Inr (), h1)"
  shows "let h2 = h1\<lparr>ho_devices := ds, ho_groups := gs\<rparr>;
             saved = map restored_group (groups_to_dump h) in
    load_from_db h2 = (Inr (), h2\<lparr>ho_devices := map restored (ho_devices h),
      ho_groups := canonical_groups (ho_repr h) saved, ho_fired := ho_fired h2 @ [{''full''}]\<rparr>)"
proof -
  let ?h2 = "h1\<lparr>ho_devices := ds, ho_groups := gs\<rparr>"
  have h1: "h1 = fire_persistence_changed scopes (h\<lparr>ho_options := assoc_set ''rl_state_v1''
      (dump_state (map device_dict (ho_devices h)) (map group_dict (groups_to_dump h))) (ho_options h)\<rparr>)"
    using assms by (simp add: save_to_db_def split: if_splits)
  have "read_option ''rl_state_v1'' ?h2 = dump_state (map device_dict (ho_devices h)) (map group_dict (groups_to_dump h))"
    by (simp add: h1 fire_persistence_changed_def read_option_def)
  moreover have "groups_to_dump h = [] \<longrightarrow> ho_backup_groups ?h2 = []"
    by (auto simp: h1 fire_persistence_changed_def groups_to_dump_def split: if_splits)
  ultimately show ?thesis
    unfolding Let_def by (subst load_saved) (simp_all add: fire_persistence_changed_def normalize_scopes_def ALL_SCOPES_def, simp add: h1 fire_persistence_changed_def)
qed

definition start_block :: rl_device where
  "start_block = (default_device ''AABBCCDDEEFF'' 50 ''start'')
     \<lparr>d_caps := 50, d_specials := [(''startblock_slots'', 4), (''startblock_first_slot'', 3)]\<rparr>"

definition plain_host :: "option_value \<Rightarrow> host_state" where
  "plain_host saved =
     \<lparr>ho_options = [(''rl_state_v1'', saved)], ho_writable = True, ho_repr = (\<lambda>v. []), ho_devices = [start_block],
      ho_groups = [\<lparr>go_name = PStr ''Pit'', go_static_group = PInt 0, go_dev_type = 0\<rparr>, all_nodes_group],
      ho_backup_devices = [], ho_backup_groups = default_backup_groups, ho_fired = []\<rparr>"

lemma state_survives_restart_witness:
  "ho_devices (snd (load_from_db ((snd (save_to_db None (plain_host NoOption)))\<lparr>ho_devices := [], ho_groups := []\<rparr>))) =
     [restored start_block]"
proof -
  let ?h1 = "snd (save_to_db None (plain_host NoOption))"
  have "save_to_db None (plain_host NoOption) = (Inr (), ?h1)" by (simp add: save_to_db_def plain_host_def)
  from state_survives_restart [OF this, where ds = "[]" and gs = "[]"] show ?thesis
    by (simp add: Let_def) (simp add: plain_host_def)
qed

text \<open>
  The configuration of a start block does not survive a restart.  It is written under \<open>specials\<close> of the
  device, and the loader looks for it at the top level of the record: whatever slot count and first slot
  were configured and saved, the reloaded device has 1 and 1.
\<close>

theorem specials_lost_on_restart:
  assumes "save_to_db scopes h = (Inr (), h1)" and "i < length (ho_devices h)" and "d_dev_type (ho_devices h ! i) = 50"
  shows "d_specials (ho_devices (snd (load_from_db h1)) ! i) = [(''startblock_slots'', 1), (''startblock_first_slot'', 1)]"
proof -
  have h1: "h1 = fire_persistence_changed scopes (h\<lparr>ho_options := assoc_set ''rl_state_v1''
      (dump_state (map device_dict (ho_devices h)) (map group_dict (groups_to_dump h))) (ho_options h)\<rparr>)"
    using assms(1) by (simp add: save_to_db_def split: if_splits)
  have "load_from_db h1 = (Inr (), fire_persistence_changed (Some [''full'']) (h1\<lparr>ho_devices := map restored (ho_devices h),
      ho_groups := canonical_groups (ho_repr h1) (map restored_group (groups_to_dump h))\<rparr>))"
    by (rule load_saved) (auto simp: h1 fire_persistence_changed_def read_option_def groups_to_dump_def split: if_splits)
  then show ?thesis
    using assms(2,3)
    by (simp add: fire_persistence_changed_def restored_def build_specials_state_correct stored_int_def dget_or_def)
qed

lemma specials_lost_on_restart_witness:
  "d_specials (ho_devices (plain_host NoOption) ! 0) = [(''startblock_slots'', 4), (''startblock_first_slot'', 3)] \<and>
   d_specials (ho_devices (snd (load_from_db (snd (save_to_db None (plain_host NoOption))))) ! 0) =
     [(''startblock_slots'', 1), (''startblock_first_slot'', 1)]"
proof -
  let ?h = "plain_host NoOption"
  have d: "ho_devices ?h = [start_block]" and w: "ho_writable ?h" by (simp_all add: plain_host_def)
  have "save_to_db None ?h = (Inr (), snd (save_to_db None ?h))" by (simp add: save_to_db_def w)
  from specials_lost_on_restart [OF this, of 0] show ?thesis
    by (simp add: d start_block_def default_device_def RL_Device_def)
qed

text \<open>
  Whatever the options hold, a load that returns leaves a canonical group list: the group of all WLED
  nodes is there, every group whose trimmed lower-case name is its name is that static group of type 0, and the two
  retired groups are gone.  Whether the state was migrated, recovered from the legacy keys or taken from the backups
  does not matter.
\<close>

theorem loaded_groups_canonical:
  assumes "load_from_db h = (Inr (), h')"
  shows "all_nodes_group \<in> set (ho_groups h') \<and>
    (\<forall>g \<in> set (ho_groups h').
       group_key (ho_repr h) g \<notin> {''unconfigured'', ''all wled devices''} \<and>
       (group_key (ho_repr h) g = ''all wled nodes'' \<longrightarrow> g = all_nodes_group))"
proof -
  have "\<exists>gs. ho_groups h' = canonical_groups (ho_repr h) gs"
    using assms
    by (auto simp: load_from_db_def Let_def save_to_db_def fire_persistence_changed_def migrate_state_id
        split: sum.splits prod.splits if_splits)
  then show ?thesis using canonical_group canonical_has_all_nodes by metis
qed

definition named_group :: "string \<Rightarrow> pydict" where
  "named_group name = [(''name'', PStr name), (''static_group'', PInt 0)]"

definition state_text :: "pydict list \<Rightarrow> pydict list \<Rightarrow> option_value" where
  "state_text ds gs = OptionText (FullText False (Some (PDict (state_document ds gs))) (Inl ValueError))"

lemma loaded_groups_canonical_witness:
  "all_nodes_group \<in> set (ho_groups (snd (load_from_db
     (plain_host (state_text [] [named_group '' UNCONFIGURED'', named_group ''all wled NODES ''])))))"
proof -
  let ?h = "plain_host (state_text [] [named_group '' UNCONFIGURED'', named_group ''all wled NODES ''])"
  have "fst (load_from_db ?h) = Inr ()" by code_simp
  then have "load_from_db ?h = (Inr (), snd (load_from_db ?h))" by (metis prod.collapse)
  from loaded_groups_canonical [OF this] show ?thesis by (rule conjunct1)
qed

text \<open>
  One damaged group record stops the start-up half way.  The group list is read without the guard the
  device list has: if a stored group lacks its name, \<open>load_from_db\<close> raises after it has already replaced
  the devices; the groups stay those of before, nothing is saved and nobody is told.
\<close>

theorem damaged_group_aborts_load:
  assumes "stored_records h = Inr (ds, gs, version, needs_save)"
    and "g \<in> set gs" and "map_of g ''name'' = None"
  shows "(\<exists>e. fst (load_from_db h) = Inl e) \<and>
    snd (load_from_db h) = h\<lparr>ho_devices := load_devices (ho_repr h) ds\<rparr>"
proof -
  have "\<exists>e. rmap load_group gs = Inl e"
    using assms(2,3)
  proof (induction gs)
    case (Cons a gs)
    then show ?case by (cases "load_group a") (auto simp: load_group_def)
  qed simp
  then obtain e where e: "rmap load_group gs = Inl e" by blast
  have "gs \<noteq> []" using assms(2) by auto
  with e assms(1) have "load_from_db h = (Inl e, h\<lparr>ho_devices := load_devices (ho_repr h) ds\<rparr>)"
    by (simp add: load_from_db_def migrate_state_id Let_def)
  then show ?thesis by simp
qed

lemma damaged_group_aborts_load_witness:
  "let h = plain_host (state_text [device_dict start_block, device_dict start_block] [[(''static_group'', PInt 0)]]) in
   (\<exists>e. fst (load_from_db h) = Inl e) \<and> length (ho_devices h) = 1 \<and> length (ho_devices (snd (load_from_db h))) = 2"
proof -
  let ?h = "plain_host (state_text [device_dict start_block, device_dict start_block] [[(''static_group'', PInt 0)]])"
  have "stored_records ?h = Inr ([device_dict start_block, device_dict start_block], [[(''static_group'', PInt 0)]], 1, False)"
    by code_simp
  from damaged_group_aborts_load [OF this, of "[(''static_group'', PInt 0)]"] show ?thesis
    by (simp add: load_dumped_device Let_def) (simp add: plain_host_def)
qed

text \<open>
  An unreadable state is replaced.  When the combined text is not JSON and there are no legacy keys, the
  load succeeds with the backup devices and groups and, on a writable store, overwrites the text
  with them: a later load reads the backups again and the old text is gone.
\<close>

theorem unreadable_state_overwritten:
  assumes "read_option ''rl_state_v1'' h = OptionText (FullText quoted None literal)"
    and "read_option ''rl_device_config'' h = NoOption" and "read_option ''rl_groups_config'' h = NoOption"
    and "ho_writable h"
  shows "let ds = map restored (ho_backup_devices h); gs = canonical_groups (ho_repr h) (ho_backup_groups h);
             h' = h\<lparr>ho_devices := ds, ho_groups := gs\<rparr> in
    load_from_db h = save_to_db (Some [''full'']) h' \<and>
    read_option ''rl_state_v1'' (snd (load_from_db h)) =
      dump_state (map device_dict ds) (map group_dict (groups_to_dump h'))"
proof -
  have "stored_records h = Inr (map device_dict (ho_backup_devices h), map group_dict (ho_backup_groups h), 0, True)"
    using assms(1-3) by (simp add: stored_records_def Let_def load_state_def payload_of_def load_from_legacy_keys_def)
  then have "load_from_db h = (Inr (), snd (save_to_db (Some [''full''])
      (h\<lparr>ho_devices := map restored (ho_backup_devices h), ho_groups := canonical_groups (ho_repr h) (ho_backup_groups h)\<rparr>)))"
    by (auto simp: load_from_db_def migrate_state_id Let_def load_dumped_devices load_dumped_groups CURRENT_SCHEMA_VERSION_def)
  then show ?thesis
    using assms(4) by (simp add: save_to_db_def Let_def fire_persistence_changed_def read_option_def)
qed

lemma unreadable_state_overwritten_witness:
  "let h = plain_host (OptionText (FullText False None (Inl ValueError))) in
   fst (load_from_db h) = Inr () \<and> ho_devices (snd (load_from_db h)) = [] \<and>
   read_option ''rl_state_v1'' (snd (load_from_db h)) = dump_state [] [group_dict all_nodes_group]"
proof -
  let ?h = "plain_host (OptionText (FullText False None (Inl ValueError)))"
  have h: "read_option ''rl_state_v1'' ?h = OptionText (FullText False None (Inl ValueError))"
    "read_option ''rl_device_config'' ?h = NoOption" "read_option ''rl_groups_config'' ?h = NoOption" "ho_writable ?h"
    "ho_backup_devices ?h = []" "ho_backup_groups ?h = [all_nodes_group]"
    by (simp_all add: plain_host_def read_option_def default_backup_groups_def)
  have "canonical_groups rp [all_nodes_group] = [all_nodes_group]" for rp by (rule canonical_fix) simp_all
  with unreadable_state_overwritten [OF h(1-4)] show ?thesis
    by (simp add: Let_def h(5,6)) (simp add: save_to_db_def h(4,6) fire_persistence_changed_def groups_to_dump_def read_option_def)
qed

text \<open>
  Loading, saving and loading again changes nothing more.  For a load that returned, with at most
  as many backup groups as loaded groups and group names and marks a JSON file can hold, the second load
  gives the same devices, apart from their specials, and the same groups.
\<close>

theorem reload_is_stable:
  assumes "load_from_db h = (Inr (), h1)" and "save_to_db scopes h1 = (Inr (), h2)"
    and "length (ho_backup_groups h1) \<le> length (ho_groups h1)"
    and "\<forall>g \<in> set (ho_groups h1). restored_group g = g"
  shows "ho_groups (snd (load_from_db h2)) = ho_groups h1 \<and>
    map (d_specials_update (\<lambda>s. [])) (ho_devices (snd (load_from_db h2))) =
    map (d_specials_update (\<lambda>s. [])) (ho_devices h1)"
proof -
  have "(\<exists>gs. ho_groups h1 = canonical_groups (ho_repr h) gs) \<and> (\<exists>ds. ho_devices h1 = load_devices (ho_repr h) ds) \<and>
      ho_repr h1 = ho_repr h"
    using assms(1)
    by (auto simp: load_from_db_def Let_def save_to_db_def fire_persistence_changed_def migrate_state_id
        split: sum.splits prod.splits if_splits)
  then obtain gs ds where l: "ho_groups h1 = canonical_groups (ho_repr h) gs" "ho_devices h1 = load_devices (ho_repr h) ds"
    "ho_repr h1 = ho_repr h" by blast
  have h2: "h2 = fire_persistence_changed scopes (h1\<lparr>ho_options := assoc_set ''rl_state_v1''
      (dump_state (map device_dict (ho_devices h1)) (map group_dict (ho_groups h1))) (ho_options h1)\<rparr>)"
    using assms(2,3) by (simp add: save_to_db_def groups_to_dump_def split: if_splits)
  have "ho_groups h1 \<noteq> []" using canonical_has_all_nodes [of "ho_repr h" gs] by (auto simp: l(1))
  then have load: "load_from_db h2 = (Inr (), fire_persistence_changed (Some [''full'']) (h2\<lparr>ho_devices := map restored (ho_devices h1),
      ho_groups := canonical_groups (ho_repr h2) (map restored_group (ho_groups h1))\<rparr>))"
    by (intro load_saved) (simp_all add: h2 fire_persistence_changed_def read_option_def)
  have "map restored_group (ho_groups h1) = ho_groups h1" using assms(4) by (simp add: map_idI)
  moreover have "ho_repr h2 = ho_repr h" by (simp add: h2 fire_persistence_changed_def l(3))
  moreover have "restored d\<lparr>d_specials := []\<rparr> = d\<lparr>d_specials := []\<rparr>" if "d \<in> set (load_devices rp ds)" for rp d
    using that by (induction rp ds rule: load_devices.induct)
      (auto simp: load_device_def rbind_eq_Inr restored_def RL_Device_def upper_idem split: sum.splits)
  ultimately show ?thesis by (simp add: load fire_persistence_changed_def l)
qed

lemma reload_is_stable_witness:
  "let h1 = snd (load_from_db (plain_host (state_text [device_dict start_block] [named_group ''Pit''])));
       h2 = snd (save_to_db None h1) in
   ho_groups (snd (load_from_db h2)) = ho_groups h1 \<and> length (ho_groups h1) = 2"
proof -
  let ?h = "plain_host (state_text [device_dict start_block] [named_group ''Pit''])"
  let ?h1 = "snd (load_from_db ?h)"
  have e: "fst (load_from_db ?h) = Inr ()" "fst (save_to_db None ?h1) = Inr ()"
    "length (ho_backup_groups ?h1) \<le> length (ho_groups ?h1)" "list_all (\<lambda>g. restored_group g = g) (ho_groups ?h1)"
    "length (ho_groups ?h1) = 2"
    by code_simp+
  have "load_from_db ?h = (Inr (), ?h1)" "save_to_db None ?h1 = (Inr (), snd (save_to_db None ?h1))"
    using e(1,2) by (metis prod.collapse)+
  from reload_is_stable [OF this e(3)] e(4,5) show ?thesis by (simp add: Let_def list_all_iff)
qed

end
