(* ===== verification/Startblock.thy ===== *)
theory Startblock
  imports Nodes State_File
begin

text \<open>
  The start block service, \<^verbatim>\<open>racelink/services/startblock_service.py\<close>: the payload of one slot, the
  distribution of the slots over the start blocks, and the two operations.  Pilot names are Unicode text, a
  list of code points; the case mapping is written out for Latin-1 and the letters the name filter admits, and is a parameter beyond.
\<close>

section \<open>Unicode text\<close>

type_synonym utext = "int list"

definition is_space_point :: "int \<Rightarrow> bool" where
  "is_space_point c \<longleftrightarrow> 9 \<le> c \<and> c \<le> 13 \<or> 28 \<le> c \<and> c \<le> 32 \<or> c = 0x85 \<or> c = 0xA0 \<or> c = 0x1680 \<or>
     0x2000 \<le> c \<and> c \<le> 0x200A \<or> c = 0x2028 \<or> c = 0x2029 \<or> c = 0x202F \<or> c = 0x205F \<or> c = 0x3000"

definition ustrip :: "utext \<Rightarrow> utext" where
  "ustrip s = rev (dropWhile is_space_point (rev (dropWhile is_space_point s)))"

definition upper_point :: "(int \<Rightarrow> utext) \<Rightarrow> int \<Rightarrow> utext" where
  "upper_point up c =
     (if 97 \<le> c \<and> c \<le> 122 \<or> 0xE0 \<le> c \<and> c \<le> 0xFE \<and> c \<noteq> 0xF7 then [c - 32]
      else if c = 0xB5 then [0x39C] else if c = 0xDF then [83, 83] else if c = 0xFF then [0x178]
      else if c < 256 \<or> c = 0x130 \<or> c = 0x212A \<or> is_space_point c then [c]
      else if c = 0x131 then [73] else if c = 0x17F then [83]
      else up c)"

definition uupper :: "(int \<Rightarrow> utext) \<Rightarrow> utext \<Rightarrow> utext" where
  "uupper up s = concat (map (upper_point up) s)"

fun ureplace_at :: "nat \<Rightarrow> utext \<Rightarrow> utext \<Rightarrow> utext \<Rightarrow> utext" where
  "ureplace_at skip old new [] = []"
| "ureplace_at (Suc skip) old new (c # cs) = ureplace_at skip old new cs"
| "ureplace_at 0 old new (c # cs) =
     (if take (length old) (c # cs) = old then new @ ureplace_at (length old - 1) old new cs
      else c # ureplace_at 0 old new cs)"

text \<open>\<open>s.replace(old, new)\<close> for a non-empty \<open>old\<close>.\<close>

definition ureplace :: "utext \<Rightarrow> utext \<Rightarrow> utext \<Rightarrow> utext" where
  "ureplace old new s = ureplace_at 0 old new s"

definition ascii_replace :: "utext \<Rightarrow> utext" where
  "ascii_replace s = map (\<lambda>c. if c < 128 then c else 63) s"

definition utf8_point :: "int \<Rightarrow> int list" where
  "utf8_point c =
     (if c < 0x80 then [c]
      else if c < 0x800 then [0xC0 + c div 64, 0x80 + c mod 64]
      else if 0xD800 \<le> c \<and> c \<le> 0xDFFF then [63]
      else if c < 0x10000 then [0xE0 + c div 4096, 0x80 + c div 64 mod 64, 0x80 + c mod 64]
      else [0xF0 + c div 262144, 0x80 + c div 4096 mod 64, 0x80 + c div 64 mod 64, 0x80 + c mod 64])"

definition text_of :: "string \<Rightarrow> utext" where
  "text_of s = map of_char s"

section \<open>The payload of a slot\<close>

definition STARTBLOCK_VER :: int where "STARTBLOCK_VER = 1"

text \<open>The keys as the source file has them: each umlaut as the two characters its UTF-8 bytes denote in CP1252.\<close>

definition DE_UMLAUT_MAP :: "(utext \<times> utext) list" where
  "DE_UMLAUT_MAP =
     [([0xC3, 0xA4], text_of ''ae''), ([0xC3, 0xB6], text_of ''oe''), ([0xC3, 0xBC], text_of ''ue''),
      ([0xC3, 0x178], text_of ''ss''), ([0xC3, 0x201E], text_of ''AE''), ([0xC3, 0x2013], text_of ''OE''),
      ([0xC3, 0x153], text_of ''UE'')]"

text \<open>What \<open>[A-Z0-9 _\-\.\+]\<close> matches without regard to case: the ASCII characters and four more letters.\<close>

definition name_allowed :: "int \<Rightarrow> bool" where
  "name_allowed c \<longleftrightarrow> 65 \<le> c \<and> c \<le> 90 \<or> 97 \<le> c \<and> c \<le> 122 \<or> 48 \<le> c \<and> c \<le> 57 \<or>
     c \<in> {32, 95, 45, 46, 43} \<or> c \<in> {0x130, 0x131, 0x17F, 0x212A}"

fun collapse_spaces :: "bool \<Rightarrow> utext \<Rightarrow> utext" where
  "collapse_spaces in_run [] = []"
| "collapse_spaces in_run (c # cs) =
     (if is_space_point c then (if in_run then collapse_spaces True cs else 32 # collapse_spaces True cs)
      else c # collapse_spaces False cs)"

definition sanitize_pilot_name :: "(int \<Rightarrow> utext) \<Rightarrow> utext \<Rightarrow> int \<Rightarrow> utext" where
  "sanitize_pilot_name up name max_len =
     (if name = [] then []
      else
        let name = fold (\<lambda>(old, new). ureplace old new) DE_UMLAUT_MAP name;
            name = uupper up (ustrip name);
            name = map (\<lambda>c. if name_allowed c then c else 32) name;
            name = ustrip (collapse_spaces False name)
        in if 0 < max_len then take (nat max_len) name else name)"

definition encode_channel_fixed2 :: "(int \<Rightarrow> utext) \<Rightarrow> utext \<Rightarrow> int list" where
  "encode_channel_fixed2 up label = ascii_replace (take 2 (uupper up (ustrip label) @ text_of ''--''))"

definition build_startblock_payload_v1 ::
  "(int \<Rightarrow> utext) \<Rightarrow> int \<Rightarrow> utext \<Rightarrow> utext \<Rightarrow> int \<Rightarrow> string \<Rightarrow> byte list" where
  "build_startblock_payload_v1 up slot channel_label pilot_name max_name_len name_encoding =
     (let slot_b = max 0 (min 255 slot);
          chan2 = encode_channel_fixed2 up channel_label;
          clean_name = sanitize_pilot_name up pilot_name max_name_len;
          name_bytes = (if lower name_encoding = ''utf-8'' then concat (map utf8_point clean_name)
                        else ascii_replace clean_name);
          name_bytes = (if 255 < length name_bytes then take 255 name_bytes else name_bytes)
      in map of_int ([STARTBLOCK_VER, slot_b] @ chan2 @ [int (length name_bytes)] @ name_bytes))"

section \<open>Slots and devices\<close>

type_synonym slot_entry = "int \<times> utext \<times> utext"

definition normalize_slot :: "(pyval \<Rightarrow> string) \<Rightarrow> pyval \<Rightarrow> slot_entry list res" where
  "normalize_slot rp item =
     (case item of
        PList (a # b # c # rest) \<Rightarrow>
          rbind (py_int a) (\<lambda>slot. Inr [(slot, text_of (py_str rp (py_or b (PStr []))), text_of (py_str rp (py_or c (PStr ''--''))))])
      | PTuple (a # b # c # rest) \<Rightarrow>
          rbind (py_int a) (\<lambda>slot. Inr [(slot, text_of (py_str rp (py_or b (PStr []))), text_of (py_str rp (py_or c (PStr ''--''))))])
      | PDict d \<Rightarrow>
          rbind (py_int (dget_or d ''slot'' (PInt 0))) (\<lambda>slot.
            Inr [(slot, text_of (py_str rp (py_or (dget_or d ''callsign'' (PStr [])) (PStr []))),
                  text_of (py_str rp (py_or (dget_or d ''racechannel'' (PStr ''--'')) (PStr ''--''))))])
      | _ \<Rightarrow> Inr [])"

definition normalize_slot_list :: "(pyval \<Rightarrow> string) \<Rightarrow> pyval \<Rightarrow> slot_entry list res" where
  "normalize_slot_list rp slot_list =
     rbind (py_iter (py_or slot_list (PList []))) (\<lambda>items.
     rbind (rmap (normalize_slot rp) items) (\<lambda>entries. Inr (concat entries)))"

text \<open>The dictionary from slots to texts, the last entry of a slot winning, read for the slots 0 to 7.\<close>

definition slots_0based :: "slot_entry list \<Rightarrow> (nat \<times> utext \<times> utext) list" where
  "slots_0based slot_list =
     map (\<lambda>slot.
       case map_of (rev (map (\<lambda>(s, callsign, channel). (s, (callsign, if channel = [] then text_of ''--'' else channel))) slot_list))
              (int slot) of
         None \<Rightarrow> (slot, [], text_of ''--'')
       | Some (callsign, channel) \<Rightarrow> (slot, callsign, channel)) [0 ..< 8]"

definition iter_startblock_devices :: "int option \<Rightarrow> ctl \<Rightarrow> nat list" where
  "iter_startblock_devices target_group s =
     filter (\<lambda>i. is_startblock_device (ct_devices s ! i) \<and>
               (case target_group of None \<Rightarrow> True | Some g \<Rightarrow> d_groupId (ct_devices s ! i) = g)) [0 ..< length (ct_devices s)]"

definition device_range :: "rl_device \<Rightarrow> int \<times> int" where
  "device_range dev =
     (let (slot_count, first_slot) =
            (case (map_of (d_specials dev) ''startblock_slots'', map_of (d_specials dev) ''startblock_first_slot'') of
               (Some n, Some f) \<Rightarrow> (n, f) | _ \<Rightarrow> (8, 1));
          slot_count = max 1 (min 8 slot_count);
          first_slot = max 1 (min 8 first_slot)
      in (first_slot, min 8 (first_slot + slot_count - 1)))"

definition add_slots :: "nat \<Rightarrow> int \<Rightarrow> int \<Rightarrow> (int \<times> nat) list \<Rightarrow> (int \<times> nat) list" where
  "add_slots dev first_slot last_slot m =
     fold (\<lambda>slot m. if map_of m slot = None then m @ [(slot, dev)] else m) [first_slot .. last_slot] m"

definition slot_mapping :: "rl_device list \<Rightarrow> nat list \<Rightarrow> (int \<times> nat) list \<times> (nat \<times> int \<times> int) list" where
  "slot_mapping ds devices =
     (fold (\<lambda>i m. add_slots i (fst (device_range (ds ! i))) (snd (device_range (ds ! i))) m) devices [],
      map (\<lambda>i. (i, fst (device_range (ds ! i)), snd (device_range (ds ! i)))) devices)"

section \<open>Operations\<close>

datatype slot_result = SlotSent nat "nat option" "(nat \<times> nat) option"

datatype control_result =
    NoTransport
  | GroupSent int "slot_result list"
  | NoCapability
  | UnicastSent "(nat \<times> int \<times> int) list" "slot_result list"

text \<open>Returned: the result, and whether the state is then saved with the scope of the device specials.\<close>

definition send_startblock_config ::
  "nat option \<Rightarrow> int option \<Rightarrow> pydict \<Rightarrow> (ctl, bool \<times> bool) proc" where
  "send_startblock_config target_device target_group params s =
     (case (target_group, target_device) of
        (None, Some i) \<Rightarrow>
          if \<not> ct_transport s then (Inr (False, False), s)
          else
            pbind (plift (py_int (dget_or params ''startblock_slots'' (PInt 1)))) (\<lambda>slots.
            pbind (plift (py_int (dget_or params ''startblock_first_slot'' (PInt 1)))) (\<lambda>first_slot.
            pbind (plift (mac_last3_from_hex (d_addr (ct_devices s ! i)))) (\<lambda>recv3.
              if recv3 = [] then pret (False, False)
              else
                pbind (send_config 0x8C slots 0 0 0 recv3 True None) (\<lambda>ok_slots.
                  if ok_slots \<noteq> Some True then pret (False, False)
                  else
                    pbind (send_config 0x8D first_slot 0 0 0 recv3 True None) (\<lambda>ok_first.
                      if ok_first \<noteq> Some True then pret (False, False)
                      else
                        pbind (pupd (upd_device i (\<lambda>d. d\<lparr>d_specials :=
                            assoc_set ''startblock_first_slot'' (first_slot AND 255)
                              (assoc_set ''startblock_slots'' (slots AND 255) (d_specials d))\<rparr>))) (\<lambda>_.
                        pret (True, True))))))) s
      | _ \<Rightarrow> (Inr (False, False), s))"

fun send_slots :: "(int \<Rightarrow> utext) \<Rightarrow> (nat \<Rightarrow> stream_target option) \<Rightarrow> (nat \<times> utext \<times> utext) list \<Rightarrow> (ctl, slot_result list) proc" where
  "send_slots up target_of [] = pret []"
| "send_slots up target_of ((slot0, callsign, racechannel) # rest) =
     (case target_of (slot0 + 1) of
        None \<Rightarrow> send_slots up target_of rest
      | Some target \<Rightarrow>
          pbind (send_stream (build_startblock_payload_v1 up (int slot0 + 1) racechannel callsign 32 ''ascii'') target) (\<lambda>result.
          pbind (send_slots up target_of rest) (\<lambda>sent.
            pret (SlotSent (slot0 + 1) (case target of ToDevice i \<Rightarrow> Some i | ToGroup g \<Rightarrow> None) result # sent))))"

definition send_startblock_control ::
  "(int \<Rightarrow> utext) \<Rightarrow> (pyval \<Rightarrow> string) \<Rightarrow> slot_entry list \<Rightarrow> nat option \<Rightarrow> int option \<Rightarrow> pydict \<Rightarrow> (ctl, control_result) proc" where
  "send_startblock_control up rp current_heat target_device target_group params s =
     (if \<not> ct_transport s then (Inr NoTransport, s)
      else
        pbind (plift (if dget params ''startblock_use_current_heat'' = PNone \<or> py_truth (dget params ''startblock_use_current_heat'')
                      then Inr current_heat
                      else normalize_slot_list rp (py_or (dget params ''startblock_slot_list'') (PList [])))) (\<lambda>slot_list.
          let slots = slots_0based slot_list in
          case target_group of
            Some g \<Rightarrow> pbind (send_slots up (\<lambda>slot. Some (ToGroup g)) slots) (\<lambda>sent. pret (GroupSent g sent))
          | None \<Rightarrow>
              if (case target_device of Some i \<Rightarrow> \<not> is_startblock_device (ct_devices s ! i) | None \<Rightarrow> False) then pret NoCapability
              else
                let devices = (case target_device of Some i \<Rightarrow> [i] | None \<Rightarrow> iter_startblock_devices None s) in
                if devices = [] then pret (UnicastSent [] [])
                else
                  let (slot_to_dev, dev_ranges) = slot_mapping (ct_devices s) devices in
                  pbind (send_slots up (\<lambda>slot. map_option ToDevice (map_of slot_to_dev (int slot))) slots) (\<lambda>sent.
                    pret (UnicastSent dev_ranges sent))) s)"


section \<open>The payload\<close>

lemma ascii_replace_length [simp]: "length (ascii_replace s) = length s"
  by (simp add: ascii_replace_def)

lemma channel_length [simp]: "length (encode_channel_fixed2 up label) = 2"
  by (simp add: encode_channel_fixed2_def text_of_def)

lemma sanitized_length: "length (sanitize_pilot_name up name 32) \<le> 32"
  by (simp add: sanitize_pilot_name_def Let_def)

lemma set_ustrip: "set (ustrip s) \<subseteq> set s"
  unfolding ustrip_def by (metis set_dropWhileD set_rev subsetI)

lemma set_collapse: "set (collapse_spaces b s) \<subseteq> insert 32 (set s)"
  by (induction b s rule: collapse_spaces.induct) auto

lemma sanitized_allowed: "c \<in> set (sanitize_pilot_name up name m) \<Longrightarrow> name_allowed c"
proof -
  let ?f = "map (\<lambda>c. if name_allowed c then c else 32)"
  assume "c \<in> set (sanitize_pilot_name up name m)"
  then obtain x where "c \<in> set (ustrip (collapse_spaces False (?f x)))"
    by (auto simp: sanitize_pilot_name_def Let_def split: if_splits dest: in_set_takeD)
  then have "c \<in> insert 32 (set (?f x))" using set_ustrip set_collapse by blast
  then show ?thesis by (auto simp: name_allowed_def)
qed

text \<open>A receiver's reading of the payload.\<close>

definition read_startblock :: "byte list \<Rightarrow> (byte \<times> byte list \<times> byte list) option" where
  "read_startblock p =
     (case p of
        ver # slot # c1 # c2 # n # name \<Rightarrow>
          if ver = of_int STARTBLOCK_VER \<and> length name = unat n then Some (slot, [c1, c2], name) else None
      | _ \<Rightarrow> None)"

lemma two_elements: "length xs = 2 \<Longrightarrow> \<exists>a b. xs = [a, b]"
  by (cases xs; cases "tl xs") auto

lemma read_payload:
  assumes "length chan = 2" and "length name \<le> 255"
  shows "read_startblock (map of_int ([STARTBLOCK_VER, slot] @ chan @ [int (length name)] @ name)) =
    Some (of_int slot, map of_int chan, map of_int name)"
  using two_elements [OF assms(1)] assms(2) by (auto simp: read_startblock_def unat_of_nat)

text \<open>
  C20.  The start block payload is self-describing.  For any slot, texts, length limit and encoding it reads back as the slot
  clamped to a byte, the two channel characters and the encoded name, cut to 255 bytes.
\<close>

theorem startblock_payload_roundtrip:
  "read_startblock (build_startblock_payload_v1 up slot label name m encoding) =
     Some (of_int (max 0 (min 255 slot)), map of_int (encode_channel_fixed2 up label),
           map of_int (take 255 (if lower encoding = ''utf-8'' then concat (map utf8_point (sanitize_pilot_name up name m))
                                 else ascii_replace (sanitize_pilot_name up name m))))"
proof -
  have t: "(if 255 < length xs then take 255 xs else xs) = take 255 xs" for xs :: "int list" by simp
  show ?thesis unfolding build_startblock_payload_v1_def Let_def t by (rule read_payload) simp_all
qed

lemma payload_default: "length (build_startblock_payload_v1 up slot label name 32 ''ascii'') \<le> 37"
  using sanitized_length [of up name] two_elements [OF channel_length [of up label]]
  by (auto simp: build_startblock_payload_v1_def Let_def upper_char_def lower_char_def)

section \<open>Names\<close>

definition blank_filter :: "utext \<Rightarrow> utext" where
  "blank_filter s = map (\<lambda>c. if name_allowed c then c else 32) s"

definition words_only :: "utext \<Rightarrow> utext" where
  "words_only s = ustrip (collapse_spaces False s)"

lemma ustrip_head: "is_space_point c \<Longrightarrow> ustrip (c # s) = ustrip s"
  by (simp add: ustrip_def)

lemma ustrip_tail: "is_space_point c \<Longrightarrow> ustrip (s @ [c]) = ustrip s"
proof -
  assume c: "is_space_point c"
  show ?thesis
  proof (cases "\<forall>x \<in> set s. is_space_point x")
    case True
    then have "\<forall>x \<in> set (s @ [c]). is_space_point x" using c by simp
    with True have "dropWhile is_space_point s = []" "dropWhile is_space_point (s @ [c]) = []"
      by (simp_all only: dropWhile_eq_Nil_conv)
    then show ?thesis by (simp only: ustrip_def)
  next
    case False
    then have "dropWhile is_space_point (s @ [c]) = dropWhile is_space_point s @ [c]"
      by (auto simp: dropWhile_append)
    then show ?thesis using c by (simp add: ustrip_def)
  qed
qed

lemma space_32 [simp]: "is_space_point 32" by (simp add: is_space_point_def)

lemma collapse_run: "ustrip (collapse_spaces True s) = ustrip (collapse_spaces False s)"
  by (cases s) (simp_all add: ustrip_head)

lemma collapse_tail: "collapse_spaces b (s @ [32]) = collapse_spaces b s \<or> collapse_spaces b (s @ [32]) = collapse_spaces b s @ [32]"
  by (induction b s rule: collapse_spaces.induct) auto

lemma words_head: "words_only (32 # s) = words_only s"
  by (simp add: words_only_def ustrip_head collapse_run)

lemma words_tail: "words_only (s @ [32]) = words_only s"
  using collapse_tail [of False s] by (auto simp: words_only_def ustrip_tail)

definition filtered :: "(int \<Rightarrow> utext) \<Rightarrow> utext \<Rightarrow> utext" where
  "filtered up s = blank_filter (uupper up s)"

lemma filtered_simps [simp]: "filtered up [] = []" "filtered up (c # s) = blank_filter (upper_point up c) @ filtered up s"
  "filtered up (s @ t) = filtered up s @ filtered up t"
  by (simp_all add: filtered_def uupper_def blank_filter_def)

lemma upper_space: "is_space_point c \<Longrightarrow> blank_filter (upper_point up c) = [32]"
proof -
  assume c: "is_space_point c"
  then have "upper_point up c = [c]" by (auto simp: upper_point_def is_space_point_def)
  moreover have "c \<noteq> 32 \<Longrightarrow> \<not> name_allowed c" using c by (auto simp: is_space_point_def name_allowed_def)
  ultimately show ?thesis by (auto simp: blank_filter_def)
qed

lemma words_filtered_drop: "words_only (filtered up (dropWhile is_space_point s)) = words_only (filtered up s)"
  by (induction s) (simp_all add: upper_space words_head)

lemma words_filtered_rdrop: "words_only (filtered up (rev (dropWhile is_space_point (rev s)))) = words_only (filtered up s)"
  by (induction s rule: rev_induct) (simp_all add: upper_space words_tail)

lemma words_filtered_strip: "words_only (filtered up (ustrip s)) = words_only (filtered up s)"
  by (simp add: ustrip_def words_filtered_rdrop words_filtered_drop)

lemma ureplace_absent: "x \<notin> set s \<Longrightarrow> ureplace (x # old) new s = s"
proof -
  assume "x \<notin> set s"
  then have "ureplace_at 0 (x # old) new s = s" by (induction s) auto
  then show ?thesis by (simp add: ureplace_def)
qed

lemma sanitize_plain:
  assumes "0xC3 \<notin> set name"
  shows "sanitize_pilot_name up name m =
    (let w = words_only (filtered up name) in if 0 < m then take (nat m) w else w)"
proof -
  have "fold (\<lambda>(old, new). ureplace old new) DE_UMLAUT_MAP name = name"
    using assms by (simp add: DE_UMLAUT_MAP_def ureplace_absent)
  then have "sanitize_pilot_name up name m = (if name = [] then [] else
      let w = words_only (filtered up (ustrip name)) in if 0 < m then take (nat m) w else w)"
    by (simp only: sanitize_pilot_name_def Let_def words_only_def filtered_def blank_filter_def)
  then show ?thesis
    unfolding words_filtered_strip by (cases "name = []") (simp_all add: words_only_def ustrip_def)
qed

definition umlauts :: "int set" where "umlauts = {0xE4, 0xF6, 0xFC, 0xC4, 0xD6, 0xDC}"

text \<open>
  Umlauts are not transliterated.  The transliteration table of the source holds mis-decoded keys, so a
  name without the letter U+00C3 is sanitised as if each of its umlauts were a blank.
\<close>

theorem umlauts_dropped:
  assumes "0xC3 \<notin> set name"
  shows "sanitize_pilot_name up name m = sanitize_pilot_name up (map (\<lambda>c. if c \<in> umlauts then 32 else c) name) m"
proof -
  let ?g = "\<lambda>c. if c \<in> umlauts then 32 else c"
  have "blank_filter (upper_point up c) = [32]" if "c \<in> umlauts" for c
    using that unfolding umlauts_def
    by (elim insertE emptyE) (simp_all add: upper_point_def blank_filter_def name_allowed_def)
  then have "filtered up (map ?g s) = filtered up s" for s by (induction s) (simp_all add: upper_space)
  moreover have "0xC3 \<notin> set (map ?g name)" using assms by (auto simp: umlauts_def)
  ultimately show ?thesis using sanitize_plain [OF assms] sanitize_plain [of "map ?g name"] by simp
qed

lemma umlauts_dropped_witness:
  "sanitize_pilot_name (\<lambda>c. [c]) (text_of ''M'' @ [0xFC] @ text_of ''ller'') 32 =
   sanitize_pilot_name (\<lambda>c. [c]) (text_of ''M ller'') 32 \<and>
   sanitize_pilot_name (\<lambda>c. [c]) (text_of ''M ller'') 32 = text_of ''M LLER''"
proof -
  have n: "text_of ''M'' @ [0xFC] @ text_of ''ller'' = [77, 252, 108, 108, 101, 114 :: int]"
    "text_of ''M ller'' = [77, 32, 108, 108, 101, 114 :: int]" by code_simp+
  have "sanitize_pilot_name (\<lambda>c. [c]) (text_of ''M ller'') 32 = text_of ''M LLER''" by code_simp
  with umlauts_dropped [of "[77, 252, 108, 108, 101, 114]" "\<lambda>c. [c]" 32] show ?thesis
    unfolding n by (simp add: umlauts_def)
qed

section \<open>Which device gets which slot\<close>

definition in_range :: "int \<times> int \<Rightarrow> int \<Rightarrow> bool" where
  "in_range r slot \<longleftrightarrow> fst r \<le> slot \<and> slot \<le> snd r"

lemma add_slots_lookup:
  "map_of (add_slots dev a b m) slot =
    (case map_of m slot of None \<Rightarrow> if a \<le> slot \<and> slot \<le> b then Some dev else None | Some x \<Rightarrow> Some x)"
proof -
  have "map_of (fold (\<lambda>slot m. if map_of m slot = None then m @ [(slot, dev)] else m) xs m) slot =
      (case map_of m slot of None \<Rightarrow> if slot \<in> set xs then Some dev else None | Some x \<Rightarrow> Some x)" for xs
    by (induction xs arbitrary: m) (auto simp: map_add_def split: option.splits)
  then show ?thesis by (auto simp: add_slots_def split: option.split)
qed

definition slot_owner :: "rl_device list \<Rightarrow> nat list \<Rightarrow> int \<Rightarrow> nat option" where
  "slot_owner ds devices slot = find_where (\<lambda>i. in_range (device_range (ds ! i)) slot) devices"

lemma slot_mapping_owner: "map_of (fst (slot_mapping ds devices)) slot = slot_owner ds devices slot"
proof -
  have "map_of (fold (\<lambda>i m. add_slots i (fst (device_range (ds ! i))) (snd (device_range (ds ! i))) m) devices m) slot =
      (case map_of m slot of None \<Rightarrow> find_where (\<lambda>i. in_range (device_range (ds ! i)) slot) devices | Some x \<Rightarrow> Some x)" for m
    by (induction devices arbitrary: m) (auto simp: add_slots_lookup in_range_def split: option.splits)
  from this [of "[]"] show ?thesis by (simp add: slot_mapping_def slot_owner_def)
qed

lemma device_range_bounds: "1 \<le> fst (device_range d) \<and> fst (device_range d) \<le> snd (device_range d) \<and> snd (device_range d) \<le> 8"
  by (auto simp: device_range_def Let_def split: option.splits)

fun sent_to :: "slot_result \<Rightarrow> nat \<times> nat option" where
  "sent_to (SlotSent slot dev result) = (slot, dev)"

definition device_of :: "stream_target \<Rightarrow> nat option" where
  "device_of t = (case t of ToDevice i \<Rightarrow> Some i | ToGroup g \<Rightarrow> None)"

definition sends :: "(nat \<Rightarrow> stream_target option) \<Rightarrow> nat \<Rightarrow> (nat \<times> nat option) list" where
  "sends target_of slot = (case target_of slot of None \<Rightarrow> [] | Some t \<Rightarrow> [(slot, device_of t)])"

lemma send_slots_sent: "send_slots up target_of slots s = (Inr sent, s') \<Longrightarrow>
    map sent_to sent = concat (map (\<lambda>(slot0, c, r). sends target_of (slot0 + 1)) slots)"
proof (induction slots arbitrary: s sent)
  case (Cons x slots)
  obtain slot0 c r where x: "x = (slot0, c, r)" by (cases x) auto
  show ?case
  proof (cases "target_of (slot0 + 1)")
    case (Some t)
    then show ?thesis using Cons by (auto simp: x sends_def device_of_def pbind_cases)
  qed (use Cons in \<open>auto simp: x sends_def\<close>)
qed simp

lemma slots_0based_slots: "concat (map (\<lambda>(slot0, c, r). f (slot0 + 1)) (slots_0based l)) = concat (map f [1 ..< 9])"
proof -
  have e: "map fst (slots_0based l) = [0 ..< 8]"
    by (auto simp: slots_0based_def intro!: map_idI split: option.split prod.split)
  have m: "map Suc (map fst (slots_0based l)) = [1 ..< 9]" unfolding e map_Suc_upt by simp
  have "concat (map (\<lambda>(slot0, c, r). f (slot0 + 1)) xs) = concat (map f (map Suc (map fst xs)))" for xs :: "(nat \<times> utext \<times> utext) list"
    by (induction xs) auto
  from this [of "slots_0based l"] show ?thesis unfolding m .
qed


definition block :: "string \<Rightarrow> int \<Rightarrow> int \<Rightarrow> rl_device" where
  "block addr slots first =
     (default_device addr 50 ''start'')\<lparr>d_caps := 50, d_specials := [(''startblock_slots'', slots), (''startblock_first_slot'', first)]\<rparr>"

definition stream_ack :: "byte list \<Rightarrow> gw_event" where
  "stream_ack sender = EvReply (reply_from sender OPC_ACK (Ack OPC_STREAM 0 None))"



text \<open>
  Configuring a start block.  If the operation reports success, the state is saved for the device specials and the device
  holds exactly the two low bytes asked for under its two keys.  On any other return nothing is saved.
\<close>

lemma startblock_config_outcome:
  assumes "send_startblock_config target_device target_group params s = (Inr (ok, saves), s')"
  shows "saves = ok \<and>
    (ok \<longrightarrow> target_group = None \<and> (\<exists>i slots first. target_device = Some i \<and>
       py_int (dget_or params ''startblock_slots'' (PInt 1)) = Inr slots \<and>
       py_int (dget_or params ''startblock_first_slot'' (PInt 1)) = Inr first \<and>
       (i < length (ct_devices s') \<longrightarrow>
          map_of (d_specials (ct_devices s' ! i)) ''startblock_slots'' = Some (slots AND 255) \<and>
          map_of (d_specials (ct_devices s' ! i)) ''startblock_first_slot'' = Some (first AND 255))))"
  using assms
  by (auto simp: send_startblock_config_def pbind_cases upd_device_def split: option.splits if_splits)


end
