(* ===== verification/State_Query.thy ===== *)
theory State_Query
  imports Waits
begin

text \<open>
  \<open>GatewayService.query_state\<close> of \<^verbatim>\<open>racelink/services/gateway_service.py\<close> with
  \<open>send_state_request\<close> and the mirrored gateway state of \<^verbatim>\<open>racelink/transport/gateway_serial.py\<close>,
  which \<open>GET /api/gateway/query-state\<close> returns.  The mirror is the pair of the last state byte and its milliseconds.
\<close>

type_synonym gw_mirror = "int \<times> int"

record state_answer =
  sa_ok :: bool
  sa_state :: string
  sa_state_byte :: int
  sa_metadata_ms :: int

definition state_name :: "int \<Rightarrow> string" where
  "state_name b = (case map_of GATEWAY_STATE_NAME b of Some n \<Rightarrow> n | None \<Rightarrow> ''UNKNOWN'')"

text \<open>The transport keeps the mirror before it tells the listeners.\<close>

definition mirror_event :: "gw_event \<Rightarrow> gw_mirror \<Rightarrow> gw_mirror" where
  "mirror_event ev m = (case ev of EvState ty state_byte name ms ts \<Rightarrow> (state_byte AND 255, ms AND 65535) | _ \<Rightarrow> m)"

definition gateway_state_snapshot :: "gw_mirror \<Rightarrow> state_answer" where
  "gateway_state_snapshot m = \<lparr>sa_ok = False, sa_state = state_name (fst m), sa_state_byte = fst m, sa_metadata_ms = snd m\<rparr>"

text \<open>What the listener of the query writes down.\<close>

definition report_of :: "gw_event \<Rightarrow> state_answer option" where
  "report_of ev =
     (case ev of
        EvState ty state_byte name ms ts \<Rightarrow>
          if ty \<noteq> EV_STATE_REPORT then None
          else Some \<lparr>sa_ok = True, sa_state = (if name \<noteq> [] then name else state_name state_byte),
            sa_state_byte = state_byte, sa_metadata_ms = ms\<rparr>
      | _ \<Rightarrow> None)"

text \<open>\<open>replied.wait(timeout)\<close>: events are delivered until one is a report or the time is up.\<close>

fun wait_report :: "rat \<Rightarrow> (rat \<times> gw_event) list \<Rightarrow> gw_mirror \<Rightarrow> ctl \<Rightarrow> state_answer option \<times> gw_mirror \<times> ctl" where
  "wait_report deadline [] m s = (None, m, s\<lparr>ct_now := max (ct_now s) deadline, ct_incoming := []\<rparr>)"
| "wait_report deadline ((t, ev) # evs) m s =
     (if deadline < t then (None, m, s\<lparr>ct_now := max (ct_now s) deadline, ct_incoming := (t, ev) # evs\<rparr>)
      else
        let s = deliver ev (s\<lparr>ct_now := max (ct_now s) t, ct_incoming := evs\<rparr>); m = mirror_event ev m in
        case report_of ev of
          None \<Rightarrow> wait_report deadline evs m s
        | Some a \<Rightarrow> (Some a, m, s))"

definition unknown_state :: state_answer where
  "unknown_state = \<lparr>sa_ok = False, sa_state = ''UNKNOWN'', sa_state_byte = GATEWAY_STATE_UNKNOWN, sa_metadata_ms = 0\<rparr>"

text \<open>\<open>writes\<close> says whether the port takes the request; a failed write reports the lost link.\<close>

definition write_state_request :: "bool \<Rightarrow> ctl \<Rightarrow> bool \<times> ctl" where
  "write_state_request writes s = (if writes then (True, s) else (False, deliver EvDisconnected s))"

definition query_state :: "bool \<Rightarrow> rat \<Rightarrow> gw_mirror \<Rightarrow> ctl \<Rightarrow> state_answer \<times> gw_mirror \<times> ctl" where
  "query_state writes timeout_s m s =
     (if \<not> ct_transport s then (unknown_state, m, s)
      else
        case write_state_request writes s of
          (False, s) \<Rightarrow> (gateway_state_snapshot m, m, s)
        | (True, s) \<Rightarrow>
            (case wait_report (ct_now s + timeout_s) (ct_incoming s) m s of
               (Some a, m, s) \<Rightarrow> (a, m, s)
             | (None, m, s) \<Rightarrow> (gateway_state_snapshot m, m, s)))"

definition QUERY_TIMEOUT_S :: rat where "QUERY_TIMEOUT_S = 1/2"

section \<open>What a query returns\<close>

lemma wait_report_result:
  assumes "ct_listener s = None"
  shows "case wait_report d evs m s of (r, m', s') \<Rightarrow>
      (\<exists>pre. evs = pre @ ct_incoming s' \<and> m' = fold mirror_event (map snd pre) m \<and>
         (r \<noteq> None \<longrightarrow> pre \<noteq> [] \<and> r = report_of (snd (last pre)) \<and> (\<forall>p \<in> set (butlast pre). report_of (snd p) = None)) \<and>
         (r = None \<longrightarrow> pre = until d evs \<and> (\<forall>p \<in> set pre. report_of (snd p) = None)) \<and>
         (\<forall>p \<in> set pre. fst p \<le> d)) \<and> ct_now s \<le> ct_now s' \<and> ct_now s' \<le> max (ct_now s) d"
  using assms
proof (induction d evs m s rule: wait_report.induct)
  case (1 d m s)
  then show ?case by auto
next
  case (2 d t ev evs m s)
  show ?case
  proof (cases "d < t")
    case True
    then show ?thesis by auto
  next
    case False
    let ?s = "deliver ev (s\<lparr>ct_now := max (ct_now s) t, ct_incoming := evs\<rparr>)"
    have s: "ct_listener ?s = None" "ct_incoming ?s = evs" "ct_now ?s = max (ct_now s) t" using 2(2) by simp_all
    show ?thesis
    proof (cases "report_of ev")
      case (Some a)
      with False s show ?thesis by (auto intro!: exI [of _ "[(t, ev)]"])
    next
      case None
      obtain r m' s' where w: "wait_report d evs (mirror_event ev m) ?s = (r, m', s')" by (metis prod_cases3)
      from 2(1) [OF False refl refl None s(1)] w obtain pre where
        "evs = pre @ ct_incoming s'" "m' = fold mirror_event (map snd pre) (mirror_event ev m)"
        "r \<noteq> None \<longrightarrow> pre \<noteq> [] \<and> r = report_of (snd (last pre)) \<and> (\<forall>p \<in> set (butlast pre). report_of (snd p) = None)"
        "r = None \<longrightarrow> pre = until d evs \<and> (\<forall>p \<in> set pre. report_of (snd p) = None)" "\<forall>p \<in> set pre. fst p \<le> d"
        "ct_now ?s \<le> ct_now s'" "ct_now s' \<le> max (ct_now ?s) d"
        by auto
      with False None s w show ?thesis
        by (auto simp: max_def intro!: exI [of _ "(t, ev) # pre"] split: if_splits)
    qed
  qed
qed

lemma until_prefix: "\<forall>p \<in> set pre. fst p \<le> d \<Longrightarrow> until d (pre @ rest) = pre @ until d rest"
  by (simp add: until_def)

lemma report_ok: "report_of ev = Some a \<Longrightarrow> sa_ok a"
  by (auto simp: report_of_def split: gw_event.split_asm if_split_asm)

text \<open>
  C36.  A query of the gateway state returns a fresh report or says that it has none.  It consumes the events that arrive while
  it waits, never longer than its time.  The answer is marked good exactly if a report arrives in that time, and then it is the
  first one; otherwise it is the state the gateway was last heard in, with the changes that arrived meanwhile.
\<close>

theorem query_state_answer:
  assumes "ct_transport s" and "ct_listener s = None" and "0 \<le> timeout_s"
    and "query_state True timeout_s m s = (a, m', s')"
  shows "\<exists>pre. ct_incoming s = pre @ ct_incoming s' \<and> m' = fold mirror_event (map snd pre) m \<and>
     ct_now s \<le> ct_now s' \<and> ct_now s' \<le> ct_now s + timeout_s \<and>
     (sa_ok a \<longleftrightarrow> (\<exists>p \<in> set (until (ct_now s + timeout_s) (ct_incoming s)). report_of (snd p) \<noteq> None)) \<and>
     (sa_ok a \<longrightarrow> pre \<noteq> [] \<and> report_of (snd (last pre)) = Some a \<and> (\<forall>p \<in> set (butlast pre). report_of (snd p) = None)) \<and>
     (\<not> sa_ok a \<longrightarrow> a = gateway_state_snapshot m' \<and> pre = until (ct_now s + timeout_s) (ct_incoming s))"
proof -
  let ?d = "ct_now s + timeout_s"
  obtain r m1 s1 where w: "wait_report ?d (ct_incoming s) m s = (r, m1, s1)" by (metis prod_cases3)
  have st: "m' = m1" "s' = s1" and a: "a = (case r of Some x \<Rightarrow> x | None \<Rightarrow> gateway_state_snapshot m1)"
    using assms(1,4) by (auto simp: query_state_def write_state_request_def w split: option.split_asm)
  from wait_report_result [OF assms(2), where d = ?d and evs = "ct_incoming s" and m = m] obtain pre where pre:
    "ct_incoming s = pre @ ct_incoming s1" "m1 = fold mirror_event (map snd pre) m"
    "r \<noteq> None \<longrightarrow> pre \<noteq> [] \<and> r = report_of (snd (last pre)) \<and> (\<forall>p \<in> set (butlast pre). report_of (snd p) = None)"
    "r = None \<longrightarrow> pre = until ?d (ct_incoming s) \<and> (\<forall>p \<in> set pre. report_of (snd p) = None)" "\<forall>p \<in> set pre. fst p \<le> ?d"
    "ct_now s \<le> ct_now s1" "ct_now s1 \<le> max (ct_now s) ?d"
    unfolding w prod.case by (elim conjE exE) (rule that)
  have now: "ct_now s1 \<le> ?d" using pre(7) assms(3) by simp
  show ?thesis
  proof (cases r)
    case None
    then have "\<not> sa_ok a" "a = gateway_state_snapshot m1" by (simp_all add: a gateway_state_snapshot_def)
    with None pre now st show ?thesis by (intro exI [of _ pre]) auto
  next
    case (Some x)
    have ax: "a = x" unfolding a Some by simp
    have x: "report_of (snd (last pre)) = Some x" "pre \<noteq> []" using pre(3) unfolding Some by simp_all
    have "last pre \<in> set (until ?d (ct_incoming s))"
      using until_prefix [OF pre(5), of "ct_incoming s1"] pre(1) x(2) by simp
    with Some ax x pre now st report_ok [OF x(1)] show ?thesis by (intro exI [of _ pre]) auto
  qed
qed

text \<open>The mirror of the transport is what its frame handler makes of the events it tells the listeners.\<close>

lemma handler_mirrors:
  assumes "type_byte = EV_STATE_CHANGED \<or> type_byte = EV_STATE_REPORT"
  shows "\<exists>ev. lk_emitted (handle_frame now (type_byte, data) s) = lk_emitted s @ [ev] \<and>
    (lk_state_byte (handle_frame now (type_byte, data) s), lk_state_ms (handle_frame now (type_byte, data) s)) =
      mirror_event ev (lk_state_byte s, lk_state_ms s)"
  using assms
  by (auto simp: handle_frame_def mirror_event_def emit_def update_gateway_state_def Let_def EV_STATE_CHANGED_def EV_STATE_REPORT_def
      EV_TX_DONE_def EV_TX_REJECTED_def split: prod.split)

definition reporting :: ctl where
  "reporting = idle_ctl [] [(101, EvState EV_STATE_CHANGED 1 ''TX'' 0 101), (102, EvState EV_STATE_REPORT 2 ''RX_WINDOW'' 300 102),
     (103, EvState EV_STATE_CHANGED 0 ''IDLE'' 0 103)]"

theorem query_state_answer_witness:
  "sa_ok (fst (query_state True 50 (255, 0) reporting)) \<and> sa_state (fst (query_state True 50 (255, 0) reporting)) = ''RX_WINDOW''"
proof -
  obtain a m' s' where q: "query_state True 50 (255, 0) reporting = (a, m', s')" by (metis prod_cases3)
  have st: "ct_transport reporting" "ct_listener reporting = None" by (simp_all add: reporting_def idle_ctl_def)
  have n: "sa_state (fst (query_state True 50 (255, 0) reporting)) = ''RX_WINDOW''" by code_simp
  have "\<exists>p \<in> set (until (ct_now reporting + 50) (ct_incoming reporting)). report_of (snd p) \<noteq> None"
    by (simp add: reporting_def idle_ctl_def report_of_def)
  with query_state_answer [OF st _ q] n show ?thesis unfolding q by auto
qed

end
