(* ===== verification/Connection.thy ===== *)
theory Connection
  imports Gateway
begin

text \<open>
  The life of the gateway link: \<open>discover_and_open\<close> of
  \<^verbatim>\<open>racelink/transport/gateway_serial.py\<close> and the connection management of
  \<^verbatim>\<open>controller.py\<close> (\<open>discoverPort\<close>, the error record with its classification, the retry timer with its
  backoff, the manual retry, the reconnect job, the shutdown).  What the operating system answers when a
  port is opened is a parameter of each attempt.
\<close>

section \<open>Finding the gateway\<close>

text \<open>
  Opening a port and asking it for its identity: a \<open>SerialException\<close> with its text, another exception with
  its class and text, or the bytes read in answer.
\<close>

datatype open_result = OpenFails string | OpenRaises string string | Answers "byte list"

record port_info =
  po_device :: string
  po_usb_ids :: bool
  po_description :: string
  po_open :: open_result

record usb_env =
  ue_ports :: "port_info list"
  ue_configured :: "string \<Rightarrow> open_result"

record serial =
  se_port :: "string option"
  se_mac :: "string option"
  se_busy :: bool
  se_open :: bool

text \<open>\<open>discover_and_open\<close> returns true or false or raises; the exception as \<open>discoverPort\<close> words it.\<close>

datatype discovery = Found | NotFound | Raised string

definition starts_with :: "string \<Rightarrow> string \<Rightarrow> bool" where
  "starts_with prefix s = (take (length prefix) s = prefix)"

definition is_usb_port :: "port_info \<Rightarrow> bool" where
  "is_usb_port p =
     (let dev = lower (po_device p) in
      starts_with ''/dev/ttyusb'' dev \<or> starts_with ''/dev/ttyacm'' dev \<or> po_usb_ids p \<or>
      is_infix ''USB'' (upper (po_description p)))"

definition busy_message :: "string \<Rightarrow> bool" where
  "busy_message msg \<longleftrightarrow> is_infix ''Could not exclusively lock port'' msg \<or>
     is_infix ''Resource temporarily unavailable'' msg"

definition serial_exception :: "string \<Rightarrow> string" where
  "serial_exception msg = ''SerialException: '' @ msg"

definition IDENT :: "byte list" where
  "IDENT = map (\<lambda>c. of_nat (of_char c)) ''RaceLink_Gateway_v4''"

definition decode_ascii :: "byte list \<Rightarrow> string" where
  "decode_ascii bs = map (\<lambda>b. char_of (unat b)) (filter (\<lambda>b. unat b < 128) bs)"

definition ident_mac :: "byte list \<Rightarrow> string option" where
  "ident_mac resp =
     (let mac_ascii = strip_with (\<lambda>c. c = char_of (0 :: nat)) (strip (decode_ascii (drop (length IDENT) resp)))
      in if mac_ascii = [] then None else Some mac_ascii)"

fun scan_ports :: "port_info list \<Rightarrow> serial \<Rightarrow> discovery \<times> serial" where
  "scan_ports [] se = (NotFound, se)"
| "scan_ports (p # ps) se =
     (if \<not> is_usb_port p then scan_ports ps se
      else case po_open p of
        OpenFails msg \<Rightarrow> scan_ports ps (if busy_message msg then se\<lparr>se_busy := True\<rparr> else se)
      | OpenRaises cls msg \<Rightarrow> (Raised (cls @ '': '' @ msg), se)
      | Answers reply \<Rightarrow>
          let resp = take (length IDENT + 17) reply in
          if take (length IDENT) resp = IDENT
          then (Found, se\<lparr>se_port := Some (po_device p), se_mac := ident_mac resp, se_open := True\<rparr>)
          else scan_ports ps se)"

definition discover_and_open :: "usb_env \<Rightarrow> serial \<Rightarrow> discovery \<times> serial" where
  "discover_and_open env se =
     (let se = se\<lparr>se_busy := False\<rparr> in
      case se_port se of
        None \<Rightarrow> scan_ports (ue_ports env) se
      | Some port \<Rightarrow>
          if port = [] then scan_ports (ue_ports env) se
          else case ue_configured env port of
            OpenFails msg \<Rightarrow>
              (Raised (serial_exception (if busy_message msg
                 then ''Port busy: '' @ port @ '' is in use by another process (exclusive lock failed). '' @
                      ''Close the other program (e.g. esptool, screen/minicom) and retry.''
                 else msg)), se)
          | OpenRaises cls msg \<Rightarrow> (Raised (cls @ '': '' @ msg), se)
          | Answers reply \<Rightarrow> (Found, se\<lparr>se_open := True\<rparr>))"

section \<open>Errors\<close>

datatype gw_code = NOT_FOUND | PORT_BUSY | LINK_LOST | HOST_ERROR

definition classify_gateway_error :: "string \<Rightarrow> gw_code" where
  "classify_gateway_error reason =
     (let t = lower reason in
      if t = [] then HOST_ERROR
      else if is_infix ''no racelink gateway'' t \<or> is_infix ''not found'' t \<or> is_infix ''no device'' t then NOT_FOUND
      else if is_infix ''exclusive lock'' t \<or> is_infix ''could not exclusively lock'' t \<or>
              is_infix ''resource temporarily unavailable'' t \<or> is_infix ''port busy'' t then PORT_BUSY
      else if is_infix ''disconnect'' t \<or> is_infix ''link lost'' t \<or> is_infix ''read error'' t then LINK_LOST
      else HOST_ERROR)"

definition GATEWAY_RETRY_BACKOFF_S :: "rat list" where "GATEWAY_RETRY_BACKOFF_S = [2, 5, 10, 20, 30]"

datatype origin = Manual | Auto | Programmatic

record gw_error =
  ge_ts :: rat
  ge_reason :: string
  ge_origin :: origin
  ge_code :: gw_code
  ge_failure_count :: nat
  ge_next_retry_in_s :: "rat option"

text \<open>
  \<open>cn_timer\<close> is the armed retry: when it fires and the attempt number it then stores.  \<open>cn_pushes\<close> counts the
  status pushes, \<open>cn_toasts\<close> the notifications of the operator.
\<close>

record conn =
  cn_ctl :: ctl
  cn_option :: "string option"
  cn_serial :: serial
  cn_error :: "gw_error option"
  cn_failures :: nat
  cn_attempt :: nat
  cn_timer :: "(rat \<times> nat) option"
  cn_shutdown :: bool
  cn_pushes :: nat
  cn_toasts :: nat

definition upd_ctl :: "(ctl \<Rightarrow> ctl) \<Rightarrow> conn \<Rightarrow> conn" where
  "upd_ctl f c = c\<lparr>cn_ctl := f (cn_ctl c)\<rparr>"

definition notify_gateway_status :: "conn \<Rightarrow> conn" where
  "notify_gateway_status c = c\<lparr>cn_pushes := Suc (cn_pushes c)\<rparr>"

definition cancel_gateway_retry :: "conn \<Rightarrow> conn" where
  "cancel_gateway_retry c = c\<lparr>cn_timer := None\<rparr>"

definition schedule_gateway_retry :: "rat \<Rightarrow> conn \<Rightarrow> conn" where
  "schedule_gateway_retry delay_s c =
     (cancel_gateway_retry c)\<lparr>cn_timer := Some (ct_now (cn_ctl c) + delay_s, Suc (cn_attempt c))\<rparr>"

definition resolve_code :: "gw_code option \<Rightarrow> string \<Rightarrow> conn \<Rightarrow> gw_code" where
  "resolve_code code reason c =
     (let resolved = (case code of None \<Rightarrow> classify_gateway_error reason | Some k \<Rightarrow> k)
      in if resolved = NOT_FOUND \<and> ct_link_recovery (cn_ctl c) then LINK_LOST else resolved)"

definition next_retry :: "gw_code \<Rightarrow> nat \<Rightarrow> rat option" where
  "next_retry code attempt =
     (if code = PORT_BUSY \<or> code = LINK_LOST
      then Some (GATEWAY_RETRY_BACKOFF_S ! min attempt (length GATEWAY_RETRY_BACKOFF_S - 1)) else None)"

definition record_gateway_error :: "string \<Rightarrow> origin \<Rightarrow> gw_code option \<Rightarrow> conn \<Rightarrow> conn" where
  "record_gateway_error reason origin code c =
     (let c = upd_ctl (\<lambda>s. s\<lparr>ct_ready := False\<rparr>) (c\<lparr>cn_failures := Suc (cn_failures c)\<rparr>);
          resolved = resolve_code code reason c;
          retry = next_retry resolved (cn_attempt c);
          c = c\<lparr>cn_error := Some \<lparr>ge_ts = ct_now (cn_ctl c), ge_reason = reason, ge_origin = origin, ge_code = resolved,
                 ge_failure_count = cn_failures c, ge_next_retry_in_s = retry\<rparr>\<rparr>;
          c = (case retry of Some d \<Rightarrow> if cn_shutdown c then c else schedule_gateway_retry d c | None \<Rightarrow> c)
      in notify_gateway_status c)"

definition clear_gateway_error :: "conn \<Rightarrow> conn" where
  "clear_gateway_error c =
     (let was_unready = (cn_error c \<noteq> None \<or> \<not> ct_ready (cn_ctl c));
          c = cancel_gateway_retry (c\<lparr>cn_error := None, cn_failures := 0, cn_attempt := 0\<rparr>)
      in if was_unready then notify_gateway_status c else c)"

section \<open>Connecting\<close>

definition PORT_BUSY_REASON :: string where
  "PORT_BUSY_REASON = ''RaceLink Gateway port busy: another process still holds an exclusive lock. Retrying automatically.''"

definition NOT_FOUND_REASON :: string where
  "NOT_FOUND_REASON = ''No RaceLink Gateway module discovered or configured''"

definition toast :: "origin \<Rightarrow> conn \<Rightarrow> conn" where
  "toast origin c = (if origin = Manual then c\<lparr>cn_toasts := Suc (cn_toasts c)\<rparr> else c)"

text \<open>The transport is replaced by a new one, which stays even when no gateway is found.\<close>

definition fresh_transport :: "conn \<Rightarrow> conn" where
  "fresh_transport c =
     upd_ctl (\<lambda>s. s\<lparr>ct_hooks := False, ct_transport := True\<rparr>)
       (c\<lparr>cn_serial := \<lparr>se_port = cn_option c, se_mac = None, se_busy = False, se_open = False\<rparr>\<rparr>)"

definition connected :: "origin \<Rightarrow> conn \<Rightarrow> conn" where
  "connected origin c =
     (let c = clear_gateway_error (upd_ctl (\<lambda>s. s\<lparr>ct_ready := True, ct_link_recovery := False\<rparr>) c);
          c = upd_ctl install_transport_hooks c
      in if se_mac (cn_serial c) \<noteq> None then toast origin c else c)"

definition discover_port :: "usb_env \<Rightarrow> origin \<Rightarrow> conn \<Rightarrow> conn" where
  "discover_port env origin c =
     (let c = fresh_transport c;
          (res, se) = discover_and_open env (cn_serial c);
          c = c\<lparr>cn_serial := se\<rparr>
      in case res of
           Found \<Rightarrow> connected origin c
         | NotFound \<Rightarrow>
             if se_busy se then toast origin (record_gateway_error PORT_BUSY_REASON origin (Some PORT_BUSY) c)
             else toast origin (record_gateway_error NOT_FOUND_REASON origin (Some NOT_FOUND) c)
         | Raised text \<Rightarrow> toast origin (record_gateway_error text origin None c))"

definition fire_retry :: "usb_env \<Rightarrow> conn \<Rightarrow> conn" where
  "fire_retry env c =
     (case cn_timer c of
        None \<Rightarrow> c
      | Some (due, attempt_next) \<Rightarrow>
          let c = c\<lparr>cn_timer := None\<rparr> in
          if cn_shutdown c then c
          else discover_port env Auto (upd_ctl (\<lambda>s. s\<lparr>ct_now := max (ct_now s) due\<rparr>) (c\<lparr>cn_attempt := attempt_next\<rparr>)))"

definition retry_gateway :: "usb_env \<Rightarrow> conn \<Rightarrow> conn" where
  "retry_gateway env c =
     discover_port env Manual
       (upd_ctl (\<lambda>s. s\<lparr>ct_link_recovery := False\<rparr>) ((cancel_gateway_retry c)\<lparr>cn_attempt := 0\<rparr>))"

definition close_transport :: "conn \<Rightarrow> conn" where
  "close_transport c =
     upd_ctl (\<lambda>s. s\<lparr>ct_transport := False\<rparr>) (c\<lparr>cn_serial := (cn_serial c)\<lparr>se_open := False\<rparr>\<rparr>)"

text \<open>The thread \<open>schedule_reconnect\<close> starts.\<close>

definition run_reconnect :: "usb_env \<Rightarrow> conn \<Rightarrow> conn" where
  "run_reconnect env c =
     upd_ctl (\<lambda>s. s\<lparr>ct_reconnecting := False, ct_jobs := remove1 Reconnect (ct_jobs s)\<rparr>)
       (discover_port env Auto (close_transport c))"

text \<open>\<open>shutdown\<close> of the controller and of the gateway service; what it saves is in the state file theory.\<close>

definition shutdown :: "conn \<Rightarrow> conn" where
  "shutdown c =
     (if cn_shutdown c then c
      else
        let c = close_transport (cancel_gateway_retry (c\<lparr>cn_shutdown := True\<rparr>))
        in upd_ctl (\<lambda>s. s\<lparr>ct_pool := False, ct_ready := False, ct_jobs := filter (\<lambda>j. j = Reconnect) (ct_jobs s)\<rparr>) c)"

section \<open>One attempt\<close>

named_theorems conn_simps \<open>unfolding an attempt\<close>

lemmas conn_defs [conn_simps] = fresh_transport_def upd_ctl_def clear_gateway_error_def
  notify_gateway_status_def cancel_gateway_retry_def install_transport_hooks_def toast_def connected_def Let_def

definition no_exception :: "usb_env \<Rightarrow> bool" where
  "no_exception env \<longleftrightarrow> list_all (\<lambda>p. case po_open p of OpenRaises cls msg \<Rightarrow> False | _ \<Rightarrow> True) (ue_ports env)"

definition has_gateway :: "usb_env \<Rightarrow> bool" where
  "has_gateway env \<longleftrightarrow> list_ex (\<lambda>p. is_usb_port p \<and>
     (case po_open p of Answers r \<Rightarrow> take (length IDENT) r = IDENT | _ \<Rightarrow> False)) (ue_ports env)"

lemma ident_take: "take (length IDENT) (take (length IDENT + 17) r) = take (length IDENT) r"
  by simp

lemma scan_found:
  "list_all (\<lambda>p. case po_open p of OpenRaises cls msg \<Rightarrow> False | _ \<Rightarrow> True) ps \<Longrightarrow>
   fst (scan_ports ps se) = (if list_ex (\<lambda>p. is_usb_port p \<and>
     (case po_open p of Answers r \<Rightarrow> take (length IDENT) r = IDENT | _ \<Rightarrow> False)) ps then Found else NotFound) \<and>
   (fst (scan_ports ps se) = Found \<longrightarrow> se_open (snd (scan_ports ps se)))"
  by (induction ps se rule: scan_ports.induct) (auto simp: Let_def ident_take split: open_result.splits)

lemma discover_found:
  assumes "no_exception env" and "se_port se = None \<or> se_port se = Some []"
  shows "fst (discover_and_open env se) = (if has_gateway env then Found else NotFound)"
    and "fst (discover_and_open env se) = Found \<Longrightarrow> se_open (snd (discover_and_open env se))"
  using assms scan_found [of "ue_ports env" "se\<lparr>se_busy := False\<rparr>"]
  by (auto simp: discover_and_open_def no_exception_def has_gateway_def Let_def)

lemma scan_opens: "fst (scan_ports ps se) = Found \<Longrightarrow> se_open (snd (scan_ports ps se))"
  by (induction ps se rule: scan_ports.induct) (auto simp: Let_def split: open_result.splits if_splits)

lemma discover_opens: "discover_and_open env se = (Found, se') \<Longrightarrow> se_open se'"
  using scan_opens [of "ue_ports env" "se\<lparr>se_busy := False\<rparr>"]
  by (auto simp: discover_and_open_def Let_def split: option.splits if_splits open_result.splits)

definition unconfigured :: "conn \<Rightarrow> bool" where
  "unconfigured c \<longleftrightarrow> cn_option c = None \<or> cn_option c = Some []"

lemma record_fields:
  "cn_option (record_gateway_error r og k c) = cn_option c" "cn_shutdown (record_gateway_error r og k c) = cn_shutdown c"
  "cn_attempt (record_gateway_error r og k c) = cn_attempt c" "cn_serial (record_gateway_error r og k c) = cn_serial c"
  "cn_failures (record_gateway_error r og k c) = Suc (cn_failures c)"
  "cn_ctl (record_gateway_error r og k c) = (cn_ctl c)\<lparr>ct_ready := False\<rparr>"
  by (simp_all add: record_gateway_error_def schedule_gateway_retry_def conn_simps split: option.split)

lemma record_timer: "cn_timer (record_gateway_error r og k c) =
    (case next_retry (resolve_code k r c) (cn_attempt c) of
       Some d \<Rightarrow> if cn_shutdown c then cn_timer c else Some (ct_now (cn_ctl c) + d, Suc (cn_attempt c))
     | None \<Rightarrow> cn_timer c)"
  by (simp add: record_gateway_error_def schedule_gateway_retry_def resolve_code_def conn_simps split: option.split)

lemma record_error: "cn_error (record_gateway_error r og k c) =
    Some \<lparr>ge_ts = ct_now (cn_ctl c), ge_reason = r, ge_origin = og, ge_code = resolve_code k r c,
      ge_failure_count = Suc (cn_failures c), ge_next_retry_in_s = next_retry (resolve_code k r c) (cn_attempt c)\<rparr>"
  by (simp add: record_gateway_error_def schedule_gateway_retry_def resolve_code_def conn_simps split: option.split)

lemma toast_fields [simp]: "cn_ctl (toast og c) = cn_ctl c" "cn_option (toast og c) = cn_option c"
  "cn_serial (toast og c) = cn_serial c" "cn_error (toast og c) = cn_error c" "cn_failures (toast og c) = cn_failures c"
  "cn_attempt (toast og c) = cn_attempt c" "cn_timer (toast og c) = cn_timer c" "cn_shutdown (toast og c) = cn_shutdown c"
  by (simp_all add: toast_def)

text \<open>An automatic attempt without a gateway, while a lost link is being recovered.\<close>

definition recovering :: "conn \<Rightarrow> bool" where
  "recovering c \<longleftrightarrow> unconfigured c \<and> ct_link_recovery (cn_ctl c) \<and> \<not> cn_shutdown c"

lemma attempt_fails:
  assumes "recovering c" and "no_exception env" and "\<not> has_gateway env"
  shows "recovering (discover_port env og c)" "cn_attempt (discover_port env og c) = cn_attempt c"
    "ct_ready (cn_ctl (discover_port env og c)) = False"
    "cn_timer (discover_port env og c) = Some (ct_now (cn_ctl c) + GATEWAY_RETRY_BACKOFF_S ! min (cn_attempt c) 4, Suc (cn_attempt c))"
    "\<exists>e. cn_error (discover_port env og c) = Some e \<and>
       ge_next_retry_in_s e = Some (GATEWAY_RETRY_BACKOFF_S ! min (cn_attempt c) 4)"
    "ct_now (cn_ctl (discover_port env og c)) = ct_now (cn_ctl c)"
proof -
  have len: "length GATEWAY_RETRY_BACKOFF_S = 5" by (simp add: GATEWAY_RETRY_BACKOFF_S_def)
  have port: "se_port (cn_serial (fresh_transport c)) = None \<or> se_port (cn_serial (fresh_transport c)) = Some []"
    using assms(1) by (simp add: recovering_def unconfigured_def conn_simps)
  obtain se where d: "discover_and_open env (cn_serial (fresh_transport c)) = (NotFound, se)"
    using discover_found(1) [OF assms(2) port] assms(3) by (cases "discover_and_open env (cn_serial (fresh_transport c))") simp
  define c1 where "c1 = (fresh_transport c)\<lparr>cn_serial := se\<rparr>"
  have c1: "recovering c1" "cn_attempt c1 = cn_attempt c" "ct_now (cn_ctl c1) = ct_now (cn_ctl c)"
    using assms(1) by (simp_all add: c1_def recovering_def unconfigured_def conn_simps)
  have "\<exists>r k. discover_port env og c = toast og (record_gateway_error r og (Some k) c1) \<and> (k = PORT_BUSY \<or> k = NOT_FOUND)"
    using d by (auto simp: discover_port_def c1_def Let_def)
  then obtain r k where dp: "discover_port env og c = toast og (record_gateway_error r og (Some k) c1)" and k: "k = PORT_BUSY \<or> k = NOT_FOUND"
    by blast
  have "next_retry (resolve_code (Some k) r c1) (cn_attempt c1) = Some (GATEWAY_RETRY_BACKOFF_S ! min (cn_attempt c) 4)"
    using k c1 by (auto simp: next_retry_def resolve_code_def recovering_def len)
  with dp c1 show "recovering (discover_port env og c)" "cn_attempt (discover_port env og c) = cn_attempt c"
    "ct_ready (cn_ctl (discover_port env og c)) = False"
    "cn_timer (discover_port env og c) = Some (ct_now (cn_ctl c) + GATEWAY_RETRY_BACKOFF_S ! min (cn_attempt c) 4, Suc (cn_attempt c))"
    "\<exists>e. cn_error (discover_port env og c) = Some e \<and>
       ge_next_retry_in_s e = Some (GATEWAY_RETRY_BACKOFF_S ! min (cn_attempt c) 4)"
    "ct_now (cn_ctl (discover_port env og c)) = ct_now (cn_ctl c)"
    by (simp_all add: recovering_def unconfigured_def record_fields record_timer record_error)
qed

lemma attempt_succeeds:
  assumes "unconfigured c" and "no_exception env" and "has_gateway env"
  shows "ct_ready (cn_ctl (discover_port env og c)) \<and> cn_error (discover_port env og c) = None \<and>
    cn_timer (discover_port env og c) = None \<and> cn_failures (discover_port env og c) = 0 \<and> cn_attempt (discover_port env og c) = 0 \<and>
    se_open (cn_serial (discover_port env og c)) \<and> ct_hooks (cn_ctl (discover_port env og c)) \<and>
    ct_transport (cn_ctl (discover_port env og c)) \<and> \<not> ct_link_recovery (cn_ctl (discover_port env og c))"
proof -
  have port: "se_port (cn_serial (fresh_transport c)) = None \<or> se_port (cn_serial (fresh_transport c)) = Some []"
    using assms(1) by (simp add: unconfigured_def conn_simps)
  obtain se where d: "discover_and_open env (cn_serial (fresh_transport c)) = (Found, se)" and o: "se_open se"
    using discover_found [OF assms(2) port] assms(3) by (cases "discover_and_open env (cn_serial (fresh_transport c))") simp
  then show ?thesis by (simp add: discover_port_def connected_def clear_gateway_error_def notify_gateway_status_def
     cancel_gateway_retry_def upd_ctl_def install_transport_hooks_def fresh_transport_def Let_def)
qed

section \<open>What the handlers leave of the link state\<close>

definition life_of :: "ctl \<Rightarrow> (bool \<times> bool \<times> bool) \<times> (bool \<times> bool) \<times> nat" where
  "life_of s = ((ct_ready s, ct_reconnecting s, ct_link_recovery s), (ct_transport s, ct_hooks s),
     count_list (ct_jobs s) Reconnect)"

definition wired :: "ctl \<Rightarrow> ctl \<Rightarrow> bool" where
  "wired s s' \<longleftrightarrow> (ct_ready s' \<longrightarrow> ct_ready s \<and> ct_transport s' = ct_transport s \<and> ct_hooks s' = ct_hooks s)"

lemma life_basic [simp]: "life_of (upd_device i f s) = life_of s" "life_of (clear_pending_expect_if p s) = life_of s"
  "life_of (prune_auto_reassign_cache t s) = life_of s" "life_of (mark_auto_reassign m s) = life_of s"
  "life_of (spawn_auto_reassign_worker i g s) = life_of s" "life_of (s\<lparr>ct_registry := rg\<rparr>) = life_of s"
  "life_of (s\<lparr>ct_devices := ds\<rparr>) = life_of s" "life_of (s\<lparr>ct_collected := cs\<rparr>) = life_of s"
  "life_of (snd (take_pending_config h s)) = life_of s"
  by (simp_all add: life_of_def upd_device_def clear_pending_expect_if_def prune_auto_reassign_cache_def
    mark_auto_reassign_def spawn_auto_reassign_worker_def take_pending_config_def)

lemma life_ack [simp]: "life_of (handle_ack_event ev s) = life_of s"
proof -
  have "life_of (case take_pending_config h s' of (Some (opt, d0), s2) \<Rightarrow> upd_device i (apply_config_update opt d0) s2 | (None, s2) \<Rightarrow> s2) = life_of s'" for h i s'
    using life_basic(9) [of h s'] by (cases "take_pending_config h s'") (simp split: option.split)
  then show ?thesis by (simp add: handle_ack_event_def Let_def split: option.split reply.split)
qed

lemma life_valid_group [simp]: "life_of (snd (valid_stored_group i s)) = life_of s"
  by (simp add: valid_stored_group_def Let_def)

lemma life_request_restore [simp]: "life_of (request_restore i g s) = life_of s"
  by (simp add: request_restore_def Let_def case_prod_beta)

lemma life_restore [simp]: "life_of (restore_known_device_group i g k s) = life_of s"
  by (simp add: restore_known_device_group_def case_prod_beta)

lemma life_reply [simp]: "life_of (on_reply ev s) = life_of s"
proof -
  have m: "life_of (pending_try_match ev s) = life_of s" for s
    by (simp add: pending_try_match_def Let_def split: option.split)
  have i: "life_of (handle_identify ev v c g m s) = life_of s" for v c g m s
    by (simp add: handle_identify_def Let_def)
  have t: "life_of (handle_status ev s) = life_of s" for s by (auto simp: handle_status_def split: option.split)
  show ?thesis by (simp add: on_reply_def Let_def m i t split: reply.split)
qed

definition one_reconnect :: "ctl \<Rightarrow> bool" where
  "one_reconnect s \<longleftrightarrow> count_list (ct_jobs s) Reconnect = (if ct_reconnecting s then 1 else 0)"

lemma life_error: "one_reconnect s \<Longrightarrow> one_reconnect (on_gateway_error s) \<and> \<not> ct_ready (on_gateway_error s)"
  by (simp add: on_gateway_error_def schedule_reconnect_def one_reconnect_def Let_def)

lemma life_event: "one_reconnect s \<Longrightarrow> one_reconnect (on_transport_event ev s) \<and> wired s (on_transport_event ev s)"
proof (cases ev)
  case (EvReply re)
  assume "one_reconnect s"
  moreover have "life_of (on_transport_event ev s) = life_of s" using EvReply by (simp add: on_transport_event_def)
  ultimately show ?thesis by (simp add: life_of_def one_reconnect_def wired_def)
next
  case (EvState ty b n m t)
  assume "one_reconnect s"
  moreover have "life_of (on_transport_event ev s) = life_of s"
    using EvState by (simp add: on_transport_event_def pending_window_closed_def split: option.split)
  ultimately show ?thesis by (simp add: life_of_def one_reconnect_def wired_def)
qed (simp_all add: on_transport_event_def life_error wired_def)

lemma life_deliver: "one_reconnect s \<Longrightarrow> one_reconnect (deliver ev s) \<and> wired s (deliver ev s)"
  using life_event [of s ev] by (simp add: deliver_def one_reconnect_def wired_def Let_def split: option.split)

section \<open>Runs of the connection\<close>

datatype conn_op =
    Probe usb_env origin
  | FireRetry usb_env
  | UserRetry usb_env
  | GatewayEvent gw_event
  | ReconnectJob usb_env
  | Shutdown

fun conn_step :: "conn_op \<Rightarrow> conn \<Rightarrow> conn" where
  "conn_step (Probe env og) c = discover_port env og c"
| "conn_step (FireRetry env) c = fire_retry env c"
| "conn_step (UserRetry env) c = retry_gateway env c"
| "conn_step (GatewayEvent ev) c = upd_ctl (deliver ev) c"
| "conn_step (ReconnectJob env) c = (if Reconnect \<in> set (ct_jobs (cn_ctl c)) then run_reconnect env c else c)"
| "conn_step Shutdown c = shutdown c"

definition link_ok :: "conn \<Rightarrow> bool" where
  "link_ok c \<longleftrightarrow>
     (ct_ready (cn_ctl c) \<longrightarrow> cn_error c = None \<and> cn_timer c = None \<and> ct_transport (cn_ctl c) \<and> ct_hooks (cn_ctl c) \<and> se_open (cn_serial c))"

definition error_ok :: "conn \<Rightarrow> bool" where
  "error_ok c \<longleftrightarrow>
     (case cn_error c of None \<Rightarrow> cn_timer c = None | Some e \<Rightarrow> ge_failure_count e = cn_failures c) \<and>
     (case cn_timer c of None \<Rightarrow> True | Some (due, n) \<Rightarrow> \<not> cn_shutdown c \<and> n = Suc (cn_attempt c))"

definition conn_ok :: "conn \<Rightarrow> bool" where
  "conn_ok c \<longleftrightarrow> link_ok c \<and> error_ok c \<and> one_reconnect (cn_ctl c)"

lemma upd_ctl_fields [simp]: "cn_ctl (upd_ctl f c) = f (cn_ctl c)" "cn_option (upd_ctl f c) = cn_option c"
  "cn_serial (upd_ctl f c) = cn_serial c" "cn_error (upd_ctl f c) = cn_error c" "cn_failures (upd_ctl f c) = cn_failures c"
  "cn_attempt (upd_ctl f c) = cn_attempt c" "cn_timer (upd_ctl f c) = cn_timer c" "cn_shutdown (upd_ctl f c) = cn_shutdown c"
  by (simp_all add: upd_ctl_def)

lemma count_remove1: "count_list (remove1 x xs) x = count_list xs x - 1"
  by (induction xs) auto

lemma discover_jobs: "ct_jobs (cn_ctl (discover_port env og c)) = ct_jobs (cn_ctl c) \<and>
    ct_reconnecting (cn_ctl (discover_port env og c)) = ct_reconnecting (cn_ctl c)"
proof -
  obtain res se where d: "discover_and_open env (cn_serial (fresh_transport c)) = (res, se)" by fastforce
  have f: "cn_ctl (fresh_transport c) = (cn_ctl c)\<lparr>ct_hooks := False, ct_transport := True\<rparr>" by (simp add: fresh_transport_def)
  have n: "ct_jobs (cn_ctl (connected og c')) = ct_jobs (cn_ctl c') \<and> ct_reconnecting (cn_ctl (connected og c')) = ct_reconnecting (cn_ctl c')" for c'
    by (simp add: connected_def clear_gateway_error_def cancel_gateway_retry_def notify_gateway_status_def install_transport_hooks_def Let_def)
  show ?thesis using d n f by (cases res) (simp_all add: discover_port_def record_fields Let_def)
qed

lemma connected_ok:
  assumes "se_open (cn_serial c)" and "ct_transport (cn_ctl c)" and "one_reconnect (cn_ctl c)"
  shows "conn_ok (connected og c)"
  using assms
  by (auto simp: connected_def clear_gateway_error_def cancel_gateway_retry_def notify_gateway_status_def Let_def conn_ok_def link_ok_def
      error_ok_def one_reconnect_def install_transport_hooks_def)

lemma recorded_ok:
  assumes "error_ok c" and "one_reconnect (cn_ctl c)"
  shows "conn_ok (toast og (record_gateway_error r og k c))"
  using assms
  by (auto simp: conn_ok_def link_ok_def error_ok_def one_reconnect_def record_fields record_timer record_error split: option.splits)

lemma discover_ok:
  assumes "error_ok c" and "one_reconnect (cn_ctl c)"
  shows "conn_ok (discover_port env og c)"
proof -
  obtain res se where d: "discover_and_open env (cn_serial (fresh_transport c)) = (res, se)" by fastforce
  define c1 where "c1 = (fresh_transport c)\<lparr>cn_serial := se\<rparr>"
  have c1: "error_ok c1" "one_reconnect (cn_ctl c1)" "ct_transport (cn_ctl c1)" "cn_serial c1 = se"
    using assms by (auto simp: c1_def fresh_transport_def upd_ctl_def error_ok_def one_reconnect_def split: option.splits)
  have "se_open se" if "res = Found" using d that discover_opens by simp
  then have "conn_ok (connected og c1)" if "res = Found" using that c1 connected_ok by simp
  then show ?thesis
    using d recorded_ok [OF c1(1,2)] by (cases res) (simp_all add: discover_port_def c1_def [symmetric] Let_def)
qed

lemma step_ok: "conn_ok c \<Longrightarrow> conn_ok (conn_step op c)"
proof (cases op)
  case (Probe env og)
  assume "conn_ok c"
  with Probe discover_ok [of c env og] show ?thesis by (simp add: conn_ok_def)
next
  case (FireRetry env)
  assume c: "conn_ok c"
  show ?thesis
  proof (cases "cn_timer c")
    case None
    with c FireRetry show ?thesis by (simp add: fire_retry_def)
  next
    case (Some t)
    obtain due n where t: "t = (due, n)" by fastforce
    have "error_ok (upd_ctl (\<lambda>s. s\<lparr>ct_now := max (ct_now s) due\<rparr>) (c\<lparr>cn_timer := None, cn_attempt := n\<rparr>))"
      using c by (auto simp: conn_ok_def error_ok_def split: option.splits)
    then have "conn_ok (discover_port env Auto (upd_ctl (\<lambda>s. s\<lparr>ct_now := max (ct_now s) due\<rparr>) (c\<lparr>cn_timer := None, cn_attempt := n\<rparr>)))"
      by (rule discover_ok) (use c in \<open>simp add: conn_ok_def one_reconnect_def\<close>)
    with Some t FireRetry c show ?thesis
      by (auto simp: fire_retry_def Let_def conn_ok_def link_ok_def error_ok_def split: option.splits)
  qed
next
  case (UserRetry env)
  assume "conn_ok c"
  then have "error_ok (upd_ctl (\<lambda>s. s\<lparr>ct_link_recovery := False\<rparr>) ((cancel_gateway_retry c)\<lparr>cn_attempt := 0\<rparr>))"
      "one_reconnect (cn_ctl (upd_ctl (\<lambda>s. s\<lparr>ct_link_recovery := False\<rparr>) ((cancel_gateway_retry c)\<lparr>cn_attempt := 0\<rparr>)))"
    by (auto simp: conn_ok_def error_ok_def one_reconnect_def cancel_gateway_retry_def split: option.splits)
  with UserRetry show ?thesis by (simp add: retry_gateway_def discover_ok)
next
  case (GatewayEvent ev)
  assume "conn_ok c"
  then show ?thesis
    using GatewayEvent life_deliver [of "cn_ctl c" ev] by (auto simp: conn_ok_def link_ok_def error_ok_def wired_def split: option.splits)
next
  case (ReconnectJob env)
  assume c: "conn_ok c"
  then have e: "error_ok (close_transport c)" "one_reconnect (cn_ctl (close_transport c))"
    by (auto simp: close_transport_def upd_ctl_def conn_ok_def error_ok_def one_reconnect_def split: option.splits)
  have j: "ct_jobs (cn_ctl (discover_port env Auto (close_transport c))) = ct_jobs (cn_ctl c)"
    "ct_reconnecting (cn_ctl (discover_port env Auto (close_transport c))) = ct_reconnecting (cn_ctl c)"
    using discover_jobs [of env Auto "close_transport c"] by (simp_all add: close_transport_def)
  show ?thesis
  proof (cases "Reconnect \<in> set (ct_jobs (cn_ctl c))")
    case True
    have "count_list (ct_jobs (cn_ctl c)) Reconnect = 1"
      using c True by (auto simp: conn_ok_def one_reconnect_def count_list_0_iff split: if_splits)
    then have "count_list (remove1 Reconnect (ct_jobs (cn_ctl c))) Reconnect = 0" by (simp add: count_remove1)
    with discover_ok [OF e, of env Auto] j True ReconnectJob show ?thesis
      by (auto simp: run_reconnect_def conn_ok_def link_ok_def error_ok_def one_reconnect_def split: option.splits)
  qed (use c ReconnectJob in simp)
next
  case Shutdown
  assume c: "conn_ok c"
  have "count_list (filter (\<lambda>j. j = Reconnect) js) Reconnect = count_list js Reconnect" for js
    by (induction js) auto
  with c Shutdown show ?thesis
    by (auto simp: shutdown_def Let_def close_transport_def cancel_gateway_retry_def conn_ok_def link_ok_def error_ok_def
        one_reconnect_def split: option.splits)
qed


section \<open>Polling for a lost gateway\<close>

lemma backoff_le: "GATEWAY_RETRY_BACKOFF_S ! min k 4 \<le> 30"
proof -
  have "min k 4 \<in> {0, 1, 2, 3, 4 :: nat}" by auto
  then show ?thesis by (auto simp: GATEWAY_RETRY_BACKOFF_S_def)
qed

lemma fire_recovering:
  assumes "recovering c" and "cn_timer c = Some (due, n)"
  shows "fire_retry env c = discover_port env Auto
      (upd_ctl (\<lambda>s. s\<lparr>ct_now := max (ct_now s) due\<rparr>) (c\<lparr>cn_timer := None, cn_attempt := n\<rparr>))"
    and "recovering (upd_ctl (\<lambda>s. s\<lparr>ct_now := max (ct_now s) due\<rparr>) (c\<lparr>cn_timer := None, cn_attempt := n\<rparr>))"
  using assms by (simp_all add: fire_retry_def recovering_def unconfigured_def)

definition gateway_absent :: "usb_env \<Rightarrow> bool" where
  "gateway_absent env \<longleftrightarrow> no_exception env \<and> \<not> has_gateway env"

definition gateway_present :: "usb_env \<Rightarrow> bool" where
  "gateway_present env \<longleftrightarrow> no_exception env \<and> has_gateway env"

lemma polling_step:
  assumes "recovering c" and "cn_timer c = Some (due, n)" and "gateway_absent env"
  shows "recovering (fire_retry env c) \<and> \<not> ct_ready (cn_ctl (fire_retry env c)) \<and>
    ct_now (cn_ctl (fire_retry env c)) = max (ct_now (cn_ctl c)) due \<and>
    cn_timer (fire_retry env c) =
      Some (max (ct_now (cn_ctl c)) due + GATEWAY_RETRY_BACKOFF_S ! min n 4, Suc n)"
  unfolding fire_recovering(1) [OF assms(1,2)]
  using attempt_fails [OF fire_recovering(2) [OF assms(1,2)], of env Auto] assms(3)
  by (simp add: gateway_absent_def)

lemma polling:
  assumes "recovering c" and "cn_timer c = Some (due, n)" and "list_all gateway_absent envs"
  shows "\<exists>due'. recovering (fold fire_retry envs c) \<and>
    cn_timer (fold fire_retry envs c) = Some (due', n + length envs) \<and>
    max (ct_now (cn_ctl (fold fire_retry envs c))) due' \<le> max (ct_now (cn_ctl c)) due + 30 * of_nat (length envs)"
  using assms
proof (induction envs arbitrary: c due n)
  case Nil
  then show ?case by simp
next
  case (Cons env envs)
  let ?d = "fire_retry env c" and ?due = "max (ct_now (cn_ctl c)) due + GATEWAY_RETRY_BACKOFF_S ! min n 4"
  have p: "recovering ?d" "ct_now (cn_ctl ?d) = max (ct_now (cn_ctl c)) due" "cn_timer ?d = Some (?due, Suc n)"
    using polling_step [OF Cons.prems(1,2)] Cons.prems(3) by simp_all
  have le: "max (ct_now (cn_ctl ?d)) ?due \<le> max (ct_now (cn_ctl c)) due + 30"
    using backoff_le [of n] by (simp add: p(2))
  obtain due' where "recovering (fold fire_retry envs ?d)"
    "cn_timer (fold fire_retry envs ?d) = Some (due', Suc n + length envs)"
    "max (ct_now (cn_ctl (fold fire_retry envs ?d))) due' \<le> max (ct_now (cn_ctl ?d)) ?due + 30 * of_nat (length envs)"
    using Cons.IH [OF p(1,3)] Cons.prems(3) by auto
  moreover from this(3) le have "max (ct_now (cn_ctl (fold fire_retry envs ?d))) due' \<le>
      max (ct_now (cn_ctl c)) due + 30 * of_nat (length (env # envs))"
    by (simp only: length_Cons of_nat_Suc distrib_left mult_1_right)
  ultimately show ?case by (intro exI [of _ due']) simp
qed

lemma discover_now: "ct_now (cn_ctl (discover_port env og c)) = ct_now (cn_ctl c)"
proof -
  obtain res se where d: "discover_and_open env (cn_serial (fresh_transport c)) = (res, se)" by fastforce
  show ?thesis using d
    by (cases res) (simp_all add: discover_port_def record_fields connected_def clear_gateway_error_def
      cancel_gateway_retry_def notify_gateway_status_def install_transport_hooks_def fresh_transport_def Let_def)
qed


section \<open>Two runs of the code\<close>

text \<open>A controller that has never had a gateway, and what the operating system shows it.\<close>

definition boot_ctl :: ctl where
  "boot_ctl =
     \<lparr>ct_devices = [], ct_groups = [], ct_transport = False, ct_hooks = False, ct_ready = False,
      ct_discovery = False, ct_registry = empty_registry, ct_expect = None, ct_pending_config = [],
      ct_last_error_notify = 0, ct_notices = 0, ct_reconnecting = False, ct_last_reconnect = 0,
      ct_link_recovery = False, ct_reassign_recent = [], ct_pool = True, ct_jobs = [], ct_listener = None,
      ct_collected = [], ct_sent = [], ct_now = 100, ct_incoming = [], ct_tx = (\<lambda>k. None), ct_sends = 0\<rparr>"

definition boot_conn :: "string option \<Rightarrow> conn" where
  "boot_conn option =
     \<lparr>cn_ctl = boot_ctl, cn_option = option,
      cn_serial = \<lparr>se_port = None, se_mac = None, se_busy = False, se_open = False\<rparr>,
      cn_error = None, cn_failures = 0, cn_attempt = 0, cn_timer = None, cn_shutdown = False, cn_pushes = 0, cn_toasts = 0\<rparr>"

definition ttyACM0 :: "open_result \<Rightarrow> port_info" where
  "ttyACM0 answer = \<lparr>po_device = ''/dev/ttyACM0'', po_usb_ids = True, po_description = ''RaceLink'', po_open = answer\<rparr>"

definition gateway_answer :: open_result where
  "gateway_answer = Answers (IDENT @ map (\<lambda>c. of_nat (of_char c)) ''AA:BB:CC:DD:EE:FF'')"

definition unplugged_env :: usb_env where
  "unplugged_env = \<lparr>ue_ports = [],
     ue_configured = (\<lambda>port. OpenFails (''[Errno 2] could not open port '' @ port @ '': [Errno 2] No such file or directory''))\<rparr>"

definition plugged_env :: usb_env where
  "plugged_env = \<lparr>ue_ports = [ttyACM0 gateway_answer], ue_configured = (\<lambda>port. gateway_answer)\<rparr>"

definition lost_conn :: conn where
  "lost_conn = discover_port unplugged_env Auto
     (upd_ctl (\<lambda>s. s\<lparr>ct_link_recovery := True\<rparr>) (discover_port plugged_env Auto (boot_conn None)))"

lemma plugged: "gateway_present plugged_env" "gateway_absent unplugged_env" by code_simp+

lemma boot_ok: "conn_ok (boot_conn option)"
  by (simp add: boot_conn_def boot_ctl_def conn_ok_def link_ok_def error_ok_def one_reconnect_def)

lemma lost_facts: "recovering lost_conn" "cn_timer lost_conn = Some (102, 1)"
  by code_simp+


text \<open>
  C11.  The state of the gateway link is consistent in every run.  Whatever probes, timer expiries, manual
  retries, transport events, reconnect jobs and shutdowns happen and in whatever order: a ready link has an
  open port, a transport with its hooks and neither an error nor an armed retry; an armed retry belongs to a
  recorded error, stores the next attempt number and is never armed after shutdown; the recorded error carries the failure
  count; and there is exactly one reconnect job when a reconnect is in progress, none otherwise.
\<close>

theorem connection_invariant: "conn_ok c \<Longrightarrow> conn_ok (fold conn_step ops c)"
  by (induction ops arbitrary: c) (simp_all add: step_ok)

lemma connection_invariant_witness:
  "conn_ok (fold conn_step [Probe unplugged_env Auto, UserRetry plugged_env, GatewayEvent EvDisconnected,
     ReconnectJob unplugged_env, FireRetry plugged_env, Shutdown] (boot_conn None))"
  by (rule connection_invariant [OF boot_ok])

text \<open>
  A configured port that is unplugged is never polled for.  When the configured port does not open and
  the text is not one of the known ones, the attempt is recorded as a host error without a retry; no timer
  is armed, even while a lost link is being recovered, and no timer expiry changes anything any more.
\<close>

theorem configured_port_gives_up:
  assumes "cn_option c = Some port" and "port \<noteq> []" and "ue_configured env port = OpenFails msg"
    and "\<not> busy_message msg" and "classify_gateway_error (serial_exception msg) = HOST_ERROR" and "cn_timer c = None"
  shows "let d = discover_port env og c in
    \<not> ct_ready (cn_ctl d) \<and> cn_timer d = None \<and>
    (\<exists>e. cn_error d = Some e \<and> ge_code e = HOST_ERROR \<and> ge_next_retry_in_s e = None) \<and>
    ct_link_recovery (cn_ctl d) = ct_link_recovery (cn_ctl c) \<and>
    (\<forall>envs. fold fire_retry envs d = d)"
proof -
  have d: "discover_port env og c =
    toast og (record_gateway_error (serial_exception msg) og None
      ((fresh_transport c)\<lparr>cn_serial := \<lparr>se_port = Some port, se_mac = None, se_busy = False, se_open = False\<rparr>\<rparr>))"
    using assms(1-4) by (simp add: discover_port_def discover_and_open_def fresh_transport_def upd_ctl_def Let_def)
  have t: "cn_timer (discover_port env og c) = None"
    using assms(5,6) by (simp add: d record_timer resolve_code_def next_retry_def fresh_transport_def upd_ctl_def)
  have "fold fire_retry envs w = w" if "cn_timer w = None" for envs w
    using that by (induction envs) (simp_all add: fire_retry_def)
  with t have "\<forall>envs. fold fire_retry envs (discover_port env og c) = discover_port env og c" by blast
  then show ?thesis
    using t assms(5) by (simp add: Let_def d record_fields record_error resolve_code_def next_retry_def fresh_transport_def)
qed

lemma configured_port_gives_up_witness:
  "let d = discover_port unplugged_env Auto (upd_ctl (\<lambda>s. s\<lparr>ct_link_recovery := True\<rparr>) (boot_conn (Some ''/dev/ttyACM0''))) in
    ct_link_recovery (cn_ctl d) \<and> (\<forall>envs. fold fire_retry envs d = d)"
proof -
  let ?c = "upd_ctl (\<lambda>s. s\<lparr>ct_link_recovery := True\<rparr>) (boot_conn (Some ''/dev/ttyACM0''))"
  let ?m = "''[Errno 2] could not open port '' @ ''/dev/ttyACM0'' @ '': [Errno 2] No such file or directory''"
  have m: "\<not> busy_message ?m" "classify_gateway_error (serial_exception ?m) = HOST_ERROR" by code_simp+
  have c: "cn_option ?c = Some ''/dev/ttyACM0''" "cn_timer ?c = None" "ct_link_recovery (cn_ctl ?c)"
    by (simp_all add: boot_conn_def)
  have u: "ue_configured unplugged_env ''/dev/ttyACM0'' = OpenFails ?m" by (simp only: unplugged_env_def usb_env.simps)
  show ?thesis using configured_port_gives_up [OF c(1) _ u m c(2), of Auto] c(3) by (simp add: Let_def)
qed

text \<open>
  A first probe that finds no gateway is not retried, but one failing send starts the polling.  The
  unsuccessful probe leaves a transport behind; a send over it raises the error event, which
  schedules a reconnect and marks the link as lost, so that the reconnect records LINK_LOST with a retry
  although no connection was ever established.
\<close>

theorem failed_probe_polled:
  assumes "unconfigured c" and "\<not> ct_link_recovery (cn_ctl c)" and "cn_timer c = None" and "\<not> cn_shutdown c"
    and "\<not> ct_reconnecting (cn_ctl c)" and "5 \<le> ct_now (cn_ctl c) - ct_last_reconnect (cn_ctl c)"
    and "ue_ports env = []"
  shows "let d = discover_port env Auto c;
             e = run_reconnect env (upd_ctl (\<lambda>s. deliver EvDisconnected (install_transport_hooks s)) d) in
    cn_timer d = None \<and> ct_transport (cn_ctl d) \<and> (\<exists>x. cn_error d = Some x \<and> ge_code x = NOT_FOUND) \<and>
    cn_timer e = Some (ct_now (cn_ctl c) + GATEWAY_RETRY_BACKOFF_S ! min (cn_attempt c) 4, Suc (cn_attempt c)) \<and>
    (\<exists>x. cn_error e = Some x \<and> ge_code x = LINK_LOST)"
proof -
  have env: "no_exception env" "\<not> has_gateway env" using assms(7) by (simp_all add: no_exception_def has_gateway_def)
  have len: "length GATEWAY_RETRY_BACKOFF_S = 5" by (simp add: GATEWAY_RETRY_BACKOFF_S_def)
  define d where "d = discover_port env Auto c"
  have d: "d = record_gateway_error NOT_FOUND_REASON Auto (Some NOT_FOUND)
     ((fresh_transport c)\<lparr>cn_serial := \<lparr>se_port = cn_option c, se_mac = None, se_busy = False, se_open = False\<rparr>\<rparr>)"
    using assms(1,7) by (auto simp: d_def discover_port_def discover_and_open_def fresh_transport_def upd_ctl_def
        unconfigured_def toast_def Let_def)
  have dd: "cn_timer d = None" "ct_transport (cn_ctl d)" "\<exists>x. cn_error d = Some x \<and> ge_code x = NOT_FOUND"
    "cn_ctl d = (cn_ctl c)\<lparr>ct_hooks := False, ct_transport := True, ct_ready := False\<rparr>" "cn_attempt d = cn_attempt c"
    "cn_shutdown d = cn_shutdown c" "unconfigured d"
    using assms(1-3) by (simp_all add: d record_fields record_timer record_error resolve_code_def next_retry_def
        fresh_transport_def upd_ctl_def unconfigured_def)
  define c2 where "c2 = upd_ctl (\<lambda>s. deliver EvDisconnected (install_transport_hooks s)) d"
  have s: "ct_link_recovery (deliver EvDisconnected (install_transport_hooks (cn_ctl d)))"
    "ct_now (deliver EvDisconnected (install_transport_hooks (cn_ctl d))) = ct_now (cn_ctl c)"
    using assms(5,6) dd(2)
    by (auto simp: dd(4) deliver_def install_transport_hooks_def on_transport_event_def on_gateway_error_def schedule_reconnect_def
        Let_def split: option.split)
  have c2: "recovering (close_transport c2)" "cn_attempt (close_transport c2) = cn_attempt c"
    "ct_now (cn_ctl (close_transport c2)) = ct_now (cn_ctl c)"
    using s dd(5-7) assms(4) by (simp_all add: c2_def close_transport_def recovering_def unconfigured_def)
  note f = attempt_fails [OF c2(1) env, of Auto]
  have code: "\<exists>x. cn_error (discover_port env Auto (close_transport c2)) = Some x \<and> ge_code x = LINK_LOST"
    using c2(1) assms(7)
    by (auto simp: recovering_def unconfigured_def discover_port_def discover_and_open_def fresh_transport_def upd_ctl_def
        record_error resolve_code_def toast_def Let_def)
  show ?thesis
    using f(4) code dd(1-3) c2(2,3)
    by (simp add: Let_def d_def [symmetric] c2_def [symmetric] run_reconnect_def)
qed

lemma failed_probe_polled_witness:
  "cn_timer (discover_port unplugged_env Auto (boot_conn None)) = None \<and>
   cn_timer (run_reconnect unplugged_env (upd_ctl (\<lambda>s. deliver EvDisconnected (install_transport_hooks s))
     (discover_port unplugged_env Auto (boot_conn None)))) = Some (102, 1)"
  using failed_probe_polled [of "boot_conn None" unplugged_env]
  by (simp add: Let_def boot_conn_def boot_ctl_def unconfigured_def unplugged_env_def GATEWAY_RETRY_BACKOFF_S_def)

text \<open>
  A reconnect that is under way when the controller shuts down opens the gateway again.  The reconnect
  job does not ask whether the controller was shut down: after it the port is open, the transport hooks
  are installed and the controller is ready, with the shutdown flag still set.
\<close>

theorem reconnect_after_shutdown:
  assumes "\<not> cn_shutdown c" and "unconfigured c" and "Reconnect \<in> set (ct_jobs (cn_ctl c))" and "gateway_present env"
  shows "let d = shutdown c; e = conn_step (ReconnectJob env) d in
    cn_shutdown d \<and> \<not> ct_ready (cn_ctl d) \<and> \<not> se_open (cn_serial d) \<and>
    cn_shutdown e \<and> ct_ready (cn_ctl e) \<and> se_open (cn_serial e) \<and> ct_hooks (cn_ctl e)"
proof -
  let ?d = "shutdown c"
  have d: "cn_shutdown ?d" "\<not> ct_ready (cn_ctl ?d)" "\<not> se_open (cn_serial ?d)" "Reconnect \<in> set (ct_jobs (cn_ctl ?d))"
    "unconfigured (close_transport ?d)" "cn_shutdown (close_transport ?d)"
    using assms(1-3) by (simp_all add: shutdown_def close_transport_def cancel_gateway_retry_def unconfigured_def Let_def)
  have sh: "cn_shutdown (discover_port env og x) = cn_shutdown x" for og x
  proof -
    obtain res se where r: "discover_and_open env (cn_serial (fresh_transport x)) = (res, se)" by fastforce
    show ?thesis using r
      by (cases res) (simp_all add: discover_port_def record_fields connected_def clear_gateway_error_def
        cancel_gateway_retry_def notify_gateway_status_def fresh_transport_def Let_def)
  qed
  show ?thesis
    using attempt_succeeds [OF d(5), of env Auto] assms(4) d
    by (simp add: Let_def run_reconnect_def gateway_present_def sh)
qed

lemma reconnect_after_shutdown_witness:
  "let c = upd_ctl (deliver EvDisconnected) (discover_port plugged_env Auto (boot_conn None)) in
   ct_ready (cn_ctl (conn_step (ReconnectJob plugged_env) (shutdown c)))"
proof -
  let ?c = "upd_ctl (deliver EvDisconnected) (discover_port plugged_env Auto (boot_conn None))"
  have "\<not> cn_shutdown ?c" "unconfigured ?c" "Reconnect \<in> set (ct_jobs (cn_ctl ?c))" by code_simp+
  then show ?thesis using reconnect_after_shutdown [of ?c plugged_env] plugged by (simp add: Let_def)
qed
end
