(* ===== verification/Web_Live.thy ===== *)
theory Web_Live
  imports Connection
begin

text \<open>
  The live part of the web layer: the mirrored gateway state, the fan-out to the browsers and the hook on
  the transport of \<^verbatim>\<open>racelink/web/sse.py\<close>, and the task manager of
  \<^verbatim>\<open>racelink/web/tasks.py\<close>.  A queue either takes a message or raises; the thread
  of a task is the pair of its first and its last step, which other steps may separate.
\<close>

section \<open>State\<close>

text \<open>An error text: decoded from the bytes of an error frame, of a lost port, or of an exception.\<close>

datatype err = ErrBytes "byte list" | ErrDisconnected | ErrText string

record master =
  ms_state :: string
  ms_state_byte :: int
  ms_metadata_ms :: int
  ms_last_event :: "string option"
  ms_last_event_ts :: rat
  ms_last_error :: "err option"

datatype task_state = Running | Done | Failed

record task =
  tk_id :: nat
  tk_name :: string
  tk_state :: task_state
  tk_started_ts :: rat
  tk_ended_ts :: "rat option"
  tk_meta :: pydict
  tk_rx_replies :: nat
  tk_rx_window_events :: nat
  tk_rx_count_delta_total :: nat
  tk_last_error :: "err option"
  tk_result :: "pyval option"

datatype message = MsgMaster master | MsgTask "task option" | MsgRefresh "string list"

text \<open>
  \<open>wb_accepts\<close> says which queues take a message; \<open>wb_hooked\<close> is the flag of the bridge,
  \<open>wb_listens\<close> the transport object it is hooked on.
\<close>

record web =
  wb_clients :: "(nat \<times> message list) list"
  wb_accepts :: "nat \<Rightarrow> bool"
  wb_master :: master
  wb_hooked :: bool
  wb_listens :: "nat option"
  wb_task :: "task option"
  wb_task_seq :: nat

definition master_init :: master where
  "master_init = \<lparr>ms_state = ''UNKNOWN'', ms_state_byte = GATEWAY_STATE_UNKNOWN, ms_metadata_ms = 0,
     ms_last_event = None, ms_last_event_ts = 0, ms_last_error = None\<rparr>"

definition broadcast :: "message \<Rightarrow> web \<Rightarrow> web" where
  "broadcast m w =
     w\<lparr>wb_clients := map (\<lambda>(q, ms). (q, ms @ [m])) (filter (\<lambda>(q, ms). wb_accepts w q) (wb_clients w))\<rparr>"

definition add_client :: "nat \<Rightarrow> web \<Rightarrow> web" where
  "add_client q w = w\<lparr>wb_clients := wb_clients w @ [(q, [MsgMaster (wb_master w), MsgTask (wb_task w)])]\<rparr>"

definition drop_client :: "nat \<Rightarrow> web \<Rightarrow> web" where
  "drop_client q w = w\<lparr>wb_clients := filter (\<lambda>(q', ms). q' \<noteq> q) (wb_clients w)\<rparr>"

section \<open>The mirrored gateway state\<close>

definition master_set :: "rat \<Rightarrow> (master \<Rightarrow> master) \<Rightarrow> web \<Rightarrow> web" where
  "master_set now f w =
     (if f (wb_master w) = wb_master w then w
      else let m = (f (wb_master w))\<lparr>ms_last_event_ts := now\<rparr> in broadcast (MsgMaster m) (w\<lparr>wb_master := m\<rparr>))"

definition note_event :: "string \<Rightarrow> master \<Rightarrow> master" where
  "note_event name m = m\<lparr>ms_last_event := Some name\<rparr>"

definition apply_gateway_state :: "rat \<Rightarrow> int \<Rightarrow> int \<Rightarrow> string \<Rightarrow> web \<Rightarrow> web" where
  "apply_gateway_state now state_byte metadata_ms source_event =
     (let sb = state_byte AND 255; meta = metadata_ms AND 65535 in
      master_set now (\<lambda>m. note_event source_event (m\<lparr>ms_state := (case map_of GATEWAY_STATE_NAME sb of Some n \<Rightarrow> n | None \<Rightarrow> ''UNKNOWN''),
        ms_state_byte := sb, ms_metadata_ms := (if sb = GATEWAY_STATE_RX_WINDOW then meta else 0), ms_last_error := None\<rparr>)))"

section \<open>Tasks\<close>

definition task_is_running :: "web \<Rightarrow> bool" where
  "task_is_running w = (case wb_task w of None \<Rightarrow> False | Some t \<Rightarrow> tk_state t = Running)"

definition task_update :: "(task \<Rightarrow> task) \<Rightarrow> web \<Rightarrow> web" where
  "task_update f w =
     (case wb_task w of
        None \<Rightarrow> w
      | Some t \<Rightarrow> let w = w\<lparr>wb_task := Some (f t)\<rparr> in broadcast (MsgTask (wb_task w)) w)"

text \<open>\<open>start\<close>: the new task, or \<open>None\<close> while another runs.\<close>

definition task_start :: "string \<Rightarrow> pydict \<Rightarrow> rat \<Rightarrow> web \<Rightarrow> nat option \<times> web" where
  "task_start name meta now w =
     (if task_is_running w then (None, w)
      else
        let n = Suc (wb_task_seq w);
            t = \<lparr>tk_id = n, tk_name = name, tk_state = Running, tk_started_ts = now, tk_ended_ts = None, tk_meta = meta,
                 tk_rx_replies = 0, tk_rx_window_events = 0, tk_rx_count_delta_total = 0, tk_last_error = None, tk_result = None\<rparr>
        in (Some n, broadcast (MsgTask (Some t)) (w\<lparr>wb_task_seq := n, wb_task := Some t\<rparr>)))"

definition runner_begin :: "string \<Rightarrow> rat \<Rightarrow> web \<Rightarrow> web" where
  "runner_begin name now = master_set now (note_event (''TASK_'' @ upper name @ ''_START''))"

text \<open>The end of the thread: the value of the function, or the text of its exception.\<close>

definition runner_end :: "string \<Rightarrow> string + pyval \<Rightarrow> rat \<Rightarrow> web \<Rightarrow> web" where
  "runner_end name outcome now w =
     (case outcome of
        Inr result \<Rightarrow>
          broadcast (MsgRefresh [''groups'', ''devices''])
            (master_set now (note_event (''TASK_'' @ upper name @ ''_DONE''))
              (task_update (\<lambda>t. t\<lparr>tk_state := Done, tk_ended_ts := Some now, tk_result := Some result\<rparr>) w))
      | Inl text \<Rightarrow>
          master_set now (\<lambda>m. (note_event (''TASK_'' @ upper name @ ''_ERROR'') m)\<lparr>ms_last_error := Some (ErrText text)\<rparr>)
            (task_update (\<lambda>t. t\<lparr>tk_state := Failed, tk_ended_ts := Some now, tk_last_error := Some (ErrText text)\<rparr>) w))"

section \<open>Events of the transport\<close>

definition web_error :: "rat \<Rightarrow> err \<Rightarrow> web \<Rightarrow> web" where
  "web_error now e w =
     (let w = master_set now (\<lambda>m. (note_event ''USB_ERROR'' m)\<lparr>ms_last_error := Some e\<rparr>) w
      in if task_is_running w then task_update (\<lambda>t. t\<lparr>tk_last_error := Some e\<rparr>) w else w)"

text \<open>The replies the bridge knows by name; the codec gives the first three to their structured replies.\<close>

definition reply_name :: "reply \<Rightarrow> string" where
  "reply_name r =
     (case r of
        IdentifyReply v c g m \<Rightarrow> ''IDENTIFY_REPLY'' | IdentifyRaw b \<Rightarrow> ''IDENTIFY_REPLY''
      | StatusReply fl cfg eff bri vb rs sn \<Rightarrow> ''STATUS_REPLY'' | StatusRaw b \<Rightarrow> ''STATUS_REPLY''
      | Ack a st sq \<Rightarrow> ''ACK'' | AckRaw b \<Rightarrow> ''ACK''
      | OtherReply name b \<Rightarrow> name)"

definition count_reply :: "string \<Rightarrow> web \<Rightarrow> web" where
  "count_reply reply w =
     (if task_is_running w \<and>
         (map_option tk_name (wb_task w) = Some ''discover'' \<and> reply = ''IDENTIFY_REPLY'' \<or>
          map_option tk_name (wb_task w) = Some ''status'' \<and> reply = ''STATUS_REPLY'')
      then task_update (\<lambda>t. t\<lparr>tk_rx_replies := Suc (tk_rx_replies t)\<rparr>) w else w)"

definition web_event :: "rat \<Rightarrow> gw_event \<Rightarrow> web \<Rightarrow> web" where
  "web_event now ev w =
     (case ev of
        EvState ty state_byte name ms ts \<Rightarrow>
          let w = apply_gateway_state now state_byte ms
                    (if ty = EV_STATE_REPORT then ''STATE_REPORT'' else ''STATE_CHANGED'') w
          in if task_is_running w \<and> state_byte = GATEWAY_STATE_RX_WINDOW
             then task_update (\<lambda>t. t\<lparr>tk_rx_window_events := Suc (tk_rx_window_events t)\<rparr>) w else w
      | EvTxDone n ts \<Rightarrow> master_set now (\<lambda>m. (note_event ''TX_DONE'' m)\<lparr>ms_last_error := None\<rparr>) w
      | EvTxRejected ty reason name ts \<Rightarrow>
          master_set now (\<lambda>m. (note_event (''TX_REJECTED ('' @ name @ '')'') m)\<lparr>ms_last_error := None\<rparr>) w
      | EvError data ts \<Rightarrow> web_error now (ErrBytes data) w
      | EvDisconnected \<Rightarrow> web_error now ErrDisconnected w
      | EvReply re \<Rightarrow>
          let reply = reply_name (re_reply re) in
          if reply = [] then w
          else let
              w = (if wb_clients w \<noteq> [] \<and> reply \<in> {''ACK'', ''STATUS_REPLY'', ''IDENTIFY_REPLY''}
                   then broadcast (MsgRefresh [''devices'']) w else w);
              w = count_reply reply w
          in master_set now (\<lambda>m. (note_event reply m)\<lparr>ms_last_error := None\<rparr>) w)"


section \<open>One task at a time\<close>

lemma broadcast_fields [simp]: "wb_task (broadcast m w) = wb_task w" "wb_task_seq (broadcast m w) = wb_task_seq w"
  "wb_master (broadcast m w) = wb_master w" "wb_hooked (broadcast m w) = wb_hooked w"
  "wb_listens (broadcast m w) = wb_listens w" "wb_accepts (broadcast m w) = wb_accepts w"
  by (simp_all add: broadcast_def)

lemma master_set_fields [simp]: "wb_task (master_set now f w) = wb_task w" "wb_task_seq (master_set now f w) = wb_task_seq w"
  "wb_hooked (master_set now f w) = wb_hooked w" "wb_listens (master_set now f w) = wb_listens w"
  by (simp_all add: master_set_def Let_def)

lemma apply_gateway_fields [simp]: "wb_task (apply_gateway_state now sb ms src w) = wb_task w"
  "wb_task_seq (apply_gateway_state now sb ms src w) = wb_task_seq w"
  by (simp_all add: apply_gateway_state_def Let_def)

lemma task_update_fields [simp]: "wb_task (task_update f w) = map_option f (wb_task w)"
  "wb_task_seq (task_update f w) = wb_task_seq w"
  by (simp_all add: task_update_def Let_def split: option.split)

definition identity :: "task option \<Rightarrow> (nat \<times> string \<times> task_state) option" where
  "identity t = map_option (\<lambda>t. (tk_id t, tk_name t, tk_state t)) t"

lemma web_event_identity: "identity (wb_task (web_event now ev w)) = identity (wb_task w) \<and>
    wb_task_seq (web_event now ev w) = wb_task_seq w"
  by (cases ev) (auto simp: web_event_def web_error_def count_reply_def identity_def Let_def option.map_comp comp_def)

text \<open>
  The runs of the task manager: the state of the web layer and the threads that have not ended.  The last thread of a
  task may begin and end between any two other steps.
\<close>

inductive task_run :: "web \<Rightarrow> (nat \<times> string) list \<Rightarrow> bool" where
  boot: "wb_task w = None \<Longrightarrow> wb_task_seq w = 0 \<Longrightarrow> task_run w []"
| start: "task_run w rs \<Longrightarrow> task_start name meta now w = (Some n, w') \<Longrightarrow> task_run w' (rs @ [(n, name)])"
| refuse: "task_run w rs \<Longrightarrow> task_start name meta now w = (None, w') \<Longrightarrow> task_run w' rs"
| begins: "task_run w rs \<Longrightarrow> (n, name) \<in> set rs \<Longrightarrow> task_run (runner_begin name now w) rs"
| progress: "task_run w rs \<Longrightarrow> (n, name) \<in> set rs \<Longrightarrow> task_run (task_update (\<lambda>t. t\<lparr>tk_meta := meta\<rparr>) w) rs"
| ends: "task_run w rs \<Longrightarrow> (n, name) \<in> set rs \<Longrightarrow> task_run (runner_end name outcome now w) (remove1 (n, name) rs)"
| event: "task_run w rs \<Longrightarrow> task_run (web_event now ev w) rs"

definition running_thread :: "web \<Rightarrow> (nat \<times> string) list" where
  "running_thread w =
     (case identity (wb_task w) of Some (n, name, Running) \<Rightarrow> [(n, name)] | _ \<Rightarrow> [])"

lemma runner_end_identity: "identity (wb_task (runner_end name outcome now w)) =
    map_option (\<lambda>(n, nm, st). (n, nm, case outcome of Inr r \<Rightarrow> Done | Inl e \<Rightarrow> Failed)) (identity (wb_task w)) \<and>
    wb_task_seq (runner_end name outcome now w) = wb_task_seq w"
  by (cases outcome) (simp_all add: runner_end_def identity_def option.map_comp comp_def)

lemma task_run_threads:
  "task_run w rs \<Longrightarrow> rs = running_thread w \<and> (case identity (wb_task w) of None \<Rightarrow> wb_task_seq w = 0 | Some (n, nm, st) \<Rightarrow> n = wb_task_seq w)"
proof (induction rule: task_run.induct)
  case (boot w)
  then show ?case by (simp add: running_thread_def identity_def)
next
  case (start w rs name meta now n w')
  then show ?case
    by (auto simp: task_start_def task_is_running_def running_thread_def identity_def Let_def split: if_splits option.splits task_state.splits)
next
  case (refuse w rs name meta now w')
  from refuse.hyps(2) have e: "w' = w" by (simp add: task_start_def Let_def split: if_splits)
  show ?case unfolding e by (rule refuse.IH)
next
  case (begins w rs n name now)
  then show ?case by (auto simp: runner_begin_def running_thread_def split: option.splits)
next
  case (progress w rs n name meta)
  then show ?case by (auto simp: running_thread_def identity_def split: option.splits)
next
  case (ends w rs n name outcome now)
  then show ?case
    by (cases outcome) (auto simp: running_thread_def runner_end_identity split: option.splits prod.splits task_state.splits)
next
  case (event w rs now ev)
  then show ?case by (auto simp: running_thread_def web_event_identity split: option.splits)
qed

text \<open>
  At most one task runs, and a thread reports on its own task.  In every run of the web layer, whatever
  starts, ends, progress reports and transport events interleave: there is a thread exactly while the shown task is
  running, it is that task's, and its end turns that task into done or failed with its result or its error.
\<close>

theorem tasks_exclusive:
  assumes "task_run w rs"
  shows "length rs \<le> 1 \<and> (rs \<noteq> [] \<longleftrightarrow> task_is_running w) \<and>
    (\<forall>(n, name) \<in> set rs. \<exists>t. wb_task w = Some t \<and> tk_id t = n \<and> tk_name t = name \<and> n = wb_task_seq w \<and>
       (\<forall>result now. wb_task (runner_end name (Inr result) now w) =
          Some (t\<lparr>tk_state := Done, tk_ended_ts := Some now, tk_result := Some result\<rparr>)) \<and>
       (\<forall>text now. wb_task (runner_end name (Inl text) now w) =
          Some (t\<lparr>tk_state := Failed, tk_ended_ts := Some now, tk_last_error := Some (ErrText text)\<rparr>)))"
  using task_run_threads [OF assms]
  by (auto simp: running_thread_def identity_def task_is_running_def runner_end_def split: option.splits task_state.splits)

definition fresh_web :: web where
  "fresh_web = \<lparr>wb_clients = [], wb_accepts = (\<lambda>q. True), wb_master = master_init, wb_hooked = False, wb_listens = None,
     wb_task = None, wb_task_seq = 0\<rparr>"

lemma tasks_exclusive_witness:
  "\<exists>w rs. task_run w rs \<and> rs = [(1, ''status'')] \<and> task_is_running w"
proof -
  have b: "task_run fresh_web []" by (rule task_run.boot) (simp_all add: fresh_web_def)
  obtain w where w: "task_start ''status'' [] 5 fresh_web = (Some 1, w)"
    by (simp add: task_start_def task_is_running_def fresh_web_def Let_def)
  have r: "task_run w [(1, ''status'')]" using task_run.start [OF b w] by simp
  with tasks_exclusive [OF r] show ?thesis by (intro exI [of _ w] exI [of _ "[(1, ''status'')]"]) simp
qed

section \<open>The hook on the transport\<close>

text \<open>
  The controller with its link, the identity of its current transport object (every \<open>discoverPort\<close> makes a
  new one) and the web layer.
\<close>

record live =
  lv_conn :: conn
  lv_transport :: nat
  lv_web :: web

definition ensure_transport_hooked :: "live \<Rightarrow> live" where
  "ensure_transport_hooked lv =
     (if wb_hooked (lv_web lv) then lv
      else if \<not> ct_transport (cn_ctl (lv_conn lv)) then lv
      else lv\<lparr>lv_web := (lv_web lv)\<lparr>wb_hooked := True, wb_listens := Some (lv_transport lv)\<rparr>\<rparr>)"

fun makes_transport :: "conn_op \<Rightarrow> conn \<Rightarrow> bool" where
  "makes_transport (Probe env og) c = True"
| "makes_transport (FireRetry env) c = (cn_timer c \<noteq> None \<and> \<not> cn_shutdown c)"
| "makes_transport (UserRetry env) c = True"
| "makes_transport (GatewayEvent ev) c = False"
| "makes_transport (ReconnectJob env) c = (Reconnect \<in> set (ct_jobs (cn_ctl c)))"
| "makes_transport Shutdown c = False"

text \<open>An event reaches the web layer if that listens to the transport it comes from.\<close>

datatype live_op = Link conn_op | WebRequest

definition live_event :: "gw_event \<Rightarrow> live \<Rightarrow> live" where
  "live_event ev lv =
     (if wb_listens (lv_web lv) = Some (lv_transport lv)
      then lv\<lparr>lv_web := web_event (ct_now (cn_ctl (lv_conn lv))) ev (lv_web lv)\<rparr> else lv)"

fun live_step :: "live_op \<Rightarrow> live \<Rightarrow> live" where
  "live_step WebRequest lv = ensure_transport_hooked lv"
| "live_step (Link op) lv =
     (let c = lv_conn lv;
          lv = (case op of GatewayEvent ev \<Rightarrow> live_event ev lv | _ \<Rightarrow> lv)
      in lv\<lparr>lv_conn := conn_step op c, lv_transport := (if makes_transport op c then Suc (lv_transport lv) else lv_transport lv)\<rparr>)"

lemma stale_hook_step:
  assumes "wb_hooked (lv_web lv)" and "wb_listens (lv_web lv) = Some t" and "t < lv_transport lv"
  shows "lv_web (live_step op lv) = lv_web lv \<and> lv_transport lv \<le> lv_transport (live_step op lv)"
  using assms by (cases op) (auto simp: ensure_transport_hooked_def live_event_def Let_def split: conn_op.split)

lemma stale_hook:
  assumes "wb_hooked (lv_web lv)" and "wb_listens (lv_web lv) = Some t" and "t < lv_transport lv"
  shows "lv_web (fold live_step ops lv) = lv_web lv"
  using assms
proof (induction ops arbitrary: lv)
  case (Cons op ops)
  note s = stale_hook_step [OF Cons.prems, of op]
  have "lv_web (fold live_step ops (live_step op lv)) = lv_web (live_step op lv)"
    by (rule Cons.IH) (use s Cons.prems in auto)
  with s show ?case by simp
qed simp

text \<open>
  After the first reconnect the web layer is deaf.  It hooks on a transport object once and remembers that
  it did; a probe makes a new transport object.  So once the gateway has been found again, the
  link is ready, and no later event, request or reconnect changes anything the web layer shows.
\<close>

theorem mirror_deaf_after_reconnect:
  assumes "wb_hooked (lv_web lv)" and "wb_listens (lv_web lv) = Some (lv_transport lv)"
    and "unconfigured (lv_conn lv)" and "gateway_present env"
  shows "let found = live_step (Link (Probe env og)) lv in
    ct_ready (cn_ctl (lv_conn found)) \<and> ct_hooks (cn_ctl (lv_conn found)) \<and>
    (\<forall>ops. lv_web (fold live_step ops found) = lv_web lv)"
proof -
  let ?f = "live_step (Link (Probe env og)) lv"
  have w: "lv_web ?f = lv_web lv" "lv_transport ?f = Suc (lv_transport lv)"
    "lv_conn ?f = discover_port env og (lv_conn lv)" by simp_all
  have "lv_web (fold live_step ops ?f) = lv_web ?f" for ops
    by (rule stale_hook) (use assms(1,2) w in auto)
  then show ?thesis
    using attempt_succeeds [OF assms(3), of env og] assms(4) w by (simp add: gateway_present_def Let_def)
qed

text \<open>A host that finds its gateway, gets a browser and then loses and finds the gateway again.\<close>

definition first_contact :: live where
  "first_contact = fold live_step [Link (Probe plugged_env Auto), WebRequest]
     \<lparr>lv_conn = boot_conn None, lv_transport = 0, lv_web = fresh_web\<rparr>"

lemma mirror_deaf_after_reconnect_witness:
  "wb_listens (lv_web first_contact) = Some 1 \<and>
   ms_state (wb_master (lv_web (fold live_step [Link (Probe plugged_env Auto), WebRequest,
     Link (GatewayEvent (EvState EV_STATE_CHANGED 1 ''TX'' 0 0))] first_contact))) = ''UNKNOWN''"
proof -
  have h: "wb_hooked (lv_web first_contact)" "wb_listens (lv_web first_contact) = Some (lv_transport first_contact)"
    "unconfigured (lv_conn first_contact)" "lv_transport first_contact = 1"
    "ms_state (wb_master (lv_web first_contact)) = ''UNKNOWN''" by code_simp+
  have d: "lv_web (fold live_step ops (live_step (Link (Probe plugged_env Auto)) first_contact)) = lv_web first_contact" for ops
    using mirror_deaf_after_reconnect [OF h(1-3) plugged(1), of Auto] by (simp only: Let_def)
  show ?thesis
    using d [of "[WebRequest, Link (GatewayEvent (EvState EV_STATE_CHANGED 1 ''TX'' 0 0))]"] h(2,4,5)
    by (simp only: fold_simps list.simps id_apply comp_apply)
qed

text \<open>While it listens, the mirror shows the last state event.\<close>

lemma mirror_follows_state:
  "let m = wb_master (web_event now (EvState ty sb name ms ts) w) in
   ms_state_byte m = sb AND 255 \<and> ms_last_error m = None \<and>
   ms_state m = (case map_of GATEWAY_STATE_NAME (sb AND 255) of Some n \<Rightarrow> n | None \<Rightarrow> ''UNKNOWN'')"
proof -
  have m: "ms_state_byte (wb_master (master_set now f w)) = ms_state_byte (f (wb_master w))"
    "ms_last_error (wb_master (master_set now f w)) = ms_last_error (f (wb_master w))"
    "ms_state (wb_master (master_set now f w)) = ms_state (f (wb_master w))" for f
    by (auto simp: master_set_def Let_def)
  have t: "wb_master (task_update f w) = wb_master w" for f w by (simp add: task_update_def Let_def split: option.split)
  show ?thesis by (simp add: web_event_def Let_def t apply_gateway_state_def m note_event_def)
qed

text \<open>
  A broadcast reaches every browser that is still there once, in order, and drops the others; the
  messages a browser already had stay before it.
\<close>

theorem broadcast_delivers:
  "map fst (wb_clients (broadcast m w)) = filter (wb_accepts w) (map fst (wb_clients w)) \<and>
   (\<forall>(q, ms) \<in> set (wb_clients (broadcast m w)). ms \<noteq> [] \<and> last ms = m \<and> (q, butlast ms) \<in> set (wb_clients w))"
  by (auto simp: broadcast_def filter_map comp_def case_prod_unfold)

end
