(* ===== verification/Scene_Validate.thy ===== *)
theory Scene_Validate
  imports Planner
begin

text \<open>
  The validators of \<^verbatim>\<open>racelink/services/scenes_service.py\<close>: from an arbitrary decoded
  JSON value to a canonical action, the migrations of the legacy shapes included, the collapse of a
  full group list to a broadcast, and the renumbering after a group was deleted.  A canonical action is
  a value of the planner's type \<^typ>\<open>action\<close>; \<open>action_dict\<close> is the dictionary
  the code stores for it.  \<open>dict(x)\<close> of a list of pairs is modelled for string keys.
\<close>

section \<open>Limits and kinds\<close>

definition MAX_ACTIONS_PER_SCENE :: nat where "MAX_ACTIONS_PER_SCENE = 20"
definition MAX_DELAY_MS :: int where "MAX_DELAY_MS = 60000"
definition GROUP_ID_MAX :: int where "GROUP_ID_MAX = 254"
definition MAX_GROUPS_OFFSET_ENTRIES :: nat where "MAX_GROUPS_OFFSET_ENTRIES = 64"
definition MAX_OFFSET_GROUP_CHILDREN :: nat where "MAX_OFFSET_GROUP_CHILDREN = 16"
definition OFFSET_MS_MAX :: int where "OFFSET_MS_MAX = 65535"

lemmas scene_limits = MAX_ACTIONS_PER_SCENE_def MAX_DELAY_MS_def GROUP_ID_MAX_def
  MAX_GROUPS_OFFSET_ENTRIES_def MAX_OFFSET_GROUP_CHILDREN_def OFFSET_MS_MAX_def

definition effect_kind_of :: "pyval \<Rightarrow> effect_kind option" where
  "effect_kind_of v =
     (if v = PStr ''rl_preset'' then Some RlPreset
      else if v = PStr ''wled_preset'' then Some WledPreset
      else if v = PStr ''wled_control'' then Some WledControl
      else if v = PStr ''startblock'' then Some Startblock
      else None)"

definition child_kind_of :: "pyval \<Rightarrow> effect_kind option" where
  "child_kind_of v = (case effect_kind_of v of Some Startblock \<Rightarrow> None | k \<Rightarrow> k)"

section \<open>Targets\<close>

definition migrate_legacy_target :: "pyval \<Rightarrow> pyval res" where
  "migrate_legacy_target raw =
     (case raw of
        PDict d \<Rightarrow>
          if dget d ''kind'' = PStr ''scope'' then Inr (PDict [(''kind'', PStr ''broadcast'')])
          else if dget d ''kind'' = PStr ''group'' then
            (case py_int (dget d ''value'') of
               Inr v \<Rightarrow> Inr (PDict [(''kind'', PStr ''groups''), (''value'', PList [PInt v])])
             | Inl e \<Rightarrow> if e = TypeError \<or> e = ValueError then Inr raw else Inl e)
          else Inr raw
      | _ \<Rightarrow> Inr raw)"

definition is_hex_upper :: "char \<Rightarrow> bool" where
  "is_hex_upper c = (let n = (of_char c :: nat) in 48 \<le> n \<and> n \<le> 57 \<or> 65 \<le> n \<and> n \<le> 70)"

definition is_mac12 :: "string \<Rightarrow> bool" where
  "is_mac12 s = (length s = 12 \<and> list_all is_hex_upper s)"

text \<open>The loop over the entries of a group list, with its set of ids already seen.\<close>

fun canonical_ids :: "int list \<Rightarrow> pyval list \<Rightarrow> int list res" where
  "canonical_ids seen [] = Inr []"
| "canonical_ids seen (entry # es) =
     rbind (int_or_value_error entry) (\<lambda>v.
       if v < 0 \<or> v > GROUP_ID_MAX then Inl ValueError
       else if v \<in> set seen then Inl ValueError
       else rbind (canonical_ids (v # seen) es) (\<lambda>vs. Inr (v # vs)))"

definition canonical_target :: "pyval \<Rightarrow> target res" where
  "canonical_target raw0 =
     rbind (migrate_legacy_target raw0) (\<lambda>raw.
       case raw of
         PDict d \<Rightarrow>
           let kind = dget d ''kind'' in
           if kind = PStr ''broadcast'' then Inr Broadcast
           else if kind = PStr ''groups'' then
             (case dget d ''value'' of
                PList value \<Rightarrow>
                  if value = [] then Inl ValueError
                  else rbind (canonical_ids [] value) (\<lambda>ids. Inr (Groups (sort ids)))
              | _ \<Rightarrow> Inl ValueError)
           else if kind = PStr ''device'' then
             (case dget d ''value'' of
                PStr value \<Rightarrow>
                  let v = upper (strip value) in
                  if is_mac12 v then Inr (Device v) else Inl ValueError
              | _ \<Rightarrow> Inl ValueError)
           else Inl ValueError
       | _ \<Rightarrow> Inl ValueError)"

definition canonical_offset_group_container_target :: "pyval \<Rightarrow> target res" where
  "canonical_offset_group_container_target raw =
     rbind (canonical_target raw) (\<lambda>t. case t of Device _ \<Rightarrow> Inl ValueError | _ \<Rightarrow> Inr t)"

text \<open>\<open>parent_groups\<close>: \<open>None\<close> for \<open>"all"\<close>.\<close>

definition canonical_offset_group_child_target :: "int list option \<Rightarrow> pyval \<Rightarrow> target res" where
  "canonical_offset_group_child_target parent_groups raw =
     rbind (canonical_target raw) (\<lambda>t.
       case (t, parent_groups) of
         (Groups value, Some parents) \<Rightarrow>
           if list_all (\<lambda>v. v \<in> set parents) value then Inr t else Inl ValueError
       | _ \<Rightarrow> Inr t)"

section \<open>Flag overrides and children\<close>

definition override_flags :: "pydict \<Rightarrow> pydict" where
  "override_flags d = concat (map (\<lambda>k. case map_of d k of None \<Rightarrow> [] | Some v \<Rightarrow> [(k, PBool (py_truth v))])
     USER_FLAG_KEYS)"

definition canonical_flags_override :: "pyval \<Rightarrow> pydict res" where
  "canonical_flags_override raw =
     (case py_or raw (PDict []) of PDict d \<Rightarrow> Inr (override_flags d) | _ \<Rightarrow> Inl ValueError)"

definition canonical_params_field :: "pyval \<Rightarrow> pydict res" where
  "canonical_params_field raw =
     (case raw of PNone \<Rightarrow> Inr [] | PDict d \<Rightarrow> Inr d | _ \<Rightarrow> Inl ValueError)"

definition canonical_offset_group_child :: "int list option \<Rightarrow> pyval \<Rightarrow> action res" where
  "canonical_offset_group_child parent_groups raw =
     (case raw of
        PDict d \<Rightarrow>
          (case child_kind_of (dget d ''kind'') of
             None \<Rightarrow> Inl ValueError
           | Some kind \<Rightarrow>
               if \<not> has_key d ''target'' then Inl ValueError
               else
                 rbind (canonical_offset_group_child_target parent_groups (dget d ''target'')) (\<lambda>t.
                 rbind (canonical_params_field (dget d ''params'')) (\<lambda>params.
                 rbind (canonical_flags_override (dget d ''flags_override'')) (\<lambda>flags.
                   Inr (Effect kind t params (Some flags))))))
      | _ \<Rightarrow> Inl ValueError)"

section \<open>Offset blocks and containers\<close>

definition validate_int :: "pyval \<Rightarrow> int \<Rightarrow> int \<Rightarrow> int res" where
  "validate_int raw lo hi =
     rbind (int_or_value_error raw) (\<lambda>v. if v < lo \<or> v > hi then Inl ValueError else Inr v)"

definition canonical_value_entry :: "int list \<Rightarrow> pyval \<Rightarrow> (int \<times> int) res" where
  "canonical_value_entry group_ids entry =
     (case entry of
        PDict e \<Rightarrow>
          rbind (validate_int (dget e ''id'') 0 GROUP_ID_MAX) (\<lambda>gid.
            if gid \<notin> set group_ids then Inl ValueError
            else rbind (validate_int (dget e ''offset_ms'') 0 OFFSET_MS_MAX) (\<lambda>ms. Inr (gid, ms)))
      | _ \<Rightarrow> Inl ValueError)"

definition canonical_offset_block :: "pyval \<Rightarrow> int list option \<Rightarrow> offset_block res" where
  "canonical_offset_block raw group_ids =
     (case raw of
        PDict d \<Rightarrow>
          let mode = dget d ''mode'' in
          if mode = PStr ''none'' then Inr ONone
          else if mode = PStr ''explicit'' then
            (case group_ids of
               None \<Rightarrow> Inl ValueError
             | Some ids \<Rightarrow>
                 (case dget d ''values'' of
                    PList vs \<Rightarrow>
                      if length vs \<noteq> length ids then Inl ValueError
                      else rbind (rmap (canonical_value_entry ids) vs) (\<lambda>cvs. Inr (OExplicit (sort_key fst cvs)))
                  | _ \<Rightarrow> Inl ValueError))
          else if mode = PStr ''linear'' \<or> mode = PStr ''vshape'' \<or> mode = PStr ''modulo'' then
            rbind (validate_int (dget_or d ''base_ms'' (PInt 0)) (- 32768) 32767) (\<lambda>base.
            rbind (validate_int (dget_or d ''step_ms'' (PInt 0)) (- 32768) 32767) (\<lambda>step.
              if mode = PStr ''linear'' then Inr (OLinear base step)
              else if mode = PStr ''vshape'' then
                rbind (validate_int (dget_or d ''center'' (PInt 0)) 0 GROUP_ID_MAX) (\<lambda>center.
                  Inr (OVshape base step center))
              else
                rbind (validate_int (dget_or d ''cycle'' (PInt 1)) 1 255) (\<lambda>cycle.
                  Inr (OModulo base step cycle))))
          else Inl ValueError
      | _ \<Rightarrow> Inl ValueError)"

definition legacy_container_target :: "pydict \<Rightarrow> pyval res" where
  "legacy_container_target d =
     (if dget d ''target'' \<noteq> PNone then Inr (dget d ''target'')
      else let lg = dget d ''groups'' in
        if lg = PStr ''all'' \<or> py_eq_int lg 255 then Inr (PDict [(''kind'', PStr ''broadcast'')])
        else case lg of
          PList gs \<Rightarrow> if gs \<noteq> [] then Inr (PDict [(''kind'', PStr ''groups''), (''value'', PList gs)])
                    else Inl ValueError
        | _ \<Rightarrow> Inl ValueError)"

fun target_groups :: "target \<Rightarrow> int list option" where
  "target_groups (Groups gs) = Some gs"
| "target_groups _ = None"

definition canonical_offset_group_action :: "pydict \<Rightarrow> action res" where
  "canonical_offset_group_action d =
     rbind (legacy_container_target d) (\<lambda>target_raw.
     rbind (canonical_offset_group_container_target target_raw) (\<lambda>t.
       let ids = target_groups t in
       if (case ids of None \<Rightarrow> False | Some gs \<Rightarrow> length gs > MAX_GROUPS_OFFSET_ENTRIES) then Inl ValueError
       else
         rbind (canonical_offset_block (dget d ''offset'') ids) (\<lambda>offset.
           case py_or (dget d ''actions'') (PList []) of
             PList cs \<Rightarrow>
               if length cs > MAX_OFFSET_GROUP_CHILDREN then Inl ValueError
               else rbind (rmap (canonical_offset_group_child ids) cs) (\<lambda>children.
                 Inr (OffsetGroup t (offset_dict offset) children))
           | _ \<Rightarrow> Inl ValueError)))"

section \<open>The legacy \<open>groups_offset\<close> target\<close>

text \<open>\<open>dict(x)\<close>: a copy of a dictionary, or the pairs of an iterable of pairs.\<close>

fun dict_pairs :: "pydict \<Rightarrow> pyval list \<Rightarrow> pydict res" where
  "dict_pairs acc [] = Inr acc"
| "dict_pairs acc (p # ps) =
     rbind (py_iter p) (\<lambda>kv. case kv of
         [PStr k, v] \<Rightarrow> dict_pairs (assoc_set k v acc) ps
       | [_, _] \<Rightarrow> Inl TypeError
       | _ \<Rightarrow> Inl ValueError)"

fun py_dict :: "pyval \<Rightarrow> pydict res" where
  "py_dict (PDict d) = Inr d"
| "py_dict v = rbind (py_iter v) (dict_pairs [])"

definition is_legacy_groups_offset_target :: "pydict \<Rightarrow> bool" where
  "is_legacy_groups_offset_target d =
     (case dget d ''target'' of PDict t \<Rightarrow> dget t ''kind'' = PStr ''groups_offset'' | _ \<Rightarrow> False)"

definition legacy_value_entry :: "pyval \<Rightarrow> pyval res" where
  "legacy_value_entry v =
     (case v of
        PDict e \<Rightarrow>
          rbind (py_int (dget e ''id'')) (\<lambda>i.
          rbind (py_int (dget_or e ''offset_ms'' (PInt 0))) (\<lambda>ms.
            Inr (PDict [(''id'', PInt i), (''offset_ms'', PInt ms)])))
      | _ \<Rightarrow> Inl AttributeError)"

text \<open>The groups and the offset block of both legacy shapes.\<close>

definition legacy_groups_and_offset :: "pydict \<Rightarrow> (pyval \<times> pyval) res" where
  "legacy_groups_and_offset t =
     (let lg = dget t ''groups'' in
      case lg of
        PList (PDict e0 # rest) \<Rightarrow>
          let entries = PDict e0 # rest in
          rbind (rmap (\<lambda>d. rbind (py_get d ''id'') py_int) entries) (\<lambda>ids.
          let hints = py_or (dget t ''ui_hints'') (PDict []) in
          rbind (py_get hints ''mode'') (\<lambda>mode.
          rbind (if mode = PStr ''linear'' then
                   rbind (py_get hints ''base_ms'') (\<lambda>b.
                   rbind (py_get hints ''step_ms'') (\<lambda>s. Inr (b \<noteq> PNone \<and> s \<noteq> PNone)))
                 else Inr False) (\<lambda>is_linear.
          rbind (if is_linear then
                   rbind (rbind (py_get hints ''base_ms'') py_int) (\<lambda>b.
                   rbind (rbind (py_get hints ''step_ms'') py_int) (\<lambda>s.
                     Inr (PDict [(''mode'', PStr ''linear''), (''base_ms'', PInt b), (''step_ms'', PInt s)])))
                 else
                   rbind (rmap legacy_value_entry entries) (\<lambda>vs.
                     Inr (PDict [(''mode'', PStr ''explicit''), (''values'', PList vs)]))) (\<lambda>offset.
            Inr (PList (map PInt ids), offset)))))
      | _ \<Rightarrow>
          Inr (if lg = PStr ''all'' \<or> py_eq_int lg 255 then PStr ''all'' else lg,
               py_or (dget t ''offset'') (PDict [(''mode'', PStr ''none'')])))"

definition migrate_legacy_groups_offset_action :: "pydict \<Rightarrow> pydict res" where
  "migrate_legacy_groups_offset_action d =
     (case dget d ''target'' of
        PDict t \<Rightarrow>
          rbind (legacy_groups_and_offset t) (\<lambda>(groups, offset).
          rbind (py_dict (py_or (dget d ''params'') (PDict []))) (\<lambda>params.
          rbind (py_dict (py_or (dget d ''flags_override'') (PDict []))) (\<lambda>flags.
            let child = PDict [(''kind'', dget d ''kind''), (''target'', PDict [(''kind'', PStr ''broadcast'')]),
                               (''params'', PDict params), (''flags_override'', PDict flags)] in
            rbind (if groups = PStr ''all'' then Inr (PDict [(''kind'', PStr ''broadcast'')])
                   else rbind (py_iter groups) (\<lambda>gs.
                     Inr (PDict [(''kind'', PStr ''groups''), (''value'', PList gs)]))) (\<lambda>container_target.
              Inr [(''kind'', PStr ''offset_group''), (''target'', container_target),
                   (''offset'', offset), (''actions'', PList [child])]))))
      | _ \<Rightarrow> Inl AttributeError)"

section \<open>Actions\<close>

definition canonical_effect :: "effect_kind \<Rightarrow> pydict \<Rightarrow> action res" where
  "canonical_effect k d =
     (if \<not> has_key d ''target'' then Inl ValueError
      else
        rbind (canonical_target (dget d ''target'')) (\<lambda>t.
        rbind (canonical_params_field (dget d ''params'')) (\<lambda>params.
        if k = Startblock then Inr (Effect k t params None)
        else rbind (canonical_flags_override (dget d ''flags_override'')) (\<lambda>flags.
          Inr (Effect k t params (Some flags))))))"

definition canonical_action :: "pyval \<Rightarrow> action res" where
  "canonical_action raw0 =
     (case raw0 of
        PDict d0 \<Rightarrow>
          rbind (if is_legacy_groups_offset_target d0 then migrate_legacy_groups_offset_action d0 else Inr d0) (\<lambda>d.
            let kind = dget d ''kind'' in
            if kind = PStr ''offset_group'' then
              (if has_key d ''params'' \<or> has_key d ''flags_override'' \<or> has_key d ''duration_ms'' then Inl ValueError
               else canonical_offset_group_action d)
            else if kind = PStr ''delay'' then
              rbind (int_or_value_error (dget_or d ''duration_ms'' (PInt 0))) (\<lambda>dur.
                if dur < 0 \<or> dur > MAX_DELAY_MS then Inl ValueError
                else if has_key d ''target'' \<or> has_key d ''params'' \<or> has_key d ''flags_override'' then Inl ValueError
                else Inr (Delay dur))
            else if kind = PStr ''sync'' then
              (if has_key d ''target'' \<or> has_key d ''params'' \<or> has_key d ''flags_override'' \<or> has_key d ''duration_ms''
               then Inl ValueError else Inr Sync)
            else case effect_kind_of kind of None \<Rightarrow> Inl ValueError | Some k \<Rightarrow> canonical_effect k d)
      | _ \<Rightarrow> Inl ValueError)"

definition canonical_actions :: "pyval \<Rightarrow> action list res" where
  "canonical_actions raw =
     (case raw of
        PNone \<Rightarrow> Inr []
      | PList xs \<Rightarrow> if length xs > MAX_ACTIONS_PER_SCENE then Inl ValueError else rmap canonical_action xs
      | _ \<Rightarrow> Inl ValueError)"

text \<open>The dictionary stored for an action.\<close>

fun action_dict :: "action \<Rightarrow> pydict" where
  "action_dict (Effect k t params fo) =
     [(''kind'', PStr (kind_name k)), (''target'', PDict (target_dict t)), (''params'', PDict params)] @
     (case fo of None \<Rightarrow> [] | Some f \<Rightarrow> [(''flags_override'', PDict f)])"
| "action_dict Sync = [(''kind'', PStr ''sync'')]"
| "action_dict (Delay d) = [(''kind'', PStr ''delay''), (''duration_ms'', PInt d)]"
| "action_dict (OffsetGroup t offset children) =
     [(''kind'', PStr ''offset_group''), (''target'', PDict (target_dict t)), (''offset'', PDict offset),
      (''actions'', PList (map (\<lambda>c. PDict (action_dict c)) children))]"

section \<open>Canonical actions\<close>

fun target_ok :: "target \<Rightarrow> bool" where
  "target_ok Broadcast = True"
| "target_ok (Groups gs) = (gs \<noteq> [] \<and> sorted gs \<and> distinct gs \<and> (\<forall>g \<in> set gs. group_id_ok g))"
| "target_ok (Device a) = is_mac12 a"

definition flags_ok :: "pydict \<Rightarrow> bool" where
  "flags_ok f = (map fst f \<in> set (subseqs USER_FLAG_KEYS) \<and> (\<forall>v \<in> snd ` set f. py_is_bool v))"

definition offset_group_ok :: "target \<Rightarrow> offset_block \<Rightarrow> bool" where
  "offset_group_ok t ob =
     (target_ok t \<and> block_ok ob \<and>
      (case t of
         Broadcast \<Rightarrow> block_mode ob \<noteq> ''explicit''
       | Groups gs \<Rightarrow> length gs \<le> 64 \<and>
           (case ob of OExplicit vs \<Rightarrow> length vs = length gs \<and> fst ` set vs \<subseteq> set gs \<and> sorted (map fst vs)
            | _ \<Rightarrow> True)
       | Device _ \<Rightarrow> False))"

definition child_ok :: "int list option \<Rightarrow> action \<Rightarrow> bool" where
  "child_ok parents c =
     (case c of
        Effect k t params (Some f) \<Rightarrow>
          k \<noteq> Startblock \<and> target_ok t \<and> flags_ok f \<and>
          (case (t, parents) of (Groups gs, Some ps) \<Rightarrow> set gs \<subseteq> set ps | _ \<Rightarrow> True)
      | _ \<Rightarrow> False)"

fun action_ok :: "action \<Rightarrow> bool" where
  "action_ok (Effect k t params fo) =
     (target_ok t \<and> (if k = Startblock then fo = None else (case fo of Some f \<Rightarrow> flags_ok f | None \<Rightarrow> False)))"
| "action_ok Sync = True"
| "action_ok (Delay d) = (0 \<le> d \<and> d \<le> 60000)"
| "action_ok (OffsetGroup t offset children) =
     ((\<exists>ob. offset = offset_dict ob \<and> offset_group_ok t ob) \<and> length children \<le> 16 \<and>
      (\<forall>c \<in> set children. child_ok (target_groups t) c))"

definition actions_ok :: "action list \<Rightarrow> bool" where
  "actions_ok as = (length as \<le> 20 \<and> (\<forall>a \<in> set as. action_ok a))"

section \<open>What the validators return is canonical\<close>

lemma canonical_ids_ok:
  "ok_res (\<lambda>vs. distinct vs \<and> set vs \<inter> set seen = {} \<and> length vs = length es \<and> (\<forall>v \<in> set vs. group_id_ok v))
     (canonical_ids seen es)"
proof (induction seen es rule: canonical_ids.induct)
  case (2 seen entry es)
  show ?case
    unfolding canonical_ids.simps
  proof (rule ok_res_bind_any, rule ok_res_if [OF _ ok_res_if], goal_cases)
    case (3 v)
    then have "v \<notin> set seen" "group_id_ok v" by (simp_all add: GROUP_ID_MAX_def)
    with "2.IH" [OF 3(1,2,3)] show ?case by (intro ok_res_bind [OF "2.IH" [OF 3(1,2,3)]]) auto
  qed (simp_all add: ok_res_def)
qed (auto simp: ok_res_def)

lemma sort_eq_Nil [simp]: "sort xs = [] \<longleftrightarrow> xs = []"
  by (metis length_0_conv length_sort)

lemma canonical_target_ok: "canonical_target raw = Inr t \<Longrightarrow> target_ok t"
  by (auto simp: canonical_target_def Let_def elim!: rbind_InrE dest!: ok_resD [OF canonical_ids_ok]
      split: pyval.split_asm if_split_asm)

lemma container_target_ok:
  "canonical_offset_group_container_target raw = Inr t \<Longrightarrow> target_ok t \<and> (\<forall>a. t \<noteq> Device a)"
  by (auto simp: canonical_offset_group_container_target_def elim!: rbind_InrE dest: canonical_target_ok
      split: target.split_asm)

lemma child_target_Inr:
  "canonical_offset_group_child_target ps raw = Inr t \<longleftrightarrow>
     canonical_target raw = Inr t \<and> (case (t, ps) of (Groups gs, Some ps) \<Rightarrow> set gs \<subseteq> set ps | _ \<Rightarrow> True)"
proof (cases "canonical_target raw")
  case (Inr t')
  then show ?thesis
    by (cases t'; cases ps) (auto simp: canonical_offset_group_child_target_def list_all_iff)
qed (simp add: canonical_offset_group_child_target_def)

lemma child_target_ok:
  "canonical_offset_group_child_target ps raw = Inr t \<Longrightarrow>
     target_ok t \<and> (case (t, ps) of (Groups gs, Some ps) \<Rightarrow> set gs \<subseteq> set ps | _ \<Rightarrow> True)"
  using canonical_target_ok [of raw t] by (simp add: child_target_Inr)

lemma override_flags_ok: "flags_ok (override_flags d)"
  by (simp add: flags_ok_def override_flags_def USER_FLAG_KEYS_def Let_def split: option.split)

lemma flags_override_ok: "canonical_flags_override raw = Inr f \<Longrightarrow> flags_ok f"
  by (auto simp: canonical_flags_override_def override_flags_ok split: pyval.split_asm)

lemma child_kind_not_startblock: "child_kind_of v = Some k \<Longrightarrow> k \<noteq> Startblock"
  by (auto simp: child_kind_of_def split: option.splits effect_kind.splits)

lemma child_result_ok: "canonical_offset_group_child ps raw = Inr c \<Longrightarrow> child_ok ps c"
  by (auto simp: canonical_offset_group_child_def rbind_eq_Inr child_ok_def
      dest!: child_target_ok flags_override_ok child_kind_not_startblock
      split: pyval.split_asm option.split_asm if_split_asm target.split target.split_asm option.split)

lemma validate_int_Inr: "validate_int raw lo hi = Inr v \<Longrightarrow> lo \<le> v \<and> v \<le> hi"
  by (auto simp: validate_int_def rbind_eq_Inr split: if_splits)

lemma value_entry_ok:
  "canonical_value_entry ids e = Inr (i, ms) \<Longrightarrow> i \<in> set ids \<and> group_id_ok i \<and> 0 \<le> ms \<and> ms \<le> 65535"
  by (auto simp: canonical_value_entry_def rbind_eq_Inr scene_limits
      dest!: validate_int_Inr split: pyval.split_asm if_split_asm)

definition block_for_groups :: "int list option \<Rightarrow> offset_block \<Rightarrow> bool" where
  "block_for_groups ids ob =
     (block_ok ob \<and> (case ob of
        OExplicit vs \<Rightarrow> (case ids of None \<Rightarrow> False
          | Some gs \<Rightarrow> length vs = length gs \<and> fst ` set vs \<subseteq> set gs \<and> sorted (map fst vs))
      | _ \<Rightarrow> True))"

lemma offset_block_ok: "canonical_offset_block raw ids = Inr ob \<Longrightarrow> block_for_groups ids ob"
proof -
  have values_ok: "block_for_groups (Some gs) (OExplicit (sort_key fst cvs))"
    if r: "rmap (canonical_value_entry gs) vs = Inr cvs" and l: "length vs = length gs" for gs vs cvs
  proof -
    have e: "i \<in> set gs \<and> group_id_ok i \<and> 0 \<le> ms \<and> ms \<le> 65535" if "(i, ms) \<in> set cvs" for i ms
      using rmap_InrD [OF r that] value_entry_ok by blast
    then have "fst ` set cvs \<subseteq> set gs" by force
    moreover have "block_ok (OExplicit (sort_key fst cvs))" using e by auto
    ultimately show ?thesis using rmap_length [OF r] l by (simp add: block_for_groups_def)
  qed
  show "canonical_offset_block raw ids = Inr ob \<Longrightarrow> block_for_groups ids ob"
    unfolding canonical_offset_block_def Let_def
    by (auto simp: rbind_eq_Inr block_for_groups_def [of _ ONone] block_for_groups_def [of _ "OLinear _ _"]
        block_for_groups_def [of _ "OVshape _ _ _"] block_for_groups_def [of _ "OModulo _ _ _"]
        GROUP_ID_MAX_def dest!: validate_int_Inr intro!: values_ok
        split: pyval.split_asm if_split_asm option.split_asm)
qed

lemma group_block_ok:
  "target_ok t \<Longrightarrow> \<forall>a. t \<noteq> Device a \<Longrightarrow> (\<And>gs. target_groups t = Some gs \<Longrightarrow> length gs \<le> 64) \<Longrightarrow>
     block_for_groups (target_groups t) ob \<Longrightarrow> offset_group_ok t ob"
  by (cases t; cases ob) (auto simp: offset_group_ok_def block_for_groups_def)

lemma offset_group_result_ok: "canonical_offset_group_action d = Inr a \<Longrightarrow> action_ok a"
proof -
  assume "canonical_offset_group_action d = Inr a"
  then obtain r t ob cs children where
    "canonical_offset_group_container_target r = Inr t \<and>
     \<not> (case target_groups t of None \<Rightarrow> False | Some gs \<Rightarrow> length gs > MAX_GROUPS_OFFSET_ENTRIES) \<and>
     canonical_offset_block (dget d ''offset'') (target_groups t) = Inr ob \<and>
     \<not> length cs > MAX_OFFSET_GROUP_CHILDREN \<and>
     rmap (canonical_offset_group_child (target_groups t)) cs = Inr children \<and>
     a = OffsetGroup t (offset_dict ob) children"
    by (auto simp: canonical_offset_group_action_def Let_def elim!: rbind_InrE split: if_split_asm pyval.split_asm)
  then have t: "canonical_offset_group_container_target r = Inr t"
    and len: "\<not> (case target_groups t of None \<Rightarrow> False | Some gs \<Rightarrow> length gs > MAX_GROUPS_OFFSET_ENTRIES)"
    and ob: "canonical_offset_block (dget d ''offset'') (target_groups t) = Inr ob"
    and n: "\<not> length cs > MAX_OFFSET_GROUP_CHILDREN"
    and ch: "rmap (canonical_offset_group_child (target_groups t)) cs = Inr children"
    and a: "a = OffsetGroup t (offset_dict ob) children"
    by blast+
  have "offset_group_ok t ob"
    using container_target_ok [OF t] len offset_block_ok [OF ob]
    by (intro group_block_ok) (auto simp: scene_limits)
  moreover have "child_ok (target_groups t) c" if "c \<in> set children" for c
    using rmap_InrD [OF ch that] child_result_ok by blast
  moreover have "length children \<le> 16" using n rmap_length [OF ch] by (simp add: scene_limits)
  ultimately show "action_ok a" using a by auto
qed

lemma effect_result_ok: "canonical_effect k d = Inr a \<Longrightarrow> action_ok a"
  by (auto simp: canonical_effect_def rbind_eq_Inr dest!: flags_override_ok canonical_target_ok
      split: if_splits)

lemma canonical_action_result_ok: "canonical_action raw = Inr a \<Longrightarrow> action_ok a"
  unfolding canonical_action_def Let_def
  by (auto simp: rbind_eq_Inr MAX_DELAY_MS_def intro: offset_group_result_ok effect_result_ok
      split: pyval.split_asm if_split_asm option.split_asm)

lemma canonical_actions_result_ok:
  assumes "canonical_actions raw = Inr as" shows "actions_ok as"
proof (cases "raw = PNone")
  case False
  with assms obtain xs where xs: "\<not> length xs > 20" "rmap canonical_action xs = Inr as"
    by (auto simp: canonical_actions_def MAX_ACTIONS_PER_SCENE_def split: pyval.split_asm if_split_asm)
  have "action_ok a" if "a \<in> set as" for a
    using rmap_InrD [OF xs(2) that] canonical_action_result_ok by blast
  with xs show ?thesis by (auto simp: actions_ok_def dest: rmap_length)
qed (use assms in \<open>simp add: canonical_actions_def actions_ok_def\<close>)

section \<open>Stored actions read back\<close>

text \<open>
  Reading a stored action back sorts its group lists and its explicit offsets.  \<open>raw_ok\<close> is
  \<open>action_ok\<close> without the order, \<open>norm_action\<close> puts it in.
\<close>

fun raw_target_ok :: "target \<Rightarrow> bool" where
  "raw_target_ok Broadcast = True"
| "raw_target_ok (Groups gs) = (gs \<noteq> [] \<and> distinct gs \<and> (\<forall>g \<in> set gs. group_id_ok g))"
| "raw_target_ok (Device a) = is_mac12 a"

fun norm_target :: "target \<Rightarrow> target" where
  "norm_target (Groups gs) = Groups (sort gs)"
| "norm_target t = t"

definition raw_block_for_groups :: "int list option \<Rightarrow> offset_block \<Rightarrow> bool" where
  "raw_block_for_groups ids ob =
     (block_ok ob \<and> (case ob of
        OExplicit vs \<Rightarrow> (case ids of None \<Rightarrow> False
          | Some gs \<Rightarrow> length vs = length gs \<and> fst ` set vs \<subseteq> set gs)
      | _ \<Rightarrow> True))"

fun norm_block :: "offset_block \<Rightarrow> offset_block" where
  "norm_block (OExplicit vs) = OExplicit (sort_key fst vs)"
| "norm_block ob = ob"

lemma target_ok_raw: "target_ok t \<Longrightarrow> raw_target_ok t \<and> norm_target t = t"
  by (cases t) (simp_all add: sort_key_id_if_sorted)

lemma block_for_groups_raw: "block_for_groups ids ob \<Longrightarrow> raw_block_for_groups ids ob \<and> norm_block ob = ob"
  by (cases ob) (auto simp: block_for_groups_def raw_block_for_groups_def sort_key_id_if_sorted split: option.splits)

lemma canonical_ids_ints:
  "distinct gs \<Longrightarrow> set gs \<inter> set seen = {} \<Longrightarrow> \<forall>g \<in> set gs. group_id_ok g \<Longrightarrow>
     canonical_ids seen (map PInt gs) = Inr gs"
  by (induction gs arbitrary: seen) (auto simp: GROUP_ID_MAX_def)

lemma hex_upper_chars:
  assumes "is_hex_upper c" shows "\<not> is_space c" and "upper_char c = c"
  using assms by (auto simp: is_hex_upper_def is_space_def upper_char_def Let_def)

lemma mac12_strip_upper: "is_mac12 a \<Longrightarrow> upper (strip a) = a"
proof -
  assume a: "is_mac12 a"
  then have "strip a = a"
    by (intro strip_with_no_ends) (auto simp: is_mac12_def list_all_iff hex_upper_chars)
  then show ?thesis
    using a by (simp add: is_mac12_def list_all_iff hex_upper_chars map_idI)
qed

lemma canonical_target_raw: "raw_target_ok t \<Longrightarrow> canonical_target (PDict (target_dict t)) = Inr (norm_target t)"
proof (cases t)
  case (Groups gs)
  assume "raw_target_ok t"
  with Groups show ?thesis
    by (simp add: canonical_target_def migrate_legacy_target_def dget_or_def Let_def canonical_ids_ints)
next
  case (Device a)
  assume "raw_target_ok t"
  with Device show ?thesis
    by (simp add: canonical_target_def migrate_legacy_target_def dget_or_def Let_def mac12_strip_upper)
qed (simp add: canonical_target_def migrate_legacy_target_def dget_or_def Let_def)

lemma subseqs_subset: "ks \<in> set (subseqs xs) \<Longrightarrow> set ks \<subseteq> set xs"
  using subseqs_powset [of xs] by auto

lemma keys_in_order:
  "distinct keys \<Longrightarrow> map fst f \<in> set (subseqs keys) \<Longrightarrow>
     concat (map (\<lambda>k. case map_of f k of None \<Rightarrow> [] | Some v \<Rightarrow> [(k, h v)]) keys) = map (\<lambda>p. (fst p, h (snd p))) f"
proof (induction keys arbitrary: f)
  case (Cons k keys)
  show ?case
  proof (cases "map fst f \<in> set (subseqs keys)")
    case True
    then have "map_of f k = None" using Cons.prems(1) subseqs_subset by (force simp: map_of_eq_None_iff)
    with Cons.IH [of f] Cons.prems(1) True show ?thesis by simp
  next
    case False
    with Cons.prems(2) have "\<exists>ks \<in> set (subseqs keys). map fst f = k # ks"
      by (auto simp: Let_def)
    then obtain v f' where f: "f = (k, v) # f'" "map fst f' \<in> set (subseqs keys)" by auto
    have "concat (map (\<lambda>k. case map_of f k of None \<Rightarrow> [] | Some v \<Rightarrow> [(k, h v)]) keys) =
        concat (map (\<lambda>k. case map_of f' k of None \<Rightarrow> [] | Some v \<Rightarrow> [(k, h v)]) keys)"
      using Cons.prems(1) f(1) by (intro arg_cong [where f = concat] map_cong) auto
    with Cons.IH [OF _ f(2)] Cons.prems(1) f(1) show ?thesis by simp
  qed
qed simp

lemma override_flags_id: "flags_ok f \<Longrightarrow> override_flags f = f"
proof -
  assume f: "flags_ok f"
  have "(fst p, PBool (py_truth (snd p))) = p" if "p \<in> set f" for p
  proof -
    have "py_is_bool (snd p)" using f that by (simp add: flags_ok_def)
    then show ?thesis by (cases p; cases "snd p") simp_all
  qed
  then have "map (\<lambda>p. (fst p, PBool (py_truth (snd p)))) f = f" by (rule map_idI)
  moreover have "distinct USER_FLAG_KEYS" by (simp add: USER_FLAG_KEYS_def)
  ultimately show ?thesis
    using f keys_in_order [of USER_FLAG_KEYS f "\<lambda>v. PBool (py_truth v)"]
    by (simp add: override_flags_def flags_ok_def)
qed

lemma canonical_flags_dict: "flags_ok f \<Longrightarrow> canonical_flags_override (PDict f) = Inr f"
  by (cases "f = []") (simp_all add: canonical_flags_override_def py_or_def override_flags_id)

lemma validate_int_PInt [simp]: "validate_int (PInt v) lo hi = (if v < lo \<or> v > hi then Inl ValueError else Inr v)"
  by (simp add: validate_int_def)

lemma canonical_block_raw:
  assumes "raw_block_for_groups ids ob"
  shows "canonical_offset_block (PDict (offset_dict ob)) (map_option sort ids) = Inr (norm_block ob)"
proof (cases ob)
  case (OExplicit vs)
  with assms obtain gs where ids: "ids = Some gs" and gs: "length vs = length gs" "fst ` set vs \<subseteq> set gs"
      "block_ok (OExplicit vs)"
    by (auto simp: raw_block_for_groups_def split: option.splits)
  have "canonical_value_entry (sort gs) (PDict [(''id'', PInt i), (''offset_ms'', PInt ms)]) = Inr (i, ms)"
    if "(i, ms) \<in> set vs" for i ms
    using that gs by (force simp: canonical_value_entry_def dget_or_def scene_limits)
  then have "rmap (canonical_value_entry (sort gs))
      (map (\<lambda>(i, ms). PDict [(''id'', PInt i), (''offset_ms'', PInt ms)]) vs) = Inr vs"
    by (force simp: rmap_eq_Inr list_all2_map1 list_all2_same)
  then show ?thesis using OExplicit ids gs
    by (simp add: canonical_offset_block_def Let_def dget_or_def)
qed (use assms in \<open>auto simp: canonical_offset_block_def Let_def dget_or_def raw_block_for_groups_def GROUP_ID_MAX_def\<close>)

lemma effect_kind_name [simp]: "effect_kind_of (PStr (kind_name k)) = Some k"
  by (cases k) (simp_all add: effect_kind_of_def)

lemma child_kind_name [simp]: "k \<noteq> Startblock \<Longrightarrow> child_kind_of (PStr (kind_name k)) = Some k"
  unfolding child_kind_of_def effect_kind_name by (cases k) simp_all

lemma canonical_params_dict [simp]: "canonical_params_field (PDict d) = Inr d"
  by (simp add: canonical_params_field_def)

definition raw_child_ok :: "int list option \<Rightarrow> action \<Rightarrow> bool" where
  "raw_child_ok parents c =
     (case c of
        Effect k t params (Some f) \<Rightarrow>
          k \<noteq> Startblock \<and> raw_target_ok t \<and> flags_ok f \<and>
          (case (t, parents) of (Groups gs, Some ps) \<Rightarrow> set gs \<subseteq> set ps | _ \<Rightarrow> True)
      | _ \<Rightarrow> False)"

fun norm_action :: "action \<Rightarrow> action" where
  "norm_action (Effect k t params fo) = Effect k (norm_target t) params fo"
| "norm_action a = a"

lemma canonical_child_raw:
  assumes "raw_child_ok ps c"
  shows "canonical_offset_group_child (map_option sort ps) (PDict (action_dict c)) = Inr (norm_action c)"
proof -
  obtain k t params f where c: "c = Effect k t params (Some f)" and k: "k \<noteq> Startblock" and t: "raw_target_ok t"
    and f: "flags_ok f" and sub: "case (t, ps) of (Groups gs, Some ps) \<Rightarrow> set gs \<subseteq> set ps | _ \<Rightarrow> True"
    using assms by (auto simp: raw_child_ok_def split: action.splits option.splits)
  have "canonical_offset_group_child_target (map_option sort ps) (PDict (target_dict t)) = Inr (norm_target t)"
    using t sub canonical_target_raw [OF t] by (cases t; cases ps) (simp_all add: child_target_Inr)
  then show ?thesis using c k f
    by (simp add: canonical_offset_group_child_def dget_or_def has_key_def canonical_flags_dict del: target_dict.simps)
qed

lemma target_kind_not_legacy: "dget (target_dict t) ''kind'' \<noteq> PStr ''groups_offset''"
  by (cases t) (simp_all add: dget_or_def)

lemma action_dict_not_legacy: "\<not> is_legacy_groups_offset_target (action_dict a)"
  using target_kind_not_legacy
  by (cases a) (simp_all add: is_legacy_groups_offset_target_def dget_or_def del: target_dict.simps)

lemma kind_name_cases: "kind_name k \<noteq> ''offset_group''" "kind_name k \<noteq> ''delay''" "kind_name k \<noteq> ''sync''"
  by (cases k; simp)+

lemma canonical_effect_raw:
  assumes "raw_target_ok t" and "if k = Startblock then fo = None else (case fo of Some f \<Rightarrow> flags_ok f | None \<Rightarrow> False)"
  shows "canonical_action (PDict (action_dict (Effect k t params fo))) = Inr (Effect k (norm_target t) params fo)"
proof -
  let ?d = "action_dict (Effect k t params fo)"
  have kd: "dget ?d ''kind'' = PStr (kind_name k)" by (simp add: dget_or_def)
  have "canonical_effect k ?d = Inr (Effect k (norm_target t) params fo)"
    using assms by (cases fo) (auto simp: canonical_effect_def dget_or_def has_key_def canonical_target_raw
        canonical_flags_dict split: if_splits simp del: target_dict.simps)
  then show ?thesis using kd kind_name_cases [of k]
    by (simp add: canonical_action_def action_dict_not_legacy Let_def del: action_dict.simps)
qed

lemma canonical_container_raw:
  assumes "raw_target_ok t" "\<forall>a. t \<noteq> Device a"
  shows "canonical_offset_group_container_target (PDict (target_dict t)) = Inr (norm_target t)"
  using canonical_target_raw [OF assms(1)] assms(2)
  by (cases t) (simp_all add: canonical_offset_group_container_target_def del: target_dict.simps)

lemma norm_target_groups: "target_groups (norm_target t) = map_option sort (target_groups t)"
  by (cases t) simp_all

lemma offset_group_okD:
  assumes "offset_group_ok t ob"
  shows "target_ok t" "\<forall>a. t \<noteq> Device a" "block_for_groups (target_groups t) ob"
    "target_groups t = Some gs \<Longrightarrow> length gs \<le> 64"
  using assms by (cases t; cases ob; auto simp: offset_group_ok_def block_for_groups_def)+

lemma canonical_group_raw:
  assumes t: "raw_target_ok t" "\<forall>a. t \<noteq> Device a" "\<And>gs. target_groups t = Some gs \<Longrightarrow> length gs \<le> 64"
    and ob: "raw_block_for_groups (target_groups t) ob"
    and n: "length children \<le> 16" and ch: "\<forall>c \<in> set children. raw_child_ok (target_groups t) c"
  shows "canonical_action (PDict (action_dict (OffsetGroup t (offset_dict ob) children))) =
    Inr (OffsetGroup (norm_target t) (offset_dict (norm_block ob)) (map norm_action children))"
proof -
  let ?cs = "map (\<lambda>c. PDict (action_dict c)) children"
  let ?d = "[(''kind'', PStr ''offset_group''), (''target'', PDict (target_dict t)),
      (''offset'', PDict (offset_dict ob)), (''actions'', PList ?cs)]"
  have d: "action_dict (OffsetGroup t (offset_dict ob) children) = ?d" by simp
  have "legacy_container_target ?d = Inr (PDict (target_dict t))"
    by (simp add: legacy_container_target_def dget_or_def del: target_dict.simps)
  moreover have "canonical_offset_group_container_target (PDict (target_dict t)) = Inr (norm_target t)"
    by (rule canonical_container_raw [OF t(1,2)])
  moreover have "\<not> (case target_groups (norm_target t) of None \<Rightarrow> False | Some gs \<Rightarrow> length gs > MAX_GROUPS_OFFSET_ENTRIES)"
    using t(3) by (auto simp: scene_limits norm_target_groups split: option.splits)
  moreover have "canonical_offset_block (dget ?d ''offset'') (target_groups (norm_target t)) = Inr (norm_block ob)"
    using canonical_block_raw [OF ob] by (simp add: dget_or_def norm_target_groups)
  moreover have "py_or (dget ?d ''actions'') (PList []) = PList ?cs"
    by (simp add: dget_or_def py_or_def)
  moreover have "rmap (canonical_offset_group_child (target_groups (norm_target t))) ?cs = Inr (map norm_action children)"
    using ch canonical_child_raw
    by (auto simp: norm_target_groups rmap_eq_Inr list_all2_conv_all_nth)
  ultimately have g: "canonical_offset_group_action ?d =
      Inr (OffsetGroup (norm_target t) (offset_dict (norm_block ob)) (map norm_action children))"
    using n by (simp add: canonical_offset_group_action_def Let_def scene_limits del: target_dict.simps)
  have k: "dget ?d ''kind'' = PStr ''offset_group''"
    "\<not> has_key ?d ''params''" "\<not> has_key ?d ''flags_override''" "\<not> has_key ?d ''duration_ms''"
    by (simp_all add: dget_or_def has_key_def)
  have "\<not> is_legacy_groups_offset_target ?d"
    using action_dict_not_legacy [of "OffsetGroup t (offset_dict ob) children"] d by simp
  then show ?thesis unfolding d canonical_action_def using g k by (simp only: pyval.case if_False rbind_Inr Let_def) simp
qed

lemma canonical_simple_dict:
  "canonical_action (PDict (action_dict Sync)) = Inr Sync"
  "0 \<le> d \<Longrightarrow> d \<le> 60000 \<Longrightarrow> canonical_action (PDict (action_dict (Delay d))) = Inr (Delay d)"
  by (simp_all add: canonical_action_def is_legacy_groups_offset_target_def dget_or_def has_key_def Let_def MAX_DELAY_MS_def)

lemma child_ok_raw:
  assumes "child_ok ps c" shows "raw_child_ok ps c \<and> norm_action c = c"
proof -
  obtain k t params f where "c = Effect k t params (Some f)" "target_ok t"
    using assms by (auto simp: child_ok_def split: action.splits option.splits)
  with assms show ?thesis using target_ok_raw [of t] by (auto simp: child_ok_def raw_child_ok_def)
qed

lemma canonical_action_dict: "action_ok a \<Longrightarrow> canonical_action (PDict (action_dict a)) = Inr a"
proof (cases a)
  case (Effect k t params fo)
  assume "action_ok a"
  with Effect show ?thesis using canonical_effect_raw [of t k fo params] target_ok_raw [of t] by simp
next
  case (Delay d)
  assume "action_ok a"
  with Delay show ?thesis by (simp only: canonical_simple_dict action_ok.simps)
next
  case (OffsetGroup t offset children)
  assume "action_ok a"
  with OffsetGroup obtain ob where o: "offset = offset_dict ob" "offset_group_ok t ob" "length children \<le> 16"
    and ch: "\<forall>c \<in> set children. child_ok (target_groups t) c" by auto
  note g = offset_group_okD [OF o(2)]
  have "map norm_action children = children" using ch child_ok_raw by (intro map_idI) blast
  then show ?thesis
    using OffsetGroup o ch child_ok_raw target_ok_raw [OF g(1)] block_for_groups_raw [OF g(3)] g(2,4)
      canonical_group_raw [of t ob children] by auto
qed (simp_all only: canonical_simple_dict)

definition actions_doc :: "action list \<Rightarrow> pyval" where
  "actions_doc as = PList (map (\<lambda>a. PDict (action_dict a)) as)"

lemma canonical_actions_doc: "actions_ok as \<Longrightarrow> canonical_actions (actions_doc as) = Inr as"
  using canonical_action_dict
  by (auto simp: canonical_actions_def actions_doc_def actions_ok_def MAX_ACTIONS_PER_SCENE_def rmap_eq_Inr
      list_all2_conv_all_nth)

section \<open>Collapse to a broadcast\<close>

definition collapse_groups_target :: "int list \<Rightarrow> target \<Rightarrow> target" where
  "collapse_groups_target known t =
     (case t of
        Groups gs \<Rightarrow> if gs = [] then t else if known \<noteq> [] \<and> set known \<subseteq> set gs then Broadcast else t
      | _ \<Rightarrow> t)"

text \<open>The \<open>changed\<close> flag of the code only saves copying: an unchanged action is returned as it is.\<close>

fun collapse_action :: "int list \<Rightarrow> action \<Rightarrow> action" where
  "collapse_action known (Effect k t params fo) = Effect k (collapse_groups_target known t) params fo"
| "collapse_action known (OffsetGroup t offset children) =
     OffsetGroup (collapse_groups_target known t) offset (map (collapse_action known) children)"
| "collapse_action known a = a"

definition collapse_actions_to_broadcast :: "action list \<Rightarrow> int list \<Rightarrow> action list" where
  "collapse_actions_to_broadcast actions known =
     (if known = [] then actions else map (collapse_action known) actions)"

section \<open>Renumbering after a group was deleted\<close>

definition shift_group_value :: "int \<Rightarrow> int \<Rightarrow> int" where
  "shift_group_value deleted v = (if v = deleted then 0 else if v > deleted then v - 1 else v)"

definition shift_target_groups_list :: "int \<Rightarrow> target \<Rightarrow> target \<times> bool" where
  "shift_target_groups_list deleted t =
     (case t of
        Groups gs \<Rightarrow>
          let deduped = dedup_from [] (map (shift_group_value deleted) gs) in
          if deduped = gs then (t, False) else (Groups deduped, True)
      | _ \<Rightarrow> (t, False))"

text \<open>The loop over the explicit values, with its set of ids already seen.\<close>

fun renumber_values :: "int \<Rightarrow> int list \<Rightarrow> pyval list \<Rightarrow> (pyval list \<times> bool) res" where
  "renumber_values deleted seen [] = Inr ([], False)"
| "renumber_values deleted seen (entry # es) =
     rbind (py_get entry ''id'') (\<lambda>raw.
       case py_int raw of
         Inl e \<Rightarrow>
           if e = TypeError \<or> e = ValueError
           then rbind (renumber_values deleted seen es) (\<lambda>(vs, ch). Inr (entry # vs, ch))
           else Inl e
       | Inr old \<Rightarrow>
           let shifted = shift_group_value deleted old in
           if shifted \<in> set seen
           then rbind (renumber_values deleted seen es) (\<lambda>(vs, ch). Inr (vs, True))
           else
             rbind (py_dict entry) (\<lambda>d.
             rbind (renumber_values deleted (shifted # seen) es) (\<lambda>(vs, ch).
               Inr (PDict (assoc_set ''id'' (PInt shifted) d) # vs, ch \<or> shifted \<noteq> old))))"

definition renumber_offset :: "int \<Rightarrow> pydict \<Rightarrow> (pydict \<times> bool) res" where
  "renumber_offset deleted offset =
     (if dget offset ''mode'' = PStr ''explicit'' then
        (case dget offset ''values'' of
           PList vs \<Rightarrow>
             rbind (renumber_values deleted [] vs) (\<lambda>(vs', changed).
               Inr (if changed then (assoc_set ''values'' (PList vs') offset, True) else (offset, False)))
         | _ \<Rightarrow> Inr (offset, False))
      else Inr (offset, False))"

definition rewritten :: "'a list \<Rightarrow> ('a \<times> bool) list \<Rightarrow> 'a list \<times> bool" where
  "rewritten as rs = (if \<exists>r \<in> set rs. snd r then (map fst rs, True) else (as, False))"

fun renumber_action :: "int \<Rightarrow> action \<Rightarrow> (action \<times> bool) res" where
  "renumber_action deleted (Effect k t params fo) =
     (case shift_target_groups_list deleted t of (t', changed) \<Rightarrow>
        Inr (if changed then (Effect k t' params fo, True) else (Effect k t params fo, False)))"
| "renumber_action deleted (OffsetGroup t offset children) =
     (case shift_target_groups_list deleted t of (t', t_changed) \<Rightarrow>
        rbind (rmap (renumber_action deleted) children) (\<lambda>rs.
        case rewritten children rs of (children', c_changed) \<Rightarrow>
        rbind (renumber_offset deleted offset) (\<lambda>(offset', o_changed).
          Inr (if t_changed \<or> c_changed \<or> o_changed then (OffsetGroup t' offset' children', True)
               else (OffsetGroup t offset children, False)))))"
| "renumber_action deleted a = Inr (a, False)"

definition renumber_actions_for_deleted_group :: "action list \<Rightarrow> int \<Rightarrow> (action list \<times> bool) res" where
  "renumber_actions_for_deleted_group actions deleted =
     rbind (rmap (renumber_action deleted) actions) (\<lambda>rs. Inr (rewritten actions rs))"

text \<open>One scene of \<open>renumber_group_references\<close>: rewrite, and validate again when anything moved.\<close>

definition renumber_scene_actions :: "int \<Rightarrow> action list \<Rightarrow> (action list \<times> bool) res" where
  "renumber_scene_actions deleted actions =
     rbind (renumber_actions_for_deleted_group actions deleted) (\<lambda>(new_actions, changed).
       if changed then rbind (canonical_actions (actions_doc new_actions)) (\<lambda>as. Inr (as, True))
       else Inr (actions, False))"

section \<open>The collapse keeps what is addressed\<close>

fun covers :: "target \<Rightarrow> int \<Rightarrow> bool" where
  "covers Broadcast g = True"
| "covers (Groups gs) g = (g \<in> set gs)"
| "covers (Device a) g = False"

fun action_targets :: "action \<Rightarrow> target list" where
  "action_targets (Effect k t params fo) = [t]"
| "action_targets (OffsetGroup t offset children) = t # concat (map action_targets children)"
| "action_targets a = []"

definition explicit_over_all :: "int list \<Rightarrow> action \<Rightarrow> bool" where
  "explicit_over_all known a =
     (case a of
        OffsetGroup (Groups gs) offset cs \<Rightarrow> dget offset ''mode'' = PStr ''explicit'' \<and> set known \<subseteq> set gs
      | _ \<Rightarrow> False)"

definition same_cover :: "int list \<Rightarrow> target \<Rightarrow> target \<Rightarrow> bool" where
  "same_cover known t t' = ((\<forall>g \<in> set known. covers t' g = covers t g) \<and> (t' = t \<or> t' = Broadcast))"

lemma collapse_target_cover: "same_cover known t (collapse_groups_target known t)"
  by (cases t) (auto simp: same_cover_def collapse_groups_target_def)

lemma collapse_target_ok: "target_ok t \<Longrightarrow> target_ok (collapse_groups_target known t)"
  by (cases t) (simp_all add: collapse_groups_target_def)

lemma collapse_targets_cover:
  "list_all2 (same_cover known) (action_targets a) (action_targets (collapse_action known a))"
proof (induction known a rule: collapse_action.induct)
  case (2 known t offset children)
  then have "list_all2 (same_cover known) (concat (map action_targets children))
      (concat (map action_targets (map (collapse_action known) children)))"
    by (induction children) (auto intro: list_all2_appendI)
  then show ?case by (simp add: collapse_target_cover)
qed (simp_all add: collapse_target_cover)

lemma collapse_child_ok:
  assumes "child_ok (target_groups t) c"
  shows "child_ok (target_groups (collapse_groups_target known t)) (collapse_action known c)"
proof -
  obtain k u params f where c: "c = Effect k u params (Some f)" and ok: "k \<noteq> Startblock" "target_ok u" "flags_ok f"
    and sub: "case (u, target_groups t) of (Groups gs, Some ps) \<Rightarrow> set gs \<subseteq> set ps | _ \<Rightarrow> True"
    using assms by (auto simp: child_ok_def split: action.splits option.splits)
  have "case (collapse_groups_target known u, target_groups (collapse_groups_target known t)) of
      (Groups gs, Some ps) \<Rightarrow> set gs \<subseteq> set ps | _ \<Rightarrow> True"
    using sub by (cases u; cases t) (auto simp: collapse_groups_target_def)
  with ok collapse_target_ok [OF ok(2), of known] show ?thesis by (simp add: c child_ok_def)
qed

lemma block_mode_dict: "dget (offset_dict ob) ''mode'' = PStr (block_mode ob)"
  by (cases ob) (simp_all add: dget_or_def)

lemma offset_dict_inj: "offset_dict ob = offset_dict ob' \<longleftrightarrow> ob = ob'"
proof
  have inj: "inj (\<lambda>(i, ms). PDict [(''id'', PInt i), (''offset_ms'', PInt ms)])"
    by (auto intro!: injI)
  show "offset_dict ob = offset_dict ob' \<Longrightarrow> ob = ob'"
    by (cases ob; cases ob') (simp_all add: inj_map_eq_map [OF inj])
qed simp

lemma collapse_group_ok:
  assumes "offset_group_ok t ob" and "known \<noteq> []"
  shows "offset_group_ok (collapse_groups_target known t) ob \<longleftrightarrow>
    \<not> (block_mode ob = ''explicit'' \<and> (\<exists>gs. t = Groups gs \<and> set known \<subseteq> set gs))"
  using assms by (cases t; cases ob) (auto simp: offset_group_ok_def collapse_groups_target_def)

lemma collapse_keeps_canonical:
  assumes "action_ok a" and "known \<noteq> []"
  shows "action_ok (collapse_action known a) \<longleftrightarrow> \<not> explicit_over_all known a"
proof (cases a)
  case (Effect k t params fo)
  with assms show ?thesis
    using collapse_target_ok [of t known] by (auto simp: explicit_over_all_def)
next
  case (OffsetGroup t offset children)
  with assms obtain ob where o: "offset = offset_dict ob" "offset_group_ok t ob"
    and n: "length children \<le> 16" and ch: "\<forall>c \<in> set children. child_ok (target_groups t) c" by auto
  have "action_ok (collapse_action known a) \<longleftrightarrow> offset_group_ok (collapse_groups_target known t) ob"
    using OffsetGroup o(1) n ch collapse_child_ok by (auto simp: offset_dict_inj)
  also have "\<dots> \<longleftrightarrow> \<not> explicit_over_all known a"
    unfolding collapse_group_ok [OF o(2) assms(2)] OffsetGroup explicit_over_all_def
    by (cases t) (simp_all add: o(1) block_mode_dict)
  finally show ?thesis .
qed (use assms in \<open>simp_all add: explicit_over_all_def\<close>)

section \<open>Renumbering moves every reference\<close>

fun shift_target :: "int \<Rightarrow> target \<Rightarrow> target" where
  "shift_target d (Groups gs) = Groups (sorted_list_of_set (shift_group_value d ` set gs))"
| "shift_target d t = t"

fun shift_block :: "int \<Rightarrow> offset_block \<Rightarrow> offset_block" where
  "shift_block d (OExplicit vs) =
     OExplicit (map (\<lambda>j. (j, the (map_of (map (\<lambda>(i, ms). (shift_group_value d i, ms)) vs) j)))
       (sorted_list_of_set (shift_group_value d ` fst ` set vs)))"
| "shift_block d ob = ob"

inductive shifted :: "int \<Rightarrow> action \<Rightarrow> action \<Rightarrow> bool" for d where
  shifted_effect: "shifted d (Effect k t params fo) (Effect k (shift_target d t) params fo)"
| shifted_sync: "shifted d Sync Sync"
| shifted_delay: "shifted d (Delay ms) (Delay ms)"
| shifted_group: "list_all2 (shifted d) cs cs' \<Longrightarrow>
    shifted d (OffsetGroup t (offset_dict ob) cs)
      (OffsetGroup (shift_target d t) (offset_dict (shift_block d ob)) cs')"

fun shift_values :: "int \<Rightarrow> int list \<Rightarrow> (int \<times> int) list \<Rightarrow> (int \<times> int) list" where
  "shift_values d seen [] = []"
| "shift_values d seen ((i, ms) # vs) =
     (if shift_group_value d i \<in> set seen then shift_values d seen vs
      else (shift_group_value d i, ms) # shift_values d (shift_group_value d i # seen) vs)"

lemma shift_in_range: "0 \<le> d \<Longrightarrow> group_id_ok g \<Longrightarrow> group_id_ok (shift_group_value d g)"
  by (simp add: shift_group_value_def)

lemma sort_distinct: "distinct xs \<Longrightarrow> sort xs = sorted_list_of_set (set xs)" for xs :: "int list"
  by (simp add: sorted_list_of_set_sort_remdups distinct_remdups_id)

lemma shift_target_list:
  assumes "target_ok t" and "0 \<le> d" and "shift_target_groups_list d t = (t', ch)"
  shows "raw_target_ok t'" and "norm_target t' = shift_target d t" and "\<not> ch \<Longrightarrow> t' = t"
    and "t' = (case t of Groups gs \<Rightarrow> Groups (dedup_from [] (map (shift_group_value d) gs)) | _ \<Rightarrow> t)"
proof -
  show f: "t' = (case t of Groups gs \<Rightarrow> Groups (dedup_from [] (map (shift_group_value d) gs)) | _ \<Rightarrow> t)"
    using assms(3) by (cases t) (auto simp: shift_target_groups_list_def Let_def split: if_splits)
  show "\<not> ch \<Longrightarrow> t' = t"
    using assms(3) by (cases t) (auto simp: shift_target_groups_list_def Let_def split: if_splits)
  have s: "set (dedup_from [] (map (shift_group_value d) gs)) = shift_group_value d ` set gs"
    and di: "distinct (dedup_from [] (map (shift_group_value d) gs))" for gs
    by (simp_all add: set_dedup_from distinct_dedup_from)
  show "norm_target t' = shift_target d t" unfolding f
    by (cases t) (simp_all add: sort_distinct di s)
  show "raw_target_ok t'" unfolding f
  proof (cases t)
    case (Groups gs)
    have "dedup_from [] (map (shift_group_value d) gs) \<noteq> []" using assms(1) Groups s [of gs] by auto
    then show "raw_target_ok (case t of Groups gs \<Rightarrow> Groups (dedup_from [] (map (shift_group_value d) gs)) | _ \<Rightarrow> t)"
      using assms(1,2) Groups di s shift_in_range by auto
  qed (use assms(1) in auto)
qed

lemma keys_shift_values:
  "fst ` set (shift_values d seen vs) = shift_group_value d ` fst ` set vs - set seen"
  "distinct (map fst (shift_values d seen vs))"
  by (induction d seen vs rule: shift_values.induct) auto

lemma map_of_shift_values:
  "j \<notin> set seen \<Longrightarrow>
     map_of (shift_values d seen vs) j = map_of (map (\<lambda>(i, ms). (shift_group_value d i, ms)) vs) j"
  by (induction d seen vs rule: shift_values.induct) auto

lemma snd_shift_values: "snd ` set (shift_values d seen vs) \<subseteq> snd ` set vs"
  by (induction d seen vs rule: shift_values.induct) auto

text \<open>A list with distinct keys, sorted by key, is the table of its lookups.\<close>

lemma sort_by_key_table:
  fixes xs :: "(int \<times> 'b) list"
  assumes "distinct (map fst xs)"
  shows "sort_key fst xs = map (\<lambda>j. (j, the (map_of xs j))) (sorted_list_of_set (fst ` set xs))"
proof -
  let ?L = "sort_key fst xs"
  have d: "distinct (map fst ?L)"
    by (metis assms distinct_map distinct_sort set_sort)
  have "map fst ?L = sorted_list_of_set (fst ` set xs)"
    using sorted_list_of_set.idem_if_sorted_distinct [of "map fst ?L"] d by simp
  moreover have "?L = map (\<lambda>j. (j, the (map_of xs j))) (map fst ?L)"
    unfolding map_map by (rule map_idI [symmetric]) (auto simp: assms)
  ultimately show ?thesis by simp
qed

lemma norm_shift_values:
  "norm_block (OExplicit (shift_values d [] vs)) = shift_block d (OExplicit vs)"
proof -
  have "j \<in> shift_group_value d ` fst ` set vs \<Longrightarrow>
      map_of (shift_values d [] vs) j = map_of (map (\<lambda>(i, ms). (shift_group_value d i, ms)) vs) j" for j
    by (rule map_of_shift_values) simp
  then show ?thesis
    by (simp add: sort_by_key_table keys_shift_values)
qed

abbreviation value_entry :: "int \<times> int \<Rightarrow> pyval" where
  "value_entry \<equiv> (\<lambda>(i, ms). PDict [(''id'', PInt i), (''offset_ms'', PInt ms)])"

lemma renumber_values_entries:
  "\<exists>ch. renumber_values d seen (map value_entry vs) = Inr (map value_entry (shift_values d seen vs), ch) \<and>
     (\<not> ch \<longrightarrow> shift_values d seen vs = vs)"
proof (induction d seen vs rule: shift_values.induct)
  case (2 d seen i ms vs)
  show ?case
  proof (cases "shift_group_value d i \<in> set seen")
    case True
    with 2(1) obtain ch where
      "renumber_values d seen (map value_entry vs) = Inr (map value_entry (shift_values d seen vs), ch)" by blast
    with True show ?thesis by (auto simp: dget_or_def Let_def)
  next
    case False
    with 2(2) obtain ch where
      "renumber_values d (shift_group_value d i # seen) (map value_entry vs) =
         Inr (map value_entry (shift_values d (shift_group_value d i # seen) vs), ch)"
      "\<not> ch \<longrightarrow> shift_values d (shift_group_value d i # seen) vs = vs" by blast
    with False show ?thesis
      by (cases "shift_group_value d i = i") (auto simp: dget_or_def Let_def)
  qed
qed (auto intro: exI [of _ False])

definition raw_shift_block :: "int \<Rightarrow> offset_block \<Rightarrow> offset_block" where
  "raw_shift_block d ob = (case ob of OExplicit vs \<Rightarrow> OExplicit (shift_values d [] vs) | _ \<Rightarrow> ob)"

lemma norm_raw_shift_block: "norm_block (raw_shift_block d ob) = shift_block d ob"
  using norm_shift_values
  by (cases ob) (simp_all add: raw_shift_block_def del: norm_block.simps(1) shift_block.simps(1))

lemma renumber_offset_dict:
  "\<exists>ch. renumber_offset d (offset_dict ob) = Inr (offset_dict (raw_shift_block d ob), ch) \<and>
     (\<not> ch \<longrightarrow> raw_shift_block d ob = ob)"
proof (cases ob)
  case (OExplicit vs)
  obtain ch where "renumber_values d [] (map value_entry vs) = Inr (map value_entry (shift_values d [] vs), ch)"
    "\<not> ch \<longrightarrow> shift_values d [] vs = vs"
    using renumber_values_entries [of d "[]" vs] by blast
  then show ?thesis using OExplicit
    by (auto simp: renumber_offset_def dget_or_def raw_shift_block_def)
qed (auto simp: renumber_offset_def dget_or_def raw_shift_block_def)

fun explicit_distinct :: "action \<Rightarrow> bool" where
  "explicit_distinct (OffsetGroup t offset cs) =
     (\<forall>vs. offset = offset_dict (OExplicit vs) \<longrightarrow> distinct (map fst vs))"
| "explicit_distinct a = True"

lemma rewritten_fst: "list_all2 (\<lambda>a r. \<not> snd r \<longrightarrow> fst r = a) as rs \<Longrightarrow> fst (rewritten as rs) = map fst rs"
  by (induction as rs rule: list_all2_induct) (auto simp: rewritten_def split: if_splits)

lemma raw_shift_block_ok:
  assumes g: "offset_group_ok t ob" and "0 \<le> d" and "shift_target_groups_list d t = (t', ch)"
    and dist: "\<And>vs. ob = OExplicit vs \<Longrightarrow> distinct (map fst vs)"
  shows "raw_block_for_groups (target_groups t') (raw_shift_block d ob)"
proof (cases ob)
  case (OExplicit vs)
  with g obtain gs where t: "t = Groups gs" and l: "length vs = length gs" "fst ` set vs \<subseteq> set gs"
    and ok: "block_ok (OExplicit vs)"
    by (cases t) (auto simp: offset_group_ok_def)
  have t': "t' = Groups (dedup_from [] (map (shift_group_value d) gs))"
    using shift_target_list(4) [OF offset_group_okD(1) [OF g] assms(2,3)] t by simp
  have dg: "distinct gs" using offset_group_okD(1) [OF g] t by simp
  have eq: "fst ` set vs = set gs"
  proof (rule card_subset_eq)
    show "card (fst ` set vs) = card (set gs)"
      using dist [OF OExplicit] l(1) dg by (metis distinct_card length_map list.set_map)
  qed (use l(2) in auto)
  have keys: "fst ` set (shift_values d [] vs) = set (dedup_from [] (map (shift_group_value d) gs))"
    by (simp add: keys_shift_values set_dedup_from eq)
  have "length (shift_values d [] vs) = card (fst ` set (shift_values d [] vs))"
    by (metis distinct_card keys_shift_values(2) length_map list.set_map)
  also have "\<dots> = length (dedup_from [] (map (shift_group_value d) gs))"
    by (metis keys distinct_card distinct_dedup_from)
  finally have len: "length (shift_values d [] vs) = length (dedup_from [] (map (shift_group_value d) gs))" .
  have "block_ok (OExplicit (shift_values d [] vs))"
  proof -
    have "group_id_ok i \<and> 0 \<le> ms \<and> ms \<le> 65535" if m: "(i, ms) \<in> set (shift_values d [] vs)" for i ms
    proof -
      have "i \<in> shift_group_value d ` fst ` set vs"
        using m keys_shift_values(1) [of d "[]" vs] by force
      then have "group_id_ok i" using ok assms(2) shift_in_range by auto
      moreover have "ms \<in> snd ` set vs" using m snd_shift_values by force
      ultimately show ?thesis using ok by auto
    qed
    then show ?thesis by auto
  qed
  then show ?thesis using OExplicit t' keys len by (simp add: raw_block_for_groups_def raw_shift_block_def)
qed (use offset_group_okD(3) [OF g] in \<open>simp_all add: raw_block_for_groups_def raw_shift_block_def block_for_groups_def\<close>)

lemma renumber_child:
  assumes "child_ok (target_groups t) c" and "target_ok t" and "0 \<le> d"
    and "shift_target_groups_list d t = (t', ch)"
  obtains c' b where "renumber_action d c = Inr (c', b)" and "\<not> b \<Longrightarrow> c' = c"
    and "raw_child_ok (target_groups t') c'" and "shifted d c (norm_action c')"
proof -
  obtain k u params f where c: "c = Effect k u params (Some f)" and ok: "k \<noteq> Startblock" "target_ok u" "flags_ok f"
    and sub: "case (u, target_groups t) of (Groups gs, Some ps) \<Rightarrow> set gs \<subseteq> set ps | _ \<Rightarrow> True"
    using assms(1) by (auto simp: child_ok_def split: action.splits option.splits)
  obtain u' b where u: "shift_target_groups_list d u = (u', b)" by fastforce
  note su = shift_target_list [OF ok(2) assms(3) u] and st = shift_target_list [OF assms(2-4)]
  have "case (u', target_groups t') of (Groups gs, Some ps) \<Rightarrow> set gs \<subseteq> set ps | _ \<Rightarrow> True"
    using sub unfolding su(4) st(4) by (cases u; cases t) (auto simp: set_dedup_from)
  with ok su(1) have "raw_child_ok (target_groups t') (Effect k u' params (Some f))"
    by (simp add: raw_child_ok_def)
  moreover have "shifted d c (norm_action (Effect k u' params (Some f)))"
    using su(2) by (simp add: c shifted_effect)
  moreover have "renumber_action d c = Inr (Effect k u' params (Some f), b)"
    using su(3) by (cases b) (simp_all add: c u)
  ultimately show ?thesis using that [of "Effect k u' params (Some f)" b] su(3) c by auto
qed

lemma renumber_children:
  assumes "\<forall>c \<in> set cs. child_ok (target_groups t) c" and "target_ok t" and "0 \<le> d"
    and "shift_target_groups_list d t = (t', ch)"
  shows "\<exists>rs. rmap (renumber_action d) cs = Inr rs \<and> list_all2 (\<lambda>a r. \<not> snd r \<longrightarrow> fst r = a) cs rs \<and>
     list_all2 (shifted d) cs (map norm_action (map fst rs)) \<and>
     (\<forall>c' \<in> set (map fst rs). raw_child_ok (target_groups t') c')"
  using assms(1)
proof (induction cs)
  case (Cons c cs)
  then obtain c' b where "renumber_action d c = Inr (c', b)" "\<not> b \<Longrightarrow> c' = c"
    "raw_child_ok (target_groups t') c'" "shifted d c (norm_action c')"
    using renumber_child [OF _ assms(2-4), of c] by auto
  moreover obtain rs where "rmap (renumber_action d) cs = Inr rs" "list_all2 (\<lambda>a r. \<not> snd r \<longrightarrow> fst r = a) cs rs"
     "list_all2 (shifted d) cs (map norm_action (map fst rs))"
     "\<forall>c' \<in> set (map fst rs). raw_child_ok (target_groups t') c'"
    using Cons by auto
  ultimately show ?case by auto
qed simp

lemma renumber_group:
  assumes ok: "action_ok (OffsetGroup t offset cs)" and dist: "explicit_distinct (OffsetGroup t offset cs)" and d: "0 \<le> d"
  shows "\<exists>a' ch. renumber_action d (OffsetGroup t offset cs) = Inr (a', ch) \<and> (\<not> ch \<longrightarrow> a' = OffsetGroup t offset cs) \<and>
     (\<exists>a''. canonical_action (PDict (action_dict a')) = Inr a'' \<and> shifted d (OffsetGroup t offset cs) a'')"
proof -
  obtain ob where ob: "offset = offset_dict ob" "offset_group_ok t ob" "length cs \<le> 16"
    and chs: "\<forall>c \<in> set cs. child_ok (target_groups t) c" using ok by auto
  note g = offset_group_okD [OF ob(2)]
  obtain t' tc where t: "shift_target_groups_list d t = (t', tc)" by fastforce
  note st = shift_target_list [OF g(1) d t]
  obtain rs where rs: "rmap (renumber_action d) cs = Inr rs" "list_all2 (\<lambda>a r. \<not> snd r \<longrightarrow> fst r = a) cs rs"
     "list_all2 (shifted d) cs (map norm_action (map fst rs))"
     "\<forall>c' \<in> set (map fst rs). raw_child_ok (target_groups t') c'"
    using renumber_children [OF chs g(1) d t] by blast
  obtain cc where rw: "rewritten cs rs = (map fst rs, cc)" "\<not> cc \<Longrightarrow> map fst rs = cs"
    using rewritten_fst [OF rs(2)] by (cases "rewritten cs rs") (auto simp: rewritten_def split: if_splits)
  obtain oc where off: "renumber_offset d (offset_dict ob) = Inr (offset_dict (raw_shift_block d ob), oc)"
    "\<not> oc \<longrightarrow> raw_shift_block d ob = ob"
    using renumber_offset_dict [of d ob] by blast
  let ?a' = "OffsetGroup t' (offset_dict (raw_shift_block d ob)) (map fst rs)"
  have "renumber_action d (OffsetGroup t offset cs) = Inr (?a', tc \<or> cc \<or> oc)"
    using t rs(1) rw off ob(1) st(3) by (auto simp del: offset_dict.simps)
  moreover have "\<not> (tc \<or> cc \<or> oc) \<longrightarrow> ?a' = OffsetGroup t offset cs"
    using rw(2) off(2) st(3) ob(1) by auto
  moreover have "canonical_action (PDict (action_dict ?a')) =
      Inr (OffsetGroup (norm_target t') (offset_dict (norm_block (raw_shift_block d ob))) (map norm_action (map fst rs)))"
  proof (rule canonical_group_raw)
    show "raw_block_for_groups (target_groups t') (raw_shift_block d ob)"
      by (rule raw_shift_block_ok [OF ob(2) d t]) (use dist ob(1) in auto)
    show "\<forall>a. t' \<noteq> Device a" using g(2) st(4) by (cases t) auto
    show "length (map fst rs) \<le> 16" using rmap_length [OF rs(1)] ob(3) by simp
    show "length gs' \<le> 64" if "target_groups t' = Some gs'" for gs'
    proof (cases t)
      case (Groups gs)
      have len: "length (dedup_from seen xs) \<le> length xs" for seen xs :: "int list"
        by (induction seen xs rule: dedup_from.induct) auto
      have "gs' = dedup_from [] (map (shift_group_value d) gs)" using that st(4) Groups by simp
      with len [of "[]" "map (shift_group_value d) gs"] g(4) Groups show ?thesis by fastforce
    qed (use that st(4) in auto)
  qed (use st(1) rs(4) in auto)
  moreover have "shifted d (OffsetGroup t offset cs)
      (OffsetGroup (norm_target t') (offset_dict (norm_block (raw_shift_block d ob))) (map norm_action (map fst rs)))"
    unfolding ob(1) st(2) norm_raw_shift_block using rs(3) by (rule shifted_group)
  ultimately show ?thesis by blast
qed

lemma renumber_one:
  assumes ok: "action_ok a" and dist: "explicit_distinct a" and d: "0 \<le> d"
  shows "\<exists>a' ch. renumber_action d a = Inr (a', ch) \<and> (\<not> ch \<longrightarrow> a' = a) \<and>
     (\<exists>a''. canonical_action (PDict (action_dict a')) = Inr a'' \<and> shifted d a a'')"
proof (cases a)
  case (Effect k t params fo)
  obtain t' b where t: "shift_target_groups_list d t = (t', b)" by fastforce
  have "target_ok t" using ok Effect by simp
  note st = shift_target_list [OF this d t]
  have "canonical_action (PDict (action_dict (Effect k t' params fo))) = Inr (Effect k (shift_target d t) params fo)"
    using canonical_effect_raw [OF st(1), of k fo params] ok Effect st(2) by (simp del: action_dict.simps)
  moreover have "renumber_action d a = Inr (Effect k t' params fo, b)"
    using st(3) by (cases b) (simp_all add: Effect t)
  ultimately show ?thesis using st(3) Effect shifted_effect by auto
next
  case (OffsetGroup t offset cs)
  with assms renumber_group show ?thesis by blast
next
  case Sync
  with canonical_simple_dict(1) show ?thesis by (auto intro: shifted_sync simp del: action_dict.simps)
next
  case (Delay ms)
  with ok canonical_simple_dict(2) [of ms] show ?thesis by (auto intro: shifted_delay simp del: action_dict.simps)
qed

lemma renumber_all:
  assumes "\<forall>a \<in> set as. action_ok a \<and> explicit_distinct a" and "0 \<le> d"
  shows "\<exists>rs as''. rmap (renumber_action d) as = Inr rs \<and> list_all2 (\<lambda>a r. \<not> snd r \<longrightarrow> fst r = a) as rs \<and>
     rmap canonical_action (map (\<lambda>a. PDict (action_dict a)) (map fst rs)) = Inr as'' \<and> list_all2 (shifted d) as as''"
  using assms(1)
proof (induction as)
  case (Cons a as)
  then obtain rs as'' where "rmap (renumber_action d) as = Inr rs" "list_all2 (\<lambda>a r. \<not> snd r \<longrightarrow> fst r = a) as rs"
     "rmap canonical_action (map (\<lambda>a. PDict (action_dict a)) (map fst rs)) = Inr as''" "list_all2 (shifted d) as as''"
    by auto
  moreover obtain a' ch a'' where "renumber_action d a = Inr (a', ch)" "\<not> ch \<longrightarrow> a' = a"
     "canonical_action (PDict (action_dict a')) = Inr a''" "shifted d a a''"
    using renumber_one [OF _ _ assms(2), of a] Cons.prems by auto
  ultimately show ?case by (intro exI [of _ "(a', ch) # rs"] exI [of _ "a'' # as''"]) auto
qed simp

lemma renumber_scene:
  assumes ok: "actions_ok as" and dist: "\<forall>a \<in> set as. explicit_distinct a" and d: "0 \<le> d"
  obtains as' ch where "renumber_scene_actions d as = Inr (as', ch)" and "list_all2 (shifted d) as as'"
    and "actions_ok as'" and "\<not> ch \<Longrightarrow> as' = as"
proof -
  obtain rs as'' where rs: "rmap (renumber_action d) as = Inr rs" "list_all2 (\<lambda>a r. \<not> snd r \<longrightarrow> fst r = a) as rs"
     "rmap canonical_action (map (\<lambda>a. PDict (action_dict a)) (map fst rs)) = Inr as''" "list_all2 (shifted d) as as''"
    using renumber_all [OF _ d, of as] ok dist by (auto simp: actions_ok_def)
  have len: "length rs = length as" using rmap_length [OF rs(1)] .
  have can: "canonical_actions (actions_doc (map fst rs)) = Inr as''"
    using rs(3) ok len by (simp add: canonical_actions_def actions_doc_def actions_ok_def MAX_ACTIONS_PER_SCENE_def)
  have ok'': "actions_ok as''" by (rule canonical_actions_result_ok [OF can])
  obtain cc where rw: "rewritten as rs = (map fst rs, cc)" "\<not> cc \<Longrightarrow> map fst rs = as"
    using rewritten_fst [OF rs(2)] by (cases "rewritten as rs") (auto simp: rewritten_def split: if_splits)
  have r: "renumber_scene_actions d as = (if cc then Inr (as'', True) else Inr (as, False))"
    using rs(1) rw can by (simp add: renumber_scene_actions_def renumber_actions_for_deleted_group_def)
  show ?thesis
  proof (cases cc)
    case True
    with r rs(4) ok'' show ?thesis by (intro that [of as'' True]) auto
  next
    case False
    then have "as'' = as" using can canonical_actions_doc [OF ok] rw(2) by simp
    with False r rs(4) ok show ?thesis by (intro that [of as False]) auto
  qed
qed

section \<open>Properties\<close>



text \<open>
  C13.  Canonical actions survive persistence: the dictionaries stored for them validate again to the same
  actions, so saving and loading a scene any number of times changes nothing.
\<close>

theorem canonical_actions_roundtrip:
  assumes "actions_ok as"
  shows "canonical_actions (actions_doc as) = Inr as"
  using assms by (rule canonical_actions_doc)

theorem canonical_actions_roundtrip_witness:
  "canonical_actions (actions_doc [OffsetGroup (Groups [1, 3]) (offset_dict (OExplicit [(1, 5), (3, 10)]))
      [Effect WledControl (Groups [3]) [] (Some [(''force_tt0'', PBool True)])]]) =
    Inr [OffsetGroup (Groups [1, 3]) (offset_dict (OExplicit [(1, 5), (3, 10)]))
      [Effect WledControl (Groups [3]) [] (Some [(''force_tt0'', PBool True)])]]"
proof -
  have "\<exists>ob. offset_dict (OExplicit [(1, 5), (3, 10)]) = offset_dict ob \<and> offset_group_ok (Groups [1, 3]) ob"
    by (intro exI [of _ "OExplicit [(1, 5), (3, 10)]"]) (simp add: offset_group_ok_def)
  then show ?thesis
    by (intro canonical_actions_roundtrip)
      (simp add: actions_ok_def child_ok_def flags_ok_def USER_FLAG_KEYS_def Let_def del: offset_dict.simps)
qed

text \<open>
  The save-time collapse never changes which known groups a target addresses, and it keeps an action
  canonical except in one case, which it breaks: a container with explicit offsets whose groups are all
  the known ones becomes an explicit container over a broadcast, which the validator refuses.
\<close>

theorem collapse_correct:
  assumes "action_ok a" and "known \<noteq> []"
  shows "list_all2 (same_cover known) (action_targets a) (action_targets (collapse_action known a)) \<and>
     (action_ok (collapse_action known a) \<longleftrightarrow> \<not> explicit_over_all known a)"
  using collapse_targets_cover collapse_keeps_canonical [OF assms] by blast

theorem collapse_correct_witness:
  "\<not> action_ok (collapse_action [1, 3] (OffsetGroup (Groups [1, 3]) (offset_dict (OExplicit [(1, 5), (3, 10)])) [])) \<and>
   action_ok (collapse_action [1, 3] (Effect Startblock (Groups [1, 3]) [] None)) \<and>
   collapse_action [1, 3] (Effect Startblock (Groups [1, 3]) [] None) = Effect Startblock Broadcast [] None"
proof -
  let ?a = "OffsetGroup (Groups [1, 3]) (offset_dict (OExplicit [(1, 5), (3, 10)])) []"
  let ?e = "Effect Startblock (Groups [1, 3]) [] None"
  have "\<exists>ob. offset_dict (OExplicit [(1, 5), (3, 10)]) = offset_dict ob \<and> offset_group_ok (Groups [1, 3]) ob"
    by (intro exI [of _ "OExplicit [(1, 5), (3, 10)]"]) (simp add: offset_group_ok_def)
  then have a: "action_ok ?a" by (simp del: offset_dict.simps)
  have ea: "explicit_over_all [1, 3] ?a" by (simp add: explicit_over_all_def dget_or_def)
  have e: "action_ok ?e" "\<not> explicit_over_all [1, 3] ?e" by (simp_all add: explicit_over_all_def)
  from collapse_correct [OF a, of "[1, 3]"] ea collapse_correct [OF e(1), of "[1, 3]"] e(2)
  show ?thesis by (simp add: collapse_groups_target_def del: offset_dict.simps)
qed

text \<open>
  Deleting a group moves every reference of a scene: for canonical actions whose explicit offsets
  name each group once the renumbering succeeds, its result is canonical, every group list becomes the
  sorted set of its shifted ids (the deleted id becomes 0, higher ids move down by one), and every
  explicit offset stays with its group, the lower id winning where two groups fall together.
\<close>

theorem renumber_correct:
  assumes "actions_ok as" and "\<forall>a \<in> set as. explicit_distinct a" and "0 \<le> deleted"
  shows "\<exists>as' changed. renumber_scene_actions deleted as = Inr (as', changed) \<and>
     list_all2 (shifted deleted) as as' \<and> actions_ok as' \<and> (\<not> changed \<longrightarrow> as' = as)"
  by (rule renumber_scene [OF assms]) blast

theorem renumber_correct_witness:
  "\<exists>as' changed. renumber_scene_actions 2 [Effect Startblock (Groups [1, 2, 4]) [] None] = Inr (as', changed) \<and>
     list_all2 (shifted 2) [Effect Startblock (Groups [1, 2, 4]) [] None] as' \<and> actions_ok as'"
proof -
  have "actions_ok [Effect Startblock (Groups [1, 2, 4]) [] None]" by (simp add: actions_ok_def)
  then show ?thesis using renumber_correct [of "[Effect Startblock (Groups [1, 2, 4]) [] None]" 2] by auto
qed

end
