(* ===== verification/Runner.thy ===== *)
theory Runner
  imports Control
begin

text \<open>
  \<^verbatim>\<open>racelink/services/scene_runner_service.py\<close>: planning and executing the
  actions of a scene in order.  The clock is a stream of readings, one taken at each call of \<open>clock_ms\<close>;
  sleeping is recorded.  The RL-preset service is the pair of its lookups; the start-block sender is an
  argument whose result is its truth value.  Exception texts and log lines are left out.
\<close>

section \<open>Results\<close>

record action_result =
  ar_index :: nat
  ar_kind :: string
  ar_ok :: bool
  ar_error :: "string option"
  ar_degraded :: bool
  ar_duration_ms :: int
  ar_detail :: pydict

record scene_run_result =
  sr_key :: string
  sr_ok :: bool
  sr_error :: "string option"
  sr_actions :: "action_result list"
  sr_aborted_at :: "nat option"

record progress =
  pg_index :: nat
  pg_kind :: string
  pg_status :: string

record rl_service =
  rs_get :: "string \<Rightarrow> preset option"
  rs_get_by_id :: "int \<Rightarrow> preset option"

record runner =
  rn_presets :: "rl_service option"
  rn_startblock :: "(send_target \<Rightarrow> pydict \<Rightarrow> (host, bool) proc) option"

definition clock_ms :: "(host, int) proc" where
  "clock_ms h = (Inr (hs_clock h (hs_reads h)), h\<lparr>hs_reads := Suc (hs_reads h)\<rparr>)"

section \<open>Planner inputs\<close>

definition known_group_ids :: "rl_device list \<Rightarrow> int list" where
  "known_group_ids devices =
     sort (remdups (filter (\<lambda>g. 0 \<le> g \<and> g \<le> 254) (map d_groupId devices)))"

definition rl_preset_lookup :: "rl_service \<Rightarrow> preset_lookup" where
  "rl_preset_lookup service ref =
     (case ref of
        PStr s \<Rightarrow>
          if take 3 s = ''RL:'' then rs_get service (drop 3 s)
          else
            let stripped = strip s in
            if stripped \<noteq> [] \<and> list_all is_digit stripped then
              (case py_int_str stripped of Some n \<Rightarrow> rs_get_by_id service n | None \<Rightarrow> None)
            else rs_get service stripped
      | PInt n \<Rightarrow> rs_get_by_id service n
      | PBool b \<Rightarrow> rs_get_by_id service (if b then 1 else 0)
      | _ \<Rightarrow> None)"

definition device_lookup_in :: "rl_device list \<Rightarrow> device_lookup" where
  "device_lookup_in devices addr =
     map_option (\<lambda>i. (i, devices ! i)) (get_device_from_address devices addr)"

definition plan_for :: "runner \<Rightarrow> host \<Rightarrow> action \<Rightarrow> action_plan res" where
  "plan_for rn h =
     plan_action_dispatch (known_group_ids (hs_devices h)) (map_option rl_preset_lookup (rn_presets rn))
       (Some (device_lookup_in (hs_devices h))) None"

section \<open>Dispatching one operation\<close>

fun target_args :: "send_target \<Rightarrow> nat option \<times> int option" where
  "target_args (ToGroup g) = (None, Some g)"
| "target_args (ToDevice i) = (Some i, None)"

definition dispatch_op :: "runner \<Rightarrow> wire_op \<Rightarrow> (host, bool) proc" where
  "dispatch_op rn op =
     (case (w_sender op, w_payload op) of
        (Some sender, POffset mode kw) \<Rightarrow>
          if sender = ''send_offset'' then send_offset None (Some (w_target_group op)) mode kw
          else pret False
      | (Some sender, PEffect params tgt) \<Rightarrow>
          (let (dev, grp) = target_args tgt in
           if sender = ''send_wled_control'' then send_wled_control dev grp params
           else if sender = ''send_wled_preset'' then send_wled_preset dev grp params
           else if sender = ''send_startblock'' then
             (case rn_startblock rn of None \<Rightarrow> pret False | Some send \<Rightarrow> send tgt params)
           else pret False)
      | (Some sender, PSync brightness trigger_armed) \<Rightarrow>
          if sender = ''send_sync'' then
            pbind clock_ms (\<lambda>t.
            pbind (send_sync (t AND 16777215) brightness BROADCAST3 trigger_armed) (\<lambda>_. pret True))
          else pret False
      | (None, _) \<Rightarrow> pret False)"

fun dispatch_all :: "runner \<Rightarrow> wire_op list \<Rightarrow> (host, bool list) proc" where
  "dispatch_all rn [] = pret []"
| "dispatch_all rn (op # ops) =
     pbind (dispatch_op rn op) (\<lambda>ok. pbind (dispatch_all rn ops) (\<lambda>oks. pret (ok # oks)))"

section \<open>The detail of an offset group\<close>

definition offset_row :: "bool \<Rightarrow> wire_op \<Rightarrow> pydict" where
  "offset_row ok op =
     [(''ok'', PBool ok), (''mode'', (case w_payload op of POffset mode _ \<Rightarrow> PStr mode | _ \<Rightarrow> PNone))]
     @ (if w_target_group op \<noteq> 255 then [(''target_group'', PInt (w_target_group op))] else [])
     @ (if ok then [] else [(''stage'', PStr ''offset''), (''error'', PStr ''send_offset_failed'')])"

definition child_index :: "wire_op \<Rightarrow> int" where
  "child_index op = (case dget_or (w_detail op) ''child_index'' (PInt 0) of PInt i \<Rightarrow> i | _ \<Rightarrow> 0)"

definition add_child_outcome :: "bool \<times> wire_op \<Rightarrow> (int \<times> pydict) list \<Rightarrow> (int \<times> pydict) list" where
  "add_child_outcome outcome per_child =
     (case outcome of (ok, op) \<Rightarrow>
        let idx = child_index op;
            entry = (case map_of per_child idx of Some e \<Rightarrow> e
                     | None \<Rightarrow> [(''index'', PInt idx), (''kind'', dget (w_detail op) ''child_kind''),
                               (''ok'', PBool True)]);
            entry = (if ok then entry
                     else assoc_set ''error'' (PStr ''send_failed'') (assoc_set ''ok'' (PBool False) entry))
        in assoc_set idx entry per_child)"

definition add_silent_child :: "nat \<times> action_plan \<Rightarrow> (int \<times> pydict) list \<Rightarrow> (int \<times> pydict) list" where
  "add_silent_child child per_child =
     (case child of (idx, p) \<Rightarrow>
        if map_of per_child (int idx) \<noteq> None then per_child
        else per_child @ [(int idx,
          [(''index'', PInt (int idx)), (''kind'', PStr (ap_kind p)), (''ok'', PBool (\<not> ap_degraded p))]
          @ (if ap_degraded p then
               [(''degraded'', PBool True)]
               @ (case ap_error p of None \<Rightarrow> [] | Some e \<Rightarrow> if e = [] then [] else [(''error'', PStr e)])
               @ (case map_of (ap_detail p) ''target'' of None \<Rightarrow> [] | Some t \<Rightarrow> [(''target'', t)])
             else []))])"

definition has_phase :: "string \<Rightarrow> wire_op \<Rightarrow> bool" where
  "has_phase ph op = (dget (w_detail op) ''phase'' = PStr ph)"

definition build_offset_group_detail :: "action_plan \<Rightarrow> (bool \<times> wire_op) list \<Rightarrow> pydict" where
  "build_offset_group_detail plan outcomes =
     (let offset_packets = fold (\<lambda>(ok, op) d. assoc_set (str_int (w_target_group op)) (PDict (offset_row ok op)) d)
                             (filter (\<lambda>(ok, op). has_phase ''offset'' op) outcomes) [];
          per_child = fold add_child_outcome (filter (\<lambda>(ok, op). has_phase ''child'' op) outcomes) [];
          per_child = fold add_silent_child (enumerate 0 (ap_children plan)) per_child
      in [(''wire_path'', dget (ap_detail plan) ''wire_path''),
          (''offset_mode'', dget (ap_detail plan) ''offset_mode''),
          (''offset_packets'', PDict offset_packets),
          (''offset_packet_count'', dget_or (ap_detail plan) ''offset_packets'' (PInt 0)),
          (''offset_total_bytes'', dget_or (ap_detail plan) ''offset_total_bytes'' (PInt 0)),
          (''children'', PList (map (PDict \<circ> snd) (sort_key fst per_child)))])"

section \<open>Executing a plan and a scene\<close>

definition action_result ::
  "nat \<Rightarrow> string \<Rightarrow> bool \<Rightarrow> string option \<Rightarrow> bool \<Rightarrow> int \<Rightarrow> pydict \<Rightarrow> action_result" where
  "action_result index kind ok err degraded duration detail =
     \<lparr>ar_index = index, ar_kind = kind, ar_ok = ok, ar_error = err, ar_degraded = degraded,
      ar_duration_ms = duration, ar_detail = detail\<rparr>"

definition execute_plan :: "runner \<Rightarrow> nat \<Rightarrow> string \<Rightarrow> action_plan \<Rightarrow> int \<Rightarrow> (host, action_result) proc" where
  "execute_plan rn index kind plan started =
     (if ap_degraded plan then
        pbind clock_ms (\<lambda>now.
          pret (action_result index kind False
                  (Some (case ap_error plan of None \<Rightarrow> ''degraded'' | Some e \<Rightarrow> if e = [] then ''degraded'' else e))
                  True (now - started) (ap_detail plan)))
      else
        pbind (dispatch_all rn (ap_ops plan)) (\<lambda>oks.
          let all_ok = list_all (\<lambda>b. b) oks in
          if kind = ''offset_group'' then
            let detail = build_offset_group_detail plan (zip oks (ap_ops plan));
                error = (if all_ok then None else Some ''offset_group_partial_failure'');
                ok = (if all_ok \<and> ap_ops plan = [] \<and> py_eq_int (dget_or detail ''child_count'' (PInt 0)) 0
                      then False else all_ok)
            in pbind clock_ms (\<lambda>now. pret (action_result index kind ok error False (now - started) detail))
          else
            pbind clock_ms (\<lambda>now.
              pret (action_result index kind all_ok (if all_ok then None else Some ''send_failed'') False
                      (now - started) (ap_detail plan)))))"

definition run_action :: "runner \<Rightarrow> nat \<Rightarrow> action \<Rightarrow> int \<Rightarrow> (host, action_result) proc" where
  "run_action rn index action started =
     (case action of
        Sync \<Rightarrow> execute_plan rn index ''sync'' plan_sync started
      | Delay duration_ms \<Rightarrow>
          pbind (pupd (\<lambda>h. h\<lparr>hs_slept := hs_slept h @ [duration_ms]\<rparr>)) (\<lambda>_.
          pbind clock_ms (\<lambda>now.
            pret (action_result index ''delay'' True None False (now - started)
                    [(''requested_ms'', PInt duration_ms)])))
      | _ \<Rightarrow>
          pbind (pread (\<lambda>h. plan_for rn h action)) (\<lambda>planned.
          pbind (plift planned) (\<lambda>plan. execute_plan rn index (action_kind action) plan started)))"

definition dispatch :: "runner \<Rightarrow> nat \<Rightarrow> action \<Rightarrow> host \<Rightarrow> action_result \<times> host" where
  "dispatch rn index action h =
     (let started = hs_clock h (hs_reads h); h = h\<lparr>hs_reads := Suc (hs_reads h)\<rparr> in
      case run_action rn index action started h of
        (Inr r, h') \<Rightarrow> (r, h')
      | (Inl e, h') \<Rightarrow>
          (action_result index (action_kind action) False (Some ''exception'') False
             (hs_clock h' (hs_reads h') - started) [], h'\<lparr>hs_reads := Suc (hs_reads h')\<rparr>))"

definition terminal :: "action_result \<Rightarrow> string" where
  "terminal r = (if ar_degraded r then ''degraded'' else if ar_ok r then ''ok'' else ''error'')"

definition skipped :: "nat \<Rightarrow> action \<Rightarrow> action_result" where
  "skipped index action =
     action_result index (action_kind action) False (Some ''skipped: aborted'') False 0 []"

fun run_actions ::
  "runner \<Rightarrow> bool \<Rightarrow> nat \<Rightarrow> action list \<Rightarrow> host \<Rightarrow> (action_result list \<times> nat option \<times> progress list) \<times> host" where
  "run_actions rn stop_on_error index [] h = (([], None, []), h)"
| "run_actions rn stop_on_error index (action # actions) h =
     (let (r, h1) = dispatch rn index action h;
          started = \<lparr>pg_index = index, pg_kind = action_kind action, pg_status = ''running''\<rparr>;
          ended = \<lparr>pg_index = index, pg_kind = ar_kind r, pg_status = terminal r\<rparr>
      in if stop_on_error \<and> \<not> ar_ok r \<and> \<not> ar_degraded r then
           let rest = map (\<lambda>(i, a). skipped i a) (enumerate (Suc index) actions)
           in ((r # rest, Some index,
                started # ended #
                  map (\<lambda>s. \<lparr>pg_index = ar_index s, pg_kind = ar_kind s, pg_status = ''skipped''\<rparr>) rest), h1)
         else
           let ((rs, aborted, pg), h2) = run_actions rn stop_on_error (Suc index) actions h1
           in ((r # rs, aborted, started # ended # pg), h2))"

record scene =
  sc_id :: int
  sc_key :: string
  sc_label :: string
  sc_created :: pyval
  sc_updated :: pyval
  sc_actions :: "action list"
  sc_stop_on_error :: bool

definition run_scene ::
  "runner \<Rightarrow> (string \<Rightarrow> scene option) \<Rightarrow> string \<Rightarrow> scene option \<Rightarrow> host \<Rightarrow> scene_run_result \<times> progress list \<times> host" where
  "run_scene rn get_scene scene_key draft h =
     (case (case draft of None \<Rightarrow> get_scene scene_key | Some s \<Rightarrow> Some s) of
        None \<Rightarrow> (\<lparr>sr_key = scene_key, sr_ok = False, sr_error = Some ''scene_not_found'', sr_actions = [],
                  sr_aborted_at = None\<rparr>, [], h)
      | Some scene \<Rightarrow>
          (let ((results, aborted, pg), h') = run_actions rn (sc_stop_on_error scene) 0 (sc_actions scene) h
           in (\<lparr>sr_key = scene_key, sr_ok = list_all ar_ok results, sr_error = None, sr_actions = results,
                sr_aborted_at = aborted\<rparr>, pg, h')))"

section \<open>The packets of a plan\<close>

definition opcode_number :: "string \<Rightarrow> int" where
  "opcode_number s = (if s = ''OPC_OFFSET'' then OPC_OFFSET else if s = ''OPC_CONTROL'' then OPC_CONTROL
     else if s = ''OPC_PRESET'' then OPC_PRESET else OPC_SYNC)"

definition device_target_ok :: "nat \<Rightarrow> wire_op \<Rightarrow> bool" where
  "device_target_ok n op = (case w_payload op of PEffect params (ToDevice i) \<Rightarrow> i < n | _ \<Rightarrow> True)"

text \<open>An operation the control service can carry out: not a start-block program, preset numbers numeric.\<close>

definition plain_op :: "wire_op \<Rightarrow> bool" where
  "plain_op op \<longleftrightarrow> w_sender op \<noteq> Some ''send_startblock'' \<and>
     (w_sender op = Some ''send_wled_preset'' \<longrightarrow> preset_args_ok (effect_params op))"

lemma get_by_addr_less: "get_by_addr items addr = Some i \<Longrightarrow> i < length items"
  by (auto simp: get_by_addr_def Let_def split: if_splits dest: index_where_SomeD)

lemma resolve_target_device:
  "resolve_target t (Some (device_lookup_in devs)) = Some ts \<Longrightarrow> (ToDevice i, d) \<in> set ts \<Longrightarrow> i < length devs"
  by (auto simp: resolve_target_def device_lookup_in_def get_device_from_address_def Let_def get_by_addr_less
      split: target.splits if_splits option.splits)

lemma plan_effect_device_ok:
  assumes "plan_effect kind t params fo rl (Some (device_lookup_in devs)) force = Inr p" and "op \<in> set (ap_ops p)"
  shows "device_target_ok (length devs) op"
proof -
  obtain base pers detail targets ops where t: "resolve_target t (Some (device_lookup_in devs)) = Some targets"
    and ops: "rmap (build_effect_op kind base detail) targets = Inr ops" "op \<in> set ops"
    using assms by (auto simp: plan_effect_def rbind_eq_Inr Let_def split: option.splits prod.splits)
  from rmap_InrD [OF ops] obtain tgt where tgt: "tgt \<in> set targets" "build_effect_op kind base detail tgt = Inr op"
    by (elim bexE)
  then have "\<exists>ps. w_payload op = PEffect ps (fst tgt)"
    by (auto simp: build_effect_op_def rbind_eq_Inr split: if_splits)
  then show ?thesis
    using resolve_target_device [OF t] tgt(1)
    by (cases tgt) (auto simp: device_target_ok_def split: send_target.splits)
qed

lemma plan_for_device_ok:
  assumes "plan_for rn h a = Inr p" and "op \<in> set (ap_ops p)"
  shows "device_target_ok (length (hs_devices h)) op"
  by (rule plan_action_dispatch_all [rotated 4, OF assms [unfolded plan_for_def]])
    (auto simp: plan_effect_device_ok, auto simp: device_target_ok_def off_sized_def op_sized_def tag_offset_op_def
      tag_child_op_def plan_sync_def split: payload.splits)

lemma ready_reads [simp]: "ready (h\<lparr>hs_reads := n\<rparr>) = ready h"
  by (simp add: ready_def)

lemma dispatch_op_sends:
  assumes "ready h" and "op_sized op" and "plain_op op" and "device_target_ok (length (hs_devices h)) op"
  shows "sends (dispatch_op rn op) h (opcode_number (w_opcode op)) (w_body_bytes op)"
proof (cases "w_payload op")
  case (POffset mode kw)
  with assms(2) obtain m where "coerce_mode (PStr mode) = Inr m" "w_body_bytes op = offset_body_len m"
    "w_sender op = Some ''send_offset''" "w_opcode op = ''OPC_OFFSET''" by (auto simp: op_sized_def)
  with POffset send_offset_sends [OF assms(1), of mode m] show ?thesis
    by (simp add: dispatch_op_def opcode_number_def sends_def)
next
  case (PEffect params tgt)
  have tgt: "one_target (fst (target_args tgt)) (snd (target_args tgt)) h"
    using assms(4) by (cases tgt) (auto simp: device_target_ok_def PEffect one_target_def)
  from assms(2,3) PEffect consider
      "w_sender op = Some ''send_wled_preset''" "w_opcode op = ''OPC_PRESET''" "w_body_bytes op = 4" "preset_args_ok params"
    | "w_sender op = Some ''send_wled_control''" "w_opcode op = ''OPC_CONTROL''"
      "control_body_len params = Inr (w_body_bytes op)"
    by (auto simp: op_sized_def plain_op_def effect_params_def)
  then show ?thesis
  proof cases
    case 1
    with PEffect send_wled_preset_sends [OF assms(1) tgt 1(4)] show ?thesis
      by (simp add: dispatch_op_def opcode_number_def sends_def case_prod_beta)
  next
    case 2
    with PEffect send_wled_control_sends [OF assms(1) tgt 2(3)] show ?thesis
      by (simp add: dispatch_op_def opcode_number_def sends_def case_prod_beta)
  qed
next
  case (PSync b armed)
  with assms(2) have "w_sender op = Some ''send_sync''" "w_opcode op = ''OPC_SYNC''" "armed" "w_body_bytes op = 5"
    by (auto simp: op_sized_def)
  with PSync assms(1) show ?thesis unfolding sends_def
    by (auto simp: dispatch_op_def opcode_number_def clock_ms_def pbind_def send_sync_def gateway_send_sync_def
        tr_send_sync_def transport_send_run OPC_SYNC_def build_sync_body_length SYNC_FLAG_TRIGGER_ARMED_def ready_def)
qed

lemma dispatch_all_sends:
  assumes "ready h" and "\<forall>op \<in> set ops. op_sized op \<and> plain_op op \<and> device_target_ok (length (hs_devices h)) op"
  shows "\<exists>h' pks. dispatch_all rn ops h = (Inr (replicate (length ops) True), h') \<and> ready h' \<and>
     hs_sent h' = hs_sent h @ pks \<and>
     map (\<lambda>p. (pk_opc p, length (pk_body p))) pks = map (\<lambda>op. (opcode_number (w_opcode op), w_body_bytes op)) ops"
  using assms
proof (induction ops arbitrary: h)
  case Nil
  then show ?case by simp
next
  case (Cons op ops)
  then have "sends (dispatch_op rn op) h (opcode_number (w_opcode op)) (w_body_bytes op)"
    by (intro dispatch_op_sends) auto
  then obtain h1 r b where 1: "dispatch_op rn op h = (Inr True, h1)" "ready h1"
    "length (hs_devices h1) = length (hs_devices h)"
    "hs_sent h1 = hs_sent h @ [\<lparr>pk_opc = opcode_number (w_opcode op), pk_recv3 = r, pk_body = b\<rparr>]"
    "length b = w_body_bytes op"
    by (cases "dispatch_op rn op h") (auto simp: sends_def)
  then obtain h' pks where 2: "dispatch_all rn ops h1 = (Inr (replicate (length ops) True), h')" "ready h'"
    "hs_sent h' = hs_sent h1 @ pks"
    "map (\<lambda>p. (pk_opc p, length (pk_body p))) pks = map (\<lambda>op. (opcode_number (w_opcode op), w_body_bytes op)) ops"
    using Cons.IH [of h1] Cons.prems(2) by auto
  show ?case
    by (rule exI [where x = h'], rule exI [where x = "\<lparr>pk_opc = opcode_number (w_opcode op), pk_recv3 = r, pk_body = b\<rparr> # pks"])
      (simp add: pbind_def 1 2)
qed

lemma execute_plan_sends:
  assumes "ready h" and "plan_for rn h a = Inr plan" and "\<not> ap_degraded plan"
    and "list_all plain_op (ap_ops plan)" and "ap_ops plan \<noteq> []"
  shows "\<exists>r h' pks. execute_plan rn i kind plan started h = (Inr r, h') \<and> ar_ok r \<and>
     hs_sent h' = hs_sent h @ pks \<and>
     map (\<lambda>p. (pk_opc p, length (pk_body p))) pks =
       map (\<lambda>op. (opcode_number (w_opcode op), w_body_bytes op)) (ap_ops plan)"
proof -
  have "\<forall>op \<in> set (ap_ops plan). op_sized op \<and> plain_op op \<and> device_target_ok (length (hs_devices h)) op"
    using assms(4) plan_for_device_ok [OF assms(2)] plan_action_dispatch_sized assms(2)
    by (auto simp: plan_for_def list_all_iff)
  from dispatch_all_sends [OF assms(1) this] obtain h1 pks where
    1: "dispatch_all rn (ap_ops plan) h = (Inr (replicate (length (ap_ops plan)) True), h1)"
      "hs_sent h1 = hs_sent h @ pks" "map (\<lambda>p. (pk_opc p, length (pk_body p))) pks =
         map (\<lambda>op. (opcode_number (w_opcode op), w_body_bytes op)) (ap_ops plan)" by blast
  have "list_all (\<lambda>b. b) (replicate (length (ap_ops plan)) True)" by (simp add: list_all_iff)
  with 1 show ?thesis
    by (simp add: execute_plan_def assms(3,5) Let_def clock_ms_def pbind_def action_result_def)
qed



section \<open>Degraded plans\<close>

text \<open>
  A degraded plan is never sent: executing it hands over no packet, changes no device, and its
  result is not ok, marked degraded and carries the planner's error, so that a run goes on after it.
\<close>

theorem degraded_plan_sends_nothing:
  assumes "ap_degraded plan"
  shows "\<exists>r h'. execute_plan rn i kind plan started h = (Inr r, h') \<and> hs_sent h' = hs_sent h \<and>
     hs_devices h' = hs_devices h \<and> \<not> ar_ok r \<and> ar_degraded r \<and>
     (\<forall>e. ap_error plan = Some e \<and> e \<noteq> [] \<longrightarrow> ar_error r = Some e)"
  using assms by (simp add: execute_plan_def clock_ms_def pbind_def action_result_def)

theorem degraded_plan_sends_nothing_witness:
  "\<forall>h. \<exists>p r h'. plan_for \<lparr>rn_presets = None, rn_startblock = None\<rparr> h
       (Effect WledControl (Groups []) [] None) = Inr p \<and>
     execute_plan \<lparr>rn_presets = None, rn_startblock = None\<rparr> 3 ''wled_control'' p 0 h = (Inr r, h') \<and>
     hs_sent h' = hs_sent h \<and> ar_error r = Some ''target_not_found''"
proof
  fix h
  obtain p where p: "plan_for \<lparr>rn_presets = None, rn_startblock = None\<rparr> h
       (Effect WledControl (Groups []) [] None) = Inr p"
    and d: "ap_degraded p" "ap_error p = Some ''target_not_found''"
    by (simp add: plan_for_def plan_effect_def resolve_target_def)
  from degraded_plan_sends_nothing [OF d(1), of "\<lparr>rn_presets = None, rn_startblock = None\<rparr>" 3 "''wled_control''" 0 h]
  show "\<exists>p r h'. plan_for \<lparr>rn_presets = None, rn_startblock = None\<rparr> h
       (Effect WledControl (Groups []) [] None) = Inr p \<and>
     execute_plan \<lparr>rn_presets = None, rn_startblock = None\<rparr> 3 ''wled_control'' p 0 h = (Inr r, h') \<and>
     hs_sent h' = hs_sent h \<and> ar_error r = Some ''target_not_found''"
    using p d(2) by fastforce
qed

section \<open>Running a scene\<close>

lemma execute_plan_index:
  "execute_plan rn i kind plan started h = (Inr r, h') \<Longrightarrow> ar_index r = i"
  by (auto simp: execute_plan_def pbind_cases clock_ms_def action_result_def Let_def split: if_splits)

lemma run_action_index: "run_action rn i a started h = (Inr r, h') \<Longrightarrow> ar_index r = i"
  by (cases a) (auto simp: run_action_def pbind_cases clock_ms_def action_result_def plift_def
      dest: execute_plan_index)

lemma dispatch_index: "dispatch rn i a h = (r, h') \<Longrightarrow> ar_index r = i"
  by (auto simp: dispatch_def Let_def action_result_def split: prod.splits sum.splits dest: run_action_index)

lemma skipped_fields [simp]:
  "ar_index (skipped i a) = i" "ar_ok (skipped i a) = False" "ar_degraded (skipped i a) = False"
  by (simp_all add: skipped_def action_result_def)

lemma run_actions_indices:
  "map ar_index (fst (fst (run_actions rn stop i acts h))) = [i ..< i + length acts]"
proof (induction acts arbitrary: i h)
  case (Cons a acts)
  obtain r h1 where d: "dispatch rn i a h = (r, h1)" by fastforce
  have "map ar_index (map (\<lambda>(j, a). skipped j a) (enumerate (Suc i) acts)) = [Suc i ..< Suc i + length acts]"
  proof -
    have "map ar_index (map (\<lambda>(j, a). skipped j a) xs) = map fst xs" for xs by (induction xs) auto
    then show ?thesis by (simp del: map_map)
  qed
  moreover have "[i ..< i + length (a # acts)] = i # [Suc i ..< Suc i + length acts]"
    by (simp add: upt_conv_Cons del: upt_Suc)
  moreover note Cons.IH [of "Suc i" h1] dispatch_index [OF d]
  ultimately show ?case
    by (auto simp: d Let_def case_prod_beta simp del: upt_Suc map_map)
qed simp

text \<open>An action that neither failed nor was skipped.\<close>

definition passed :: "action_result \<Rightarrow> bool" where
  "passed r \<longleftrightarrow> ar_ok r \<or> ar_degraded r"

text \<open>
  The specification of a run: the first action that fails (not merely degraded) is the last one
  executed, every later one is reported as skipped and the state is the one that executing the
  prefix leaves; without such an action, or with \<open>stop_on_error\<close> off, everything is executed.
\<close>

definition run_spec :: "runner \<Rightarrow> bool \<Rightarrow> nat \<Rightarrow> action list \<Rightarrow> host \<Rightarrow>
    action_result list \<Rightarrow> nat option \<Rightarrow> host \<Rightarrow> bool" where
  "run_spec rn stop i acts h rs aborted h' \<longleftrightarrow>
     length rs = length acts \<and>
     (case aborted of
        None \<Rightarrow> stop \<longrightarrow> list_all passed rs
      | Some k \<Rightarrow> stop \<and> i \<le> k \<and> k < i + length acts \<and>
          list_all passed (take (k - i) rs) \<and> \<not> passed (rs ! (k - i)) \<and>
          (\<forall>j. k - i < j \<and> j < length acts \<longrightarrow> rs ! j = skipped (i + j) (acts ! j)) \<and>
          h' = snd (run_actions rn False i (take (Suc (k - i)) acts) h))"

lemma run_actions_spec:
  "run_actions rn stop i acts h = ((rs, ab, pg), h') \<Longrightarrow> run_spec rn stop i acts h rs ab h'"
proof (induction acts arbitrary: i h rs ab pg h')
  case Nil
  then show ?case by (simp add: run_spec_def)
next
  case (Cons a acts)
  obtain r h1 where d: "dispatch rn i a h = (r, h1)" by fastforce
  show ?case
  proof (cases "stop \<and> \<not> ar_ok r \<and> \<not> ar_degraded r")
    case True
    with Cons.prems d have "rs = r # map (\<lambda>(j, a). skipped j a) (enumerate (Suc i) acts)" "ab = Some i" "h' = h1"
      by (auto simp: Let_def)
    with True d show ?thesis
      by (auto simp: run_spec_def passed_def Let_def case_prod_beta nth_Cons nth_enumerate_eq split: nat.splits)
  next
    case False
    obtain rs' ab' pg' h2 where t: "run_actions rn stop (Suc i) acts h1 = ((rs', ab', pg'), h2)"
      by (metis prod_cases3 surj_pair)
    with Cons.prems d False have rs: "rs = r # rs'" "ab = ab'" "h' = h2"
      by (auto simp: Let_def split: if_splits)
    have spec: "run_spec rn stop (Suc i) acts h1 rs' ab' h2" using Cons.IH [OF t] .
    show ?thesis
    proof (cases ab')
      case None
      with spec rs False show ?thesis by (auto simp: run_spec_def passed_def)
    next
      case (Some k)
      with spec have k: "stop" "Suc i \<le> k" "k < Suc i + length acts" "length rs' = length acts"
        "list_all passed (take (k - Suc i) rs')" "\<not> passed (rs' ! (k - Suc i))"
        "\<forall>j. k - Suc i < j \<and> j < length acts \<longrightarrow> rs' ! j = skipped (Suc i + j) (acts ! j)"
        "h2 = snd (run_actions rn False (Suc i) (take (Suc (k - Suc i)) acts) h1)"
        by (auto simp: run_spec_def)
      have ki: "k - i = Suc (k - Suc i)" using k(2) by simp
      have "snd (run_actions rn False i (take (Suc (k - i)) (a # acts)) h) = h2"
        unfolding ki k(8) by (simp add: d Let_def case_prod_beta)
      moreover have "(r # rs') ! j = skipped (i + j) ((a # acts) ! j)" if "k - i < j" "j < length (a # acts)" for j
        using that k(7) ki by (cases j) auto
      ultimately show ?thesis
        using k False by (simp add: run_spec_def rs Some ki passed_def)
    qed
  qed
qed

text \<open>
  C21.  Running a scene reports one result per action in index order, is ok exactly when every action is
  ok, and stops exactly as \<open>stop_on_error\<close> asks: the first real failure is the last action executed, no
  packet of a later action is handed over, and the later actions are reported as skipped.
\<close>

theorem run_scene_stops_on_error:
  assumes "run_scene rn get key (Some sc) h = (res, pg, h')"
  shows "map ar_index (sr_actions res) = [0 ..< length (sc_actions sc)] \<and>
     sr_ok res = list_all ar_ok (sr_actions res) \<and>
     run_spec rn (sc_stop_on_error sc) 0 (sc_actions sc) h (sr_actions res) (sr_aborted_at res) h'"
proof -
  obtain rs ab pg' h1 where r: "run_actions rn (sc_stop_on_error sc) 0 (sc_actions sc) h = ((rs, ab, pg'), h1)"
    by (metis prod_cases3 surj_pair)
  with assms have "res = \<lparr>sr_key = key, sr_ok = list_all ar_ok rs, sr_error = None, sr_actions = rs, sr_aborted_at = ab\<rparr>"
    "h' = h1" by (auto simp: run_scene_def)
  with run_actions_spec [OF r] run_actions_indices [of rn "sc_stop_on_error sc" 0 "sc_actions sc" h] r
  show ?thesis by simp
qed

theorem run_scene_stops_on_error_witness:
  "\<forall>h. \<exists>res pg h'. run_scene \<lparr>rn_presets = None, rn_startblock = None\<rparr> (\<lambda>_. None) ''k''
       (Some \<lparr>sc_id = 0, sc_key = ''k'', sc_label = ''L'', sc_created = PNone, sc_updated = PNone,
              sc_actions = [Effect WledControl Broadcast [] None, Delay 5], sc_stop_on_error = True\<rparr>) h
     = (res, pg, h') \<and> map ar_index (sr_actions res) = [0, 1]"
proof
  fix h
  let ?sc = "\<lparr>sc_id = 0, sc_key = ''k'', sc_label = ''L'', sc_created = PNone, sc_updated = PNone,
              sc_actions = [Effect WledControl Broadcast [] None, Delay 5], sc_stop_on_error = True\<rparr>"
  obtain res pg h' where r: "run_scene \<lparr>rn_presets = None, rn_startblock = None\<rparr> (\<lambda>_. None) ''k'' (Some ?sc) h
      = (res, pg, h')" by (metis prod_cases3)
  from run_scene_stops_on_error [OF r] have "map ar_index (sr_actions res) = [0, 1]" by (simp add: upt_rec)
  with r show "\<exists>res pg h'. run_scene \<lparr>rn_presets = None, rn_startblock = None\<rparr> (\<lambda>_. None) ''k'' (Some ?sc) h
      = (res, pg, h') \<and> map ar_index (sr_actions res) = [0, 1]" by (intro exI conjI)
qed

section \<open>Send outcomes do not reach the scene\<close>

text \<open>
  \<open>blind m\<close>: neither the result nor the state depends on what the gateway answered; \<open>nearly_blind m\<close>
  lets only the value returned depend on it.
\<close>

definition set_out :: "(nat \<Rightarrow> send_outcome) \<Rightarrow> host \<Rightarrow> host" where
  "set_out outs h = h\<lparr>hs_outcomes := outs\<rparr>"

definition blind :: "(host, 'a) proc \<Rightarrow> bool" where
  "blind m \<longleftrightarrow> (\<forall>outs h. m (set_out outs h) = (fst (m h), set_out outs (snd (m h))))"

definition nearly_blind :: "(host, 'a) proc \<Rightarrow> bool" where
  "nearly_blind m \<longleftrightarrow> (\<forall>outs h. snd (m (set_out outs h)) = set_out outs (snd (m h)) \<and>
     (case (fst (m h), fst (m (set_out outs h))) of
        (Inl e, Inl e') \<Rightarrow> e = e' | (Inr _, Inr _) \<Rightarrow> True | _ \<Rightarrow> False))"

lemma set_out_simps [simp]:
  "hs_devices (set_out outs h) = hs_devices h" "hs_transport (set_out outs h) = hs_transport h"
  "hs_sent (set_out outs h) = hs_sent h" "hs_clock (set_out outs h) = hs_clock h"
  "hs_reads (set_out outs h) = hs_reads h" "hs_slept (set_out outs h) = hs_slept h"
  "(set_out outs h)\<lparr>hs_devices := ds\<rparr> = set_out outs (h\<lparr>hs_devices := ds\<rparr>)"
  "(set_out outs h)\<lparr>hs_sent := ps\<rparr> = set_out outs (h\<lparr>hs_sent := ps\<rparr>)"
  "(set_out outs h)\<lparr>hs_reads := n\<rparr> = set_out outs (h\<lparr>hs_reads := n\<rparr>)"
  "(set_out outs h)\<lparr>hs_slept := l\<rparr> = set_out outs (h\<lparr>hs_slept := l\<rparr>)"
  by (simp_all add: set_out_def)

lemma blind_basic [intro]: "blind (pret x)" "blind (plift r)" "blind clock_ms"
  by (auto simp: blind_def clock_ms_def)

lemma blind_pbind: "blind m \<Longrightarrow> (\<And>x. blind (f x)) \<Longrightarrow> blind (pbind m f)"
  by (auto simp: blind_def pbind_def split: prod.split sum.split)

lemma blind_pbind_near: "nearly_blind m \<Longrightarrow> blind k \<Longrightarrow> blind (pbind m (\<lambda>_. k))"
  unfolding blind_def nearly_blind_def pbind_def
  by (auto simp: case_prod_beta split: sum.splits) (metis sum.case(1,2) sum.exhaust)+

lemma nearly_blind_send: "nearly_blind (transport_send opc recv3 body)"
  by (auto simp: nearly_blind_def transport_send_def)

lemma nearly_blind_lift: "(\<And>x. nearly_blind (f x)) \<Longrightarrow> nearly_blind (pbind (plift r) f)"
  by (cases r) (auto simp: nearly_blind_def pbind_def)

lemmas nearly_blind_tr =
  nearly_blind_send [of OPC_PRESET, folded tr_send_preset_def]
  nearly_blind_send [of OPC_SYNC, folded tr_send_sync_def]

lemma nearly_blind_wrappers:
  "nearly_blind (tr_send_preset r g f p b)" "nearly_blind (tr_send_sync r t b f)"
  "nearly_blind (tr_send_control r g f a)" "nearly_blind (tr_send_offset r g mode kw)"
  by (auto simp: tr_send_preset_def tr_send_sync_def tr_send_control_def tr_send_offset_def
      intro: nearly_blind_send nearly_blind_lift)

lemma blind_upd_devices: "blind (pupd (\<lambda>h. h\<lparr>hs_devices := f (hs_devices h)\<rparr>))"
  by (simp add: blind_def)

lemma blind_read:
  assumes "\<And>t ds. blind (m t ds)" and "\<And>h. f h = m (hs_transport h) (hs_devices h) h"
  shows "blind f"
  using assms by (simp add: blind_def)

lemma blind_if: "(b \<Longrightarrow> blind m) \<Longrightarrow> (\<not> b \<Longrightarrow> blind m') \<Longrightarrow> blind (if b then m else m')"
  by simp

lemma blind_send_device_preset: "blind (send_device_preset i fl p b)"
proof (rule blind_read)
  let ?m = "\<lambda>t ds. if \<not> t then pret False
      else let dev = ds ! i; v = coerce_preset_values fl p b dev
        in pbind (plift (mac_last3_from_hex (d_addr dev))) (\<lambda>recv3.
           pbind (tr_send_preset recv3 (d_groupId dev AND 255) (fst v) (fst (snd v)) (snd (snd v))) (\<lambda>_.
           pbind (pupd (\<lambda>h. h\<lparr>hs_devices := (hs_devices h)[i := cache_preset (fst v) (fst (snd v)) (snd (snd v)) dev]\<rparr>))
             (\<lambda>_. pret True)))"
  show "blind (?m t ds)" for t ds
    unfolding Let_def
    by (intro blind_if blind_basic blind_pbind blind_pbind_near nearly_blind_wrappers blind_upd_devices)
  show "send_device_preset i fl p b h = ?m (hs_transport h) (hs_devices h) h" for h
    by (simp add: send_device_preset_def Let_def case_prod_beta)
qed

lemma blind_send_group_preset: "blind (send_group_preset g fl p b)"
proof (rule blind_read)
  let ?m = "\<lambda>t (ds :: rl_device list). if \<not> t then pret False
      else pbind (pupd (update_group_preset_cache (g AND 255) (fl AND 255) (p AND 255) (b AND 255))) (\<lambda>_.
           pbind (tr_send_preset BROADCAST3 (g AND 255) (fl AND 255) (p AND 255) (b AND 255)) (\<lambda>_. pret True))"
  show "blind (?m t ds)" for t ds
    unfolding update_group_preset_cache_def
    by (intro blind_if blind_basic blind_pbind blind_pbind_near nearly_blind_wrappers blind_upd_devices)
  show "send_group_preset g fl p b h = ?m (hs_transport h) (hs_devices h) h" for h
    by (simp add: send_group_preset_def Let_def)
qed

lemma blind_send_wled_preset: "blind (send_wled_preset dev grp params)"
  unfolding send_wled_preset_def Let_def
  by (intro blind_pbind blind_basic)
    (auto split: option.split intro: blind_send_group_preset blind_send_device_preset blind_basic)

lemma blind_send_offset: "blind (send_offset None (Some g) mode kw)"
proof (rule blind_read)
  let ?m = "\<lambda>t (ds :: rl_device list). if \<not> t then pret False
      else pbind (tr_send_offset BROADCAST3 (g AND 255) mode kw) (\<lambda>_. pret True)"
  show "blind (?m t ds)" for t ds
    by (intro blind_if blind_basic blind_pbind_near nearly_blind_wrappers)
  show "send_offset None (Some g) mode kw h = ?m (hs_transport h) (hs_devices h) h" for h
    by (simp add: send_offset_def)
qed

lemma nearly_blind_plift: "nearly_blind (plift r)"
  by (cases r) (simp_all add: nearly_blind_def)

lemma blind_send_wled_control: "blind (send_wled_control dev grp params)"
proof (rule blind_read)
  let ?m = "\<lambda>t ds. if \<not> t then pret False
      else pbind (plift (byte_param params ''brightness'')) (\<lambda>brightness.
           pbind (plift (ctrl_kwargs params)) (\<lambda>args.
             let flags = param_flags (0 < (case brightness of None \<Rightarrow> 0 | Some b \<Rightarrow> b)) params in
             case grp of
               Some g \<Rightarrow> pbind (tr_send_control BROADCAST3 (g AND 255) flags args) (\<lambda>_. pret True)
             | None \<Rightarrow> (case dev of
                 Some i \<Rightarrow> pbind (plift (mac_last3_from_hex (d_addr (ds ! i)))) (\<lambda>recv3.
                   pbind (tr_send_control recv3 (d_groupId (ds ! i) AND 255) flags args) (\<lambda>_. pret True))
               | None \<Rightarrow> pret False)))"
  show "blind (?m t ds)" for t ds
    unfolding Let_def
    by (cases grp; cases dev)
      (auto intro!: blind_if blind_basic blind_pbind [of "plift r" for r] blind_pbind_near nearly_blind_wrappers
        nearly_blind_plift)
  show "send_wled_control dev grp params h = ?m (hs_transport h) (hs_devices h) h" for h
    by (cases grp; cases dev) (simp_all add: send_wled_control_def Let_def)
qed

lemma blind_send_sync: "blind (send_sync t b r a)"
proof (rule blind_read)
  let ?m = "\<lambda>tr (ds :: rl_device list). if \<not> tr then pret ()
      else pbind (tr_send_sync r (t AND 16777215) (b AND 255) (if a then SYNC_FLAG_TRIGGER_ARMED else 0)) (\<lambda>_. pret ())"
  show "blind (?m tr ds)" for tr ds
    by (intro blind_if blind_basic blind_pbind_near nearly_blind_wrappers)
  show "send_sync t b r a h = ?m (hs_transport h) (hs_devices h) h" for h
    by (simp add: send_sync_def gateway_send_sync_def)
qed

definition blind_runner :: "runner \<Rightarrow> bool" where
  "blind_runner rn \<longleftrightarrow> (\<forall>send t p. rn_startblock rn = Some send \<longrightarrow> blind (send t p))"

lemma blind_dispatch_op: "blind_runner rn \<Longrightarrow> blind (dispatch_op rn op)"
  unfolding dispatch_op_def
  by (cases "w_sender op"; cases "w_payload op")
    (auto simp: case_prod_beta blind_runner_def split: option.split
      intro!: blind_send_offset blind_send_wled_control blind_send_wled_preset blind_pbind blind_send_sync blind_basic)

lemma blind_dispatch_all: "blind_runner rn \<Longrightarrow> blind (dispatch_all rn ops)"
  by (induction ops) (auto intro!: blind_pbind blind_dispatch_op blind_basic)

lemma blind_execute_plan: "blind_runner rn \<Longrightarrow> blind (execute_plan rn i kind plan started)"
  unfolding execute_plan_def Let_def
  by (intro blind_if blind_pbind blind_basic blind_dispatch_all)

lemma blind_planned:
  assumes "\<And>plan. blind (f plan)"
  shows "blind (pbind (pread (\<lambda>h. plan_for rn h a)) (\<lambda>planned. pbind (plift planned) f))"
proof (rule blind_read)
  let ?known = known_group_ids
  let ?m = "\<lambda>(t :: bool) ds. pbind (plift (plan_action_dispatch (known_group_ids ds)
      (map_option rl_preset_lookup (rn_presets rn)) (Some (device_lookup_in ds)) None a)) f"
  show "blind (?m t ds)" for t ds by (intro blind_pbind blind_basic assms)
  show "pbind (pread (\<lambda>h. plan_for rn h a)) (\<lambda>planned. pbind (plift planned) f) h
      = ?m (hs_transport h) (hs_devices h) h" for h
    by (simp add: pbind_run plan_for_def)
qed

lemma blind_run_action: "blind_runner rn \<Longrightarrow> blind (run_action rn i a started)"
proof (cases a)
  case (Delay ms)
  have "blind (pupd (\<lambda>h. h\<lparr>hs_slept := hs_slept h @ [ms]\<rparr>))" by (simp add: blind_def)
  then show ?thesis by (auto simp: run_action_def Delay intro!: blind_pbind blind_basic)
qed (auto simp: run_action_def intro!: blind_execute_plan blind_planned)

lemma dispatch_blind:
  assumes "blind_runner rn"
  shows "dispatch rn i a (set_out outs h) = (let (r, h') = dispatch rn i a h in (r, set_out outs h'))"
  using blind_run_action [OF assms, of i a "hs_clock h (hs_reads h)"]
  by (auto simp: dispatch_def Let_def blind_def split: prod.splits sum.splits)

lemma run_actions_blind:
  assumes "blind_runner rn"
  shows "run_actions rn stop i acts (set_out outs h) =
     (let (res, h') = run_actions rn stop i acts h in (res, set_out outs h'))"
proof (induction acts arbitrary: i h)
  case (Cons a acts)
  show ?case
    by (simp add: dispatch_blind [OF assms] Cons Let_def case_prod_beta)
qed simp

text \<open>
  What the gateway answers to the sends of a scene (success, rejection, timeout, USB error) changes
  neither the packets handed over nor any result: the run with other outcomes gives the same report.
  In particular \<open>stop_on_error\<close> never reacts to a rejected or lost frame.
\<close>

theorem run_scene_ignores_send_outcomes:
  assumes "blind_runner rn"
  shows "run_scene rn get key draft (h\<lparr>hs_outcomes := outs\<rparr>) =
     (let (res, pg, h') = run_scene rn get key draft h in (res, pg, h'\<lparr>hs_outcomes := outs\<rparr>))"
proof -
  have "run_scene rn get key draft (set_out outs h) =
     (let (res, pg, h') = run_scene rn get key draft h in (res, pg, set_out outs h'))"
    by (simp add: run_scene_def run_actions_blind [OF assms] Let_def case_prod_beta split: option.split)
  then show ?thesis by (simp add: set_out_def)
qed

theorem run_scene_ignores_send_outcomes_witness:
  "\<forall>h key draft. fst (run_scene \<lparr>rn_presets = None, rn_startblock = None\<rparr> (\<lambda>_. None) key draft (h\<lparr>hs_outcomes := \<lambda>_. outcome_timeout\<rparr>))
   = fst (run_scene \<lparr>rn_presets = None, rn_startblock = None\<rparr> (\<lambda>_. None) key draft h)"
proof (intro allI)
  fix h key draft
  show "fst (run_scene \<lparr>rn_presets = None, rn_startblock = None\<rparr> (\<lambda>_. None) key draft (h\<lparr>hs_outcomes := \<lambda>_. outcome_timeout\<rparr>))
     = fst (run_scene \<lparr>rn_presets = None, rn_startblock = None\<rparr> (\<lambda>_. None) key draft h)"
    using run_scene_ignores_send_outcomes
      [where rn = "\<lparr>rn_presets = None, rn_startblock = None\<rparr>" and get = "\<lambda>_. None" and key = key and draft = draft
        and h = h and outs = "\<lambda>_. outcome_timeout"]
    by (simp add: blind_runner_def Let_def case_prod_beta)
qed

end
