(* ===== verification/Scene_Store.thy ===== *)
theory Scene_Store
  imports Keyed_Store Scene_Validate Runner
begin

text \<open>
  \<open>SceneService\<close> of \<^verbatim>\<open>racelink/services/scenes_service.py\<close>: scenes in a
  JSON file, behind a cache, with an id counter that never goes back.  The getter of the known group ids
  is an argument: \<open>None\<close> when none was injected or it raised.
\<close>

section \<open>Scenes\<close>

definition coerce_bool :: "pyval \<Rightarrow> bool \<Rightarrow> bool" where
  "coerce_bool raw dflt =
     (case raw of
        PBool b \<Rightarrow> b
      | PInt i \<Rightarrow> i \<noteq> 0
      | PStr t \<Rightarrow>
          let s = lower (strip t) in
          if s \<in> {''true'', ''1'', ''yes'', ''on''} then True
          else if s \<in> {''false'', ''0'', ''no'', ''off''} then False
          else dflt
      | _ \<Rightarrow> dflt)"

definition scene_dict :: "scene \<Rightarrow> pydict" where
  "scene_dict sc =
     [(''id'', PInt (sc_id sc)), (''key'', PStr (sc_key sc)), (''label'', PStr (sc_label sc)),
      (''created'', sc_created sc), (''updated'', sc_updated sc), (''actions'', actions_doc (sc_actions sc)),
      (''stop_on_error'', PBool (sc_stop_on_error sc))]"

text \<open>A loaded entry: malformed actions (ValueError) are dropped as a whole.\<close>

definition scene_entry :: "string \<Rightarrow> int \<Rightarrow> string \<Rightarrow> string \<Rightarrow> pydict \<Rightarrow> scene res" where
  "scene_entry now scene_id key label entry =
     rbind (catch_value_error (canonical_actions (dget entry ''actions'')) []) (\<lambda>actions.
       Inr \<lparr>sc_id = scene_id, sc_key = key, sc_label = label,
            sc_created = py_or (dget entry ''created'') (now_iso now),
            sc_updated = py_or (dget entry ''updated'') (py_or (dget entry ''created'') (now_iso now)),
            sc_actions = actions,
            sc_stop_on_error = coerce_bool (dget entry ''stop_on_error'') True\<rparr>)"

definition scene_kind :: "scene store_kind" where
  "scene_kind = \<lparr>sk_schema = 1, sk_migrates = False, sk_field = ''scenes'', sk_id = sc_id, sk_key = sc_key,
     sk_dict = scene_dict, sk_entry = scene_entry\<rparr>"

type_synonym scene_store = "scene store"

section \<open>Operations\<close>

definition apply_broadcast_collapse :: "int list option \<Rightarrow> action list \<Rightarrow> action list" where
  "apply_broadcast_collapse known actions =
     (case known of None \<Rightarrow> actions | Some ids \<Rightarrow> collapse_actions_to_broadcast actions ids)"

definition scene_list :: "(scene_store, scene list) proc" where
  "scene_list = store_items scene_kind"

definition scene_get :: "string \<Rightarrow> (scene_store, scene option) proc" where
  "scene_get = store_get scene_kind"

definition scene_get_by_id :: "pyval \<Rightarrow> (scene_store, scene option) proc" where
  "scene_get_by_id = store_get_by_id scene_kind"

definition build_scene :: "string \<Rightarrow> action list \<Rightarrow> bool \<Rightarrow> int \<Rightarrow> string \<Rightarrow> string \<Rightarrow> scene res" where
  "build_scene label actions stop new_id key now =
     Inr \<lparr>sc_id = new_id, sc_key = key, sc_label = label, sc_created = now_iso now, sc_updated = now_iso now,
          sc_actions = actions, sc_stop_on_error = stop\<rparr>"

definition scene_create ::
  "int list option \<Rightarrow> string option \<Rightarrow> pyval \<Rightarrow> string option \<Rightarrow> pyval \<Rightarrow> (scene_store, scene) proc" where
  "scene_create known label actions key stop_on_error =
     (let label_clean = strip (case label of None \<Rightarrow> [] | Some l \<Rightarrow> l) in
      if label_clean = [] then plift (Inl ValueError)
      else
        pbind (plift (canonical_actions actions)) (\<lambda>as.
          let canonical = apply_broadcast_collapse known as;
              stop = (if stop_on_error = PNone then True else coerce_bool stop_on_error True);
              wanted = (case key of Some k \<Rightarrow> if k = [] then label_clean else k | None \<Rightarrow> label_clean)
          in store_create scene_kind (slugify ''scene'' wanted) (build_scene label_clean canonical stop)))"

definition modify_scene ::
  "string option \<Rightarrow> action list option \<Rightarrow> pyval \<Rightarrow> string \<Rightarrow> scene \<Rightarrow> scene res" where
  "modify_scene label actions stop_on_error now scene =
     rbind (case label of
              None \<Rightarrow> Inr scene
            | Some l \<Rightarrow> if strip l = [] then Inl ValueError else Inr (scene\<lparr>sc_label := strip l\<rparr>)) (\<lambda>s1.
       let s2 = (case actions of None \<Rightarrow> s1 | Some as \<Rightarrow> s1\<lparr>sc_actions := as\<rparr>);
           s3 = (if stop_on_error = PNone then s2 else s2\<lparr>sc_stop_on_error := coerce_bool stop_on_error True\<rparr>)
       in Inr (s3\<lparr>sc_updated := now_iso now\<rparr>))"

definition scene_update ::
  "int list option \<Rightarrow> string \<Rightarrow> string option \<Rightarrow> pyval \<Rightarrow> pyval \<Rightarrow> (scene_store, scene option) proc" where
  "scene_update known key label actions stop_on_error =
     pbind (plift (if actions = PNone then Inr None
                   else rbind (canonical_actions actions) (\<lambda>as. Inr (Some (apply_broadcast_collapse known as)))))
       (\<lambda>canonical. store_update scene_kind key (modify_scene label canonical stop_on_error))"

definition scene_delete :: "string \<Rightarrow> (scene_store, bool) proc" where
  "scene_delete = store_delete scene_kind"

definition scene_duplicate ::
  "int list option \<Rightarrow> string \<Rightarrow> string option \<Rightarrow> (scene_store, scene option) proc" where
  "scene_duplicate known key new_label =
     pbind (scene_get key) (\<lambda>src.
       case src of
         None \<Rightarrow> pret None
       | Some sc \<Rightarrow>
           let label = strip (case new_label of
                 Some l \<Rightarrow> if l = [] then sc_label sc @ '' copy'' else l
               | None \<Rightarrow> sc_label sc @ '' copy'')
           in pbind (scene_create known (Some label) (actions_doc (sc_actions sc)) None (PBool (sc_stop_on_error sc)))
                (\<lambda>new. pret (Some new)))"

text \<open>The loop of \<open>renumber_group_references\<close>: the new items and the number of changed scenes.\<close>

fun renumber_scenes :: "int \<Rightarrow> string \<Rightarrow> scene list \<Rightarrow> (scene list \<times> nat) res" where
  "renumber_scenes deleted now [] = Inr ([], 0)"
| "renumber_scenes deleted now (sc # scs) =
     rbind (renumber_scene_actions deleted (sc_actions sc)) (\<lambda>(actions, changed).
     rbind (renumber_scenes deleted now scs) (\<lambda>(rest, n).
       Inr (if changed then (sc\<lparr>sc_actions := actions, sc_updated := now_iso now\<rparr> # rest, Suc n)
            else (sc # rest, n))))"

definition renumber_group_references :: "int \<Rightarrow> (scene_store, nat) proc" where
  "renumber_group_references deleted =
     pbind (store_items scene_kind) (\<lambda>items.
     pbind (pread st_now) (\<lambda>now.
     pbind (plift (renumber_scenes deleted now items)) (\<lambda>(new_items, changed).
       if changed = 0 then pret 0
       else
         pbind (write_atomic scene_kind new_items) (\<lambda>_.
         pbind invalidate (\<lambda>_.
         pbind fire_changed (\<lambda>_. pret changed))))))"

text \<open>
  \<open>replace_all\<close> writes its entries without \<open>stop_on_error\<close>, which the next load reads
  as true; so that is the field's value here.
\<close>

definition import_scene :: "string \<Rightarrow> int \<Rightarrow> string \<Rightarrow> pydict \<Rightarrow> scene res" where
  "import_scene now new_id key e =
     rbind (case py_or (dget e ''label'') (PStr key) of PStr l \<Rightarrow> Inr (strip l) | _ \<Rightarrow> Inl AttributeError) (\<lambda>label.
     rbind (canonical_actions (dget e ''actions'')) (\<lambda>actions.
       Inr \<lparr>sc_id = new_id, sc_key = key, sc_label = label,
            sc_created = py_or (dget e ''created'') (now_iso now),
            sc_updated = py_or (dget e ''updated'') (now_iso now),
            sc_actions = actions, sc_stop_on_error = True\<rparr>))"

definition scene_replace_all :: "pydict list \<Rightarrow> (scene_store, unit) proc" where
  "scene_replace_all = store_replace_all scene_kind ''scene'' import_scene"

section \<open>The store contract\<close>

definition scene_ok :: "scene \<Rightarrow> bool" where
  "scene_ok sc = (actions_ok (sc_actions sc) \<and> py_truth (sc_created sc) \<and> py_truth (sc_updated sc) \<and>
     json_plain (PDict (scene_dict sc)))"

lemma scene_dict_get [simp]:
  "dget (scene_dict sc) ''id'' = PInt (sc_id sc)" "dget (scene_dict sc) ''key'' = PStr (sc_key sc)"
  "dget (scene_dict sc) ''label'' = PStr (sc_label sc)" "dget (scene_dict sc) ''created'' = sc_created sc"
  "dget (scene_dict sc) ''updated'' = sc_updated sc" "dget (scene_dict sc) ''actions'' = actions_doc (sc_actions sc)"
  "dget (scene_dict sc) ''stop_on_error'' = PBool (sc_stop_on_error sc)"
  by (simp_all add: scene_dict_def dget_or_def)

lemma scene_entry_dict:
  assumes "scene_ok sc"
  shows "scene_entry now (sc_id sc) (sc_key sc) (sc_label sc) (scene_dict sc) = Inr sc"
  using assms canonical_actions_doc [of "sc_actions sc"]
  by (simp add: scene_entry_def scene_ok_def py_or_def catch_value_error_def coerce_bool_def)

lemma scene_kind_fields [simp]:
  "sk_id scene_kind = sc_id" "sk_key scene_kind = sc_key" "sk_dict scene_kind = scene_dict"
  "sk_entry scene_kind = scene_entry" "sk_field scene_kind = ''scenes''" "sk_schema scene_kind = 1"
  "sk_migrates scene_kind = False"
  by (simp_all add: scene_kind_def)

interpretation scenes: keyed_store scene_kind scene_ok
proof unfold_locales
  show "\<exists>label. dget (sk_dict scene_kind sc) ''label'' = PStr label \<and>
      (\<forall>now. sk_entry scene_kind now (sk_id scene_kind sc) (sk_key scene_kind sc) label (sk_dict scene_kind sc) = Inr sc)"
    if "scene_ok sc" for sc
    using scene_entry_dict [OF that] by simp
qed (simp_all add: scene_ok_def json_plain_def)

section \<open>Scenes from JSON stay JSON\<close>

fun action_plain :: "action \<Rightarrow> bool" where
  "action_plain (Effect k t params fo) = json_plain (PDict params)"
| "action_plain (OffsetGroup t offset children) = (\<forall>c \<in> set children. action_plain c)"
| "action_plain a = True"

lemma target_dict_plain: "json_plain (PDict (target_dict t))"
  by (cases t) auto

lemma offset_dict_plain: "json_plain (PDict (offset_dict ob))"
  by (cases ob) auto

lemma flags_plain: "flags_ok f \<Longrightarrow> json_plain (PDict f)"
proof -
  assume f: "flags_ok f"
  have "json_plain (snd p)" if "p \<in> set f" for p
  proof -
    have "py_is_bool (snd p)" using f that by (simp add: flags_ok_def)
    then show ?thesis by (cases "snd p") simp_all
  qed
  then show ?thesis by simp
qed

lemma effect_dict_plain:
  assumes "action_ok (Effect k t params fo)" and "action_plain (Effect k t params fo)"
  shows "json_plain (PDict (action_dict (Effect k t params fo)))"
  using assms target_dict_plain [of t] flags_plain
  by (cases fo) (auto simp del: target_dict.simps split: if_splits)

lemma child_dict_plain:
  assumes "child_ok ps c" and "action_plain c" shows "json_plain (PDict (action_dict c))"
proof -
  obtain k t params f where c: "c = Effect k t params (Some f)" "k \<noteq> Startblock" "target_ok t" "flags_ok f"
    using assms(1) by (auto simp: child_ok_def split: action.splits option.splits)
  then show ?thesis using assms(2) effect_dict_plain [of k t params "Some f"] by (simp del: action_dict.simps)
qed

lemma action_dict_plain:
  assumes "action_ok a" and "action_plain a" shows "json_plain (PDict (action_dict a))"
proof (cases a)
  case (Effect k t params fo)
  with assms effect_dict_plain show ?thesis by blast
next
  case (OffsetGroup t offset children)
  with assms obtain ob where "offset = offset_dict ob" "\<forall>c \<in> set children. child_ok (target_groups t) c" by auto
  with OffsetGroup assms(2) child_dict_plain show ?thesis
    using target_dict_plain [of t] offset_dict_plain [of ob]
    by (auto simp del: target_dict.simps offset_dict.simps json_plain_dict simp: json_plain_dict [of "_ # _"])
qed simp_all

lemma actions_doc_plain: "actions_ok as \<Longrightarrow> \<forall>a \<in> set as. action_plain a \<Longrightarrow> json_plain (actions_doc as)"
  using action_dict_plain by (auto simp: actions_doc_def actions_ok_def simp del: json_plain_dict)

lemma params_plain: "canonical_params_field v = Inr p \<Longrightarrow> json_plain v \<Longrightarrow> json_plain (PDict p)"
  by (cases v) (auto simp: canonical_params_field_def)

lemma child_plain:
  assumes "canonical_offset_group_child ps raw = Inr c" and "json_plain raw"
  shows "action_plain c"
proof -
  obtain d k t p f where c: "raw = PDict d" "canonical_params_field (dget d ''params'') = Inr p"
    "c = Effect k t p (Some f)"
    using assms(1) by (auto simp: canonical_offset_group_child_def elim!: rbind_InrE
        split: pyval.split_asm option.split_asm if_split_asm)
  have "json_plain (dget d ''params'')" using assms(2) c(1) by (intro dget_plain) simp_all
  with params_plain [OF c(2)] c(3) show ?thesis by simp
qed

lemma offset_group_plain:
  assumes "canonical_offset_group_action d = Inr a" and "json_plain (PDict d)"
  shows "action_plain a"
proof -
  obtain t ob cs children where cs: "py_or (dget d ''actions'') (PList []) = PList cs"
    and ch: "rmap (canonical_offset_group_child (target_groups t)) cs = Inr children"
    and a: "a = OffsetGroup t (offset_dict ob) children"
    using assms(1) by (auto simp: canonical_offset_group_action_def Let_def elim!: rbind_InrE
        split: if_split_asm pyval.split_asm)
  have "json_plain (PList cs)"
    unfolding cs [symmetric] by (intro py_or_plain dget_plain assms(2)) simp_all
  then have pl: "\<forall>x \<in> set cs. json_plain x" by simp
  have "action_plain c" if "c \<in> set children" for c
    using rmap_InrD [OF ch that] pl child_plain by meson
  with a show ?thesis by simp
qed

lemma dict_pairs_plain:
  "dict_pairs acc ps = Inr d \<Longrightarrow> json_plain (PDict acc) \<Longrightarrow> \<forall>p \<in> set ps. json_plain p \<Longrightarrow> json_plain (PDict d)"
proof (induction acc ps rule: dict_pairs.induct)
  case (2 acc p ps)
  then obtain kv where it: "py_iter p = Inr kv" and "(case kv of [PStr key, v] \<Rightarrow> dict_pairs (assoc_set key v acc) ps
       | [_, _] \<Rightarrow> Inl TypeError | _ \<Rightarrow> Inl ValueError) = Inr d"
    by (auto elim: rbind_InrE)
  then obtain key v where kv: "kv = [PStr key, v]" and r: "dict_pairs (assoc_set key v acc) ps = Inr d"
    by (auto split: list.split_asm pyval.split_asm)
  have "json_plain v" using it kv "2.prems"(3) by (cases p) auto
  then have "json_plain (PDict (assoc_set key v acc))"
    using "2.prems"(2) assoc_set_plain [of v acc key] by simp
  with "2.IH" [OF it kv] r "2.prems"(3) show ?case by simp
qed simp

lemma py_dict_plain: "py_dict v = Inr d \<Longrightarrow> json_plain v \<Longrightarrow> json_plain (PDict d)"
proof (cases v)
  case (PStr s)
  assume "py_dict v = Inr d"
  with PStr show ?thesis using dict_pairs_plain [of "[]" "map (\<lambda>c. PStr [c]) s" d] by auto
next
  case (PList xs)
  assume "py_dict v = Inr d" "json_plain v"
  with PList show ?thesis using dict_pairs_plain [of "[]" xs d] by simp
qed simp_all

lemma iter_plain: "py_iter v = Inr xs \<Longrightarrow> json_plain v \<Longrightarrow> json_plain (PList xs)"
  by (cases v) auto

lemma legacy_value_plain: "legacy_value_entry v = Inr w \<Longrightarrow> json_plain w"
  by (auto simp: legacy_value_entry_def elim!: rbind_InrE split: pyval.split_asm)

lemma legacy_values_plain: "rmap legacy_value_entry es = Inr vs \<Longrightarrow> \<forall>v \<in> set vs. json_plain v"
  using rmap_InrD [of legacy_value_entry es vs] legacy_value_plain by blast

lemma legacy_offset_plain:
  assumes "legacy_groups_and_offset t = Inr (g, off)" and "json_plain (PDict t)"
  shows "json_plain g \<and> json_plain off"
proof (cases "\<exists>e0 rest. dget t ''groups'' = PList (PDict e0 # rest)")
  case True
  then show ?thesis using assms(1)
    by (auto simp: legacy_groups_and_offset_def Let_def elim!: rbind_InrE split: if_split_asm
        dest!: legacy_values_plain legacy_value_plain)
next
  case False
  then have "(g = PStr ''all'' \<or> g = dget t ''groups'') \<and>
      off = py_or (dget t ''offset'') (PDict [(''mode'', PStr ''none'')])"
    using assms(1) by (auto simp: legacy_groups_and_offset_def Let_def split: pyval.split_asm list.split_asm if_split_asm)
  moreover have "json_plain (dget t ''groups'')" by (intro dget_plain assms(2)) simp
  moreover have "json_plain (py_or (dget t ''offset'') (PDict [(''mode'', PStr ''none'')]))"
    by (intro py_or_plain dget_plain assms(2)) simp_all
  ultimately show ?thesis by auto
qed

lemma migrate_plain:
  assumes "migrate_legacy_groups_offset_action d = Inr d'" and "json_plain (PDict d)"
  shows "json_plain (PDict d')"
proof -
  have pl: "json_plain (dget d key)" for key using assms(2) by (intro dget_plain) simp_all
  obtain t where t: "dget d ''target'' = PDict t"
    using assms(1) by (auto simp: migrate_legacy_groups_offset_action_def split: pyval.split_asm)
  obtain g off params flags ct where g: "legacy_groups_and_offset t = Inr (g, off)"
    and p: "py_dict (py_or (dget d ''params'') (PDict [])) = Inr params"
    and f: "py_dict (py_or (dget d ''flags_override'') (PDict [])) = Inr flags"
    and ct: "(if g = PStr ''all'' then Inr (PDict [(''kind'', PStr ''broadcast'')])
       else rbind (py_iter g) (\<lambda>gs. Inr (PDict [(''kind'', PStr ''groups''), (''value'', PList gs)]))) = Inr ct"
    and d': "d' = [(''kind'', PStr ''offset_group''), (''target'', ct), (''offset'', off),
       (''actions'', PList [PDict [(''kind'', dget d ''kind''), (''target'', PDict [(''kind'', PStr ''broadcast'')]),
          (''params'', PDict params), (''flags_override'', PDict flags)]])]"
    using assms(1) by (auto simp: migrate_legacy_groups_offset_action_def t Let_def elim!: rbind_InrE)
  have go: "json_plain g \<and> json_plain off"
    using legacy_offset_plain [OF g] pl [of "''target''"] t by simp
  have "json_plain (PDict params)" by (rule py_dict_plain [OF p py_or_plain [OF pl]]) simp
  moreover have "json_plain (PDict flags)" by (rule py_dict_plain [OF f py_or_plain [OF pl]]) simp
  moreover have "json_plain ct"
    using ct go iter_plain [of g] by (auto elim!: rbind_InrE split: if_split_asm)
  ultimately show ?thesis using go pl [of "''kind''"] by (simp add: d')
qed

lemma canonical_effect_plain:
  assumes "canonical_effect k d = Inr a" and "json_plain (PDict d)" shows "action_plain a"
proof -
  obtain t p fo where "canonical_params_field (dget d ''params'') = Inr p" "a = Effect k t p fo"
    using assms(1) by (auto simp: canonical_effect_def elim!: rbind_InrE split: if_split_asm)
  moreover have "json_plain (dget d ''params'')" using assms(2) by (intro dget_plain) simp_all
  ultimately show ?thesis using params_plain by auto
qed

lemma canonical_action_plain:
  assumes "canonical_action raw = Inr a" and "json_plain raw" shows "action_plain a"
proof -
  obtain d0 d where r: "raw = PDict d0"
    and m: "(if is_legacy_groups_offset_target d0 then migrate_legacy_groups_offset_action d0 else Inr d0) = Inr d"
    using assms(1) by (auto simp: canonical_action_def elim!: rbind_InrE split: pyval.split_asm)
  have d: "json_plain (PDict d)"
    using m assms(2) r migrate_plain [of d0 d] by (auto split: if_split_asm)
  show ?thesis
    using assms(1) m canonical_effect_plain [OF _ d] offset_group_plain [OF _ d]
    by (auto simp: canonical_action_def r Let_def elim!: rbind_InrE split: if_split_asm option.split_asm)
qed

lemma canonical_actions_plain:
  assumes "canonical_actions raw = Inr as" and "json_plain raw" and "a \<in> set as" shows "action_plain a"
proof -
  obtain xs where xs: "raw = PList xs" "rmap canonical_action xs = Inr as"
    using assms(1,3) by (auto simp: canonical_actions_def split: pyval.split_asm if_split_asm)
  from rmap_InrD [OF xs(2) assms(3)] obtain x where "x \<in> set xs" "canonical_action x = Inr a" by blast
  with canonical_action_plain assms(2) xs(1) show ?thesis by simp
qed

lemma collapse_plain: "action_plain a \<Longrightarrow> action_plain (collapse_action known a)"
  by (induction known a rule: collapse_action.induct) auto

lemma doc_plain_action: "json_plain (actions_doc as) \<Longrightarrow> actions_ok as \<Longrightarrow> a \<in> set as \<Longrightarrow> action_plain a"
  using canonical_actions_plain [OF canonical_actions_doc] by blast

lemma renumber_scene_plain:
  assumes "renumber_scene_actions d as = Inr (as', ch)" and "list_all2 (shifted d) as as'"
    and "\<forall>a \<in> set as. action_plain a" and "a' \<in> set as'"
  shows "action_plain a'"
proof -
  have step: "shifted d a b \<Longrightarrow> action_plain a \<Longrightarrow> action_plain b" for a b
  proof (induction rule: shifted.induct)
    case (shifted_group cs cs' t ob)
    then have "\<forall>i < length cs. action_plain (cs' ! i)" by (auto simp: list_all2_conv_all_nth)
    with shifted_group show ?case by (auto simp: in_set_conv_nth list_all2_lengthD)
  qed simp_all
  obtain i where "i < length as'" "a' = as' ! i" using assms(4) by (auto simp: in_set_conv_nth)
  with assms(2,3) step show ?thesis by (auto simp: list_all2_conv_all_nth)
qed


text \<open>Reading stored actions back keeps their parameters.\<close>

lemma stored_effect_plain:
  assumes "canonical_effect k' (action_dict (Effect k t p fo)) = Inr b" and "json_plain (PDict p)"
  shows "action_plain b"
  using assms by (auto simp: canonical_effect_def dget_or_def canonical_params_field_def elim!: rbind_InrE
      split: if_split_asm)

lemma stored_child_plain:
  assumes "canonical_offset_group_child ps (PDict (action_dict a)) = Inr b" and "action_plain a"
  shows "action_plain b"
proof -
  obtain k t p f where "child_kind_of (dget (action_dict a) ''kind'') = Some k"
    "canonical_params_field (dget (action_dict a) ''params'') = Inr p" "b = Effect k t p (Some f)"
    using assms(1) by (auto simp: canonical_offset_group_child_def elim!: rbind_InrE
        split: option.split_asm if_split_asm)
  with assms(2) show ?thesis
    by (cases a) (auto simp: dget_or_def canonical_params_field_def child_kind_of_def effect_kind_of_def)
qed

lemma stored_action_plain:
  assumes "canonical_action (PDict (action_dict a)) = Inr b" and "action_plain a"
  shows "action_plain b"
proof (cases a)
  case (Effect k t p fo)
  have "dget (action_dict a) ''kind'' = PStr (kind_name k)" by (simp add: Effect dget_or_def)
  with assms Effect kind_name_cases [of k] have "canonical_effect k (action_dict (Effect k t p fo)) = Inr b"
    by (simp add: canonical_action_def action_dict_not_legacy Let_def del: action_dict.simps)
  with stored_effect_plain assms(2) Effect show ?thesis by auto
next
  case (OffsetGroup t off cs)
  let ?d = "action_dict (OffsetGroup t off cs)"
  have k: "dget ?d ''kind'' = PStr ''offset_group''" by (simp add: dget_or_def)
  have r: "canonical_offset_group_action ?d = Inr b"
    using assms(1) k OffsetGroup by (simp add: canonical_action_def action_dict_not_legacy Let_def
        del: action_dict.simps split: if_split_asm)
  have a: "dget ?d ''actions'' = PList (map (\<lambda>c. PDict (action_dict c)) cs)" by (simp add: dget_or_def)
  obtain u ob xs children where xs: "py_or (dget ?d ''actions'') (PList []) = PList xs"
    and ch: "rmap (canonical_offset_group_child (target_groups u)) xs = Inr children"
    and b: "b = OffsetGroup u (offset_dict ob) children"
    using r by (auto simp: canonical_offset_group_action_def Let_def simp del: action_dict.simps elim!: rbind_InrE
        split: if_split_asm pyval.split_asm)
  have xs': "xs = map (\<lambda>c. PDict (action_dict c)) cs" using xs a by (auto simp: py_or_def split: if_split_asm)
  have "action_plain c" if "c \<in> set children" for c
  proof -
    from rmap_InrD [OF ch that] obtain c0 where "c0 \<in> set cs"
      "canonical_offset_group_child (target_groups u) (PDict (action_dict c0)) = Inr c" by (auto simp: xs')
    with stored_child_plain assms(2) OffsetGroup show ?thesis by auto
  qed
  with b show ?thesis by simp
qed (use assms in \<open>auto simp: canonical_action_def is_legacy_groups_offset_target_def dget_or_def Let_def
    elim!: rbind_InrE split: if_split_asm\<close>)

lemma renumber_action_plain: "renumber_action d a = Inr (b, ch) \<Longrightarrow> action_plain a \<Longrightarrow> action_plain b"
proof (induction d a arbitrary: b ch rule: renumber_action.induct)
  case (1 d k t params fo)
  then show ?case by (auto split: prod.split_asm if_split_asm)
next
  case (2 d t off cs)
  obtain t' tc where t: "shift_target_groups_list d t = (t', tc)" by fastforce
  obtain rs where rs: "rmap (renumber_action d) cs = Inr rs" using "2.prems"(1) t by (auto elim!: rbind_InrE)
  obtain cs' cc where rw: "rewritten cs rs = (cs', cc)" by fastforce
  have b: "b = OffsetGroup t off cs \<or> (\<exists>off'. b = OffsetGroup t' off' cs')"
    using "2.prems"(1) t rs rw by (auto elim!: rbind_InrE split: if_split_asm)
  have "action_plain c" if "c \<in> set (map fst rs)" for c
  proof -
    from that obtain bch where "(c, bch) \<in> set rs" by auto
    from rmap_InrD [OF rs this] obtain c0 where c0: "c0 \<in> set cs" "renumber_action d c0 = Inr (c, bch)" by blast
    from "2.IH" [OF _ c0(1) c0(2)] "2.prems"(2) c0(1) show ?thesis using t by auto
  qed
  then have "\<forall>c \<in> set cs'. action_plain c"
    using rw "2.prems"(2) by (auto simp: rewritten_def split: if_split_asm)
  with b "2.prems"(2) show ?case by auto
qed auto

lemma renumber_result:
  assumes r: "renumber_scene_actions d as = Inr (as', ch)" and ok: "actions_ok as" and pl: "\<forall>a \<in> set as. action_plain a"
  shows "actions_ok as' \<and> (\<forall>a \<in> set as'. action_plain a)"
proof -
  obtain new b where n: "renumber_actions_for_deleted_group as d = Inr (new, b)"
    and c: "(if b then rbind (canonical_actions (actions_doc new)) (\<lambda>as. Inr (as, True)) else Inr (as, False)) = Inr (as', ch)"
    using r by (auto simp: renumber_scene_actions_def elim!: rbind_InrE)
  show ?thesis
  proof (cases b)
    case True
    with c have can: "canonical_actions (actions_doc new) = Inr as'" by (auto elim!: rbind_InrE)
    obtain rs where rs: "rmap (renumber_action d) as = Inr rs" "(new, b) = rewritten as rs"
      using n by (auto simp: renumber_actions_for_deleted_group_def elim!: rbind_InrE)
    have new: "\<forall>a \<in> set new. action_plain a"
    proof
      fix a assume "a \<in> set new"
      then obtain bch where "(a, bch) \<in> set rs" using rs(2) True by (auto simp: rewritten_def split: if_split_asm)
      from rmap_InrD [OF rs(1) this] obtain a0 where "a0 \<in> set as" "renumber_action d a0 = Inr (a, bch)" by blast
      with renumber_action_plain pl show "action_plain a" by blast
    qed
    have m: "rmap canonical_action (map (\<lambda>a. PDict (action_dict a)) new) = Inr as'"
      using can by (auto simp: canonical_actions_def actions_doc_def split: if_split_asm)
    have "action_plain a'" if "a' \<in> set as'" for a'
      using rmap_InrD [OF m that] stored_action_plain new by auto
    with canonical_actions_result_ok [OF can] show ?thesis by blast
  qed (use c ok pl in auto)
qed

section \<open>Every call keeps the store coherent\<close>

lemma scene_ok_iff:
  "scene_ok sc \<longleftrightarrow> actions_ok (sc_actions sc) \<and> py_truth (sc_created sc) \<and> py_truth (sc_updated sc) \<and>
     json_plain (sc_created sc) \<and> json_plain (sc_updated sc) \<and> json_plain (actions_doc (sc_actions sc))"
  by (auto simp: scene_ok_def scene_dict_def)

definition collapse_breaks :: "int list option \<Rightarrow> action \<Rightarrow> bool" where
  "collapse_breaks known a = (case known of None \<Rightarrow> False | Some ids \<Rightarrow> ids \<noteq> [] \<and> explicit_over_all ids a)"

text \<open>Arguments a request can bring, away from the case the collapse breaks.\<close>

definition harmless :: "int list option \<Rightarrow> pyval \<Rightarrow> bool" where
  "harmless known raw =
     (json_plain raw \<and> (\<forall>as. canonical_actions raw = Inr as \<longrightarrow> (\<forall>a \<in> set as. \<not> collapse_breaks known a)))"

lemma collapse_ok:
  assumes "canonical_actions raw = Inr as" and "harmless known raw"
  shows "actions_ok (apply_broadcast_collapse known as) \<and> json_plain (actions_doc (apply_broadcast_collapse known as))"
proof -
  have ok: "actions_ok as" by (rule canonical_actions_result_ok [OF assms(1)])
  have pl: "\<forall>a \<in> set as. action_plain a"
    using assms canonical_actions_plain by (auto simp: harmless_def)
  have "actions_ok (apply_broadcast_collapse known as)"
  proof (cases "\<exists>ids. known = Some ids \<and> ids \<noteq> []")
    case True
    then obtain ids where ids: "known = Some ids" "ids \<noteq> []" by blast
    have "action_ok (collapse_action ids a)" if "a \<in> set as" for a
      using that ok assms ids collapse_keeps_canonical [of a ids]
      by (auto simp: actions_ok_def harmless_def collapse_breaks_def)
    with ok ids show ?thesis by (auto simp: apply_broadcast_collapse_def collapse_actions_to_broadcast_def actions_ok_def)
  qed (use ok in \<open>auto simp: apply_broadcast_collapse_def collapse_actions_to_broadcast_def split: option.split\<close>)
  moreover have "\<forall>a \<in> set (apply_broadcast_collapse known as). action_plain a"
    using pl collapse_plain
    by (auto simp: apply_broadcast_collapse_def collapse_actions_to_broadcast_def split: option.split)
  ultimately show ?thesis using actions_doc_plain by blast
qed

lemma coherent_scene_create:
  assumes c: "scenes.coherent s" and h: "harmless known actions"
  shows "scenes.coherent (snd (scene_create known label actions key stop s))"
proof (cases "strip (case label of None \<Rightarrow> [] | Some l \<Rightarrow> l) = []")
  case False
  show ?thesis
  proof (cases "canonical_actions actions")
    case (Inr as)
    have "scene_ok x \<and> sk_id scene_kind x = n \<and> sk_key scene_kind x = key'"
      if "build_scene l (apply_broadcast_collapse known as) b n key' now = Inr x" for l b n key' now x
      using that collapse_ok [OF Inr h] by (auto simp: build_scene_def scene_ok_iff)
    from scenes.coherent_create [OF c this] False Inr show ?thesis
      by (simp add: scene_create_def pbind_run Let_def)
  qed (use c False in \<open>simp add: scene_create_def pbind_run Let_def\<close>)
qed (use c in \<open>simp add: scene_create_def\<close>)

lemma modify_scene_ok:
  assumes "scene_ok x" and "modify_scene label actions stop now x = Inr y"
    and "\<forall>as. actions = Some as \<longrightarrow> actions_ok as \<and> json_plain (actions_doc as)"
  shows "scene_ok y \<and> sk_id scene_kind y = sk_id scene_kind x \<and> sk_key scene_kind y = sk_key scene_kind x"
  using assms by (auto simp: modify_scene_def scene_ok_iff Let_def elim!: rbind_InrE
      split: option.split_asm if_split_asm)

lemma coherent_scene_update:
  assumes c: "scenes.coherent s" and h: "harmless known actions"
  shows "scenes.coherent (snd (scene_update known key label actions stop s))"
proof -
  let ?canon = "if actions = PNone then Inr None
      else rbind (canonical_actions actions) (\<lambda>as. Inr (Some (apply_broadcast_collapse known as)))"
  show ?thesis
  proof (cases "?canon")
    case (Inl e)
    then show ?thesis using c unfolding scene_update_def Inl by (simp add: pbind_run)
  next
    case (Inr cs)
    have "\<forall>as. cs = Some as \<longrightarrow> actions_ok as \<and> json_plain (actions_doc as)"
      using Inr collapse_ok [OF _ h] by (auto split: if_split_asm elim!: rbind_InrE)
    then have "scenes.coherent (snd (store_update scene_kind key (modify_scene label cs stop) s))"
      by (intro scenes.coherent_update [OF c]) (use modify_scene_ok in blast)
    then show ?thesis unfolding scene_update_def Inr by (simp add: pbind_run)
  qed
qed

lemma coherent_scene_duplicate:
  assumes c: "scenes.coherent s"
    and h: "\<And>sc s'. scene_get key s = (Inr (Some sc), s') \<Longrightarrow> harmless known (actions_doc (sc_actions sc))"
  shows "scenes.coherent (snd (scene_duplicate known key label s))"
proof -
  obtain r s1 where g: "scene_get key s = (r, s1)" by fastforce
  have c1: "scenes.coherent s1" using scenes.coherent_get [OF c, of key] g by (simp add: scene_get_def)
  show ?thesis
  proof (cases "\<exists>sc. r = Inr (Some sc)")
    case True
    then obtain sc where r: "r = Inr (Some sc)" by blast
    from coherent_scene_create [OF c1 h [OF g [unfolded r]]]
    show ?thesis
      by (simp add: scene_duplicate_def Let_def pbind_pret_snd pbind_Inr [where m = "scene_get key", OF g [unfolded r]])
  next
    case False
    then show ?thesis using g c1 by (cases r) (auto simp: scene_duplicate_def pbind_def split: option.split)
  qed
qed

lemma renumber_scenes_ok:
  "renumber_scenes d now xs = Inr (ys, m) \<Longrightarrow> \<forall>x \<in> set xs. scene_ok x \<Longrightarrow>
     (\<forall>y \<in> set ys. scene_ok y) \<and> map sc_id ys = map sc_id xs \<and> map sc_key ys = map sc_key xs"
proof (induction xs arbitrary: ys m)
  case (Cons x xs)
  obtain as ch where a: "renumber_scene_actions d (sc_actions x) = Inr (as, ch)"
    using Cons.prems(1) by (auto elim!: rbind_InrE)
  obtain zs n where z: "renumber_scenes d now xs = Inr (zs, n)"
    using Cons.prems(1) a by (auto elim!: rbind_InrE)
  have x: "scene_ok x" using Cons.prems(2) by simp
  then have pl: "\<forall>a \<in> set (sc_actions x). action_plain a"
    using doc_plain_action by (auto simp: scene_ok_iff)
  have "actions_ok as \<and> json_plain (actions_doc as)"
    using renumber_result [OF a _ pl] x actions_doc_plain by (auto simp: scene_ok_iff)
  then have "scene_ok (x\<lparr>sc_actions := as, sc_updated := now_iso now\<rparr>)" using x by (simp add: scene_ok_iff)
  moreover have "ys = (if ch then x\<lparr>sc_actions := as, sc_updated := now_iso now\<rparr> else x) # zs"
    using Cons.prems(1) a z by (auto split: if_split_asm)
  ultimately show ?case using Cons.IH [OF z] Cons.prems(2) by auto
qed simp

lemma coherent_renumber:
  assumes c: "scenes.coherent s"
  shows "scenes.coherent (snd (renumber_group_references d s))"
proof -
  obtain xs n where rep: "represents scene_kind scene_ok s xs n" using c by (auto simp: scenes.coherent_def)
  note it = scenes.items_run [OF rep]
  show ?thesis
  proof (cases "renumber_scenes d (st_now s) xs")
    case (Inl e)
    then show ?thesis using scenes.represents_loaded [OF rep]
      by (auto simp: renumber_group_references_def pbind_def it scenes.coherent_def)
  next
    case (Inr r)
    obtain ys m where r: "renumber_scenes d (st_now s) xs = Inr (ys, m)" using Inr by (cases r) auto
    have "store_ok scene_kind scene_ok ys n"
    proof -
      have ok: "\<forall>x \<in> set xs. scene_ok x" "\<forall>i \<in> set (map sc_id xs). i < n" "distinct (map sc_id xs)"
        "distinct (map sc_key xs)" "0 \<le> n"
        using scenes.representsD [OF rep] unfolding store_ok_lists scene_kind_fields by blast+
      from renumber_scenes_ok [OF r ok(1)] ok(2-5) show ?thesis
        unfolding store_ok_lists scene_kind_fields by metis
    qed
    from scenes.coherent_commit [OF rep this] scenes.represents_loaded [OF rep] show ?thesis
      using r by (auto simp: renumber_group_references_def pbind_Inr [where m = "store_items scene_kind" and s = s, OF it]
          pbind_run scenes.coherent_def)
  qed
qed

lemma coherent_scene_replace_all:
  assumes c: "scenes.coherent s" and "\<forall>e \<in> set es. json_plain (PDict e)"
  shows "scenes.coherent (snd (scene_replace_all es s))"
proof -
  have "scenes.imports_ok import_scene es"
    unfolding scenes.imports_ok_def
  proof (intro ballI allI impI)
    fix e now n key x
    assume e: "e \<in> set es" and i: "import_scene now n key e = Inr x"
    obtain label as where a: "canonical_actions (dget e ''actions'') = Inr as"
      and x: "x = \<lparr>sc_id = n, sc_key = key, sc_label = label, sc_created = py_or (dget e ''created'') (now_iso now),
            sc_updated = py_or (dget e ''updated'') (now_iso now), sc_actions = as, sc_stop_on_error = True\<rparr>"
      using i by (auto simp: import_scene_def elim!: rbind_InrE)
    have pl: "json_plain (dget e k)" for k using assms(2) e by (intro dget_plain) auto
    have "json_plain (actions_doc as)"
      using canonical_actions_plain [OF a pl] canonical_actions_result_ok [OF a] actions_doc_plain by blast
    moreover have "py_truth (py_or v (now_iso now))" for v by (simp add: py_or_def)
    ultimately show "scene_ok x \<and> sk_id scene_kind x = n \<and> sk_key scene_kind x = key"
      using canonical_actions_result_ok [OF a] pl by (simp add: x scene_ok_iff py_or_plain)
  qed
  from scenes.coherent_replace_all [OF c this] show ?thesis by (simp add: scene_replace_all_def)
qed

section \<open>Reachable stores\<close>

datatype scene_call =
    CallList
  | CallGet string
  | CallGetById pyval
  | CallCreate "string option" pyval "string option" pyval
  | CallUpdate string "string option" pyval pyval
  | CallDelete string
  | CallDuplicate string "string option"
  | CallRenumber int
  | CallReplaceAll "pydict list"

fun run_call :: "int list option \<Rightarrow> scene_call \<Rightarrow> scene_store \<Rightarrow> scene_store" where
  "run_call known CallList s = snd (scene_list s)"
| "run_call known (CallGet key) s = snd (scene_get key s)"
| "run_call known (CallGetById i) s = snd (scene_get_by_id i s)"
| "run_call known (CallCreate label actions key stop) s = snd (scene_create known label actions key stop s)"
| "run_call known (CallUpdate key label actions stop) s = snd (scene_update known key label actions stop s)"
| "run_call known (CallDelete key) s = snd (scene_delete key s)"
| "run_call known (CallDuplicate key label) s = snd (scene_duplicate known key label s)"
| "run_call known (CallRenumber d) s = snd (renumber_group_references d s)"
| "run_call known (CallReplaceAll es) s = snd (scene_replace_all es s)"

fun call_ok :: "int list option \<Rightarrow> scene_call \<Rightarrow> scene_store \<Rightarrow> bool" where
  "call_ok known (CallCreate label actions key stop) s = harmless known actions"
| "call_ok known (CallUpdate key label actions stop) s = harmless known actions"
| "call_ok known (CallDuplicate key label) s =
     (\<forall>sc s'. scene_get key s = (Inr (Some sc), s') \<longrightarrow> harmless known (actions_doc (sc_actions sc)))"
| "call_ok known (CallReplaceAll es) s = (\<forall>e \<in> set es. json_plain (PDict e))"
| "call_ok known _ s = True"

text \<open>
  The life of a store: it starts without a file, takes calls, the disk fails and recovers, time
  passes, the process restarts.
\<close>

inductive scene_reach :: "scene_store \<Rightarrow> bool" where
  fresh: "st_file s = Missing \<Longrightarrow> st_cache s = None \<Longrightarrow> scene_reach s"
| call: "scene_reach s \<Longrightarrow> call_ok known c s \<Longrightarrow> scene_reach (run_call known c s)"
| world: "scene_reach s \<Longrightarrow> scene_reach (s\<lparr>st_disk_ok := ok, st_now := now\<rparr>)"
| restart: "scene_reach s \<Longrightarrow> scene_reach (s\<lparr>st_cache := None, st_next_id := None\<rparr>)"

lemma coherent_call: "scenes.coherent s \<Longrightarrow> call_ok known c s \<Longrightarrow> scenes.coherent (run_call known c s)"
proof (cases c)
  case (CallDuplicate key label)
  assume "scenes.coherent s" "call_ok known c s"
  with CallDuplicate show ?thesis using coherent_scene_duplicate [of s key known label] by auto
qed (simp_all add: scene_list_def scene_get_def scene_get_by_id_def scene_delete_def
    scenes.coherent_items scenes.coherent_get scenes.coherent_get_by_id scenes.coherent_delete
    coherent_scene_create coherent_scene_update coherent_renumber coherent_scene_replace_all)

lemma reachable_coherent: "scene_reach s \<Longrightarrow> scenes.coherent s"
  by (induction rule: scene_reach.induct)
    (simp_all add: scenes.coherent_fresh coherent_call scenes.coherent_world scenes.coherent_restart)



section \<open>Creation\<close>

abbreviation restarted :: "scene_store \<Rightarrow> scene_store" where
  "restarted s \<equiv> s\<lparr>st_cache := None, st_next_id := None\<rparr>"

lemma represents_restarted:
  "represents scene_kind scene_ok s xs n \<Longrightarrow> st_cache s = None \<Longrightarrow> represents scene_kind scene_ok (restarted s) xs n"
  by (auto simp: represents_def file_holds_def)

lemma listed:
  assumes "scenes.coherent s" and "scene_list s = (Inr xs, s1)"
  obtains n where "represents scene_kind scene_ok s xs n" and "s1 = s\<lparr>st_cache := Some xs, st_next_id := Some n\<rparr>"
proof -
  obtain ys n where r: "represents scene_kind scene_ok s ys n" using assms(1) by (auto simp: scenes.coherent_def)
  have "xs = ys" "s1 = s\<lparr>st_cache := Some ys, st_next_id := Some n\<rparr>"
    using assms(2) scenes.items_run [OF r] by (auto simp: scene_list_def)
  with r that show ?thesis by blast
qed

lemma scene_create_run:
  assumes r: "represents scene_kind scene_ok s xs n" and len: "length xs < 998" and l: "strip label \<noteq> []"
    and as: "canonical_actions actions = Inr as" and h: "harmless known actions"
  obtains sc where
    "scene_create known (Some label) actions key stop s =
      (if st_disk_ok s then (Inr sc, scenes.committed s (xs @ [sc]) (n + 1))
       else (Inl OSError, s\<lparr>st_cache := Some (xs @ [sc]), st_next_id := Some (n + 1)\<rparr>))"
    and "store_ok scene_kind scene_ok (xs @ [sc]) (n + 1)"
    and "sc_id sc = n" and "sc_label sc = strip label" and "sc_actions sc = apply_broadcast_collapse known as"
proof -
  define wanted where "wanted = (case key of Some k \<Rightarrow> if k = [] then strip label else k | None \<Rightarrow> strip label)"
  define b where "b = (if stop = PNone then True else coerce_bool stop True)"
  obtain key' where key': "unique_key (slugify ''scene'' wanted) (map (sk_key scene_kind) xs) None = Inr key'"
    using unique_key_exists [of "map (sk_key scene_kind) xs"] len by auto
  let ?sc = "\<lparr>sc_id = n, sc_key = key', sc_label = strip label, sc_created = now_iso (st_now s),
      sc_updated = now_iso (st_now s), sc_actions = apply_broadcast_collapse known as, sc_stop_on_error = b\<rparr>"
  have "scene_ok ?sc" using collapse_ok [OF as h] by (simp add: scene_ok_iff)
  note c = scenes.create_run [where build = "build_scene (strip label) (apply_broadcast_collapse known as) b", OF r key',
      of ?sc, unfolded scene_kind_fields, OF _ this]
  show ?thesis
    by (rule that [of ?sc]) (use c as l in \<open>simp_all add: build_scene_def scene_create_def pbind_run Let_def
        flip: wanted_def b_def\<close>)
qed


abbreviation empty_store :: scene_store where
  "empty_store \<equiv> \<lparr>st_file = Missing, st_disk_ok = True, st_now = [], st_cache = None, st_next_id = None, st_notified = 0\<rparr>"

lemma empty_reach: "scene_reach empty_store" "scene_list empty_store = (Inr [], empty_store\<lparr>st_cache := Some [], st_next_id := Some 0\<rparr>)"
  by (simp_all add: fresh scene_list_def store_items_def store_load_def pbind_def)

lemma harmless_none: "json_plain raw \<Longrightarrow> harmless None raw"
  by (simp add: harmless_def collapse_breaks_def)


text \<open>
  A creation whose write fails raises, but the scene is not gone: the running service lists it (and
  the next successful write of any other change stores it), while a restart forgets it.
\<close>

theorem failed_create_leaves_phantom:
  assumes "scene_reach s" and "scene_list s = (Inr xs, s1)" and "\<not> st_disk_ok s" and "st_cache s = None"
    and "length xs < 998" and "strip label \<noteq> []" and "canonical_actions actions = Inr as" and "harmless known actions"
  shows "\<exists>sc s'. scene_create known (Some label) actions key stop s = (Inl OSError, s') \<and>
     fst (scene_list s') = Inr (xs @ [sc]) \<and> fst (scene_list (restarted s')) = Inr xs"
proof -
  obtain n where r: "represents scene_kind scene_ok s xs n"
    by (rule listed [OF reachable_coherent [OF assms(1)] assms(2)])
  obtain sc where c: "scene_create known (Some label) actions key stop s =
      (if st_disk_ok s then (Inr sc, scenes.committed s (xs @ [sc]) (n + 1))
       else (Inl OSError, s\<lparr>st_cache := Some (xs @ [sc]), st_next_id := Some (n + 1)\<rparr>))"
    by (rule scene_create_run [OF r assms(5-8)])
  let ?s' = "s\<lparr>st_cache := Some (xs @ [sc]), st_next_id := Some (n + 1)\<rparr>"
  have "fst (scene_list ?s') = Inr (xs @ [sc])" by (simp add: scene_list_def store_items_def)
  moreover have "fst (scene_list (restarted ?s')) = Inr xs"
    using scenes.items_run [OF represents_restarted [OF r assms(4)]] by (simp add: scene_list_def)
  ultimately show ?thesis using c assms(3) by auto
qed

theorem failed_create_leaves_phantom_witness:
  "\<exists>sc s'. scene_create None (Some ''Start'') PNone None PNone (empty_store\<lparr>st_disk_ok := False, st_now := ''t''\<rparr>) = (Inl OSError, s') \<and>
     fst (scene_list s') = Inr [sc] \<and> fst (scene_list (restarted s')) = Inr []"
proof -
  have "strip ''Start'' \<noteq> []" by code_simp
  moreover have "canonical_actions PNone = Inr []" by (simp add: canonical_actions_def)
  moreover have "scene_list (empty_store\<lparr>st_disk_ok := False, st_now := ''t''\<rparr>) =
      (Inr [], empty_store\<lparr>st_disk_ok := False, st_now := ''t'', st_cache := Some [], st_next_id := Some 0\<rparr>)"
    by (simp add: scene_list_def store_items_def store_load_def pbind_def)
  ultimately show ?thesis
    using failed_create_leaves_phantom [OF world [OF empty_reach(1)], of "''t''" False "[]" _ "''Start''" PNone "[]" None None PNone]
      harmless_none [of PNone] by simp
qed

section \<open>The collapse can lose a scene's actions\<close>

lemma broken_container_refused:
  "canonical_action (PDict (action_dict (OffsetGroup Broadcast (offset_dict (OExplicit vs)) cs))) = Inl ValueError"
  by (simp add: canonical_action_def is_legacy_groups_offset_target_def dget_or_def has_key_def Let_def
      canonical_offset_group_action_def legacy_container_target_def canonical_offset_group_container_target_def
      canonical_target_def migrate_legacy_target_def canonical_offset_block_def)

lemma collapsed_reads:
  assumes "action_ok a" and "ids \<noteq> []"
  shows "canonical_action (PDict (action_dict (collapse_action ids a))) =
    (if explicit_over_all ids a then Inl ValueError else Inr (collapse_action ids a))"
proof (cases "explicit_over_all ids a")
  case True
  then obtain gs off cs where a: "a = OffsetGroup (Groups gs) off cs" "dget off ''mode'' = PStr ''explicit''" "set ids \<subseteq> set gs"
    by (auto simp: explicit_over_all_def split: action.splits target.splits)
  obtain ob where ob: "off = offset_dict ob" using assms(1) a(1) by auto
  have "block_mode ob = ''explicit''" using a(2) block_mode_dict [of ob] ob by simp
  then obtain vs where vs: "ob = OExplicit vs" by (cases ob) simp_all
  have "gs \<noteq> []" using assms(2) a(3) by auto
  then have "collapse_action ids a = OffsetGroup Broadcast (offset_dict (OExplicit vs)) (map (collapse_action ids) cs)"
    using a ob vs assms(2) by (simp add: collapse_groups_target_def)
  then show ?thesis using True by (simp only: broken_container_refused if_True)
next
  case False
  then show ?thesis using canonical_action_dict [of "collapse_action ids a"] collapse_keeps_canonical [OF assms] by simp
qed

lemma collapsed_actions_read:
  assumes "\<forall>a \<in> set as. action_ok a" and "ids \<noteq> []" and "\<exists>a \<in> set as. explicit_over_all ids a"
  shows "rmap canonical_action (map (\<lambda>a. PDict (action_dict (collapse_action ids a))) as) = Inl ValueError"
  using assms(1,3)
proof (induction as)
  case (Cons a as)
  show ?case
  proof (cases "explicit_over_all ids a")
    case True
    with Cons.prems collapsed_reads [OF _ assms(2), of a] show ?thesis by simp
  next
    case False
    with Cons collapsed_reads [OF _ assms(2), of a] show ?thesis by simp
  qed
qed simp

lemma collapse_dict_plain:
  assumes "action_ok a" and "action_plain a"
  shows "json_plain (PDict (action_dict (collapse_action ids a)))"
proof (cases a)
  case (OffsetGroup t off cs)
  then obtain ob where off: "off = offset_dict ob" and ch: "\<forall>c \<in> set cs. child_ok (target_groups t) c"
    using assms(1) by auto
  have "json_plain (PDict (action_dict (collapse_action ids c)))" if "c \<in> set cs" for c
  proof (rule child_dict_plain [OF collapse_child_ok collapse_plain])
    show "child_ok (target_groups t) c" "action_plain c" using that ch assms(2) OffsetGroup by simp_all
  qed
  then show ?thesis using OffsetGroup off target_dict_plain [of "collapse_groups_target ids t"] offset_dict_plain [of ob]
    by (auto simp: json_plain_dict [of "_ # _"] simp del: target_dict.simps offset_dict.simps json_plain_dict)
next
  case (Effect k t p fo)
  with assms show ?thesis
    using effect_dict_plain [of k "collapse_groups_target ids t" p fo] collapse_target_ok [of t ids] by (simp del: action_dict.simps)
qed (use assms in simp_all)

text \<open>A last scene whose stored actions the validator refuses is read back with none.\<close>

lemma unreadable_scene_loads:
  assumes "\<forall>x \<in> set xs. scene_ok x" "distinct (map sc_id xs)" "sc_id sc \<notin> set (map sc_id xs)"
    and below: "\<forall>x \<in> set (xs @ [sc]). sc_id x < m" "0 \<le> m"
    and bad: "canonical_actions (actions_doc (sc_actions sc)) = Inl ValueError"
    and times: "py_truth (sc_created sc)" "py_truth (sc_updated sc)"
  shows "load_document scene_kind now (store_doc scene_kind m (xs @ [sc])) = Inr (xs @ [sc\<lparr>sc_actions := []\<rparr>], m, False)"
proof -
  have "scene_entry now (sc_id sc) (sc_key sc) (sc_label sc) (scene_dict sc) = Inr (sc\<lparr>sc_actions := []\<rparr>)"
    using bad times by (simp add: scene_entry_def catch_value_error_def py_or_def coerce_bool_def)
  then have "load_entries scene_kind now 0 [] (map (\<lambda>x. PDict (scene_dict x)) (xs @ [sc])) =
      Inr (xs @ [sc\<lparr>sc_actions := []\<rparr>], rev (map sc_id (xs @ [sc])))"
    using scenes.load_stored_entries [of xs "[]" now 0] assms(1-3)
    by (simp add: load_entries_append entry_id_def bump_id_free Let_def)
  moreover have "seed_next_id (PInt m) (rev (map sc_id (xs @ [sc]))) = m"
    using scenes.seed_stored [of "xs @ [sc]" m] below by simp
  ultimately show ?thesis by (simp add: load_document_def store_doc_def dget_or_def py_or_def)
qed

text \<open>
  Saving a scene whose explicit offset group names every known group destroys it: the call succeeds
  and returns the actions, but what it stored is refused on reading, and the scene comes back with no
  actions at all.
\<close>

theorem explicit_over_all_groups_lost:
  assumes "scene_reach s" and "scene_list s = (Inr xs, s1)" and "st_disk_ok s" and "length xs < 998"
    and "strip label \<noteq> []" and as: "canonical_actions actions = Inr as" and "json_plain actions"
    and ids: "ids \<noteq> []" "\<exists>a \<in> set as. explicit_over_all ids a"
  shows "\<exists>sc s' sc'. scene_create (Some ids) (Some label) actions key stop s = (Inr sc, s') \<and>
     sc_actions sc = map (collapse_action ids) as \<and>
     fst (scene_list s') = Inr (xs @ [sc']) \<and> sc_id sc' = sc_id sc \<and> sc_key sc' = sc_key sc \<and> sc_actions sc' = []"
proof -
  obtain n where r: "represents scene_kind scene_ok s xs n"
    by (rule listed [OF reachable_coherent [OF assms(1)] assms(2)])
  note ok = scenes.representsD [OF r]
  define wanted where "wanted = (case key of Some k \<Rightarrow> if k = [] then strip label else k | None \<Rightarrow> strip label)"
  obtain key' where key': "unique_key (slugify ''scene'' wanted) (map (sk_key scene_kind) xs) None = Inr key'"
    using unique_key_exists [of "map (sk_key scene_kind) xs"] assms(4) by auto
  define sc where "sc = \<lparr>sc_id = n, sc_key = key', sc_label = strip label, sc_created = now_iso (st_now s),
      sc_updated = now_iso (st_now s), sc_actions = map (collapse_action ids) as,
      sc_stop_on_error = (if stop = PNone then True else coerce_bool stop True)\<rparr>"
  define sc' where "sc' = sc\<lparr>sc_actions := []\<rparr>"
  define s' where "s' = s\<lparr>st_file := Document (store_doc scene_kind (n + 1) (xs @ [sc])), st_cache := None,
     st_next_id := Some (n + 1), st_notified := Suc (st_notified s)\<rparr>"
  have aok: "actions_ok as" by (rule canonical_actions_result_ok [OF as])
  have pl: "\<forall>a \<in> set as. action_plain a" using canonical_actions_plain [OF as assms(7)] by blast
  have "\<forall>a \<in> set as. json_plain (PDict (action_dict (collapse_action ids a)))"
    using collapse_dict_plain aok pl by (auto simp: actions_ok_def simp del: json_plain_dict)
  then have "json_plain (PDict (scene_dict sc))"
    by (auto simp: sc_def scene_dict_def actions_doc_def simp del: json_plain_dict simp: json_plain_dict [of "_ # _"])
  then have norm: "json_norm (store_doc scene_kind (n + 1) (xs @ [sc])) = store_doc scene_kind (n + 1) (xs @ [sc])"
    using ok by (auto simp: store_doc_def json_plain_def store_ok_def scene_ok_def)
  have run: "scene_create (Some ids) (Some label) actions key stop s = (Inr sc, s')"
    using scenes.items_run [OF r] key' as assms(3,5) ids(1) norm
    by (simp add: scene_create_def store_create_def pbind_Inr [where m = "store_items scene_kind" and s = s] pbind_run
        Let_def build_scene_def apply_broadcast_collapse_def collapse_actions_to_broadcast_def write_atomic_def pbind_def
        invalidate_def fire_changed_def s'_def flip: wanted_def sc_def)
  have bad: "canonical_actions (actions_doc (map (collapse_action ids) as)) = Inl ValueError"
    using collapsed_actions_read [OF _ ids(1) ids(2)] aok
    by (simp add: canonical_actions_def actions_doc_def actions_ok_def MAX_ACTIONS_PER_SCENE_def comp_def)
  have "load_document scene_kind now (store_doc scene_kind (n + 1) (xs @ [sc])) = Inr (xs @ [sc'], n + 1, False)" for now
    unfolding sc'_def by (rule unreadable_scene_loads) (use ok bad in \<open>auto simp: store_ok_def sc_def\<close>)
  then have "fst (scene_list s') = Inr (xs @ [sc'])"
    by (simp add: scene_list_def store_items_def store_load_def pbind_def s'_def Let_def)
  with run show ?thesis by (intro exI [of _ sc] exI [of _ s'] exI [of _ sc']) (simp add: sc'_def sc_def)
qed

theorem explicit_over_all_groups_lost_witness:
  "\<exists>sc s' sc'. scene_create (Some [1]) (Some ''Wave'')
      (actions_doc [OffsetGroup (Groups [1]) (offset_dict (OExplicit [(1, 5)])) []]) None PNone empty_store = (Inr sc, s') \<and>
     sc_actions sc = [OffsetGroup Broadcast (offset_dict (OExplicit [(1, 5)])) []] \<and>
     fst (scene_list s') = Inr [sc'] \<and> sc_actions sc' = []"
proof -
  let ?a = "OffsetGroup (Groups [1]) (offset_dict (OExplicit [(1, 5)])) []"
  have "\<exists>ob. offset_dict (OExplicit [(1, 5)]) = offset_dict ob \<and> offset_group_ok (Groups [1]) ob"
    by (intro exI [of _ "OExplicit [(1, 5)]"]) (simp add: offset_group_ok_def)
  then have ok: "actions_ok [?a]" by (simp add: actions_ok_def del: offset_dict.simps)
  have "json_plain (actions_doc [?a])" by (rule actions_doc_plain [OF ok]) simp
  moreover have "strip ''Wave'' \<noteq> []" by code_simp
  moreover have "explicit_over_all [1] ?a" by (simp add: explicit_over_all_def dget_or_def)
  ultimately have "\<exists>sc s' sc'. scene_create (Some [1]) (Some ''Wave'') (actions_doc [?a]) None PNone empty_store = (Inr sc, s') \<and>
     sc_actions sc = map (collapse_action [1]) [?a] \<and>
     fst (scene_list s') = Inr ([] @ [sc']) \<and> sc_id sc' = sc_id sc \<and> sc_key sc' = sc_key sc \<and> sc_actions sc' = []"
    by (intro explicit_over_all_groups_lost [OF empty_reach _ _ _ canonical_actions_doc [OF ok]])
      (simp_all del: offset_dict.simps)
  then show ?thesis by (elim exE conjE, intro exI conjI) (simp_all add: collapse_groups_target_def del: offset_dict.simps)
qed

section \<open>Renumbering the store\<close>

definition scenes_shifted :: "int \<Rightarrow> scene list \<Rightarrow> scene list \<Rightarrow> bool" where
  "scenes_shifted d xs ys = list_all2 (\<lambda>x y. sc_id y = sc_id x \<and> sc_key y = sc_key x \<and> sc_label y = sc_label x \<and>
     sc_stop_on_error y = sc_stop_on_error x \<and> list_all2 (shifted d) (sc_actions x) (sc_actions y)) xs ys"

lemma renumber_scenes_shift:
  assumes "0 \<le> d" and "\<forall>x \<in> set xs. scene_ok x \<and> (\<forall>a \<in> set (sc_actions x). explicit_distinct a)"
  shows "\<exists>ys m. renumber_scenes d now xs = Inr (ys, m) \<and> scenes_shifted d xs ys \<and> (m = 0 \<longrightarrow> ys = xs)"
  using assms(2)
proof (induction xs)
  case (Cons x xs)
  then obtain ys m where ys: "renumber_scenes d now xs = Inr (ys, m)" "scenes_shifted d xs ys" "m = 0 \<longrightarrow> ys = xs" by auto
  have x: "actions_ok (sc_actions x)" "\<forall>a \<in> set (sc_actions x). explicit_distinct a"
    using Cons.prems by (auto simp: scene_ok_iff)
  obtain as ch where as: "renumber_scene_actions d (sc_actions x) = Inr (as, ch)" "list_all2 (shifted d) (sc_actions x) as"
    "\<not> ch \<Longrightarrow> as = sc_actions x"
    using renumber_scene [OF x assms(1)] by metis
  show ?case
  proof (cases ch)
    case True
    with as ys show ?thesis
      by (intro exI [of _ "x\<lparr>sc_actions := as, sc_updated := now_iso now\<rparr> # ys"] exI [of _ "Suc m"])
        (simp add: scenes_shifted_def)
  next
    case False
    with as ys show ?thesis by (intro exI [of _ "x # ys"] exI [of _ m]) (simp add: scenes_shifted_def)
  qed
qed (simp add: scenes_shifted_def)




lemma duplicate_ids_refused:
  "renumber_scene_actions 9 [OffsetGroup (Groups [1, 2]) (offset_dict (OExplicit [(1, 0), (1, 5)])) []] = Inl ValueError"
proof -
  have "renumber_scene_actions 9 [OffsetGroup (Groups [1, 2]) (offset_dict (OExplicit [(1, 0), (1, 5)])) []] =
      rbind (canonical_actions (actions_doc [OffsetGroup (Groups [1, 2]) (offset_dict (OExplicit [(1, 0)])) []])) (\<lambda>as. Inr (as, True))"
    by (simp add: renumber_scene_actions_def renumber_actions_for_deleted_group_def shift_target_groups_list_def
        shift_group_value_def renumber_offset_def dget_or_def rewritten_def Let_def)
  also have "\<dots> = Inl ValueError"
    by (simp add: canonical_actions_def actions_doc_def MAX_ACTIONS_PER_SCENE_def canonical_action_def
      is_legacy_groups_offset_target_def dget_or_def has_key_def Let_def scene_limits
      canonical_offset_group_action_def legacy_container_target_def canonical_offset_group_container_target_def
      canonical_target_def migrate_legacy_target_def canonical_offset_block_def)
  finally show ?thesis .
qed

text \<open>
  Explicit offsets that name a group twice pass the validator, and a scene with them can make the
  renumbering of the whole store fail: it raises, and no scene is renumbered although the group is gone.
\<close>

lemma renumber_can_fail:
  "\<exists>s s'. scene_reach s \<and> st_disk_ok s \<and> renumber_group_references 9 s = (Inl ValueError, s') \<and> st_file s' = st_file s"
proof -
  let ?a = "OffsetGroup (Groups [1, 2]) (offset_dict (OExplicit [(1, 0), (1, 5)])) []"
  have "\<exists>ob. offset_dict (OExplicit [(1, 0), (1, 5)]) = offset_dict ob \<and> offset_group_ok (Groups [1, 2]) ob"
    by (intro exI [of _ "OExplicit [(1, 0), (1, 5)]"]) (simp add: offset_group_ok_def)
  then have ok: "actions_ok [?a]" by (simp add: actions_ok_def del: offset_dict.simps)
  have h: "harmless None (actions_doc [?a])" by (intro harmless_none actions_doc_plain [OF ok]) simp
  have r: "represents scene_kind scene_ok empty_store [] 0"
    by (simp add: represents_def file_holds_def store_ok_def)
  have l: "strip ''Wave'' \<noteq> []" by code_simp
  obtain sc where c: "scene_create None (Some ''Wave'') (actions_doc [?a]) None PNone empty_store =
      (if st_disk_ok empty_store then (Inr sc, scenes.committed empty_store ([] @ [sc]) (0 + 1))
       else (Inl OSError, empty_store\<lparr>st_cache := Some ([] @ [sc]), st_next_id := Some (0 + 1)\<rparr>))"
    and so: "store_ok scene_kind scene_ok ([] @ [sc]) (0 + 1)"
    and a: "sc_actions sc = apply_broadcast_collapse None [?a]"
    by (rule scene_create_run [OF r _ l canonical_actions_doc [OF ok] h, of None PNone]) (simp_all del: offset_dict.simps)
  let ?s = "scenes.committed empty_store ([] @ [sc]) (0 + 1)"
  have "run_call None (CallCreate (Some ''Wave'') (actions_doc [?a]) None PNone) empty_store = ?s"
    using c by simp
  moreover have "scene_reach (run_call None (CallCreate (Some ''Wave'') (actions_doc [?a]) None PNone) empty_store)"
    by (rule scene_reach.call [OF empty_reach(1)]) (use h in simp)
  ultimately have reach: "scene_reach ?s" by simp
  have sa: "sc_actions sc = [?a]" using a by (simp add: apply_broadcast_collapse_def)
  have "renumber_scenes 9 now ([] @ [sc]) = Inl ValueError" for now
    unfolding append_Nil renumber_scenes.simps sa duplicate_ids_refused by simp
  then have "renumber_group_references 9 ?s = (Inl ValueError, ?s\<lparr>st_cache := Some ([] @ [sc]), st_next_id := Some (0 + 1)\<rparr>)"
    using scenes.items_run [OF scenes.represents_committed [OF so]]
    by (simp add: renumber_group_references_def pbind_def)
  with reach show ?thesis
    by (intro exI [of _ ?s] exI [of _ "?s\<lparr>st_cache := Some ([] @ [sc]), st_next_id := Some (0 + 1)\<rparr>"] conjI)
      (simp_all add: scenes.committed_def)
qed

section \<open>Any file\<close>

text \<open>
  Whatever a scene file contains, hand-edited or damaged, if listing it succeeds the scenes shown
  have pairwise different ids, all below the counter for the next scene, and canonical actions.
\<close>

theorem any_file_lists_unique_ids:
  assumes "scene_list s = (Inr xs, s')" and "st_cache s = None"
  shows "distinct (map sc_id xs) \<and> (\<forall>sc \<in> set xs. actions_ok (sc_actions sc)) \<and>
     (\<exists>n. st_next_id s' = Some n \<and> (\<forall>sc \<in> set xs. sc_id sc < n))"
proof (cases "st_file s")
  case (Document data)
  have id: "\<And>now i key label e x. sk_entry scene_kind now i key label e = Inr x \<Longrightarrow> sk_id scene_kind x = i"
    by (auto simp: scene_entry_def elim!: rbind_InrE)
  obtain n old where l: "load_document scene_kind (st_now s) data = Inr (xs, n, old)" and n: "st_next_id s' = Some n"
    using assms Document by (auto simp: scene_list_def store_items_def store_load_def pbind_def Let_def
        split: sum.split_asm prod.split_asm)
  have "actions_ok (sc_actions sc)" if "sc \<in> set xs" for sc
  proof -
    have "xs \<noteq> []" using that by auto
    then obtain raw used where e: "load_entries scene_kind (st_now s) 0 [] raw = Inr (xs, used)"
      using l by (auto simp: load_document_def elim!: rbind_InrE split: pyval.split_asm)
    from load_entries_mem [OF e that] obtain entry where
      "catch_value_error (canonical_actions (dget entry ''actions'')) [] = Inr (sc_actions sc)"
      by (auto simp: scene_entry_def elim!: rbind_InrE)
    then show ?thesis using canonical_actions_result_ok [of "dget entry ''actions''" "sc_actions sc"]
      by (auto simp: catch_value_error_def actions_ok_def split: if_split_asm)
  qed
  with load_document_ids [OF id l] n show ?thesis by auto
qed (use assms in \<open>auto simp: scene_list_def store_items_def store_load_def pbind_def\<close>)

theorem any_file_lists_unique_ids_witness:
  "\<exists>xs s'. scene_list (empty_store\<lparr>st_file := Unreadable\<rparr>) = (Inr xs, s') \<and> distinct (map sc_id xs)"
proof -
  have "scene_list (empty_store\<lparr>st_file := Unreadable\<rparr>) =
      (Inr [], empty_store\<lparr>st_file := Unreadable, st_cache := Some [], st_next_id := Some 0\<rparr>)"
    by (simp add: scene_list_def store_items_def store_load_def pbind_def)
  from any_file_lists_unique_ids [OF this] this show ?thesis by auto
qed

end
