(* ===== verification/Web_Devices.thy ===== *)
theory Web_Devices
  imports Nodes State_File Scene_Store
begin

text \<open>
  The operations on devices and groups of \<^verbatim>\<open>racelink/web/api.py\<close> with the request helpers of
  \<^verbatim>\<open>racelink/web/request_helpers.py\<close> and the validation of
  \<^verbatim>\<open>racelink/services/specials_service.py\<close>.  A route works on the controller, the scene store and
  the lists of saves and refresh messages it causes; its answer is a body or a refusal with a status code.
\<close>

section \<open>Request helpers\<close>

definition in_bounds :: "int option \<Rightarrow> int option \<Rightarrow> int \<Rightarrow> bool" where
  "in_bounds lo hi v \<longleftrightarrow> (case lo of None \<Rightarrow> True | Some m \<Rightarrow> m \<le> v) \<and> (case hi of None \<Rightarrow> True | Some m \<Rightarrow> v \<le> m)"

text \<open>A \<open>RequestParseError\<close> is a \<open>ValueError\<close>; an \<open>OverflowError\<close> of the conversion escapes.\<close>

definition require_int :: "pyval \<Rightarrow> string \<Rightarrow> int option \<Rightarrow> int option \<Rightarrow> int res" where
  "require_int body key lo hi =
     (case body of
        PDict d \<Rightarrow>
          (case map_of d key of
             None \<Rightarrow> Inl ValueError
           | Some raw \<Rightarrow>
               if raw = PNone then Inl ValueError
               else rbind (int_or_value_error raw) (\<lambda>v. if in_bounds lo hi v then Inr v else Inl ValueError))
      | _ \<Rightarrow> Inl ValueError)"

definition optional_int :: "pyval \<Rightarrow> string \<Rightarrow> int option \<Rightarrow> int option \<Rightarrow> int option \<Rightarrow> int option res" where
  "optional_int body key dflt lo hi =
     (case body of
        PDict d \<Rightarrow>
          (case map_of d key of
             None \<Rightarrow> Inr dflt
           | Some raw \<Rightarrow>
               if raw = PNone then Inr dflt
               else rbind (int_or_value_error raw) (\<lambda>v. if in_bounds lo hi v then Inr (Some v) else Inl ValueError))
      | _ \<Rightarrow> Inr dflt)"

definition is_hex_char :: "char \<Rightarrow> bool" where
  "is_hex_char c = (hex_val c \<noteq> None)"

definition parse_recv3_from_addr :: "string option \<Rightarrow> byte list option" where
  "parse_recv3_from_addr addr_str =
     (case addr_str of
        None \<Rightarrow> None
      | Some s \<Rightarrow>
          let value = filter is_hex_char s in
          if length value < 6 then None
          else case fromhex (last_n 6 value) of Inl e \<Rightarrow> None | Inr bs \<Rightarrow> Some bs)"

section \<open>Routes\<close>

record site =
  si_ctl :: ctl
  si_scenes :: scene_store
  si_saves :: "string set list"
  si_refreshes :: "string list list"

datatype 'a response = Answer 'a | Refused nat

definition on_ctl :: "(ctl \<Rightarrow> ctl) \<Rightarrow> site \<Rightarrow> site" where
  "on_ctl f si = si\<lparr>si_ctl := f (si_ctl si)\<rparr>"

definition sse_refresh :: "string list \<Rightarrow> site \<Rightarrow> site" where
  "sse_refresh scopes si =
     (let what = sse_what_from_scopes (Some scopes) in
      if what = [] then si else si\<lparr>si_refreshes := si_refreshes si @ [what]\<rparr>)"

definition save_quietly :: "string list \<Rightarrow> site \<Rightarrow> site" where
  "save_quietly scopes si = si\<lparr>si_saves := si_saves si @ [normalize_scopes (Some scopes)]\<rparr>"

section \<open>Renaming and regrouping devices\<close>

record counts =
  co_changed :: nat
  co_skipped_offline :: nat
  co_timed_out :: nat

definition no_counts :: counts where
  "no_counts = \<lparr>co_changed = 0, co_skipped_offline = 0, co_timed_out = 0\<rparr>"

definition was_online :: "nat \<Rightarrow> ctl \<Rightarrow> bool" where
  "was_online i s = (d_link_online (ct_devices s ! i) = Some True)"

text \<open>\<open>setNodeGroupId\<close> inside \<open>try\<close>.\<close>

definition push_group :: "nat \<Rightarrow> counts \<Rightarrow> ctl \<Rightarrow> counts \<times> ctl" where
  "push_group i n s =
     (case set_node_group_id i True s of
        (Inr True, s') \<Rightarrow> (n\<lparr>co_changed := Suc (co_changed n)\<rparr>, s')
      | (_, s') \<Rightarrow> (n\<lparr>co_timed_out := Suc (co_timed_out n)\<rparr>, s'))"

definition meta_one :: "int option \<Rightarrow> string option \<Rightarrow> string \<Rightarrow> counts \<Rightarrow> ctl \<Rightarrow> counts \<times> ctl" where
  "meta_one new_group new_name mac n s =
     (case device_at mac s of
        None \<Rightarrow> (n, s)
      | Some i \<Rightarrow>
          let (n, s) = (case new_name of None \<Rightarrow> (n, s)
                        | Some name \<Rightarrow> (n\<lparr>co_changed := Suc (co_changed n)\<rparr>, upd_device i (\<lambda>d. d\<lparr>d_name := name\<rparr>) s))
          in case new_group of
               None \<Rightarrow> (n, s)
             | Some g \<Rightarrow>
                 let s = upd_device i (\<lambda>d. d\<lparr>d_groupId := g\<rparr>) s in
                 if \<not> was_online i s then (n\<lparr>co_skipped_offline := Suc (co_skipped_offline n)\<rparr>, s) else push_group i n s)"

fun meta_loop :: "int option \<Rightarrow> string option \<Rightarrow> string list \<Rightarrow> counts \<Rightarrow> ctl \<Rightarrow> counts \<times> ctl" where
  "meta_loop new_group new_name [] n s = (n, s)"
| "meta_loop new_group new_name (mac # macs) n s =
     (let (n, s) = meta_one new_group new_name mac n s in meta_loop new_group new_name macs n s)"

text \<open>A name is applied to a single device only.\<close>

definition apply_device_meta_updates :: "int option \<Rightarrow> string option \<Rightarrow> string list \<Rightarrow> ctl \<Rightarrow> counts \<times> ctl" where
  "apply_device_meta_updates new_group new_name macs s =
     meta_loop new_group (case new_name of Some name \<Rightarrow> if name \<noteq> [] \<and> length macs = 1 then Some name else None | None \<Rightarrow> None)
       macs no_counts s"

fun force_devices :: "bool \<Rightarrow> bool \<Rightarrow> nat \<Rightarrow> nat list \<Rightarrow> counts \<Rightarrow> ctl \<Rightarrow> counts \<times> ctl" where
  "force_devices sanity_check skip_offline num_groups [] n s = (n, s)"
| "force_devices sanity_check skip_offline num_groups (i # rest) n s =
     (let s = in_known_group sanity_check num_groups i s;
          (n, s) = (if skip_offline \<and> \<not> was_online i s then (n\<lparr>co_skipped_offline := Suc (co_skipped_offline n)\<rparr>, s)
                    else push_group i n s)
      in force_devices sanity_check skip_offline num_groups rest n s)"

definition iterate_force_groups :: "bool \<Rightarrow> bool \<Rightarrow> ctl \<Rightarrow> counts \<times> ctl" where
  "iterate_force_groups sanity_check skip_offline s =
     force_devices sanity_check skip_offline (length (ct_groups s)) [0 ..< length (ct_devices s)] no_counts s"

text \<open>The background job of a regrouping request.\<close>

definition bulk_set_group :: "int \<Rightarrow> string option \<Rightarrow> string list \<Rightarrow> site \<Rightarrow> counts \<times> site" where
  "bulk_set_group new_group new_name macs si =
     (let (n, s) = apply_device_meta_updates (Some new_group) new_name macs (si_ctl si);
          scopes = ''device_membership'' # (case new_name of None \<Rightarrow> [] | Some name \<Rightarrow> [''devices''])
      in (n, sse_refresh scopes (save_quietly scopes (si\<lparr>si_ctl := s\<rparr>))))"

section \<open>Groups\<close>

definition groups_create :: "string \<Rightarrow> int \<Rightarrow> site \<Rightarrow> nat response \<times> site" where
  "groups_create name dev_type si =
     (let name = strip name in
      if name = [] then (Refused 400, si)
      else
        let gid = length (ct_groups (si_ctl si));
            si = on_ctl (\<lambda>s. s\<lparr>ct_groups := ct_groups s @ [\<lparr>g_name = name, g_static_group = 0, g_dev_type = dev_type\<rparr>]\<rparr>) si
        in (Answer gid, sse_refresh [''groups''] (save_quietly [''groups''] si)))"

definition group_id_of :: "pyval \<Rightarrow> site \<Rightarrow> nat response" where
  "group_id_of body si =
     (case require_int body ''id'' None None of
        Inl e \<Rightarrow> if e = ValueError then Refused 400 else Refused 500
      | Inr gid \<Rightarrow>
          if gid < 0 \<or> int (length (ct_groups (si_ctl si))) \<le> gid then Refused 400
          else if g_static_group (ct_groups (si_ctl si) ! nat gid) \<noteq> 0 then Refused 400
          else Answer (nat gid))"

definition groups_rename :: "pyval \<Rightarrow> string \<Rightarrow> site \<Rightarrow> unit response \<times> site" where
  "groups_rename body name si =
     (case group_id_of body si of
        Refused code \<Rightarrow> (Refused code, si)
      | Answer gid \<Rightarrow>
          let name = strip name;
              si = on_ctl (\<lambda>s. s\<lparr>ct_groups := (ct_groups s)[gid := (ct_groups s ! gid)\<lparr>g_name :=
                     (if name \<noteq> [] then name else g_name (ct_groups s ! gid))\<rparr>]\<rparr>) si
          in (Answer (), sse_refresh [''groups''] (save_quietly [''groups''] si)))"

definition moved_group :: "int \<Rightarrow> int \<Rightarrow> int" where
  "moved_group gid cur = (if cur = gid then 0 else if gid < cur then cur - 1 else cur)"

definition delete_nth :: "nat \<Rightarrow> 'a list \<Rightarrow> 'a list" where
  "delete_nth i xs = take i xs @ drop (Suc i) xs"

record deletion =
  dl_moved_devices :: nat
  dl_renumbered_devices :: nat
  dl_renumbered_scenes :: nat

definition groups_delete :: "pyval \<Rightarrow> site \<Rightarrow> deletion response \<times> site" where
  "groups_delete body si =
     (case group_id_of body si of
        Refused code \<Rightarrow> (Refused code, si)
      | Answer gid \<Rightarrow>
          let cur = map d_groupId (ct_devices (si_ctl si));
              si = on_ctl (\<lambda>s. s\<lparr>ct_devices := map (\<lambda>d. d\<lparr>d_groupId := moved_group (int gid) (d_groupId d)\<rparr>) (ct_devices s)\<rparr>) si;
              (renumbered, scenes) = renumber_group_references (int gid) (si_scenes si);
              scenes_changed = (case renumbered of Inl e \<Rightarrow> 0 | Inr n \<Rightarrow> n);
              si = on_ctl (\<lambda>s. s\<lparr>ct_groups := delete_nth gid (ct_groups s)\<rparr>) (si\<lparr>si_scenes := scenes\<rparr>);
              si = save_quietly [''groups''] si;
              si = sse_refresh ([''groups'', ''device_membership''] @ (if scenes_changed \<noteq> 0 then [''scenes''] else [])) si
          in (Answer \<lparr>dl_moved_devices = length (filter (\<lambda>c. c = int gid) cur),
                      dl_renumbered_devices = length (filter (\<lambda>c. int gid < c) cur),
                      dl_renumbered_scenes = scenes_changed\<rparr>, si))"

section \<open>Discovery\<close>

definition prepare_discover_target :: "pyval \<Rightarrow> string \<Rightarrow> site \<Rightarrow> (pyval \<times> nat option) \<times> site" where
  "prepare_discover_target target_gid new_group_name si =
     (if new_group_name = [] then ((target_gid, None), si)
      else
        let gid = length (ct_groups (si_ctl si));
            si = on_ctl (\<lambda>s. s\<lparr>ct_groups := ct_groups s @ [\<lparr>g_name = new_group_name, g_static_group = 0, g_dev_type = 0\<rparr>]\<rparr>) si
        in ((if target_gid = PNone then PInt (int gid) else target_gid, Some gid), si))"

text \<open>\<open>getattr(g, "groupId", getattr(g, "id", -1))\<close>: a group has neither attribute.\<close>

definition group_attribute_id :: "rl_group \<Rightarrow> int" where
  "group_attribute_id g = - 1"

definition sweep_ids :: "rl_group list \<Rightarrow> int list" where
  "sweep_ids groups = sort (remdups (filter (\<lambda>i. 0 \<le> i \<and> i \<le> 254) (map group_attribute_id groups)))"

definition discovery_sweep :: "(pyval \<Rightarrow> string) \<Rightarrow> pyval \<Rightarrow> bool" where
  "discovery_sweep rp raw = (raw \<noteq> PNone \<and> lower (py_str rp raw) = ''all'')"

text \<open>An \<open>OverflowError\<close> of the conversion escapes the route.\<close>

definition discovery_filter :: "pyval \<Rightarrow> int res" where
  "discovery_filter raw =
     (if raw = PNone \<or> raw = PStr [] then Inr 0
      else case py_int raw of
        Inr v \<Rightarrow> Inr (if 0 \<le> v \<and> v \<le> 254 then v else 0)
      | Inl e \<Rightarrow> if e = TypeError \<or> e = ValueError then Inr 0 else Inl e)"

definition add_to_group :: "pyval \<Rightarrow> int res" where
  "add_to_group target_gid =
     (if target_gid = PNone \<or> py_eq_int target_gid 0 \<or> target_gid = PStr ''0'' then Inr (- 1) else py_int target_gid)"

text \<open>The background job: the number of devices found.\<close>

definition do_discover :: "(pyval \<Rightarrow> string) \<Rightarrow> (string list \<Rightarrow> string list) \<Rightarrow> pyval \<Rightarrow> pyval \<Rightarrow> (ctl, nat) proc" where
  "do_discover rp order raw_dgroup target_gid s =
     (let sweep = discovery_sweep rp raw_dgroup;
          ids = (if sweep then sweep_ids (ct_groups s) else [])
      in pbind (plift (if sweep then Inr 0 else discovery_filter raw_dgroup)) (\<lambda>group_filter.
         pbind (plift (add_to_group target_gid)) (\<lambda>add.
           if sweep \<and> ids \<noteq> []
           then pbind (discover_devices_in_groups order (map PInt ids) add) (\<lambda>(found, responders, assigned). pret found)
           else pbind (discover_devices order group_filter None add) (\<lambda>(found, responders, assigned). pret found))) s)"

section \<open>Special options\<close>

definition resolve_option :: "rl_device \<Rightarrow> string \<Rightarrow> opt_spec option" where
  "resolve_option dev key =
     find_where (\<lambda>opt. os_key opt = key) (concat (map specials_options (dt_caps (get_dev_type_info (Some (d_dev_type dev))))))"

definition validate_option_value :: "opt_spec \<Rightarrow> int \<Rightarrow> bool" where
  "validate_option_value opt v \<longleftrightarrow> os_min opt \<le> v \<and> v \<le> os_max opt"

record special_request =
  sr_mac :: string
  sr_key :: string
  sr_recv3 :: "byte list"
  sr_option :: int
  sr_value :: int

definition resolve_special_config_request ::
  "string \<Rightarrow> string \<Rightarrow> pyval \<Rightarrow> ctl \<Rightarrow> special_request response" where
  "resolve_special_config_request mac key value s =
     (if mac = [] \<or> key = [] then Refused 400
      else case parse_recv3_from_addr (Some mac) of
        None \<Rightarrow> Refused 400
      | Some recv3 \<Rightarrow>
          if recv3 = [] \<or> recv3 = BROADCAST3 then Refused 400
          else case py_int value of
            Inl e \<Rightarrow> if e = TypeError \<or> e = ValueError then Refused 400 else Refused 500
          | Inr value_int \<Rightarrow>
              (case device_at (upper mac) s of
                 None \<Rightarrow> Refused 404
               | Some i \<Rightarrow>
                   (case resolve_option (ct_devices s ! i) key of
                      None \<Rightarrow> Refused 400
                    | Some opt \<Rightarrow>
                        if validate_option_value opt value_int
                        then Answer \<lparr>sr_mac = upper mac, sr_key = key, sr_recv3 = recv3, sr_option = os_option opt, sr_value = value_int\<rparr>
                        else Refused 400)))"

text \<open>The background job; a missing acknowledgement and a vanished device raise.\<close>

definition do_special_config :: "special_request \<Rightarrow> site \<Rightarrow> unit res \<times> site" where
  "do_special_config r si =
     (case send_config (sr_option r AND 255) (sr_value r) 0 0 0 (sr_recv3 r) True (Some 6) (si_ctl si) of
        (Inl e, s) \<Rightarrow> (Inl e, si\<lparr>si_ctl := s\<rparr>)
      | (Inr ok, s) \<Rightarrow>
          if ok \<noteq> Some True then (Inl RuntimeError, si\<lparr>si_ctl := s\<rparr>)
          else case device_at (sr_mac r) s of
            None \<Rightarrow> (Inl RuntimeError, si\<lparr>si_ctl := s\<rparr>)
          | Some i \<Rightarrow>
              (Inr (), sse_refresh [''device_specials''] (save_quietly [''device_specials'']
                 (si\<lparr>si_ctl := upd_device i (\<lambda>d. d\<lparr>d_specials := assoc_set (sr_key r) (sr_value r AND 255) (d_specials d)\<rparr>) s\<rparr>))))"

definition CONFIG_OPTIONS :: "int list" where "CONFIG_OPTIONS = [0x01, 0x03, 0x04, 0x80, 0x81]"

definition config_byte :: "pyval \<Rightarrow> int res" where
  "config_byte v = rbind (py_int v) (\<lambda>i. Inr (i AND 255))"

text \<open>The configuration route, with the addresses the body names.\<close>

definition api_config :: "string list \<Rightarrow> pydict \<Rightarrow> ctl \<Rightarrow> (int \<times> int) response \<times> ctl" where
  "api_config macs body s =
     (case macs of
        [mac] \<Rightarrow>
          (case parse_recv3_from_addr (Some mac) of
             None \<Rightarrow> (Refused 400, s)
           | Some recv3 \<Rightarrow>
               if recv3 = [] \<or> recv3 = BROADCAST3 then (Refused 400, s)
               else
                 (case rbind (config_byte (dget_or body ''option'' (PInt 0))) (\<lambda>opt.
                       rbind (config_byte (dget_or body ''data0'' (dget_or body ''flags'' (PInt 0)))) (\<lambda>data0.
                       rbind (config_byte (dget_or body ''data1'' (PInt 0))) (\<lambda>data1.
                       rbind (config_byte (dget_or body ''data2'' (PInt 0))) (\<lambda>data2.
                       rbind (config_byte (dget_or body ''data3'' (PInt 0))) (\<lambda>data3.
                         Inr (opt, data0, data1, data2, data3)))))) of
                    Inl e \<Rightarrow> (Refused (if e = TypeError \<or> e = ValueError then 400 else 500), s)
                  | Inr (opt, data0, data1, data2, data3) \<Rightarrow>
                      if opt \<notin> set CONFIG_OPTIONS then (Refused 400, s)
                      else case send_config opt data0 data1 data2 data3 recv3 False None s of
                        (Inl e, s') \<Rightarrow> (Refused 500, s')
                      | (Inr sent, s') \<Rightarrow> (Answer (opt, data0), s')))
      | _ \<Rightarrow> (Refused 400, s))"


section \<open>Deleting a group\<close>

lemma nth_delete: "j < length xs - 1 \<Longrightarrow> i < length xs \<Longrightarrow> delete_nth i xs ! j = (if j < i then xs ! j else xs ! Suc j)"
  by (auto simp: delete_nth_def nth_append min_def)

lemma length_delete: "i < length xs \<Longrightarrow> length (delete_nth i xs) = length xs - 1"
  by (simp add: delete_nth_def)

lemma group_id_answer: "group_id_of body si = Answer gid \<Longrightarrow>
    gid < length (ct_groups (si_ctl si)) \<and> g_static_group (ct_groups (si_ctl si) ! gid) = 0"
  by (auto simp: group_id_of_def split: sum.splits if_splits)

lemma refresh_fields [simp]: "si_ctl (sse_refresh sc si) = si_ctl si" "si_scenes (sse_refresh sc si) = si_scenes si"
  "si_saves (sse_refresh sc si) = si_saves si" "si_ctl (save_quietly sc si) = si_ctl si" "si_scenes (save_quietly sc si) = si_scenes si"
  "si_ctl (on_ctl f si) = f (si_ctl si)" "si_scenes (on_ctl f si) = si_scenes si" "si_saves (on_ctl f si) = si_saves si"
  by (simp_all add: sse_refresh_def save_quietly_def on_ctl_def Let_def)

lemma delete_effect:
  assumes "group_id_of body si = Answer gid"
  shows "ct_devices (si_ctl (snd (groups_delete body si))) =
      map (\<lambda>d. d\<lparr>d_groupId := moved_group (int gid) (d_groupId d)\<rparr>) (ct_devices (si_ctl si))"
    and "ct_groups (si_ctl (snd (groups_delete body si))) = delete_nth gid (ct_groups (si_ctl si))"
    and "si_scenes (snd (groups_delete body si)) = snd (renumber_group_references (int gid) (si_scenes si))"
    and "\<exists>a. fst (groups_delete body si) = Answer a \<and>
      dl_renumbered_scenes a = (case fst (renumber_group_references (int gid) (si_scenes si)) of Inl e \<Rightarrow> 0 | Inr n \<Rightarrow> n)"
  using assms by (simp_all add: groups_delete_def Let_def case_prod_unfold)


definition grp :: "string \<Rightarrow> int \<Rightarrow> rl_group" where
  "grp name static = \<lparr>g_name = name, g_static_group = static, g_dev_type = 0\<rparr>"

definition small_site :: "ctl \<Rightarrow> site" where
  "small_site s = \<lparr>si_ctl = s\<lparr>ct_groups := [grp ''All WLED Nodes'' 1, grp ''Pit'' 0, grp ''Gate'' 0]\<rparr>,
     si_scenes = empty_store, si_saves = [], si_refreshes = []\<rparr>"

definition in_group :: "int \<Rightarrow> bool option \<Rightarrow> string \<Rightarrow> rl_device" where
  "in_group g online addr = (default_device addr 10 ''n'')\<lparr>d_groupId := g, d_link_online := online\<rparr>"


text \<open>A refused deletion changes nothing.\<close>

lemma group_delete_refused: "fst (groups_delete body si) = Refused code \<Longrightarrow> snd (groups_delete body si) = si"
  by (auto simp: groups_delete_def Let_def case_prod_unfold split: response.splits)

section \<open>Regrouping\<close>

lemma index_where_map: "index_where (\<lambda>d. p (f d)) ds = index_where p (map f ds)"
  by (induction ds) simp_all

lemma same_addr_lookup:
  assumes "map d_addr ds = map d_addr ds'"
  shows "get_device_from_address ds a = get_device_from_address ds' a"
proof -
  have "index_where (addr_matches s) ds = index_where (addr_matches s) ds'" for s
    unfolding addr_matches_def [abs_def] index_where_map [of "\<lambda>x. upper x = s" d_addr] assms ..
  moreover have "index_where (addr_endswith s) ds = index_where (addr_endswith s) ds'" for s
    unfolding addr_endswith_def [abs_def] Let_def
      index_where_map [of "\<lambda>x. length s \<le> length (upper x) \<and> drop (length (upper x) - length s) (upper x) = s" d_addr] assms ..
  ultimately show ?thesis by (simp add: get_device_from_address_def get_by_addr_def Let_def)
qed

definition regroup :: "int \<Rightarrow> nat \<Rightarrow> ctl \<Rightarrow> ctl" where
  "regroup g i = upd_device i (\<lambda>d. d\<lparr>d_groupId := g\<rparr>)"

lemma update_nth: "j < length xs \<Longrightarrow> xs[i := x] ! j = (if i = j then x else xs ! j)"
  by (cases "i = j") simp_all

lemma regroup_devices: "ct_devices (regroup g i s) = (ct_devices s)[i := (ct_devices s ! i)\<lparr>d_groupId := g\<rparr>]"
  by (simp add: regroup_def upd_device_def)

lemma regroup_lookup [simp]: "device_at mac (regroup g i s) = device_at mac s"
  unfolding device_at_def
  by (rule same_addr_lookup) (rule nth_equalityI, auto simp: regroup_devices update_nth)

lemma regroup_online [simp]: "was_online j (regroup g i s) = was_online j s"
  by (cases "i < length (ct_devices s)"; cases "j = i") (auto simp: was_online_def regroup_devices list_update_beyond)

text \<open>The positions a list of addresses names.\<close>

definition named :: "string list \<Rightarrow> ctl \<Rightarrow> nat list" where
  "named macs s = List.map_filter (\<lambda>mac. device_at mac s) macs"

lemma named_simps [simp]: "named [] s = []" "named (mac # macs) s =
    (case device_at mac s of None \<Rightarrow> named macs s | Some i \<Rightarrow> i # named macs s)"
  by (simp_all add: named_def map_filter_simps split: option.split)

lemma named_regroup [simp]: "named macs (regroup g i s) = named macs s"
  by (induction macs) (simp_all split: option.split)

lemma meta_loop_offline:
  assumes "\<forall>i \<in> set (named macs s). \<not> was_online i s"
  shows "meta_loop (Some g) None macs n s =
    (n\<lparr>co_skipped_offline := co_skipped_offline n + length (named macs s)\<rparr>, fold (regroup g) (named macs s) s)"
  using assms
proof (induction macs arbitrary: n s)
  case (Cons mac macs)
  show ?case
  proof (cases "device_at mac s")
    case None
    with Cons show ?thesis by (simp add: meta_one_def)
  next
    case (Some i)
    have "meta_one (Some g) None mac n s = (n\<lparr>co_skipped_offline := Suc (co_skipped_offline n)\<rparr>, regroup g i s)"
      using Some Cons.prems by (simp add: meta_one_def Let_def regroup_def [symmetric])
    with Some Cons.IH [of "regroup g i s" "n\<lparr>co_skipped_offline := Suc (co_skipped_offline n)\<rparr>"] Cons.prems
    show ?thesis by simp
  qed
qed simp

lemma fold_regroup: "fold (regroup g) is s =
    s\<lparr>ct_devices := map (\<lambda>i. if i \<in> set is then (ct_devices s ! i)\<lparr>d_groupId := g\<rparr> else ct_devices s ! i) [0 ..< length (ct_devices s)]\<rparr>"
proof (induction "is" arbitrary: s)
  case Nil
  then show ?case by (simp add: map_nth)
next
  case (Cons i "is")
  show ?case
    by (simp add: Cons, rule ctl.equality) (auto simp: regroup_devices update_nth, simp_all add: regroup_def upd_device_def)
qed

text \<open>
  Regrouping offline devices is silent.  When every device named in a bulk request is offline or unknown, the
  request sends nothing and waits for nothing: the only change is the stored group of the named devices, and all of them are
  counted as skipped.
\<close>

theorem bulk_offline_silent:
  assumes "\<forall>i \<in> set (named macs s). \<not> was_online i s"
  shows "apply_device_meta_updates (Some g) None macs s =
    (no_counts\<lparr>co_skipped_offline := length (named macs s)\<rparr>,
     s\<lparr>ct_devices := map (\<lambda>i. if i \<in> set (named macs s) then (ct_devices s ! i)\<lparr>d_groupId := g\<rparr> else ct_devices s ! i)
       [0 ..< length (ct_devices s)]\<rparr>)"
  using meta_loop_offline [OF assms, of g no_counts]
  by (simp add: apply_device_meta_updates_def fold_regroup) (simp add: no_counts_def)

lemma bulk_offline_silent_witness:
  "let s = idle_ctl [in_group 1 None ''AABBCCDDEEFF'', in_group 2 (Some True) ''AABBCCDDEE00''] [];
       (n, s') = apply_device_meta_updates (Some 5) None [''aabbccddeeff'', ''112233445566''] s in
   co_skipped_offline n = 1 \<and> ct_sent s' = [] \<and> map d_groupId (ct_devices s') = [5, 2]"
proof -
  define s where "s = idle_ctl [in_group 1 None ''AABBCCDDEEFF'', in_group 2 (Some True) ''AABBCCDDEE00''] []"
  have n: "named [''aabbccddeeff'', ''112233445566''] s = [0]" unfolding s_def by code_simp
  have o: "\<forall>i \<in> set (named [''aabbccddeeff'', ''112233445566''] s). \<not> was_online i s"
    unfolding n by (simp add: s_def was_online_def idle_ctl_def in_group_def)
  show ?thesis
    unfolding s_def [symmetric] Let_def bulk_offline_silent [OF o] n
    by (simp add: no_counts_def) (simp add: s_def idle_ctl_def in_group_def upt_rec)
qed

lemma push_group_spent: "spent 3 s (snd (push_group i n s))"
proof -
  obtain r s' where r: "set_node_group_id i True s = (r, s')" by fastforce
  with costsD [OF node_group_costs r] show ?thesis
    by (auto simp: push_group_def split: sum.split bool.split)
qed

lemma meta_one_spent: "spent 3 s (snd (meta_one g name mac n s))"
proof -
  have p: "spent 3 s (snd (push_group i n' s'))" if "spent 0 s s'" for i n' s'
    using spent_trans [OF that push_group_spent, of i n'] by simp
  have z: "spent 3 s s'" if "spent 0 s s'" for s' using that by (rule spent_mono) simp
  have u: "spent 0 s (upd_device i f s)" "spent 0 s (upd_device i f (upd_device j f' s))" for i f j f'
    by (simp_all add: spent_keep spent_refl)
  show ?thesis
    by (auto simp: meta_one_def Let_def intro: p u z [OF u(1)] z [OF u(2)] z [OF spent_refl] split: option.split)
qed

lemma meta_loop_spent: "spent (3 * length macs) s (snd (meta_loop g name macs n s))"
proof (induction macs arbitrary: n s)
  case (Cons mac macs)
  obtain n' s' where m: "meta_one g name mac n s = (n', s')" by fastforce
  have "spent 3 s s'" using meta_one_spent [of s g name mac n] m by simp
  from spent_trans [OF this Cons.IH, of n'] show ?case by (simp add: m)
qed (simp add: spent_refl)

text \<open>
  A bulk regrouping ends with bounded traffic.  Whatever the devices answer and however many addresses are named, the
  job returns, has sent at most three packets per named address, and devices and pending events together have not grown.
\<close>

theorem bulk_set_group_bounded:
  "let s' = snd (apply_device_meta_updates g name macs s) in
   ct_sends s' \<le> ct_sends s + 3 * length macs \<and>
   length (ct_devices s') + length (ct_incoming s') \<le> length (ct_devices s) + length (ct_incoming s)"
  using meta_loop_spent [of macs s] by (simp add: apply_device_meta_updates_def spent_def Let_def)

section \<open>Discovery in all groups\<close>

text \<open>
  Discovering in all groups only asks the unconfigured devices.  The route takes the group numbers from attributes a
  group does not have, finds none, and falls back to the default filter: the job for \<open>all\<close> is the job for group 0.
\<close>

theorem discover_all_is_unconfigured:
  "do_discover rp order (PStr ''all'') target_gid s = do_discover rp order (PInt 0) target_gid s"
proof -
  have "sweep_ids groups = []" for groups by (induction groups) (simp_all add: sweep_ids_def group_attribute_id_def)
  moreover have "discovery_sweep rp (PStr ''all'')"
    by (simp add: discovery_sweep_def lower_char_def)
  moreover have "\<not> discovery_sweep rp (PInt 0)"
  proof -
    have "lower (str_int 0) \<noteq> ''all''" by code_simp
    then show ?thesis by (simp add: discovery_sweep_def)
  qed
  ultimately show ?thesis by (simp add: do_discover_def Let_def discovery_filter_def)
qed

section \<open>Special options\<close>

text \<open>
  Only valid special options reach a device.  An accepted request names a known device by an address that is not the
  broadcast, an option of that device's type with its option number, and a value within the option's bounds, which fits a byte.
\<close>

theorem special_request_valid:
  assumes "resolve_special_config_request mac key value s = Answer r"
  shows "\<exists>i opt. device_at (upper mac) s = Some i \<and> resolve_option (ct_devices s ! i) key = Some opt \<and>
    d_dev_type (ct_devices s ! i) = 50 \<and> sr_key r = key \<and> key \<in> {''startblock_slots'', ''startblock_first_slot''} \<and>
    sr_option r \<in> {0x8C, 0x8D} \<and> py_int value = Inr (sr_value r) \<and> 1 \<le> sr_value r \<and> sr_value r \<le> 8 \<and>
    length (sr_recv3 r) = 3 \<and> sr_recv3 r \<noteq> BROADCAST3"
proof -
  have caps: "dt_caps (get_dev_type_info t) = (if t = Some 50 then [''STARTBLOCK'', ''WLED'']
       else if t \<in> {Some 10, Some 11, Some 12, Some 13} then [''WLED''] else [])" for t
    by (auto simp: get_dev_type_info_def RL_DEV_TYPE_INFO_def Let_def split: option.splits)
  have opt: "d_dev_type d = 50 \<and> key \<in> {''startblock_slots'', ''startblock_first_slot''} \<and> os_option opt \<in> {0x8C, 0x8D} \<and>
      os_min opt = 1 \<and> os_max opt = 8" if "resolve_option d key = Some opt" for d opt
    using that by (auto simp: resolve_option_def caps specials_options_def split: if_splits)
  have hex: "fromhex xs = Inr bs \<Longrightarrow> \<forall>c \<in> set xs. is_hex_char c \<Longrightarrow> length xs = 2 * length bs" for xs bs
    by (induction xs arbitrary: bs rule: fromhex.induct)
       (auto simp: rbind_eq_Inr is_hex_char_def ascii_space_def hex_val_def Let_def split: if_splits list.splits option.splits)
  have recv: "length bs = 3" if "parse_recv3_from_addr (Some mac) = Some bs" for bs
  proof -
    let ?v = "filter is_hex_char mac"
    have "fromhex (last_n 6 ?v) = Inr bs" "6 \<le> length ?v"
      using that by (auto simp: parse_recv3_from_addr_def Let_def split: if_splits sum.splits)
    moreover have "\<forall>c \<in> set (last_n 6 ?v). is_hex_char c" by (auto simp: last_n_def dest: in_set_dropD)
    ultimately have "length (last_n 6 ?v) = 2 * length bs" using hex by blast
    with \<open>6 \<le> length ?v\<close> show ?thesis by (simp add: last_n_def)
  qed
  obtain recv3 v i op where "parse_recv3_from_addr (Some mac) = Some recv3" "recv3 \<noteq> BROADCAST3" "py_int value = Inr v"
    "device_at (upper mac) s = Some i" "resolve_option (ct_devices s ! i) key = Some op" "validate_option_value op v"
    "r = \<lparr>sr_mac = upper mac, sr_key = key, sr_recv3 = recv3, sr_option = os_option op, sr_value = v\<rparr>"
    using assms by (auto simp: resolve_special_config_request_def split: if_splits option.splits sum.splits)
  with opt [of "ct_devices s ! i" op] recv [of recv3] show ?thesis by (auto simp: validate_option_value_def)
qed

definition special_target :: ctl where
  "special_target = idle_ctl [(default_device ''AABBCCDDEEFF'' 50 ''start'')\<lparr>d_caps := 50\<rparr>] []"

lemma special_request_valid_witness:
  "\<exists>i opt. device_at ''AABBCCDDEEFF'' special_target = Some i \<and>
     resolve_option (ct_devices special_target ! i) ''startblock_slots'' = Some opt"
proof -
  have e: "resolve_special_config_request ''AABBCCDDEEFF'' ''startblock_slots'' (PInt 4) special_target =
      Answer \<lparr>sr_mac = ''AABBCCDDEEFF'', sr_key = ''startblock_slots'', sr_recv3 = [0xDD, 0xEE, 0xFF], sr_option = 0x8C, sr_value = 4\<rparr>"
    by code_simp
  have u: "upper ''AABBCCDDEEFF'' = ''AABBCCDDEEFF''" by code_simp
  from special_request_valid [OF e] show ?thesis unfolding u by blast
qed

section \<open>A deletion the scenes do not follow\<close>

text \<open>
  A deletion can succeed without the scenes.  There is a scene store that ordinary calls reach, on a working disk, with
  which the deletion of group 9 is answered as a success with no renumbered scene: the group is gone and the devices are
  renumbered, but the renumbering of the scenes raised and the scene file still holds the old numbers.
\<close>

theorem group_delete_leaves_scenes:
  "\<exists>si a. scene_reach (si_scenes si) \<and> st_disk_ok (si_scenes si) \<and>
    fst (groups_delete (PDict [(''id'', PInt 9)]) si) = Answer a \<and> dl_renumbered_scenes a = 0 \<and>
    fst (renumber_group_references 9 (si_scenes si)) = Inl ValueError \<and>
    length (ct_groups (si_ctl (snd (groups_delete (PDict [(''id'', PInt 9)]) si)))) = length (ct_groups (si_ctl si)) - 1 \<and>
    st_file (si_scenes (snd (groups_delete (PDict [(''id'', PInt 9)]) si))) = st_file (si_scenes si)"
proof -
  obtain st st' where st: "scene_reach st" "st_disk_ok st" "renumber_group_references 9 st = (Inl ValueError, st')" "st_file st' = st_file st"
    using renumber_can_fail by blast
  define si where "si = \<lparr>si_ctl = (idle_ctl [] [])\<lparr>ct_groups := replicate 10 (grp ''Pit'' 0)\<rparr>, si_scenes = st, si_saves = [], si_refreshes = []\<rparr>"
  have g: "group_id_of (PDict [(''id'', PInt 9)]) si = Answer 9"
    by (simp add: si_def group_id_of_def require_int_def in_bounds_def grp_def)
  obtain a where a: "fst (groups_delete (PDict [(''id'', PInt 9)]) si) = Answer a"
    "dl_renumbered_scenes a = (case fst (renumber_group_references 9 (si_scenes si)) of Inl e \<Rightarrow> 0 | Inr n \<Rightarrow> n)"
    using delete_effect(4) [OF g] by auto
  have l: "length (delete_nth 9 (ct_groups (si_ctl si))) = length (ct_groups (si_ctl si)) - 1"
    by (rule length_delete) (simp add: si_def)
  show ?thesis
    using st a delete_effect(2,3) [OF g] l by (intro exI [of _ si] exI [of _ a]) (simp add: si_def)
qed

end
