(* ===== verification/Web_Tasks.thy ===== *)
theory Web_Tasks
  imports Web_Live Web_Devices
begin

text \<open>
  The routes of \<^verbatim>\<open>racelink/web/api.py\<close> that change devices and groups, with the threads of the tasks they
  start, on the whole of the host: the link, the task manager and the browsers of \<open>Web_Live\<close>, the
  controller and the stores of \<open>Web_Devices\<close>.  A thread is a job; it may run any time after its request was
  answered, and other requests may come between.
\<close>

section \<open>The state\<close>

text \<open>What the thread of a task will do, with the arguments its closure has kept.\<close>

datatype thread_job =
    Discover pyval pyval "nat option"
  | Status pyval pyval
  | MoveDevices int "string option" "string list"
  | ForceGroups bool
  | SpecialConfig special_request

fun job_name :: "thread_job \<Rightarrow> string" where
  "job_name (Discover dgroup target created) = ''discover''"
| "job_name (Status selection group_id) = ''status''"
| "job_name (MoveDevices gid name macs) = ''bulk_set_group''"
| "job_name (ForceGroups skip) = ''force_groups''"
| "job_name (SpecialConfig r) = ''special_config''"

record station =
  sn_live :: live
  sn_scenes :: scene_store
  sn_saves :: "string set list"
  sn_threads :: "(nat \<times> thread_job) list"

definition is_discovery_active :: "web \<Rightarrow> bool" where
  "is_discovery_active w = (case wb_task w of None \<Rightarrow> False | Some t \<Rightarrow> tk_state t = Running \<and> tk_name t = ''discover'')"

definition on_web :: "(web \<Rightarrow> web) \<Rightarrow> station \<Rightarrow> station" where
  "on_web f sn = sn\<lparr>sn_live := (sn_live sn)\<lparr>lv_web := f (lv_web (sn_live sn))\<rparr>\<rparr>"

definition ctl_of :: "station \<Rightarrow> ctl" where
  "ctl_of sn = (cn_ctl (lv_conn (sn_live sn)))\<lparr>ct_discovery := is_discovery_active (lv_web (sn_live sn))\<rparr>"

text \<open>Everything that happens to the link, with the controller knowing whether a discovery is active.\<close>

definition link_step :: "conn_op \<Rightarrow> station \<Rightarrow> station" where
  "link_step op sn =
     sn\<lparr>sn_live := live_step (Link op) ((sn_live sn)\<lparr>lv_conn := (lv_conn (sn_live sn))\<lparr>cn_ctl := ctl_of sn\<rparr>\<rparr>)\<rparr>"

definition clock :: "station \<Rightarrow> rat" where
  "clock sn = ct_now (cn_ctl (lv_conn (sn_live sn)))"

text \<open>An operation on the controller and the stores; its refresh messages go to the browsers.\<close>

definition on_site :: "(site \<Rightarrow> 'a \<times> site) \<Rightarrow> station \<Rightarrow> 'a \<times> station" where
  "on_site f sn =
     (case f \<lparr>si_ctl = ctl_of sn, si_scenes = sn_scenes sn, si_saves = sn_saves sn, si_refreshes = []\<rparr> of
        (r, si) \<Rightarrow>
          (r, on_web (fold (\<lambda>what. broadcast (MsgRefresh what)) (si_refreshes si))
                (sn\<lparr>sn_live := (sn_live sn)\<lparr>lv_conn := (lv_conn (sn_live sn))\<lparr>cn_ctl := si_ctl si\<rparr>\<rparr>,
                    sn_scenes := si_scenes si, sn_saves := si_saves si\<rparr>)))"

definition is_busy :: "station \<Rightarrow> bool" where
  "is_busy sn = task_is_running (lv_web (sn_live sn))"

definition hooked :: "station \<Rightarrow> station" where
  "hooked sn = sn\<lparr>sn_live := ensure_transport_hooked (sn_live sn)\<rparr>"

text \<open>An answer carries the number of the task that was started, or nothing; messages that use signs beyond Latin-1 are left out of the task.\<close>

definition start_job :: "thread_job \<Rightarrow> pydict \<Rightarrow> station \<Rightarrow> nat option response \<times> station" where
  "start_job j meta sn =
     (case task_start (job_name j) meta (clock sn) (lv_web (sn_live sn)) of
        (None, w) \<Rightarrow> (Refused 409, on_web (\<lambda>_. w) sn)
      | (Some n, w) \<Rightarrow> (Answer (Some n), on_web (\<lambda>_. w) (sn\<lparr>sn_threads := sn_threads sn @ [(n, j)]\<rparr>)))"

definition body_dict :: "pyval \<Rightarrow> pydict option" where
  "body_dict json = (case py_or json (PDict []) of PDict body \<Rightarrow> Some body | _ \<Rightarrow> None)"

text \<open>The addresses of a body, as \<open>for mac in macs\<close> and \<open>len(macs)\<close> see them.\<close>

definition addresses :: "(pyval \<Rightarrow> string) \<Rightarrow> pyval \<Rightarrow> string list res" where
  "addresses rp v = rbind (py_iter v) (\<lambda>xs. Inr (map (py_str rp) xs))"

section \<open>The routes\<close>

definition opt_nat :: "nat option \<Rightarrow> pyval" where
  "opt_nat v = (case v of None \<Rightarrow> PNone | Some n \<Rightarrow> PInt (int n))"

definition shown_filter :: "(pyval \<Rightarrow> string) \<Rightarrow> pyval \<Rightarrow> pyval res" where
  "shown_filter rp raw = (if discovery_sweep rp raw then Inr (PStr ''all'') else rbind (discovery_filter raw) (\<lambda>f. Inr (PInt f)))"

definition discover_route :: "(pyval \<Rightarrow> string) \<Rightarrow> pyval \<Rightarrow> station \<Rightarrow> nat option response \<times> station" where
  "discover_route rp json sn0 =
     (let sn = hooked sn0 in
      if is_busy sn then (Refused 409, sn)
      else case body_dict json of
        None \<Rightarrow> (Refused 500, sn)
      | Some body \<Rightarrow>
          let group_name = dget body ''newGroupName''; raw = dget body ''discoveryGroup'';
              ((target, created), sn) =
                on_site (prepare_discover_target (dget body ''targetGroupId'') (if py_truth group_name then py_str rp group_name else [])) sn
          in case shown_filter rp raw of
               Inl e \<Rightarrow> (Refused 500, sn)
             | Inr shown \<Rightarrow>
                 start_job (Discover raw target created)
                   [(''createdGroupId'', opt_nat created), (''targetGroupId'', target), (''discoveryGroup'', shown)] sn)"

definition status_route :: "(pyval \<Rightarrow> string) \<Rightarrow> pyval \<Rightarrow> station \<Rightarrow> nat option response \<times> station" where
  "status_route rp json sn0 =
     (let sn = hooked sn0 in
      if is_busy sn then (Refused 409, sn)
      else case body_dict json of
        None \<Rightarrow> (Refused 500, sn)
      | Some body \<Rightarrow>
          let selection = py_or (py_or (dget body ''selection'') (dget body ''macs'')) (PList []) in
          (case addresses rp selection of
             Inl e \<Rightarrow> (Refused 500, sn)
           | Inr macs \<Rightarrow>
               start_job (Status selection (dget body ''groupId''))
                 [(''groupId'', dget body ''groupId''), (''selectionCount'', PInt (int (length macs)))] sn))"

text \<open>\<open>None\<close>: no name was given; a name that is no text is ignored like an empty one.\<close>

definition name_field :: "pyval \<Rightarrow> string option" where
  "name_field v = (case v of PNone \<Rightarrow> None | PStr s \<Rightarrow> Some s | _ \<Rightarrow> Some [])"

definition rename_devices :: "string option \<Rightarrow> string list \<Rightarrow> site \<Rightarrow> counts \<times> site" where
  "rename_devices new_name macs si =
     (let (n, s) = apply_device_meta_updates None new_name macs (si_ctl si);
          scopes = (case new_name of None \<Rightarrow> [''none''] | Some name \<Rightarrow> [''devices''])
      in (n, sse_refresh scopes (save_quietly scopes (si\<lparr>si_ctl := s\<rparr>))))"

definition update_meta_route :: "(pyval \<Rightarrow> string) \<Rightarrow> pyval \<Rightarrow> station \<Rightarrow> nat option response \<times> station" where
  "update_meta_route rp json sn =
     (case body_dict json of
        None \<Rightarrow> (Refused 500, sn)
      | Some body \<Rightarrow>
          let macs = addresses rp (py_or (dget body ''macs'') (PList [])); new_name = name_field (dget body ''name'') in
          if dget body ''groupId'' = PNone
          then (case macs of
                  Inl e \<Rightarrow> (Refused 500, sn)
                | Inr macs \<Rightarrow> (Answer None, snd (on_site (rename_devices new_name macs) sn)))
          else if is_busy sn then (Refused 409, sn)
          else let sn = hooked sn in
            case rbind (py_int (dget body ''groupId'')) (\<lambda>gid. rbind macs (\<lambda>macs. Inr (gid, macs))) of
              Inl e \<Rightarrow> (Refused 500, sn)
            | Inr (gid, macs) \<Rightarrow>
                start_job (MoveDevices gid new_name macs)
                  [(''stage'', PStr ''INIT''), (''index'', PInt 0), (''total'', PInt (int (length macs))), (''addr'', PNone),
                   (''groupId'', PInt gid)] sn)"

definition groups_force_route :: "pyval \<Rightarrow> station \<Rightarrow> nat option response \<times> station" where
  "groups_force_route json sn0 =
     (if is_busy sn0 then (Refused 409, sn0)
      else let sn = hooked sn0 in
        case body_dict json of
          None \<Rightarrow> (Refused 500, sn)
        | Some body \<Rightarrow>
            let skip = py_truth (dget_or body ''skipOffline'' (PBool False)) in
            start_job (ForceGroups skip)
              [(''stage'', PStr ''INIT''), (''index'', PInt 0), (''total'', PInt (int (length (ct_devices (ctl_of sn))))),
               (''addr'', PNone), (''skipOffline'', PBool skip)] sn)"

definition special_config_route :: "(pyval \<Rightarrow> string) \<Rightarrow> pyval \<Rightarrow> station \<Rightarrow> nat option response \<times> station" where
  "special_config_route rp json sn =
     (if is_busy sn then (Refused 409, sn)
      else case body_dict json of
        None \<Rightarrow> (Refused 500, sn)
      | Some body \<Rightarrow>
          let text = (\<lambda>v. if py_truth v then py_str rp v else []) in
          (case resolve_special_config_request (text (dget body ''mac'')) (text (dget body ''key'')) (dget body ''value'') (ctl_of sn) of
             Refused code \<Rightarrow> (Refused code, sn)
           | Answer r \<Rightarrow>
               start_job (SpecialConfig r)
                 [(''mac'', PStr (sr_mac r)), (''key'', PStr (sr_key r)), (''message'', PStr ''Preparing special config'')] (hooked sn)))"

text \<open>The addresses of a configuration request; \<open>macs[0]\<close> of a dictionary raises.\<close>

definition config_macs :: "(pyval \<Rightarrow> string) \<Rightarrow> pydict \<Rightarrow> string list response" where
  "config_macs rp body =
     (let macs = py_or (dget body ''macs'') (PList []); mac = dget body ''mac'' in
      if py_truth mac \<and> \<not> py_truth macs then Answer [py_str rp mac]
      else case macs of
        PDict d \<Rightarrow> if length d = 1 then Refused 500 else Refused 400
      | _ \<Rightarrow> (case addresses rp macs of Inl e \<Rightarrow> Refused 500 | Inr macs \<Rightarrow> Answer macs))"

definition config_route :: "(pyval \<Rightarrow> string) \<Rightarrow> pyval \<Rightarrow> station \<Rightarrow> nat option response \<times> station" where
  "config_route rp json sn =
     (if is_busy sn then (Refused 409, sn)
      else case body_dict json of
        None \<Rightarrow> (Refused 500, sn)
      | Some body \<Rightarrow>
          (case config_macs rp body of
             Refused code \<Rightarrow> (Refused code, sn)
           | Answer macs \<Rightarrow>
               (case on_site (\<lambda>si. case api_config macs body (si_ctl si) of (r, s) \<Rightarrow> (r, si\<lparr>si_ctl := s\<rparr>)) sn of
                  (Refused code, sn) \<Rightarrow> (Refused code, sn)
                | (Answer sent, sn) \<Rightarrow> (Answer None, on_web (master_set (clock sn) (note_event ''CONFIG_SENT'')) sn))))"

text \<open>\<open>saved\<close> says whether the data base takes the write.\<close>

definition save_route :: "bool \<Rightarrow> station \<Rightarrow> nat option response \<times> station" where
  "save_route saved sn =
     (if is_busy sn then (Refused 409, sn)
      else if \<not> saved then (Refused 500, sn)
      else (Answer None, snd (on_site (\<lambda>si. ((), save_quietly [''none''] si)) sn)))"

text \<open>Answers of the group routes; the numbers they carry are dropped.\<close>

definition without_result :: "'a response \<times> station \<Rightarrow> nat option response \<times> station" where
  "without_result r = (case r of (Refused code, sn) \<Rightarrow> (Refused code, sn) | (Answer x, sn) \<Rightarrow> (Answer None, sn))"

definition groups_create_route :: "(pyval \<Rightarrow> string) \<Rightarrow> pyval \<Rightarrow> station \<Rightarrow> nat option response \<times> station" where
  "groups_create_route rp json sn =
     (case body_dict json of
        None \<Rightarrow> (Refused 500, sn)
      | Some body \<Rightarrow>
          (case py_int (py_or (dget_or body ''dev_type'' (dget_or body ''device_type'' (PInt 0))) (PInt 0)) of
             Inl e \<Rightarrow> (Refused 500, sn)
           | Inr dev_type \<Rightarrow> without_result (on_site (groups_create (py_str rp (dget_or body ''name'' (PStr []))) dev_type) sn)))"

definition groups_rename_route :: "(pyval \<Rightarrow> string) \<Rightarrow> pyval \<Rightarrow> station \<Rightarrow> nat option response \<times> station" where
  "groups_rename_route rp json sn =
     (case body_dict json of
        None \<Rightarrow> (Refused 400, sn)
      | Some body \<Rightarrow> without_result (on_site (groups_rename (PDict body) (py_str rp (dget_or body ''name'' (PStr [])))) sn))"

definition groups_delete_route :: "pyval \<Rightarrow> station \<Rightarrow> nat option response \<times> station" where
  "groups_delete_route json sn =
     (case body_dict json of
        None \<Rightarrow> (Refused 400, sn)
      | Some body \<Rightarrow> without_result (on_site (groups_delete (PDict body)) sn))"

text \<open>The retry of the operator and the reload of the stored state, which has its own state \<open>host_state\<close>.\<close>

definition gateway_retry_route :: "usb_env \<Rightarrow> station \<Rightarrow> bool \<times> station" where
  "gateway_retry_route env sn =
     (let sn = link_step (UserRetry env) sn in (ct_ready (ctl_of sn), sn))"

definition reload_route :: "web \<Rightarrow> host_state \<Rightarrow> unit response \<times> web \<times> host_state" where
  "reload_route w h =
     (if task_is_running w then (Refused 409, w, h)
      else case load_from_db h of
        (Inl e, h) \<Rightarrow> (Refused 500, w, h)
      | (Inr _, h) \<Rightarrow> (Answer (), broadcast (MsgRefresh (sse_what_from_scopes (Some [''full'']))) w, h))"

section \<open>The threads\<close>

fun status_of_devices :: "string list \<Rightarrow> nat \<Rightarrow> (ctl, nat) proc" where
  "status_of_devices [] n = pret n"
| "status_of_devices (mac # macs) n =
     pbind (pread (device_at mac)) (\<lambda>dev.
       case dev of
         None \<Rightarrow> status_of_devices macs n
       | Some i \<Rightarrow> pbind (get_status (StatusDevice i)) (\<lambda>(k, responders). status_of_devices macs (n + k)))"

definition do_status :: "(pyval \<Rightarrow> string) \<Rightarrow> pyval \<Rightarrow> pyval \<Rightarrow> (ctl, nat) proc" where
  "do_status rp selection group_id =
     (if py_truth selection then pbind (plift (addresses rp selection)) (\<lambda>macs. status_of_devices macs 0)
      else if group_id \<noteq> PNone
      then pbind (plift (py_int group_id)) (\<lambda>g. pbind (get_status (StatusGroup g)) (\<lambda>(k, responders). pret k))
      else pbind (get_status (StatusGroup 255)) (\<lambda>(k, responders). pret k))"

definition ctl_proc :: "(ctl, 'a) proc \<Rightarrow> site \<Rightarrow> 'a res \<times> site" where
  "ctl_proc m si = (case m (si_ctl si) of (r, s) \<Rightarrow> (r, si\<lparr>si_ctl := s\<rparr>))"

definition force_groups_job :: "bool \<Rightarrow> site \<Rightarrow> counts \<times> site" where
  "force_groups_job skip si =
     (case iterate_force_groups True skip (si_ctl si) of (n, s) \<Rightarrow> (n, sse_refresh [''device_membership''] (si\<lparr>si_ctl := s\<rparr>)))"

definition counts_result :: "nat \<Rightarrow> counts \<Rightarrow> pyval" where
  "counts_result n c =
     PDict [(''changed'', PInt (int (co_changed c))), (''skipped_offline'', PInt (int (co_skipped_offline c))),
       (''timed_out'', PInt (int (co_timed_out c))), (''total'', PInt (int n))]"

definition shown_result :: "('a \<Rightarrow> pyval) \<Rightarrow> 'a res \<times> site \<Rightarrow> pyval res \<times> site" where
  "shown_result f r = (case r of (x, si) \<Rightarrow> (rbind x (\<lambda>v. Inr (f v)), si))"

fun run_job :: "(pyval \<Rightarrow> string) \<Rightarrow> (string list \<Rightarrow> string list) \<Rightarrow> thread_job \<Rightarrow> site \<Rightarrow> pyval res \<times> site" where
  "run_job rp order (Discover dgroup target created) si =
     shown_result (\<lambda>found. PDict [(''found'', PInt (int found)), (''createdGroupId'', opt_nat created), (''targetGroupId'', target),
         (''discoveryGroup'', case shown_filter rp dgroup of Inr v \<Rightarrow> v | Inl e \<Rightarrow> PNone)])
       (ctl_proc (do_discover rp order dgroup target) si)"
| "run_job rp order (Status selection group_id) si =
     shown_result (\<lambda>updated. PDict [(''updated'', PInt (int updated)), (''groupId'', group_id),
         (''selectionCount'', PInt (case addresses rp selection of Inr macs \<Rightarrow> int (length macs) | Inl e \<Rightarrow> 0))])
       (ctl_proc (do_status rp selection group_id) si)"
| "run_job rp order (MoveDevices gid new_name macs) si =
     (case bulk_set_group gid new_name macs si of (n, si) \<Rightarrow> (Inr (counts_result (length macs) n), si))"
| "run_job rp order (ForceGroups skip) si =
     (case force_groups_job skip si of (n, si') \<Rightarrow> (Inr (counts_result (length (ct_devices (si_ctl si))) n), si'))"
| "run_job rp order (SpecialConfig r) si =
     shown_result (\<lambda>u. PDict [(''mac'', PStr (sr_mac r)), (''key'', PStr (sr_key r)), (''value'', PInt (sr_value r))])
       (do_special_config r si)"

text \<open>
  A thread from its first to its last step.  \<open>wording\<close> writes an exception.  The gateway events that arrive meanwhile are in
  the script of the controller; the job's own progress messages are left out.
\<close>

definition run_thread ::
  "(pyval \<Rightarrow> string) \<Rightarrow> (string list \<Rightarrow> string list) \<Rightarrow> (py_error \<Rightarrow> string) \<Rightarrow> nat \<times> thread_job \<Rightarrow> station \<Rightarrow> station" where
  "run_thread rp order wording th sn =
     (let name = job_name (snd th);
          sn = on_web (runner_begin name (clock sn)) sn;
          (r, sn) = on_site (run_job rp order (snd th)) sn;
          outcome = (case r of Inl e \<Rightarrow> Inl (wording e) | Inr v \<Rightarrow> Inr v)
      in on_web (runner_end name outcome (clock sn)) (sn\<lparr>sn_threads := remove1 th (sn_threads sn)\<rparr>))"

section \<open>Runs\<close>

datatype web_request =
    PostDiscover pyval
  | PostStatus pyval
  | PostUpdateMeta pyval
  | PostGroupsForce pyval
  | PostSpecialsConfig pyval
  | PostConfig pyval
  | PostSave bool
  | PostGroupsCreate pyval
  | PostGroupsRename pyval
  | PostGroupsDelete pyval

fun respond :: "(pyval \<Rightarrow> string) \<Rightarrow> web_request \<Rightarrow> station \<Rightarrow> nat option response \<times> station" where
  "respond rp (PostDiscover json) sn = discover_route rp json sn"
| "respond rp (PostStatus json) sn = status_route rp json sn"
| "respond rp (PostUpdateMeta json) sn = update_meta_route rp json sn"
| "respond rp (PostGroupsForce json) sn = groups_force_route json sn"
| "respond rp (PostSpecialsConfig json) sn = special_config_route rp json sn"
| "respond rp (PostConfig json) sn = config_route rp json sn"
| "respond rp (PostSave saved) sn = save_route saved sn"
| "respond rp (PostGroupsCreate json) sn = groups_create_route rp json sn"
| "respond rp (PostGroupsRename json) sn = groups_rename_route rp json sn"
| "respond rp (PostGroupsDelete json) sn = groups_delete_route json sn"

text \<open>A run of the host: requests, threads, and everything that happens to the link.\<close>

inductive host_run ::
  "(pyval \<Rightarrow> string) \<Rightarrow> (string list \<Rightarrow> string list) \<Rightarrow> (py_error \<Rightarrow> string) \<Rightarrow> station \<Rightarrow> station \<Rightarrow> bool"
  for rp order wording where
  start: "host_run rp order wording sn sn"
| request: "host_run rp order wording sn sn1 \<Longrightarrow> respond rp req sn1 = (resp, sn2) \<Longrightarrow> host_run rp order wording sn sn2"
| thread: "host_run rp order wording sn sn1 \<Longrightarrow> th \<in> set (sn_threads sn1) \<Longrightarrow> host_run rp order wording sn (run_thread rp order wording th sn1)"
| link: "host_run rp order wording sn sn1 \<Longrightarrow> host_run rp order wording sn (link_step op sn1)"

section \<open>One thread for the running task\<close>

lemma on_web_fields [simp]: "sn_threads (on_web f sn) = sn_threads sn" "sn_scenes (on_web f sn) = sn_scenes sn"
  "sn_saves (on_web f sn) = sn_saves sn" "lv_web (sn_live (on_web f sn)) = f (lv_web (sn_live sn))"
  "lv_conn (sn_live (on_web f sn)) = lv_conn (sn_live sn)"
  by (simp_all add: on_web_def)

lemma refreshes_task [simp]: "wb_task (fold (\<lambda>what. broadcast (MsgRefresh what)) ws w) = wb_task w"
  by (induction ws arbitrary: w) simp_all

text \<open>Neither the task nor the threads have changed.\<close>

definition same_task :: "station \<Rightarrow> station \<Rightarrow> bool" where
  "same_task sn sn' \<longleftrightarrow> sn_threads sn' = sn_threads sn \<and> wb_task (lv_web (sn_live sn')) = wb_task (lv_web (sn_live sn))"

lemma same_task_refl [simp]: "same_task sn sn"
  by (simp add: same_task_def)

lemma same_task_trans: "same_task sn sn1 \<Longrightarrow> same_task sn1 sn2 \<Longrightarrow> same_task sn sn2"
  by (simp add: same_task_def)

lemma on_site_task: "on_site f sn = (r, sn') \<Longrightarrow> same_task sn sn'"
  by (auto simp: on_site_def same_task_def split: prod.split_asm)

lemma on_site_snd [simp]: "same_task sn (snd (on_site f sn))"
  using on_site_task by (metis prod.collapse)

lemma hooked_task [simp]: "same_task sn (hooked sn)"
  by (simp add: hooked_def same_task_def ensure_transport_hooked_def)

lemma on_web_task [simp]: "(\<And>w. wb_task (f w) = wb_task w) \<Longrightarrow> same_task sn (on_web f sn)"
  by (simp add: same_task_def)

lemma without_result_cases:
  "without_result r = (resp, sn) \<Longrightarrow> snd r = sn \<and> (\<forall>n. resp \<noteq> Answer (Some n))"
  by (cases r) (auto simp: without_result_def split: response.split_asm)

text \<open>A route leaves the task alone or ends with the start of one.\<close>

definition starts :: "station \<Rightarrow> nat option response \<times> station \<Rightarrow> bool" where
  "starts sn r \<longleftrightarrow> same_task sn (snd r) \<and> (\<forall>n. fst r \<noteq> Answer (Some n)) \<or>
     (\<exists>j meta sn1. same_task sn sn1 \<and> r = start_job j meta sn1)"

lemma startsI: "same_task sn sn1 \<Longrightarrow> starts sn (start_job j meta sn1)"
  "same_task sn sn1 \<Longrightarrow> starts sn (Refused code, sn1)" "same_task sn sn1 \<Longrightarrow> starts sn (Answer None, sn1)"
  by (auto simp: starts_def)

lemma starts_without: "same_task sn (snd r) \<Longrightarrow> starts sn (without_result r)"
  by (cases r) (auto simp: starts_def without_result_def split: response.split)

lemma on_hooked [simp]: "same_task sn (snd (on_site f (hooked sn)))"
  using same_task_trans [OF hooked_task on_site_snd] .

lemma respond_starts: "starts sn (respond rp req sn)"
proof (cases req)
  case (PostDiscover json)
  then show ?thesis
    by (auto simp: discover_route_def Let_def case_prod_beta intro!: startsI split: option.split sum.split)
next
  case (PostConfig json)
  have "starts sn (config_route rp json sn)"
    by (auto simp: config_route_def Let_def intro!: startsI dest!: on_site_task split: option.split response.split prod.split)
      (auto intro: same_task_trans)
  then show ?thesis by (simp add: PostConfig)
qed (auto simp: status_route_def update_meta_route_def groups_force_route_def special_config_route_def save_route_def
    groups_create_route_def groups_rename_route_def groups_delete_route_def Let_def
    intro!: startsI starts_without split: option.split sum.split response.split)

lemma start_job_cases:
  "start_job j meta sn = (if is_busy sn then (Refused 409, sn)
    else (Answer (Some (Suc (wb_task_seq (lv_web (sn_live sn))))), snd (start_job j meta sn)))"
  by (simp add: start_job_def task_start_def is_busy_def on_web_def Let_def)

definition thread_names :: "station \<Rightarrow> (nat \<times> string) list" where
  "thread_names sn = map (\<lambda>(n, j). (n, job_name j)) (sn_threads sn)"

definition threads_ok :: "station \<Rightarrow> bool" where
  "threads_ok sn \<longleftrightarrow> thread_names sn = running_thread (lv_web (sn_live sn))"

lemma running_thread_busy: "\<not> task_is_running w \<Longrightarrow> running_thread w = []"
  "task_is_running w \<Longrightarrow> \<exists>t. wb_task w = Some t \<and> tk_state t = Running \<and> running_thread w = [(tk_id t, tk_name t)]"
  by (auto simp: running_thread_def task_is_running_def identity_def split: option.splits task_state.splits)

lemma running_thread_cong: "identity (wb_task w') = identity (wb_task w) \<Longrightarrow> running_thread w' = running_thread w"
  by (simp add: running_thread_def)

lemma same_task_ok: "same_task sn sn' \<Longrightarrow> threads_ok sn' = threads_ok sn"
  by (simp add: same_task_def threads_ok_def thread_names_def running_thread_def)

lemma start_job_started:
  assumes "\<not> is_busy sn"
  shows "\<exists>t. wb_task (lv_web (sn_live (snd (start_job j meta sn)))) = Some t \<and> tk_id t = Suc (wb_task_seq (lv_web (sn_live sn))) \<and>
     tk_name t = job_name j \<and> tk_state t = Running \<and>
     sn_threads (snd (start_job j meta sn)) = sn_threads sn @ [(tk_id t, j)]"
  using assms by (auto simp: start_job_def task_start_def is_busy_def Let_def)

lemma start_job_ok:
  assumes "threads_ok sn"
  shows "threads_ok (snd (start_job j meta sn))"
proof (cases "is_busy sn")
  case True
  then show ?thesis using assms by (subst start_job_cases) simp
next
  case False
  then have "sn_threads sn = []"
    using assms running_thread_busy(1) by (simp add: threads_ok_def thread_names_def is_busy_def)
  with start_job_started [OF False, of j meta] show ?thesis
    by (auto simp: threads_ok_def thread_names_def running_thread_def identity_def)
qed

lemma respond_ok: "threads_ok sn \<Longrightarrow> threads_ok (snd (respond rp req sn))"
  using respond_starts [of sn rp req] by (auto simp: starts_def same_task_ok start_job_ok)

lemma link_task [simp]: "identity (wb_task (lv_web (live_step (Link op) lv))) = identity (wb_task (lv_web lv))"
  by (cases op) (auto simp: live_event_def web_event_identity Let_def)

lemma runner_begin_task [simp]: "wb_task (runner_begin name now w) = wb_task w"
  by (simp add: runner_begin_def)

lemma one_thread:
  assumes "threads_ok sn" and "th \<in> set (sn_threads sn)"
  shows "sn_threads sn = [th] \<and> (\<exists>t. wb_task (lv_web (sn_live sn)) = Some t \<and> tk_state t = Running \<and> tk_id t = fst th \<and>
     tk_name t = job_name (snd th))"
proof -
  have "running_thread (lv_web (sn_live sn)) \<noteq> []" using assms by (auto simp: threads_ok_def thread_names_def)
  then have "task_is_running (lv_web (sn_live sn))" using running_thread_busy(1) by blast
  from running_thread_busy(2) [OF this] assms show ?thesis
    by (auto simp: threads_ok_def thread_names_def map_eq_Cons_conv)
qed

text \<open>The task shows the end of its thread: the result, or the text of the exception.\<close>

definition outcome_shown :: "(py_error \<Rightarrow> string) \<Rightarrow> pyval res \<Rightarrow> task \<Rightarrow> bool" where
  "outcome_shown wording r t \<longleftrightarrow>
     (case r of Inr v \<Rightarrow> tk_state t = Done \<and> tk_result t = Some v
      | Inl e \<Rightarrow> tk_state t = Failed \<and> tk_last_error t = Some (ErrText (wording e)))"

lemma runner_end_task: "wb_task w = Some t \<Longrightarrow>
    \<exists>t'. wb_task (runner_end name (case r of Inl e \<Rightarrow> Inl (wording e) | Inr v \<Rightarrow> Inr v) now w) = Some t' \<and> tk_id t' = tk_id t \<and>
      tk_name t' = tk_name t \<and> outcome_shown wording r t'"
  by (cases r) (auto simp: runner_end_def outcome_shown_def)

definition job_result ::
  "(pyval \<Rightarrow> string) \<Rightarrow> (string list \<Rightarrow> string list) \<Rightarrow> thread_job \<Rightarrow> station \<Rightarrow> pyval res" where
  "job_result rp order j sn = fst (on_site (run_job rp order j) (on_web (runner_begin (job_name j) (clock sn)) sn))"

lemma run_thread_result:
  assumes "threads_ok sn" and "th \<in> set (sn_threads sn)"
  shows "sn_threads (run_thread rp order wording th sn) = [] \<and>
    (\<exists>t. wb_task (lv_web (sn_live (run_thread rp order wording th sn))) = Some t \<and> tk_id t = fst th \<and> tk_name t = job_name (snd th) \<and>
       outcome_shown wording (job_result rp order (snd th) sn) t)"
proof -
  let ?begun = "on_web (runner_begin (job_name (snd th)) (clock sn)) sn"
  obtain r sn1 where job: "on_site (run_job rp order (snd th)) ?begun = (r, sn1)" by fastforce
  have "same_task sn ?begun" by simp
  then have "same_task sn sn1" using on_site_task [OF job] same_task_trans by blast
  with one_thread [OF assms] obtain t where t: "wb_task (lv_web (sn_live sn1)) = Some t" "tk_id t = fst th" "tk_name t = job_name (snd th)"
    and threads: "sn_threads sn1 = [th]" by (auto simp: same_task_def)
  have r: "job_result rp order (snd th) sn = r" by (simp add: job_result_def job)
  from runner_end_task [OF t(1)] threads t(2-3) show ?thesis
    unfolding r by (fastforce simp: run_thread_def Let_def job)
qed

lemma run_thread_ok:
  assumes "threads_ok sn" and "th \<in> set (sn_threads sn)"
  shows "threads_ok (run_thread rp order wording th sn) \<and> \<not> is_busy (run_thread rp order wording th sn)"
proof -
  obtain t where "sn_threads (run_thread rp order wording th sn) = []"
    "wb_task (lv_web (sn_live (run_thread rp order wording th sn))) = Some t" "outcome_shown wording (job_result rp order (snd th) sn) t"
    using run_thread_result [OF assms, of rp order wording] by blast
  moreover have "tk_state t \<noteq> Running" using calculation(3) by (auto simp: outcome_shown_def split: sum.splits)
  ultimately show ?thesis
    by (auto simp: threads_ok_def thread_names_def running_thread_def identity_def is_busy_def task_is_running_def split: task_state.split)
qed

definition at_rest :: "station \<Rightarrow> bool" where
  "at_rest sn \<longleftrightarrow> sn_threads sn = [] \<and> \<not> is_busy sn"

lemma host_run_ok:
  assumes "host_run rp order wording sn0 sn" and "at_rest sn0"
  shows "threads_ok sn"
  using assms
proof (induction rule: host_run.induct)
  case (start sn)
  then show ?case by (simp add: at_rest_def threads_ok_def thread_names_def is_busy_def running_thread_busy)
next
  case (request sn sn1 req resp sn2)
  then show ?case using respond_ok [of sn1 rp req] by simp
next
  case (thread sn sn1 th)
  then show ?case using run_thread_ok [of sn1 th rp order wording] by simp
next
  case (link sn sn1 op)
  then show ?case by (simp add: link_step_def threads_ok_def thread_names_def running_thread_def del: live_step.simps)
qed

lemma job_is_discover: "job_name j = ''discover'' \<longleftrightarrow> (\<exists>d t c. j = Discover d t c)"
  by (cases j) auto

text \<open>
  C32.  The running task is the thread there is, and the controller knows a discovery when it runs.  In every run of the host
  from rest, with any requests, threads and link events between: there is at most one thread; there is one exactly while
  requests are told that a task runs; the task shown is that thread's; and what the controller takes for an active
  discovery is exactly the thread of a discovery request.
\<close>

theorem task_is_thread:
  assumes "host_run rp order wording sn0 sn" and "at_rest sn0"
  shows "length (sn_threads sn) \<le> 1 \<and> (is_busy sn \<longleftrightarrow> sn_threads sn \<noteq> []) \<and>
     (\<forall>(n, j) \<in> set (sn_threads sn). \<exists>t. wb_task (lv_web (sn_live sn)) = Some t \<and> tk_id t = n \<and> tk_name t = job_name j \<and>
        tk_state t = Running) \<and>
     (ct_discovery (ctl_of sn) \<longleftrightarrow> (\<exists>n d t c. (n, Discover d t c) \<in> set (sn_threads sn)))"
proof -
  have ok: "threads_ok sn" by (rule host_run_ok [OF assms])
  show ?thesis
  proof (cases "is_busy sn")
    case False
    then have "sn_threads sn = []"
      using ok running_thread_busy(1) by (simp add: threads_ok_def thread_names_def is_busy_def)
    with False show ?thesis
      by (auto simp: ctl_of_def is_discovery_active_def is_busy_def task_is_running_def split: option.splits)
  next
    case True
    then obtain t where t: "wb_task (lv_web (sn_live sn)) = Some t" "tk_state t = Running"
      "thread_names sn = [(tk_id t, tk_name t)]"
      using ok running_thread_busy(2) by (auto simp: threads_ok_def is_busy_def)
    then obtain j where j: "sn_threads sn = [(tk_id t, j)]" "job_name j = tk_name t"
      by (auto simp: thread_names_def map_eq_Cons_conv)
    then have "(tk_name t = ''discover'') = (\<exists>n d tg c. (n, Discover d tg c) \<in> set (sn_threads sn))"
      using job_is_discover [of j] by auto
    with True t(1,2) j show ?thesis by (simp add: ctl_of_def is_discovery_active_def)
  qed
qed

text \<open>
  A task always ends and makes room for the next.  In every run of the host from rest, the thread of a request can run to
  its end: it shows its result or the text of its exception on its own task, no thread is left, and no later request
  is told that a task runs.
\<close>

theorem thread_frees_the_slot:
  assumes "host_run rp order wording sn0 sn" and "at_rest sn0" and "(n, j) \<in> set (sn_threads sn)"
  shows "let sn' = run_thread rp order wording (n, j) sn in
     host_run rp order wording sn0 sn' \<and> sn_threads sn' = [] \<and> \<not> is_busy sn' \<and>
     (\<exists>t. wb_task (lv_web (sn_live sn')) = Some t \<and> tk_id t = n \<and> tk_name t = job_name j \<and>
        outcome_shown wording (job_result rp order j sn) t)"
proof -
  note ok = host_run_ok [OF assms(1,2)]
  from run_thread_result [OF ok assms(3), of rp order wording] run_thread_ok [OF ok assms(3), of rp order wording]
    host_run.thread [OF assms(1,3)]
  show ?thesis unfolding Let_def fst_conv snd_conv by blast
qed

section \<open>Requests during a task\<close>

text \<open>The requests that ask whether a task runs; pure renaming and the group routes do not.\<close>

fun asks_first :: "web_request \<Rightarrow> bool" where
  "asks_first (PostUpdateMeta json) = (case body_dict json of None \<Rightarrow> False | Some body \<Rightarrow> dget body ''groupId'' \<noteq> PNone)"
| "asks_first (PostGroupsCreate json) = False"
| "asks_first (PostGroupsRename json) = False"
| "asks_first (PostGroupsDelete json) = False"
| "asks_first req = True"

lemma hooked_fields [simp]: "lv_conn (sn_live (hooked sn)) = lv_conn (sn_live sn)" "sn_scenes (hooked sn) = sn_scenes sn"
  "sn_saves (hooked sn) = sn_saves sn" "sn_threads (hooked sn) = sn_threads sn" "is_busy (hooked sn) = is_busy sn"
  "wb_task (lv_web (sn_live (hooked sn))) = wb_task (lv_web (sn_live sn))"
  by (simp_all add: hooked_def is_busy_def task_is_running_def ensure_transport_hooked_def)


section \<open>A deletion during a move\<close>

definition no_repr :: "pyval \<Rightarrow> string" where "no_repr v = ''?''"

definition pit_lane :: station where
  "pit_lane =
     \<lparr>sn_live = \<lparr>lv_conn = (boot_conn None)\<lparr>cn_ctl := boot_ctl\<lparr>
         ct_devices := [(default_device ''AABBCCDDEEFF'' 10 ''n'')\<lparr>d_groupId := 0\<rparr>],
         ct_groups := [grp ''All WLED Nodes'' 1, grp ''Pit'' 0, grp ''Gate'' 0, grp ''Box'' 0]\<rparr>\<rparr>,
       lv_transport = 0, lv_web = fresh_web\<rparr>,
      sn_scenes = empty_store, sn_saves = [], sn_threads = []\<rparr>"

definition move_body :: pyval where
  "move_body = PDict [(''macs'', PList [PStr ''AABBCCDDEEFF'']), (''groupId'', PInt 2)]"

definition moving :: station where
  "moving = snd (respond no_repr (PostUpdateMeta move_body) pit_lane)"

definition shrunk :: station where
  "shrunk = snd (respond no_repr (PostGroupsDelete (PDict [(''id'', PInt 1)])) moving)"

definition the_move :: "nat \<times> thread_job" where "the_move = (1, MoveDevices 2 None [''AABBCCDDEEFF''])"

definition moved :: station where
  "moved = run_thread no_repr id (\<lambda>e. []) the_move shrunk"

text \<open>
  A group deleted between the answer to a move and its thread: the deletion is accepted and shifts the numbers, the thread still
  has the old one, and the device ends in another group than the one the request named.
\<close>

theorem deletion_misdirects_move:
  "fst (respond no_repr (PostUpdateMeta move_body) pit_lane) = Answer (Some 1) \<and>
   fst (respond no_repr (PostGroupsDelete (PDict [(''id'', PInt 1)])) moving) = Answer None \<and>
   sn_threads shrunk = [the_move] \<and>
   map g_name (ct_groups (ctl_of pit_lane)) = [''All WLED Nodes'', ''Pit'', ''Gate'', ''Box''] \<and>
   map g_name (ct_groups (ctl_of moved)) = [''All WLED Nodes'', ''Gate'', ''Box''] \<and>
   map d_groupId (ct_devices (ctl_of moved)) = [2]"
proof -
  have "fst (respond no_repr (PostUpdateMeta move_body) pit_lane) = Answer (Some 1)"
    "fst (respond no_repr (PostGroupsDelete (PDict [(''id'', PInt 1)])) moving) = Answer None"
    "sn_threads shrunk = [the_move]"
    "map g_name (ct_groups (ctl_of pit_lane)) = [''All WLED Nodes'', ''Pit'', ''Gate'', ''Box'']"
    "map g_name (ct_groups (ctl_of moved)) = [''All WLED Nodes'', ''Gate'', ''Box'']"
    "map d_groupId (ct_devices (ctl_of moved)) = [2]"
    by code_simp+
  then show ?thesis by blast
qed

lemma pit_lane_run: "host_run no_repr id (\<lambda>e. []) pit_lane moving" "at_rest pit_lane"
  using host_run.request [OF host_run.start prod.collapse [symmetric],
      where rp = no_repr and order = id and wording = "\<lambda>e. []" and req = "PostUpdateMeta move_body" and sn = pit_lane]
  by (simp_all add: moving_def at_rest_def pit_lane_def is_busy_def task_is_running_def fresh_web_def)

theorem task_is_thread_witness:
  "is_busy moving \<and> length (sn_threads moving) = 1 \<and> \<not> ct_discovery (ctl_of moving)"
proof -
  have t: "sn_threads moving = [the_move]" by code_simp
  from task_is_thread [OF pit_lane_run] show ?thesis unfolding t by (simp add: the_move_def)
qed

theorem thread_frees_the_slot_witness:
  "sn_threads (run_thread no_repr id (\<lambda>e. []) the_move moving) = [] \<and> \<not> is_busy (run_thread no_repr id (\<lambda>e. []) the_move moving)"
proof -
  have "sn_threads moving = [the_move]" by code_simp
  then have "(1, MoveDevices 2 None [''AABBCCDDEEFF'']) \<in> set (sn_threads moving)" by (simp add: the_move_def)
  from thread_frees_the_slot [OF pit_lane_run this] show ?thesis by (simp add: Let_def the_move_def)
qed


end
