(* ===== verification/Rl_Presets.thy ===== *)
theory Rl_Presets
  imports Keyed_Store Planner
begin

text \<open>
  \<^verbatim>\<open>racelink/services/rl_presets_service.py\<close>: the store of RaceLink presets, the
  normalisation of their parameters and flags, and the migration of files that carry no ids.
\<close>

section \<open>Parameters and flags\<close>

definition PARAM_KEYS :: "string list" where
  "PARAM_KEYS = [''mode'', ''speed'', ''intensity'', ''custom1'', ''custom2'', ''custom3'',
     ''check1'', ''check2'', ''check3'', ''palette'', ''color1'', ''color2'', ''color3'', ''brightness'']"

definition CHECK_KEYS :: "string list" where
  "CHECK_KEYS = [''check1'', ''check2'', ''check3'']"

definition COLOR_KEYS :: "string list" where
  "COLOR_KEYS = [''color1'', ''color2'', ''color3'']"

definition canonical_color :: "pyval \<Rightarrow> pyval res" where
  "canonical_color v =
     (case v of
        PList [r, g, b] \<Rightarrow> rbind (rmap py_int [r, g, b]) (\<lambda>is. Inr (PList (map (\<lambda>i. PInt (i AND 255)) is)))
      | PTuple [r, g, b] \<Rightarrow> rbind (rmap py_int [r, g, b]) (\<lambda>is. Inr (PList (map (\<lambda>i. PInt (i AND 255)) is)))
      | PNone \<Rightarrow> Inr PNone
      | _ \<Rightarrow> Inl ValueError)"

text \<open>
  \<open>None\<close> when \<open>key not in raw\<close>, otherwise \<open>raw[key]\<close>: the containment test also
  works on strings and sequences, the subscription by a string then does not.
\<close>

definition raw_param :: "pyval \<Rightarrow> string \<Rightarrow> pyval res" where
  "raw_param raw key =
     (case raw of
        PDict d \<Rightarrow> Inr (dget d key)
      | PList xs \<Rightarrow> if PStr key \<in> set xs then Inl TypeError else Inr PNone
      | PTuple xs \<Rightarrow> if PStr key \<in> set xs then Inl TypeError else Inr PNone
      | PStr s \<Rightarrow> if is_infix key s then Inl TypeError else Inr PNone
      | _ \<Rightarrow> Inl TypeError)"

definition canonical_param :: "string \<Rightarrow> pyval \<Rightarrow> pyval res" where
  "canonical_param key val =
     (if val = PNone then Inr PNone
      else if key \<in> set CHECK_KEYS then Inr (PBool (py_truth val))
      else if key \<in> set COLOR_KEYS then canonical_color val
      else rbind (py_int val) (\<lambda>i. Inr (PInt (i AND 255))))"

definition canonical_params :: "pyval \<Rightarrow> pydict res" where
  "canonical_params raw0 =
     (let raw = py_or raw0 (PDict []) in
      rmap (\<lambda>key. rbind (raw_param raw key) (\<lambda>val. rbind (canonical_param key val) (\<lambda>v. Inr (key, v)))) PARAM_KEYS)"

definition canonical_flags :: "pyval \<Rightarrow> pydict res" where
  "canonical_flags raw0 =
     (case py_or raw0 (PDict []) of
        PDict d \<Rightarrow> Inr (map (\<lambda>k. (k, PBool (py_truth (dget_or d k (PBool False))))) USER_FLAG_KEYS)
      | _ \<Rightarrow> Inl AttributeError)"

section \<open>The store\<close>

definition preset_dict :: "preset \<Rightarrow> pydict" where
  "preset_dict p =
     [(''id'', PInt (rp_id p)), (''key'', PStr (rp_key p)), (''label'', PStr (rp_label p)),
      (''created'', rp_created p), (''updated'', rp_updated p), (''params'', PDict (rp_params p)),
      (''flags'', PDict (rp_flags p))]"

definition preset_entry :: "string \<Rightarrow> int \<Rightarrow> string \<Rightarrow> string \<Rightarrow> pydict \<Rightarrow> preset res" where
  "preset_entry now preset_id key label entry =
     rbind (canonical_params (dget entry ''params'')) (\<lambda>params.
     rbind (canonical_flags (dget entry ''flags'')) (\<lambda>flags.
       Inr \<lparr>rp_id = preset_id, rp_key = key, rp_label = label,
            rp_created = py_or (dget entry ''created'') (now_iso now),
            rp_updated = py_or (dget entry ''updated'') (py_or (dget entry ''created'') (now_iso now)),
            rp_params = params, rp_flags = flags\<rparr>))"

definition preset_kind :: "preset store_kind" where
  "preset_kind = \<lparr>sk_schema = 2, sk_migrates = True, sk_field = ''presets'', sk_id = rp_id, sk_key = rp_key,
     sk_dict = preset_dict, sk_entry = preset_entry\<rparr>"

type_synonym preset_store = "preset store"

definition preset_list :: "(preset_store, preset list) proc" where
  "preset_list = store_items preset_kind"

definition preset_get :: "string \<Rightarrow> (preset_store, preset option) proc" where
  "preset_get = store_get preset_kind"

definition preset_get_by_id :: "pyval \<Rightarrow> (preset_store, preset option) proc" where
  "preset_get_by_id = store_get_by_id preset_kind"

definition build_preset :: "string \<Rightarrow> pyval \<Rightarrow> pyval \<Rightarrow> int \<Rightarrow> string \<Rightarrow> string \<Rightarrow> preset res" where
  "build_preset label params flags new_id key now =
     rbind (canonical_params params) (\<lambda>ps.
     rbind (canonical_flags flags) (\<lambda>fs.
       Inr \<lparr>rp_id = new_id, rp_key = key, rp_label = label, rp_created = now_iso now, rp_updated = now_iso now,
            rp_params = ps, rp_flags = fs\<rparr>))"

definition preset_create ::
  "string option \<Rightarrow> pyval \<Rightarrow> pyval \<Rightarrow> string option \<Rightarrow> (preset_store, preset) proc" where
  "preset_create label params flags key =
     (let label_clean = strip (case label of None \<Rightarrow> [] | Some l \<Rightarrow> l) in
      if label_clean = [] then plift (Inl ValueError)
      else
        let wanted = (case key of Some k \<Rightarrow> if k = [] then label_clean else k | None \<Rightarrow> label_clean)
        in store_create preset_kind (slugify ''preset'' wanted) (build_preset label_clean params flags))"

definition modify_preset :: "string option \<Rightarrow> pyval \<Rightarrow> pyval \<Rightarrow> string \<Rightarrow> preset \<Rightarrow> preset res" where
  "modify_preset label params flags now p =
     rbind (case label of
              None \<Rightarrow> Inr p
            | Some l \<Rightarrow> if strip l = [] then Inl ValueError else Inr (p\<lparr>rp_label := strip l\<rparr>)) (\<lambda>p1.
     rbind (if params = PNone then Inr p1 else rbind (canonical_params params) (\<lambda>ps. Inr (p1\<lparr>rp_params := ps\<rparr>))) (\<lambda>p2.
     rbind (if flags = PNone then Inr p2 else rbind (canonical_flags flags) (\<lambda>fs. Inr (p2\<lparr>rp_flags := fs\<rparr>))) (\<lambda>p3.
       Inr (p3\<lparr>rp_updated := now_iso now\<rparr>))))"

definition preset_update ::
  "string \<Rightarrow> string option \<Rightarrow> pyval \<Rightarrow> pyval \<Rightarrow> (preset_store, preset option) proc" where
  "preset_update key label params flags = store_update preset_kind key (modify_preset label params flags)"

definition preset_delete :: "string \<Rightarrow> (preset_store, bool) proc" where
  "preset_delete = store_delete preset_kind"

definition preset_duplicate :: "string \<Rightarrow> string option \<Rightarrow> (preset_store, preset option) proc" where
  "preset_duplicate key new_label =
     pbind (preset_get key) (\<lambda>src.
       case src of
         None \<Rightarrow> pret None
       | Some p \<Rightarrow>
           let label = strip (case new_label of
                 Some l \<Rightarrow> if l = [] then rp_label p @ '' copy'' else l
               | None \<Rightarrow> rp_label p @ '' copy'')
           in pbind (preset_create (Some label) (PDict (rp_params p)) (PDict (rp_flags p)) None) (\<lambda>new. pret (Some new)))"

definition import_preset :: "string \<Rightarrow> int \<Rightarrow> string \<Rightarrow> pydict \<Rightarrow> preset res" where
  "import_preset now new_id key e =
     rbind (case py_or (dget e ''label'') (PStr key) of PStr l \<Rightarrow> Inr (strip l) | _ \<Rightarrow> Inl AttributeError) (\<lambda>label.
     rbind (canonical_params (dget e ''params'')) (\<lambda>params.
     rbind (canonical_flags (dget e ''flags'')) (\<lambda>flags.
       Inr \<lparr>rp_id = new_id, rp_key = key, rp_label = label,
            rp_created = py_or (dget e ''created'') (now_iso now),
            rp_updated = py_or (dget e ''updated'') (now_iso now),
            rp_params = params, rp_flags = flags\<rparr>)))"

definition preset_replace_all :: "pydict list \<Rightarrow> (preset_store, unit) proc" where
  "preset_replace_all = store_replace_all preset_kind ''preset'' import_preset"

section \<open>Canonical presets\<close>

definition color_ok :: "pyval \<Rightarrow> bool" where
  "color_ok v = (\<exists>r g b. v = PList [PInt r, PInt g, PInt b] \<and> (\<forall>c \<in> {r, g, b}. 0 \<le> c \<and> c \<le> 255))"

definition param_ok :: "string \<Rightarrow> pyval \<Rightarrow> bool" where
  "param_ok key v =
     (v = PNone \<or>
      (if key \<in> set CHECK_KEYS then py_is_bool v
       else if key \<in> set COLOR_KEYS then color_ok v
       else \<exists>i. v = PInt i \<and> 0 \<le> i \<and> i \<le> 255))"

definition params_ok :: "pydict \<Rightarrow> bool" where
  "params_ok ps = (map fst ps = PARAM_KEYS \<and> (\<forall>(key, v) \<in> set ps. param_ok key v))"

definition preset_flags_ok :: "pydict \<Rightarrow> bool" where
  "preset_flags_ok fs = (map fst fs = USER_FLAG_KEYS \<and> (\<forall>v \<in> snd ` set fs. py_is_bool v))"

lemma and_255_range: "0 \<le> (i AND 255 :: int) \<and> (i AND 255 :: int) \<le> 255"
  by (simp add: AND_upper2)

lemma and_255_id: "0 \<le> i \<Longrightarrow> i \<le> 255 \<Longrightarrow> (i AND 255 :: int) = i"
  by (simp add: int_and_255)

lemma canonical_color_ok: "canonical_color v = Inr w \<Longrightarrow> w = PNone \<or> color_ok w"
  using and_255_range
  by (auto simp: canonical_color_def color_ok_def elim!: rbind_InrE split: pyval.split_asm list.split_asm)

lemma canonical_param_ok: "canonical_param key val = Inr v \<Longrightarrow> param_ok key v"
  using canonical_color_ok [of val v] and_255_range
  by (auto simp: canonical_param_def param_ok_def elim!: rbind_InrE split: if_split_asm)

lemma canonical_params_ok:
  assumes "canonical_params raw = Inr ps" shows "params_ok ps"
proof -
  let ?f = "\<lambda>key. rbind (raw_param (py_or raw (PDict [])) key) (\<lambda>val. rbind (canonical_param key val) (\<lambda>v. Inr (key, v)))"
  have a: "list_all2 (\<lambda>key p. ?f key = Inr p) PARAM_KEYS ps"
    using assms by (simp add: canonical_params_def Let_def rmap_eq_Inr)
  then have "list_all2 (\<lambda>key p. fst p = key \<and> param_ok key (snd p)) PARAM_KEYS ps"
    by (rule list_all2_mono) (auto elim!: rbind_InrE dest: canonical_param_ok)
  then have n: "length PARAM_KEYS = length ps"
    "\<And>i. i < length ps \<Longrightarrow> fst (ps ! i) = PARAM_KEYS ! i \<and> param_ok (PARAM_KEYS ! i) (snd (ps ! i))"
    by (auto simp: list_all2_conv_all_nth)
  have "param_ok (fst p) (snd p)" if "p \<in> set ps" for p
    using that n by (metis in_set_conv_nth)
  moreover have "map fst ps = PARAM_KEYS" using n by (intro nth_equalityI) simp_all
  ultimately show ?thesis by (auto simp: params_ok_def)
qed

lemma canonical_flags_ok: "canonical_flags raw = Inr fs \<Longrightarrow> preset_flags_ok fs"
  by (auto simp: canonical_flags_def preset_flags_ok_def comp_def split: pyval.split_asm)

lemma canonical_color_id: "color_ok v \<Longrightarrow> canonical_color v = Inr v"
  by (auto simp: color_ok_def canonical_color_def and_255_id)

lemma canonical_param_id: "param_ok key v \<Longrightarrow> canonical_param key v = Inr v"
  unfolding param_ok_def canonical_param_def
  by (auto simp: canonical_color_id and_255_id split: if_split_asm elim!: py_is_bool.elims)

lemma params_lookup: "params_ok ps \<Longrightarrow> key \<in> set PARAM_KEYS \<Longrightarrow> (key, dget ps key) \<in> set ps"
proof -
  assume ok: "params_ok ps" and k: "key \<in> set PARAM_KEYS"
  then have "key \<in> fst ` set ps" by (metis params_ok_def set_map)
  then obtain v where v: "map_of ps key = Some v" by (metis map_of_eq_None_iff not_Some_eq)
  then show ?thesis by (simp add: dget_or_def map_of_SomeD)
qed

lemma distinct_keys_table: "distinct (map fst ps) \<Longrightarrow> map (\<lambda>key. (key, dget ps key)) (map fst ps) = ps"
proof -
  assume d: "distinct (map fst ps)"
  have "(fst p, dget ps (fst p)) = p" if "p \<in> set ps" for p
  proof -
    have "map_of ps (fst p) = Some (snd p)" using that d by simp
    then show ?thesis by (simp add: dget_or_def)
  qed
  then show ?thesis unfolding map_map by (intro map_idI) (simp add: comp_def)
qed

lemma canonical_params_id: "params_ok ps \<Longrightarrow> canonical_params (PDict ps) = Inr ps"
proof -
  assume ok: "params_ok ps"
  have keys: "map fst ps = PARAM_KEYS" using ok by (simp add: params_ok_def)
  then have ne: "ps \<noteq> []" by (auto simp: PARAM_KEYS_def)
  have "rbind (raw_param (PDict ps) key) (\<lambda>val. rbind (canonical_param key val) (\<lambda>v. Inr (key, v))) = Inr (key, dget ps key)"
    if "key \<in> set PARAM_KEYS" for key
    using params_lookup [OF ok that] ok canonical_param_id by (auto simp: raw_param_def params_ok_def)
  then have "rmap (\<lambda>key. rbind (raw_param (PDict ps) key) (\<lambda>val. rbind (canonical_param key val) (\<lambda>v. Inr (key, v)))) PARAM_KEYS
      = Inr (map (\<lambda>key. (key, dget ps key)) PARAM_KEYS)" by (rule rmap_all_Inr)
  moreover have "distinct (map fst ps)" using keys by (simp add: PARAM_KEYS_def)
  ultimately show ?thesis using ne distinct_keys_table [of ps] keys by (simp add: canonical_params_def py_or_def)
qed

lemma canonical_flags_id: "preset_flags_ok fs \<Longrightarrow> canonical_flags (PDict fs) = Inr fs"
proof -
  assume ok: "preset_flags_ok fs"
  then have keys: "map fst fs = USER_FLAG_KEYS" and d: "distinct (map fst fs)" and ne: "fs \<noteq> []"
    by (auto simp: preset_flags_ok_def USER_FLAG_KEYS_def)
  have "(fst p, PBool (py_truth (dget_or fs (fst p) (PBool False)))) = p" if "p \<in> set fs" for p
  proof -
    have "py_is_bool (snd p)" using ok that by (auto simp: preset_flags_ok_def)
    then show ?thesis using that d by (cases p; cases "snd p") (simp_all add: dget_or_def)
  qed
  then have "map (\<lambda>k. (k, PBool (py_truth (dget_or fs k (PBool False))))) (map fst fs) = fs"
    unfolding map_map by (intro map_idI) (simp add: comp_def)
  then show ?thesis using ne keys by (simp add: canonical_flags_def py_or_def)
qed

section \<open>The store contract\<close>

definition preset_ok :: "preset \<Rightarrow> bool" where
  "preset_ok p = (params_ok (rp_params p) \<and> preset_flags_ok (rp_flags p) \<and>
     py_truth (rp_created p) \<and> py_truth (rp_updated p) \<and> json_plain (rp_created p) \<and> json_plain (rp_updated p))"

lemma preset_dict_get [simp]:
  "dget (preset_dict p) ''id'' = PInt (rp_id p)" "dget (preset_dict p) ''key'' = PStr (rp_key p)"
  "dget (preset_dict p) ''label'' = PStr (rp_label p)" "dget (preset_dict p) ''created'' = rp_created p"
  "dget (preset_dict p) ''updated'' = rp_updated p" "dget (preset_dict p) ''params'' = PDict (rp_params p)"
  "dget (preset_dict p) ''flags'' = PDict (rp_flags p)"
  by (simp_all add: preset_dict_def dget_or_def)

lemma preset_entry_dict:
  assumes "preset_ok p"
  shows "preset_entry now (rp_id p) (rp_key p) (rp_label p) (preset_dict p) = Inr p"
  using assms canonical_params_id [of "rp_params p"] canonical_flags_id [of "rp_flags p"]
  by (simp add: preset_entry_def preset_ok_def py_or_def)

lemma param_plain: "param_ok key v \<Longrightarrow> json_plain v"
  by (auto simp: param_ok_def color_ok_def split: if_split_asm elim!: py_is_bool.elims)

lemma preset_dict_plain: "preset_ok p \<Longrightarrow> json_plain (PDict (preset_dict p))"
proof -
  assume p: "preset_ok p"
  have "json_plain (snd q)" if "q \<in> set (rp_params p)" for q
    using p that param_plain [of "fst q" "snd q"] by (auto simp: preset_ok_def params_ok_def)
  moreover have "json_plain (snd q)" if "q \<in> set (rp_flags p)" for q
  proof -
    have "py_is_bool (snd q)" using p that by (auto simp: preset_ok_def preset_flags_ok_def)
    then show ?thesis by (cases "snd q") simp_all
  qed
  ultimately show ?thesis using p by (simp add: preset_dict_def preset_ok_def)
qed

lemma preset_kind_fields [simp]:
  "sk_id preset_kind = rp_id" "sk_key preset_kind = rp_key" "sk_dict preset_kind = preset_dict"
  "sk_entry preset_kind = preset_entry" "sk_field preset_kind = ''presets''" "sk_schema preset_kind = 2"
  "sk_migrates preset_kind = True"
  by (simp_all add: preset_kind_def)

interpretation presets: keyed_store preset_kind preset_ok
proof unfold_locales
  show "\<exists>label. dget (sk_dict preset_kind p) ''label'' = PStr label \<and>
      (\<forall>now. sk_entry preset_kind now (sk_id preset_kind p) (sk_key preset_kind p) label (sk_dict preset_kind p) = Inr p)"
    if "preset_ok p" for p
    using preset_entry_dict [OF that] by simp
  show "json_norm (PDict (sk_dict preset_kind p)) = PDict (sk_dict preset_kind p)" if "preset_ok p" for p
    using preset_dict_plain [OF that] by (simp only: preset_kind_fields json_plain_def)
qed simp_all

section \<open>Every call keeps the store coherent\<close>

lemma coherent_preset_create:
  assumes c: "presets.coherent s" shows "presets.coherent (snd (preset_create label params flags key s))"
proof -
  have "preset_ok x \<and> sk_id preset_kind x = n \<and> sk_key preset_kind x = key'"
    if "build_preset l params flags n key' now = Inr x" for l n key' now x
    using that by (auto simp: build_preset_def preset_ok_def elim!: rbind_InrE intro: canonical_params_ok canonical_flags_ok)
  from presets.coherent_create [OF c this] show ?thesis using c
    by (simp add: preset_create_def Let_def)
qed

lemma modify_preset_ok:
  assumes "preset_ok x" and "modify_preset label params flags now x = Inr y"
  shows "preset_ok y \<and> sk_id preset_kind y = sk_id preset_kind x \<and> sk_key preset_kind y = sk_key preset_kind x"
proof -
  obtain p1 p2 p3 where
    1: "(case label of None \<Rightarrow> Inr x
       | Some l \<Rightarrow> if strip l = [] then Inl ValueError else Inr (x\<lparr>rp_label := strip l\<rparr>)) = Inr p1"
    and 2: "(if params = PNone then Inr p1 else rbind (canonical_params params) (\<lambda>ps. Inr (p1\<lparr>rp_params := ps\<rparr>))) = Inr p2"
    and 3: "(if flags = PNone then Inr p2 else rbind (canonical_flags flags) (\<lambda>fs. Inr (p2\<lparr>rp_flags := fs\<rparr>))) = Inr p3"
    and y: "y = p3\<lparr>rp_updated := now_iso now\<rparr>"
    using assms(2) unfolding modify_preset_def by (elim rbind_InrE) simp
  have "preset_ok p1 \<and> rp_id p1 = rp_id x \<and> rp_key p1 = rp_key x"
    using 1 assms(1) by (auto simp: preset_ok_def split: option.split_asm if_split_asm)
  then have "preset_ok p2 \<and> rp_id p2 = rp_id x \<and> rp_key p2 = rp_key x"
    using 2 canonical_params_ok [of params] by (cases "params = PNone"; cases "canonical_params params") (auto simp: preset_ok_def)
  then have "preset_ok p3 \<and> rp_id p3 = rp_id x \<and> rp_key p3 = rp_key x"
    using 3 canonical_flags_ok [of flags] by (cases "flags = PNone"; cases "canonical_flags flags") (auto simp: preset_ok_def)
  then show ?thesis using y by (auto simp: preset_ok_def)
qed

lemma coherent_preset_update:
  "presets.coherent s \<Longrightarrow> presets.coherent (snd (preset_update key label params flags s))"
  unfolding preset_update_def by (rule presets.coherent_update) (use modify_preset_ok in blast)+

lemma coherent_preset_duplicate:
  assumes c: "presets.coherent s" shows "presets.coherent (snd (preset_duplicate key label s))"
proof -
  obtain r s1 where g: "preset_get key s = (r, s1)" by fastforce
  have c1: "presets.coherent s1" using presets.coherent_get [OF c, of key] g by (simp add: preset_get_def)
  show ?thesis
  proof (cases "\<exists>p. r = Inr (Some p)")
    case True
    then obtain p where r: "r = Inr (Some p)" by blast
    show ?thesis using coherent_preset_create [OF c1]
      by (simp add: preset_duplicate_def Let_def pbind_pret_snd pbind_Inr [where m = "preset_get key", OF g [unfolded r]])
  next
    case False
    then show ?thesis using g c1 by (cases r) (auto simp: preset_duplicate_def pbind_def split: option.split)
  qed
qed

lemma coherent_preset_replace_all:
  assumes c: "presets.coherent s" and "\<forall>e \<in> set es. json_plain (PDict e)"
  shows "presets.coherent (snd (preset_replace_all es s))"
proof -
  have "presets.imports_ok import_preset es"
    unfolding presets.imports_ok_def
  proof (intro ballI allI impI)
    fix e now n key x
    assume e: "e \<in> set es" and i: "import_preset now n key e = Inr x"
    have pl: "json_plain (dget e k)" for k using assms(2) e by (intro dget_plain) auto
    then have "json_plain (py_or (dget e k) (now_iso now))" for k by (intro py_or_plain) simp_all
    moreover have "py_truth (py_or v (now_iso now))" for v by (simp add: py_or_def)
    ultimately show "preset_ok x \<and> sk_id preset_kind x = n \<and> sk_key preset_kind x = key"
      using i by (auto simp: import_preset_def preset_ok_def elim!: rbind_InrE intro: canonical_params_ok canonical_flags_ok)
  qed
  from presets.coherent_replace_all [OF c this] show ?thesis by (simp add: preset_replace_all_def)
qed

datatype preset_call =
    PCallList
  | PCallGet string
  | PCallGetById pyval
  | PCallCreate "string option" pyval pyval "string option"
  | PCallUpdate string "string option" pyval pyval
  | PCallDelete string
  | PCallDuplicate string "string option"
  | PCallReplaceAll "pydict list"

fun run_preset_call :: "preset_call \<Rightarrow> preset_store \<Rightarrow> preset_store" where
  "run_preset_call PCallList s = snd (preset_list s)"
| "run_preset_call (PCallGet key) s = snd (preset_get key s)"
| "run_preset_call (PCallGetById i) s = snd (preset_get_by_id i s)"
| "run_preset_call (PCallCreate label params flags key) s = snd (preset_create label params flags key s)"
| "run_preset_call (PCallUpdate key label params flags) s = snd (preset_update key label params flags s)"
| "run_preset_call (PCallDelete key) s = snd (preset_delete key s)"
| "run_preset_call (PCallDuplicate key label) s = snd (preset_duplicate key label s)"
| "run_preset_call (PCallReplaceAll es) s = snd (preset_replace_all es s)"

definition preset_call_ok :: "preset_call \<Rightarrow> bool" where
  "preset_call_ok c = (case c of PCallReplaceAll es \<Rightarrow> \<forall>e \<in> set es. json_plain (PDict e) | _ \<Rightarrow> True)"

text \<open>The life of the store, as for the scenes.\<close>

inductive preset_reach :: "preset_store \<Rightarrow> bool" where
  preset_fresh: "st_file s = Missing \<Longrightarrow> st_cache s = None \<Longrightarrow> preset_reach s"
| preset_call: "preset_reach s \<Longrightarrow> preset_call_ok c \<Longrightarrow> preset_reach (run_preset_call c s)"
| preset_world: "preset_reach s \<Longrightarrow> preset_reach (s\<lparr>st_disk_ok := ok, st_now := now\<rparr>)"
| preset_restart: "preset_reach s \<Longrightarrow> preset_reach (s\<lparr>st_cache := None, st_next_id := None\<rparr>)"

lemma coherent_preset_call: "presets.coherent s \<Longrightarrow> preset_call_ok c \<Longrightarrow> presets.coherent (run_preset_call c s)"
  by (cases c) (simp_all add: preset_list_def preset_get_def preset_get_by_id_def preset_delete_def preset_call_ok_def
      presets.coherent_items presets.coherent_get presets.coherent_get_by_id presets.coherent_delete
      coherent_preset_create coherent_preset_update coherent_preset_duplicate coherent_preset_replace_all)

lemma preset_reach_coherent: "preset_reach s \<Longrightarrow> presets.coherent s"
  by (induction rule: preset_reach.induct)
    (simp_all add: presets.coherent_fresh coherent_preset_call presets.coherent_world presets.coherent_restart)

text \<open>
  C38.  In every state the preset store can reach, through any sequence of calls with any parameters, disk
  failures and restarts, listing succeeds and every preset shown is in range: all fourteen parameters
  present, bytes as bytes, switches as booleans, colours as three bytes or absent, the four flags as
  booleans; ids and keys are unique.
\<close>

theorem reachable_presets_good:
  assumes "preset_reach s"
  shows "\<exists>ps s'. preset_list s = (Inr ps, s') \<and> distinct (map rp_id ps) \<and> distinct (map rp_key ps) \<and>
     (\<forall>p \<in> set ps. params_ok (rp_params p) \<and> preset_flags_ok (rp_flags p))"
proof -
  obtain ps n where "store_items preset_kind s = (Inr ps, s\<lparr>st_cache := Some ps, st_next_id := Some n\<rparr>)"
    and "store_ok preset_kind preset_ok ps n"
    using presets.coherentD [OF preset_reach_coherent [OF assms]] .
  then show ?thesis by (auto simp: preset_list_def store_ok_def preset_ok_def)
qed

abbreviation empty_presets :: preset_store where
  "empty_presets \<equiv> \<lparr>st_file = Missing, st_disk_ok = True, st_now = [], st_cache = None, st_next_id = None, st_notified = 0\<rparr>"

theorem reachable_presets_good_witness:
  "\<exists>ps s'. preset_list (run_preset_call (PCallCreate (Some ''Red'') (PDict [(''mode'', PInt 300)]) PNone None) empty_presets)
     = (Inr ps, s') \<and> (\<forall>p \<in> set ps. params_ok (rp_params p))"
proof -
  have "preset_reach (run_preset_call (PCallCreate (Some ''Red'') (PDict [(''mode'', PInt 300)]) PNone None) empty_presets)"
    by (rule preset_call [OF preset_fresh]) (simp_all add: preset_call_ok_def)
  from reachable_presets_good [OF this] show ?thesis by blast
qed

text \<open>
  Normalising is idempotent: parameters and flags a preset stores are read back as they are.
\<close>

theorem preset_fields_roundtrip:
  assumes "canonical_params raw = Inr ps" and "canonical_flags raw' = Inr fs"
  shows "canonical_params (PDict ps) = Inr ps \<and> canonical_flags (PDict fs) = Inr fs"
  using canonical_params_id [OF canonical_params_ok [OF assms(1)]] canonical_flags_id [OF canonical_flags_ok [OF assms(2)]]
  by blast

theorem preset_fields_roundtrip_witness:
  "\<exists>ps fs. canonical_params PNone = Inr ps \<and> canonical_flags PNone = Inr fs \<and>
     canonical_params (PDict ps) = Inr ps \<and> canonical_flags (PDict fs) = Inr fs"
proof -
  have "canonical_params PNone = Inr (map (\<lambda>k. (k, PNone)) PARAM_KEYS)"
    unfolding canonical_params_def Let_def by (rule rmap_all_Inr) (simp add: py_or_def raw_param_def dget_or_def canonical_param_def)
  moreover have "canonical_flags PNone = Inr (map (\<lambda>k. (k, PBool False)) USER_FLAG_KEYS)"
    by (simp add: canonical_flags_def py_or_def dget_or_def)
  ultimately show ?thesis using preset_fields_roundtrip by blast
qed

section \<open>Stored presets can always be sent\<close>

lemma byte_param_ok:
  assumes "params_ok ps" and "key \<in> set PARAM_KEYS" and "key \<notin> set CHECK_KEYS" and "key \<notin> set COLOR_KEYS"
  shows "\<exists>b. byte_param ps key = Inr b"
  using params_lookup [OF assms(1,2)] assms by (force simp: params_ok_def param_ok_def byte_param_def)

lemma color_param_ok:
  assumes "params_ok ps" and "key \<in> set COLOR_KEYS" and "key \<in> set PARAM_KEYS" and "key \<notin> set CHECK_KEYS"
  shows "\<exists>c t. color_param ps key = Inr c \<and> rgb_triple c = Inr t"
proof -
  have "param_ok key (dget ps key)" using params_lookup [OF assms(1,3)] assms(1) by (auto simp: params_ok_def)
  then consider "dget ps key = PNone" | r g b where "dget ps key = PList [PInt r, PInt g, PInt b]"
    using assms(2,4) by (auto simp: param_ok_def color_ok_def)
  then show ?thesis by cases (simp_all add: color_param_def)
qed

lemma ctrl_kwargs_ok:
  assumes "params_ok ps"
  obtains f c1 c2 c3 t1 t2 t3 where "ctrl_kwargs ps = Inr (f, c1, c2, c3)"
    and "rgb_triple c1 = Inr t1" and "rgb_triple c2 = Inr t2" and "rgb_triple c3 = Inr t3"
proof -
  note b = byte_param_ok [OF assms]
  note c = color_param_ok [OF assms]
  have keys: "set PARAM_KEYS = {''mode'', ''speed'', ''intensity'', ''custom1'', ''custom2'', ''custom3'',
     ''check1'', ''check2'', ''check3'', ''palette'', ''color1'', ''color2'', ''color3'', ''brightness''}"
    "set CHECK_KEYS = {''check1'', ''check2'', ''check3''}" "set COLOR_KEYS = {''color1'', ''color2'', ''color3''}"
    by (simp_all add: PARAM_KEYS_def CHECK_KEYS_def COLOR_KEYS_def)
  obtain b1 where 1: "byte_param ps ''brightness'' = Inr b1" using b [of "''brightness''"] by (auto simp: keys)
  obtain b2 where 2: "byte_param ps ''mode'' = Inr b2" using b [of "''mode''"] by (auto simp: keys)
  obtain b3 where 3: "byte_param ps ''speed'' = Inr b3" using b [of "''speed''"] by (auto simp: keys)
  obtain b4 where 4: "byte_param ps ''intensity'' = Inr b4" using b [of "''intensity''"] by (auto simp: keys)
  obtain b5 where 5: "byte_param ps ''custom1'' = Inr b5" using b [of "''custom1''"] by (auto simp: keys)
  obtain b6 where 6: "byte_param ps ''custom2'' = Inr b6" using b [of "''custom2''"] by (auto simp: keys)
  obtain b7 where 7: "byte_param ps ''custom3'' = Inr b7" using b [of "''custom3''"] by (auto simp: keys)
  obtain b8 where 8: "byte_param ps ''palette'' = Inr b8" using b [of "''palette''"] by (auto simp: keys)
  obtain c1 t1 where c1: "color_param ps ''color1'' = Inr c1" "rgb_triple c1 = Inr t1" using c [of "''color1''"] by (auto simp: keys)
  obtain c2 t2 where c2: "color_param ps ''color2'' = Inr c2" "rgb_triple c2 = Inr t2" using c [of "''color2''"] by (auto simp: keys)
  obtain c3 t3 where c3: "color_param ps ''color3'' = Inr c3" "rgb_triple c3 = Inr t3" using c [of "''color3''"] by (auto simp: keys)
  show ?thesis
    by (rule that [OF _ c1(2) c2(2) c3(2)]) (simp only: ctrl_kwargs_def 1 2 3 4 5 6 7 8 c1 c2 c3 rbind_Inr)
qed

lemma params_sendable:
  assumes "params_ok ps"
  shows "\<exists>args body. ctrl_kwargs ps = Inr args \<and> control_body_of g fl args = Inr body \<and> length body \<le> 21 \<and>
     control_body_len ps = Inr (length body)"
proof -
  obtain f c1 c2 c3 t1 t2 t3 where k: "ctrl_kwargs ps = Inr (f, c1, c2, c3)"
    and t: "rgb_triple c1 = Inr t1" "rgb_triple c2 = Inr t2" "rgb_triple c3 = Inr t3"
    by (rule ctrl_kwargs_ok [OF assms])
  let ?f = "f\<lparr>cf_color1 := t1, cf_color2 := t2, cf_color3 := t3\<rparr>"
  have body: "control_body_of g' fl' (f, c1, c2, c3) = Inr (control_body g' fl' ?f)" for g' fl'
    by (simp add: control_body_of_def t build_control_body_eq)
  have len: "length (control_body g' fl' ?f) = length (control_body g fl ?f)" for g' fl'
    by (simp add: control_body_def)
  have "control_body_len ps = Inr (length (control_body g fl ?f))"
    using k body len by (simp add: control_body_len_def)
  with k body [of g fl] control_body_length show ?thesis by blast
qed

text \<open>
  Every preset the store can ever hold can be sent: collecting the control arguments from its
  parameters and building the packet for any group and flags succeeds, within 21 bytes, and the planner
  predicts exactly that length.
\<close>

theorem stored_preset_sendable:
  assumes "preset_reach s" and "preset_list s = (Inr ps, s')" and "p \<in> set ps"
  shows "\<exists>args body. ctrl_kwargs (rp_params p) = Inr args \<and> control_body_of g fl args = Inr body \<and> length body \<le> 21 \<and>
     control_body_len (rp_params p) = Inr (length body)"
proof -
  obtain qs n where "store_items preset_kind s = (Inr qs, s\<lparr>st_cache := Some qs, st_next_id := Some n\<rparr>)"
    and "store_ok preset_kind preset_ok qs n"
    using presets.coherentD [OF preset_reach_coherent [OF assms(1)]] .
  with assms(2,3) have "preset_ok p" by (auto simp: preset_list_def store_ok_def)
  then show ?thesis by (intro params_sendable) (simp add: preset_ok_def)
qed

section \<open>Creation and migration\<close>

lemma preset_create_run:
  assumes r: "represents preset_kind preset_ok s xs n" and len: "length xs < 998" and l: "strip label \<noteq> []"
    and ps: "canonical_params params = Inr ps" and fs: "canonical_flags flags = Inr fs"
  obtains p where
    "preset_create (Some label) params flags key s =
      (if st_disk_ok s then (Inr p, presets.committed s (xs @ [p]) (n + 1))
       else (Inl OSError, s\<lparr>st_cache := Some (xs @ [p]), st_next_id := Some (n + 1)\<rparr>))"
    and "store_ok preset_kind preset_ok (xs @ [p]) (n + 1)"
    and "rp_id p = n" and "rp_label p = strip label" and "rp_params p = ps" and "rp_flags p = fs"
proof -
  define wanted where "wanted = (case key of Some k \<Rightarrow> if k = [] then strip label else k | None \<Rightarrow> strip label)"
  obtain key' where key': "unique_key (slugify ''preset'' wanted) (map (sk_key preset_kind) xs) None = Inr key'"
    using unique_key_exists [of "map (sk_key preset_kind) xs"] len by auto
  let ?p = "\<lparr>rp_id = n, rp_key = key', rp_label = strip label, rp_created = now_iso (st_now s),
      rp_updated = now_iso (st_now s), rp_params = ps, rp_flags = fs\<rparr>"
  have "preset_ok ?p" using canonical_params_ok [OF ps] canonical_flags_ok [OF fs] by (simp add: preset_ok_def)
  note c = presets.create_run [where build = "build_preset (strip label) params flags", OF r key',
      of ?p, unfolded preset_kind_fields, OF _ this]
  show ?thesis
    by (rule that [of ?p]) (use c l ps fs in \<open>simp_all add: build_preset_def preset_create_def Let_def flip: wanted_def\<close>)
qed

text \<open>
  A preset created with acceptable parameters is stored under a fresh id above all others and a
  fresh key, with the normalised parameters, is found by its id, and survives a restart.
\<close>

theorem preset_create_persists:
  assumes "preset_reach s" and "preset_list s = (Inr xs, s1)" and "st_disk_ok s" and "length xs < 998"
    and "strip label \<noteq> []" and "canonical_params params = Inr ps" and "canonical_flags flags = Inr fs"
  shows "\<exists>p s'. preset_create (Some label) params flags key s = (Inr p, s') \<and> rp_params p = ps \<and> rp_flags p = fs \<and>
     rp_key p \<notin> rp_key ` set xs \<and> (\<forall>x \<in> set xs. rp_id x < rp_id p) \<and>
     fst (preset_get_by_id (PInt (rp_id p)) s') = Inr (Some p) \<and>
     fst (preset_list (s'\<lparr>st_cache := None, st_next_id := None\<rparr>)) = Inr (xs @ [p])"
proof -
  obtain ys n where r: "represents preset_kind preset_ok s ys n"
    using preset_reach_coherent [OF assms(1)] by (auto simp: presets.coherent_def)
  have xs: "ys = xs" using presets.items_run [OF r] assms(2) by (simp add: preset_list_def)
  obtain p where c: "preset_create (Some label) params flags key s =
      (if st_disk_ok s then (Inr p, presets.committed s (xs @ [p]) (n + 1))
       else (Inl OSError, s\<lparr>st_cache := Some (xs @ [p]), st_next_id := Some (n + 1)\<rparr>))"
    and ok: "store_ok preset_kind preset_ok (xs @ [p]) (n + 1)"
    and p: "rp_id p = n" "rp_params p = ps" "rp_flags p = fs"
    by (rule preset_create_run [OF r [unfolded xs] assms(4-7)])
  let ?s' = "presets.committed s (xs @ [p]) (n + 1)"
  have r': "represents preset_kind preset_ok ?s' (xs @ [p]) (n + 1)" by (rule presets.represents_committed [OF ok])
  have "represents preset_kind preset_ok (?s'\<lparr>st_cache := None, st_next_id := None\<rparr>) (xs @ [p]) (n + 1)"
    using ok by (auto simp: represents_def file_holds_def presets.committed_def)
  from presets.items_run [OF this]
  have "fst (preset_list (?s'\<lparr>st_cache := None, st_next_id := None\<rparr>)) = Inr (xs @ [p])" by (simp add: preset_list_def)
  moreover have "fst (preset_get_by_id (PInt (rp_id p)) ?s') = Inr (Some p)"
    using presets.get_by_id_run [OF r', of "rp_id p"] presets.find_unique [of rp_id "xs @ [p]" p] ok
    by (simp add: preset_get_by_id_def store_ok_def)
  moreover have "rp_key p \<notin> rp_key ` set xs" "\<forall>x \<in> set xs. rp_id x < rp_id p"
    using ok p(1) presets.representsD [OF r] xs by (auto simp: store_ok_def)
  ultimately show ?thesis using c assms(3) p(2,3) by auto
qed

lemma empty_presets_reach:
  "preset_reach empty_presets" "preset_list empty_presets = (Inr [], empty_presets\<lparr>st_cache := Some [], st_next_id := Some 0\<rparr>)"
  by (simp_all add: preset_fresh preset_list_def store_items_def store_load_def pbind_def)

lemma canonical_none:
  "canonical_params PNone = Inr (map (\<lambda>k. (k, PNone)) PARAM_KEYS)"
  "canonical_flags PNone = Inr (map (\<lambda>k. (k, PBool False)) USER_FLAG_KEYS)"
proof -
  show "canonical_params PNone = Inr (map (\<lambda>k. (k, PNone)) PARAM_KEYS)"
    unfolding canonical_params_def Let_def by (rule rmap_all_Inr) (simp add: py_or_def raw_param_def dget_or_def canonical_param_def)
qed (simp add: canonical_flags_def py_or_def dget_or_def)

theorem preset_create_persists_witness:
  "\<exists>p s'. preset_create (Some ''Red'') PNone PNone None empty_presets = (Inr p, s') \<and>
     fst (preset_get_by_id (PInt (rp_id p)) s') = Inr (Some p)"
proof -
  have "strip ''Red'' \<noteq> []" by code_simp
  then show ?thesis
    using preset_create_persists [OF empty_presets_reach _ _ _ canonical_none, of "''Red''" None] by auto
qed

theorem stored_preset_sendable_witness:
  "\<exists>p s' args body. preset_create (Some ''Red'') PNone PNone None empty_presets = (Inr p, s') \<and>
     ctrl_kwargs (rp_params p) = Inr args \<and> control_body_of 255 0 args = Inr body \<and> length body \<le> 21"
proof -
  have l: "strip ''Red'' \<noteq> []" by code_simp
  have r: "represents preset_kind preset_ok empty_presets [] 0" by (simp add: represents_def file_holds_def store_ok_def)
  obtain p where c: "preset_create (Some ''Red'') PNone PNone None empty_presets =
      (if st_disk_ok empty_presets then (Inr p, presets.committed empty_presets ([] @ [p]) (0 + 1))
       else (Inl OSError, empty_presets\<lparr>st_cache := Some ([] @ [p]), st_next_id := Some (0 + 1)\<rparr>))"
    and ok: "store_ok preset_kind preset_ok ([] @ [p]) (0 + 1)"
    by (rule preset_create_run [OF r _ l canonical_none]) simp_all
  let ?s = "presets.committed empty_presets ([] @ [p]) (0 + 1)"
  have "preset_reach (run_preset_call (PCallCreate (Some ''Red'') PNone PNone None) empty_presets)"
    by (rule preset_call [OF empty_presets_reach(1)]) (simp add: preset_call_ok_def)
  then have "preset_reach ?s" using c by simp
  moreover obtain s' where "preset_list ?s = (Inr [p], s')"
    using presets.items_run [OF presets.represents_committed [OF ok]] by (simp add: preset_list_def)
  ultimately show ?thesis using stored_preset_sendable [of ?s "[p]" s' p 255 0] c by auto
qed

text \<open>
  One entry whose parameters cannot be normalised makes the whole preset file unreadable: while such
  an entry stands in the list, behind any number of good presets, every listing raises and shows none of them.
\<close>

theorem malformed_preset_blocks_store:
  assumes "store_ok preset_kind preset_ok ps n" and "canonical_params bad = Inl e"
    and "st_file s = Document (PDict [(''schema_version'', PInt 2), (''next_id'', PInt n),
       (''presets'', PList (map (\<lambda>p. PDict (preset_dict p)) ps @
          [PDict [(''key'', PStr k), (''label'', PStr l), (''params'', bad)]]))])"
    and "st_cache s = None"
  shows "preset_list s = (Inl e, s)"
proof -
  let ?bad = "PDict [(''key'', PStr k), (''label'', PStr l), (''params'', bad)]"
  have "load_entries preset_kind now 0 [] (map (\<lambda>p. PDict (preset_dict p)) ps @ [?bad]) = Inl e" for now
    using presets.load_stored_entries [of ps "[]" now 0] assms(1,2)
    by (simp add: load_entries_append store_ok_def dget_or_def entry_id_def preset_entry_def Let_def)
  then have "load_document preset_kind (st_now s) (PDict [(''schema_version'', PInt 2), (''next_id'', PInt n),
       (''presets'', PList (map (\<lambda>p. PDict (preset_dict p)) ps @ [?bad]))]) = Inl e"
    by (simp add: load_document_def dget_or_def py_or_def)
  with assms(3,4) show ?thesis
    by (simp add: preset_list_def store_items_def store_load_def pbind_def)
qed

theorem malformed_preset_blocks_store_witness:
  "preset_list (empty_presets\<lparr>st_file := Document (PDict [(''schema_version'', PInt 2), (''next_id'', PInt 0),
       (''presets'', PList ([] @ [PDict [(''key'', PStr ''k''), (''label'', PStr ''L''), (''params'', PInt 5)]]))])\<rparr>) =
    (Inl TypeError, empty_presets\<lparr>st_file := Document (PDict [(''schema_version'', PInt 2), (''next_id'', PInt 0),
       (''presets'', PList ([] @ [PDict [(''key'', PStr ''k''), (''label'', PStr ''L''), (''params'', PInt 5)]]))])\<rparr>)"
proof (rule malformed_preset_blocks_store [where ps = "[]" and n = 0 and bad = "PInt 5" and k = "''k''" and l = "''L''"])
  show "canonical_params (PInt 5) = Inl TypeError"
    by (simp add: canonical_params_def py_or_def raw_param_def PARAM_KEYS_def)
qed (simp_all add: store_ok_def)

text \<open>
  The migration is stable: listing a file of an older schema (no ids, or none readable) gives every
  preset an id and rewrites the file, and from then on every restart shows the same presets under the
  same ids, so that bindings to ids survive.
\<close>

theorem migration_keeps_ids:
  assumes "st_file s = Document data" and "json_plain data" and "st_cache s = None" and "st_disk_ok s"
    and "load_document preset_kind (st_now s) data = Inr (ps, n, True)"
  shows "\<exists>s'. preset_list s = (Inr ps, s') \<and> distinct (map rp_id ps) \<and>
     fst (preset_list (s'\<lparr>st_cache := None, st_next_id := None, st_now := later\<rparr>)) = Inr ps"
proof -
  have "distinct (map (sk_id preset_kind) ps) \<and> (\<forall>x \<in> set ps. sk_id preset_kind x < n) \<and> (ps = [] \<longrightarrow> 0 \<le> n)"
    by (rule load_document_ids [OF _ assms(5)]) (auto simp: preset_entry_def elim!: rbind_InrE)
  then have ids: "distinct (map rp_id ps) \<and> (\<forall>x \<in> set ps. rp_id x < n) \<and> (ps = [] \<longrightarrow> 0 \<le> n)"
    by simp
  have ok: "preset_ok p" if "p \<in> set ps" for p
  proof -
    have "ps \<noteq> []" using that by auto
    then obtain d raw used where data: "data = PDict d" "dget d ''presets'' = PList raw"
      and e: "load_entries preset_kind (st_now s) 0 [] raw = Inr (ps, used)"
      using assms(5) by (auto simp: load_document_def elim!: rbind_InrE split: pyval.split_asm)
    have raw: "json_plain (PList raw)" unfolding data(2) [symmetric] using assms(2) data(1) by (intro dget_plain) simp_all
    from load_entries_mem [OF e that] obtain entry i key label where
      m: "PDict entry \<in> set raw" and p: "preset_entry (st_now s) i key label entry = Inr p" by auto
    have "json_plain (PDict entry)" using raw m by (simp del: json_plain_dict)
    then have pl: "json_plain (dget entry f)" for f by (rule dget_plain) simp
    then have "json_plain (py_or (dget entry f) (py_or (dget entry g) (now_iso (st_now s))))"
      "json_plain (py_or (dget entry f) (now_iso (st_now s)))" for f g by (intro py_or_plain; simp)+
    moreover have "py_truth (py_or v (py_or w (now_iso (st_now s))))" "py_truth (py_or v (now_iso (st_now s)))" for v w
      by (simp_all add: py_or_def)
    ultimately show ?thesis using p
      by (auto simp: preset_entry_def preset_ok_def elim!: rbind_InrE intro: canonical_params_ok canonical_flags_ok)
  qed
  let ?s' = "s\<lparr>st_file := Document (store_doc preset_kind n ps), st_cache := Some ps, st_next_id := Some n\<rparr>"
  have "preset_list s = (Inr ps, ?s')"
    using assms ok by (simp add: preset_list_def store_items_def store_load_def pbind_def presets.write_run)
  moreover have "load_document preset_kind later (store_doc preset_kind n ps) = Inr (ps, n, False)"
    by (rule presets.load_written) (use ids ok in auto)
  then have "fst (preset_list (?s'\<lparr>st_cache := None, st_next_id := None, st_now := later\<rparr>)) = Inr ps"
    by (simp add: preset_list_def store_items_def store_load_def pbind_def Let_def)
  ultimately show ?thesis using ids by blast
qed

theorem migration_keeps_ids_witness:
  "\<exists>ps s'. preset_list (empty_presets\<lparr>st_file := Document (PDict [(''presets'', PList [PDict [(''key'', PStr ''k''), (''label'', PStr ''L'')]])])\<rparr>) = (Inr ps, s') \<and>
     map rp_id ps = [0] \<and> fst (preset_list (s'\<lparr>st_cache := None, st_next_id := None, st_now := ''later''\<rparr>)) = Inr ps"
proof -
  let ?data = "PDict [(''presets'', PList [PDict [(''key'', PStr ''k''), (''label'', PStr ''L'')]])]"
  let ?s = "empty_presets\<lparr>st_file := Document ?data\<rparr>"
  obtain p where p: "load_document preset_kind (st_now ?s) ?data = Inr ([p], 1, True)" and id: "rp_id p = 0"
    by (simp add: load_document_def dget_or_def py_or_def entry_id_def bump_id_free preset_entry_def canonical_none seed_next_id_def)
  obtain s' where "preset_list ?s = (Inr [p], s') \<and> distinct (map rp_id [p]) \<and>
     fst (preset_list (s'\<lparr>st_cache := None, st_next_id := None, st_now := ''later''\<rparr>)) = Inr [p]"
    using migration_keeps_ids [OF _ _ _ _ p, of "''later''"] by auto
  with id show ?thesis by (intro exI [of _ "[p]"] exI [of _ s']) simp
qed

end
