(* ===== verification/Estimator.thy ===== *)
theory Estimator
  imports Runner
begin

text \<open>
  \<^verbatim>\<open>racelink/services/scene_cost_estimator.py\<close>: the predicted packets, bytes
  and times of an action and of a scene.  Times are exact rationals of milliseconds where the code has
  floats.
\<close>

definition LORA_SF :: nat where "LORA_SF = 7"
definition LORA_BW_HZ :: int where "LORA_BW_HZ = 125000"
definition LORA_CR :: int where "LORA_CR = 5"
definition LORA_PREAMBLE_SYM :: int where "LORA_PREAMBLE_SYM = 8"
definition LORA_EXPLICIT_HEADER :: bool where "LORA_EXPLICIT_HEADER = True"
definition LORA_LOW_DR_OPT :: bool where "LORA_LOW_DR_OPT = False"
definition LORA_CRC_ON :: bool where "LORA_CRC_ON = True"
definition RADIO_HEADER_BYTES :: nat where "RADIO_HEADER_BYTES = 7"
definition USB_FRAMING_BYTES :: nat where "USB_FRAMING_BYTES = 2"
definition WIRE_OVERHEAD_MS_PER_PACKET :: rat where "WIRE_OVERHEAD_MS_PER_PACKET = 12"

lemmas lora_defs = LORA_SF_def LORA_BW_HZ_def LORA_CR_def LORA_PREAMBLE_SYM_def LORA_EXPLICIT_HEADER_def
  LORA_LOW_DR_OPT_def LORA_CRC_ON_def

definition lora_airtime_ms :: "int \<Rightarrow> rat" where
  "lora_airtime_ms payload_bytes =
     (let payload = max 1 payload_bytes;
          tsym_ms = of_int (2 ^ LORA_SF) / of_int LORA_BW_HZ * 1000;
          de = (if LORA_LOW_DR_OPT then 1 else 0);
          hd = (if LORA_EXPLICIT_HEADER then 0 else 1);
          crc = (if LORA_CRC_ON then 1 else 0);
          num = 8 * payload - 4 * int LORA_SF + 28 + 16 * crc - 20 * hd;
          den = 4 * (int LORA_SF - 2 * de);
          n_payload = max 0 \<lceil>of_int num / of_int den :: rat\<rceil> * LORA_CR + 8;
          n_symbols = of_int LORA_PREAMBLE_SYM + 17 / 4 + of_int n_payload
      in n_symbols * tsym_ms)"

record action_cost =
  co_packets :: nat
  co_bytes :: nat
  co_airtime_ms :: rat
  co_wall_clock_ms :: rat
  co_detail :: pydict

definition no_cost :: action_cost where
  "no_cost = \<lparr>co_packets = 0, co_bytes = 0, co_airtime_ms = 0, co_wall_clock_ms = 0, co_detail = []\<rparr>"

definition add_packet :: "nat \<Rightarrow> action_cost \<Rightarrow> action_cost" where
  "add_packet body_bytes c =
     (let frame = body_bytes + RADIO_HEADER_BYTES;
          airtime = lora_airtime_ms (int frame)
      in c\<lparr>co_packets := co_packets c + 1,
           co_bytes := co_bytes c + (frame + USB_FRAMING_BYTES),
           co_airtime_ms := co_airtime_ms c + airtime,
           co_wall_clock_ms := co_wall_clock_ms c + (airtime + WIRE_OVERHEAD_MS_PER_PACKET)\<rparr>)"

definition estimate_action ::
  "int list \<Rightarrow> preset_lookup option \<Rightarrow> device_lookup option \<Rightarrow> action \<Rightarrow> action_cost res" where
  "estimate_action known rl dev action =
     (case action of
        Delay duration_ms \<Rightarrow>
          Inr (no_cost\<lparr>co_airtime_ms := of_int duration_ms, co_wall_clock_ms := of_int duration_ms\<rparr>)
      | _ \<Rightarrow>
          rbind (plan_action_dispatch known rl dev None action) (\<lambda>plan.
            let c = fold (\<lambda>op. add_packet (w_body_bytes op)) (ap_ops plan) no_cost;
                detail = ap_detail plan;
                detail = (if action_kind action = ''offset_group'' \<and> map_of detail ''offset_packets'' = None
                          then detail @ [(''offset_packets'', PInt 0)] else detail)
            in Inr (c\<lparr>co_detail := detail\<rparr>)))"

definition add_cost :: "action_cost \<Rightarrow> action_cost \<Rightarrow> action_cost" where
  "add_cost c acc = acc\<lparr>co_packets := co_packets acc + co_packets c,
     co_bytes := co_bytes acc + co_bytes c, co_airtime_ms := co_airtime_ms acc + co_airtime_ms c,
     co_wall_clock_ms := co_wall_clock_ms acc + co_wall_clock_ms c\<rparr>"

definition estimate_scene ::
  "int list \<Rightarrow> preset_lookup option \<Rightarrow> device_lookup option \<Rightarrow> action list \<Rightarrow> (action_cost \<times> action_cost list) res" where
  "estimate_scene known rl dev actions =
     rbind (rmap (estimate_action known rl dev) actions) (\<lambda>per_action.
       Inr (fold add_cost per_action no_cost, per_action))"

section \<open>The airtime formula\<close>

lemma lora_airtime_eq:
  "1 \<le> p \<Longrightarrow> lora_airtime_ms p =
     (81 / 4 + 5 * of_int \<lceil>of_int (8 * p + 16) / 28 :: rat\<rceil>) * (128 / 125)"
proof -
  assume p: "1 \<le> p"
  have "0 \<le> \<lceil>of_int (8 * p + 16) / 28 :: rat\<rceil>" using p by simp
  with p show ?thesis
    by (simp add: lora_airtime_ms_def lora_defs Let_def max_def algebra_simps)
qed

lemma lora_airtime_mono:
  assumes "p \<le> q" shows "lora_airtime_ms p \<le> lora_airtime_ms q"
proof -
  have "\<lceil>of_int (8 * max 1 p + 16) / 28 :: rat\<rceil> \<le> \<lceil>of_int (8 * max 1 q + 16) / 28 :: rat\<rceil>"
    using assms by (intro ceiling_mono divide_right_mono) auto
  moreover have "lora_airtime_ms r = lora_airtime_ms (max 1 r)" for r
    by (simp add: lora_airtime_ms_def)
  ultimately show ?thesis using lora_airtime_eq [of "max 1 p"] lora_airtime_eq [of "max 1 q"] by simp
qed

section \<open>Prediction and execution\<close>

definition body_cost :: "nat list \<Rightarrow> action_cost" where
  "body_cost ns = fold add_packet ns no_cost"

lemma fold_add_packet:
  "fold add_packet ns c = c\<lparr>co_packets := co_packets c + length ns,
     co_bytes := co_bytes c + sum_list (map (\<lambda>n. n + 9) ns),
     co_airtime_ms := co_airtime_ms c + sum_list (map (\<lambda>n. lora_airtime_ms (int n + 7)) ns),
     co_wall_clock_ms := co_wall_clock_ms c + sum_list (map (\<lambda>n. lora_airtime_ms (int n + 7) + 12) ns)\<rparr>"
  by (induction ns arbitrary: c)
    (simp_all add: add_packet_def Let_def RADIO_HEADER_BYTES_def USB_FRAMING_BYTES_def
      WIRE_OVERHEAD_MS_PER_PACKET_def)

lemma estimate_action_ops:
  assumes "\<forall>ms. a \<noteq> Delay ms" and "plan_action_dispatch known rl dev None a = Inr plan"
  obtains c where "estimate_action known rl dev a = Inr c"
    and "co_packets c = length (ap_ops plan)"
    and "co_bytes c = sum_list (map (\<lambda>op. w_body_bytes op + 9) (ap_ops plan))"
    and "co_airtime_ms c = sum_list (map (\<lambda>op. lora_airtime_ms (int (w_body_bytes op) + 7)) (ap_ops plan))"
proof -
  let ?c = "fold (\<lambda>op. add_packet (w_body_bytes op)) (ap_ops plan) no_cost"
  have c: "?c = fold add_packet (map w_body_bytes (ap_ops plan)) no_cost" by (simp add: fold_map comp_def)
  define d where "d = (if action_kind a = ''offset_group'' \<and> map_of (ap_detail plan) ''offset_packets'' = None
      then ap_detail plan @ [(''offset_packets'', PInt 0)] else ap_detail plan)"
  have "estimate_action known rl dev a = Inr (?c\<lparr>co_detail := d\<rparr>)"
    using assms by (cases a) (simp_all add: estimate_action_def Let_def d_def del: plan_action_dispatch.simps)
  moreover have "co_packets ?c = length (ap_ops plan)"
    and "co_bytes ?c = sum_list (map (\<lambda>op. w_body_bytes op + 9) (ap_ops plan))"
    and "co_airtime_ms ?c = sum_list (map (\<lambda>op. lora_airtime_ms (int (w_body_bytes op) + 7)) (ap_ops plan))"
    unfolding c fold_add_packet by (simp_all add: no_cost_def comp_def)
  ultimately show ?thesis by (intro that [of "?c\<lparr>co_detail := d\<rparr>"]) simp_all
qed



text \<open>
  For an offset group with one unresolvable child the badge and the run part ways: the plan keeps
  the offset packets and the other children's packets, the estimate counts them all (at least one), and
  executing the plan sends none.
\<close>

theorem degraded_group_overestimated:
  assumes "container_ok t ob" and "\<forall>g \<in> set known. group_id_ok g"
    and "plan_action_dispatch known rl dev None (OffsetGroup t (offset_dict ob) children) = Inr plan"
    and "ap_degraded plan"
  shows "\<exists>c r h'. estimate_action known rl dev (OffsetGroup t (offset_dict ob) children) = Inr c \<and>
     co_packets c = length (ap_ops plan) \<and> 1 \<le> co_packets c \<and>
     execute_plan rn i kind plan started h = (Inr r, h') \<and> hs_sent h' = hs_sent h"
proof -
  let ?a = "OffsetGroup t (offset_dict ob) children"
  obtain c where c: "estimate_action known rl dev ?a = Inr c" "co_packets c = length (ap_ops plan)"
    by (rule estimate_action_ops [OF _ assms(3)]) auto
  obtain opt where opt: "plan_offset_setup t (offset_dict ob) known = Inr opt" "op_ops opt \<noteq> []"
    using plan_nonempty [OF assms(1,2)] by blast
  have "offset_dict ob \<noteq> []" by (cases ob) simp_all
  with assms(3) opt have "ap_ops plan \<noteq> []"
    by (auto simp: Let_def rbind_eq_Inr simp del: offset_dict.simps)
  then have "1 \<le> co_packets c" by (cases "ap_ops plan") (simp_all add: c)
  with c assms(4) show ?thesis
    by (simp add: execute_plan_def clock_ms_def pbind_def)
qed

theorem degraded_group_overestimated_witness:
  "\<forall>rn h. \<exists>plan c r h'. plan_action_dispatch [1] None None None
       (OffsetGroup (Groups [1]) (offset_dict (OLinear 5 1)) [Effect WledPreset (Groups []) [] None]) = Inr plan \<and>
     estimate_action [1] None None
       (OffsetGroup (Groups [1]) (offset_dict (OLinear 5 1)) [Effect WledPreset (Groups []) [] None]) = Inr c \<and>
     1 \<le> co_packets c \<and> execute_plan rn 0 ''offset_group'' plan 0 h = (Inr r, h') \<and> hs_sent h' = hs_sent h"
proof (intro allI)
  fix rn h
  let ?child = "Effect WledPreset (Groups []) [] None"
  let ?off = "offset_dict (OLinear 5 1)"
  have ok: "container_ok (Groups [1]) (OLinear 5 1)" "\<forall>g \<in> set [1]. group_id_ok g"
    by (simp_all add: container_ok_def)
  obtain opt where opt: "plan_offset_setup (Groups [1]) ?off [1] = Inr opt"
    using plan_nonempty [OF ok] by blast
  have mode: "spec_mode ?off = Inr ''linear''" by (simp del: offset_dict.simps)
  have ne: "?off \<noteq> []" by simp
  obtain cp where "plan_action_dispatch [1] None None (Some True) ?child = Inr cp" "ap_degraded cp"
    by (simp add: plan_effect_def resolve_target_def)
  then obtain plan where p: "plan_action_dispatch [1] None None None (OffsetGroup (Groups [1]) ?off [?child]) = Inr plan"
    and d: "ap_degraded plan"
    using mode opt ne by (simp add: Let_def del: offset_dict.simps)
  from degraded_group_overestimated [OF ok p d, of rn 0 "''offset_group''" 0 h] p
  show "\<exists>plan c r h'. plan_action_dispatch [1] None None None (OffsetGroup (Groups [1]) ?off [?child]) = Inr plan \<and>
      estimate_action [1] None None (OffsetGroup (Groups [1]) ?off [?child]) = Inr c \<and>
      1 \<le> co_packets c \<and> execute_plan rn 0 ''offset_group'' plan 0 h = (Inr r, h') \<and> hs_sent h' = hs_sent h"
    by (elim exE conjE) (intro exI conjI)
qed

end
