(* ===== verification/Web_Scenes.thy ===== *)
theory Web_Scenes
  imports Web_Devices Rl_Presets Estimator
begin

text \<open>
  The routes of \<^verbatim>\<open>racelink/web/api.py\<close> on presets and scenes: creating, changing, deleting, copying,
  estimating and running.  The services are wired; a lookup of a preset during an estimate or a run reads the
  store as it is and its filling of the cache is left out.
\<close>

section \<open>The state of the routes\<close>

text \<open>\<open>sd_known\<close> is what the scene service knows of the groups; \<open>sd_startblock\<close> sends a start-block program.\<close>

record studio =
  sd_scenes :: scene_store
  sd_presets :: preset_store
  sd_host :: host
  sd_known :: "int list option"
  sd_startblock :: "(send_target \<Rightarrow> pydict \<Rightarrow> (host, bool) proc) option"
  sd_refreshes :: "string list list"
  sd_progress :: "progress list"

definition refresh_scenes :: "studio \<Rightarrow> studio" where
  "refresh_scenes sd =
     (let what = sse_what_from_scopes (Some [''scenes'']) in
      if what = [] then sd else sd\<lparr>sd_refreshes := sd_refreshes sd @ [what]\<rparr>)"

text \<open>A \<open>ValueError\<close> is answered with 400, any other exception with 500, a missing item with 404.\<close>

definition answer_of :: "'a option res \<Rightarrow> 'a response" where
  "answer_of r =
     (case r of
        Inl e \<Rightarrow> Refused (if e = ValueError then 400 else 500)
      | Inr None \<Rightarrow> Refused 404
      | Inr (Some x) \<Rightarrow> Answer x)"

text \<open>Arguments of a body: \<open>x or None\<close> for a text, \<open>None\<close> when the value is no text and a method of it will be called.\<close>

definition text_arg :: "pyval \<Rightarrow> string option option" where
  "text_arg v = (case v of PStr s \<Rightarrow> Some (Some s) | _ \<Rightarrow> if py_truth v then None else Some None)"

definition label_arg :: "pyval \<Rightarrow> string option option" where
  "label_arg v = (case v of PStr s \<Rightarrow> Some (Some s) | PNone \<Rightarrow> Some None | _ \<Rightarrow> None)"

definition present_or_none :: "('s, 'a option) proc \<Rightarrow> ('s, 'a option) proc" where
  "present_or_none get = pbind get (\<lambda>x. case x of None \<Rightarrow> pret None | Some _ \<Rightarrow> plift (Inl AttributeError))"

section \<open>Presets\<close>

definition post_preset :: "pydict \<Rightarrow> (preset_store, preset option) proc" where
  "post_preset body =
     (case dget body ''label'' of
        PStr label \<Rightarrow>
          if strip label = [] then plift (Inl ValueError)
          else (case text_arg (dget body ''key'') of
                  Some key \<Rightarrow> pbind (preset_create (Some label) (dget body ''params'') (dget body ''flags'') key) (\<lambda>p. pret (Some p))
                | None \<Rightarrow> pbind preset_list (\<lambda>_. plift (Inl AttributeError)))
      | _ \<Rightarrow> plift (Inl ValueError))"

definition put_preset :: "string \<Rightarrow> pydict \<Rightarrow> (preset_store, preset option) proc" where
  "put_preset key body =
     (case label_arg (dget body ''label'') of
        Some label \<Rightarrow> preset_update key label (dget body ''params'') (dget body ''flags'')
      | None \<Rightarrow> present_or_none (preset_get key))"

definition copy_preset :: "string \<Rightarrow> pydict \<Rightarrow> (preset_store, preset option) proc" where
  "copy_preset key body =
     (case text_arg (dget body ''label'') of
        Some label \<Rightarrow> preset_duplicate key label
      | None \<Rightarrow> present_or_none (preset_get key))"

definition on_presets :: "pyval \<Rightarrow> (pydict \<Rightarrow> (preset_store, preset option) proc) \<Rightarrow> studio \<Rightarrow> preset response \<times> studio" where
  "on_presets json op sd =
     (case py_or json (PDict []) of
        PDict body \<Rightarrow> (case op body (sd_presets sd) of (r, s) \<Rightarrow> (answer_of r, sd\<lparr>sd_presets := s\<rparr>))
      | _ \<Rightarrow> (Refused 500, sd))"

definition rl_presets_create :: "pyval \<Rightarrow> studio \<Rightarrow> preset response \<times> studio" where
  "rl_presets_create json = on_presets json post_preset"

definition rl_presets_update :: "string \<Rightarrow> pyval \<Rightarrow> studio \<Rightarrow> preset response \<times> studio" where
  "rl_presets_update key json = on_presets json (put_preset key)"

definition rl_presets_duplicate :: "string \<Rightarrow> pyval \<Rightarrow> studio \<Rightarrow> preset response \<times> studio" where
  "rl_presets_duplicate key json = on_presets json (copy_preset key)"

definition rl_presets_get :: "string \<Rightarrow> studio \<Rightarrow> preset response \<times> studio" where
  "rl_presets_get key sd =
     (case preset_get key (sd_presets sd) of
        (r, s) \<Rightarrow> (case answer_of r of Answer p \<Rightarrow> Answer p | Refused c \<Rightarrow> Refused (if c = 400 then 500 else c), sd\<lparr>sd_presets := s\<rparr>))"

definition rl_presets_delete :: "string \<Rightarrow> studio \<Rightarrow> unit response \<times> studio" where
  "rl_presets_delete key sd =
     (case preset_delete key (sd_presets sd) of
        (Inl e, s) \<Rightarrow> (Refused 500, sd\<lparr>sd_presets := s\<rparr>)
      | (Inr found, s) \<Rightarrow> (if found then Answer () else Refused 404, sd\<lparr>sd_presets := s\<rparr>))"

section \<open>Scenes\<close>

definition post_scene :: "int list option \<Rightarrow> pydict \<Rightarrow> (scene_store, scene option) proc" where
  "post_scene known body =
     (case dget body ''label'' of
        PStr label \<Rightarrow>
          if strip label = [] then plift (Inl ValueError)
          else (case text_arg (dget body ''key'') of
                  Some key \<Rightarrow>
                    pbind (scene_create known (Some label) (dget body ''actions'') key (dget body ''stop_on_error'')) (\<lambda>sc. pret (Some sc))
                | None \<Rightarrow>
                    pbind (plift (canonical_actions (dget body ''actions''))) (\<lambda>_. pbind scene_list (\<lambda>_. plift (Inl AttributeError))))
      | _ \<Rightarrow> plift (Inl ValueError))"

definition put_scene :: "int list option \<Rightarrow> string \<Rightarrow> pydict \<Rightarrow> (scene_store, scene option) proc" where
  "put_scene known key body =
     (case label_arg (dget body ''label'') of
        Some label \<Rightarrow> scene_update known key label (dget body ''actions'') (dget body ''stop_on_error'')
      | None \<Rightarrow>
          pbind (plift (if dget body ''actions'' = PNone then Inr [] else canonical_actions (dget body ''actions'')))
            (\<lambda>_. present_or_none (scene_get key)))"

definition copy_scene :: "int list option \<Rightarrow> string \<Rightarrow> pydict \<Rightarrow> (scene_store, scene option) proc" where
  "copy_scene known key body =
     (case text_arg (dget body ''label'') of
        Some label \<Rightarrow> scene_duplicate known key label
      | None \<Rightarrow> present_or_none (scene_get key))"

datatype scene_request = PostScene pyval | PutScene string pyval | CopyScene string pyval | DeleteScene string

text \<open>The store operation of a request whose body is an object.\<close>

fun request_op :: "int list option \<Rightarrow> scene_request \<Rightarrow> (scene_store, scene option option) proc" where
  "request_op known (PostScene json) =
     (case py_or json (PDict []) of PDict body \<Rightarrow> pbind (post_scene known body) (\<lambda>r. pret (map_option Some r))
      | _ \<Rightarrow> plift (Inl AttributeError))"
| "request_op known (PutScene key json) =
     (case py_or json (PDict []) of PDict body \<Rightarrow> pbind (put_scene known key body) (\<lambda>r. pret (map_option Some r))
      | _ \<Rightarrow> plift (Inl AttributeError))"
| "request_op known (CopyScene key json) =
     (case py_or json (PDict []) of PDict body \<Rightarrow> pbind (copy_scene known key body) (\<lambda>r. pret (map_option Some r))
      | _ \<Rightarrow> plift (Inl AttributeError))"
| "request_op known (DeleteScene key) = pbind (scene_delete key) (\<lambda>found. pret (if found then Some None else None))"

text \<open>A success is announced to the browsers.\<close>

definition scene_route :: "scene_request \<Rightarrow> studio \<Rightarrow> scene option response \<times> studio" where
  "scene_route req sd =
     (case request_op (sd_known sd) req (sd_scenes sd) of
        (r, s) \<Rightarrow>
          let sd = sd\<lparr>sd_scenes := s\<rparr> in
          case answer_of r of
            Answer x \<Rightarrow> (Answer x, refresh_scenes sd)
          | Refused code \<Rightarrow> (Refused code, sd))"

definition scenes_get :: "string \<Rightarrow> studio \<Rightarrow> scene response \<times> studio" where
  "scenes_get key sd =
     (case scene_get key (sd_scenes sd) of
        (Inl e, s) \<Rightarrow> (Refused 500, sd\<lparr>sd_scenes := s\<rparr>)
      | (Inr None, s) \<Rightarrow> (Refused 404, sd\<lparr>sd_scenes := s\<rparr>)
      | (Inr (Some sc), s) \<Rightarrow> (Answer sc, sd\<lparr>sd_scenes := s\<rparr>))"

section \<open>Estimates\<close>

text \<open>The lookups of the store; an exception is swallowed.\<close>

definition service_of :: "preset_store \<Rightarrow> rl_service" where
  "service_of s =
     \<lparr>rs_get = (\<lambda>key. case fst (preset_get key s) of Inr p \<Rightarrow> p | Inl e \<Rightarrow> None),
      rs_get_by_id = (\<lambda>i. case fst (preset_get_by_id (PInt i) s) of Inr p \<Rightarrow> p | Inl e \<Rightarrow> None)\<rparr>"

definition known_group_ids_from_ctx :: "studio \<Rightarrow> int list" where
  "known_group_ids_from_ctx sd =
     sort (remdups (filter (\<lambda>gid. 0 \<le> gid \<and> gid \<le> 254) (map d_groupId (hs_devices (sd_host sd)))))"

definition rl_preset_lookup_for_estimator :: "studio \<Rightarrow> preset_lookup" where
  "rl_preset_lookup_for_estimator sd ref =
     (let service = service_of (sd_presets sd) in
      case ref of
        PStr s \<Rightarrow>
          if take 3 s = ''RL:'' then rs_get service (drop 3 s)
          else if strip s \<noteq> [] \<and> list_all is_digit (strip s)
            then (case py_int_str (strip s) of Some n \<Rightarrow> rs_get_by_id service n | None \<Rightarrow> None)
          else rs_get service (strip s)
      | PInt i \<Rightarrow> rs_get_by_id service i
      | PBool b \<Rightarrow> rs_get_by_id service (if b then 1 else 0)
      | _ \<Rightarrow> None)"

definition scene_cost_payload :: "studio \<Rightarrow> action list \<Rightarrow> (action_cost \<times> action_cost list) res" where
  "scene_cost_payload sd =
     estimate_scene (known_group_ids_from_ctx sd) (Some (rl_preset_lookup_for_estimator sd))
       (Some (device_lookup_in (hs_devices (sd_host sd))))"

definition cost_response :: "(action_cost \<times> action_cost list) res \<Rightarrow> (action_cost \<times> action_cost list) response" where
  "cost_response r = (case r of Inl e \<Rightarrow> Refused 500 | Inr c \<Rightarrow> Answer c)"

definition scenes_estimate :: "string \<Rightarrow> studio \<Rightarrow> (action_cost \<times> action_cost list) response \<times> studio" where
  "scenes_estimate key sd =
     (case scenes_get key sd of
        (Refused code, sd) \<Rightarrow> (Refused code, sd)
      | (Answer sc, sd) \<Rightarrow> (cost_response (scene_cost_payload sd (sc_actions sc)), sd))"

text \<open>The checks of a draft, with the label that must be a text.\<close>

definition draft_actions :: "pydict \<Rightarrow> pyval \<Rightarrow> action list response" where
  "draft_actions body actions =
     (case canonical_actions actions of
        Inl e \<Rightarrow> Refused (if e = ValueError then 400 else 500)
      | Inr as \<Rightarrow> if text_arg (dget body ''label'') = None then Refused 500 else Answer as)"

definition scenes_estimate_draft :: "pyval \<Rightarrow> studio \<Rightarrow> (action_cost \<times> action_cost list) response" where
  "scenes_estimate_draft json sd =
     (case py_or json (PDict []) of
        PDict body \<Rightarrow>
          (case draft_actions body (py_or (dget body ''actions'') (PList [])) of
             Refused code \<Rightarrow> Refused code
           | Answer as \<Rightarrow> cost_response (scene_cost_payload sd as))
      | _ \<Rightarrow> Refused 500)"

section \<open>Running a scene\<close>

definition runner_of :: "studio \<Rightarrow> runner" where
  "runner_of sd = \<lparr>rn_presets = Some (service_of (sd_presets sd)), rn_startblock = sd_startblock sd\<rparr>"

definition saved_scene :: "string \<Rightarrow> studio \<Rightarrow> scene option res \<times> studio" where
  "saved_scene key sd = (case scene_get key (sd_scenes sd) of (r, s) \<Rightarrow> (r, sd\<lparr>sd_scenes := s\<rparr>))"

definition execute :: "string \<Rightarrow> scene option \<Rightarrow> studio \<Rightarrow> scene_run_result response \<times> studio" where
  "execute key sc sd =
     (case run_scene (runner_of sd) (\<lambda>_. None) key sc (sd_host sd) of
        (result, pg, h) \<Rightarrow>
          (if \<not> sr_ok result \<and> sr_error result = Some ''scene_not_found'' then Refused 404 else Answer result,
           sd\<lparr>sd_host := h, sd_progress := sd_progress sd @ pg\<rparr>))"

text \<open>Whether a draft stops on an error: its own word, else that of the saved scene, else yes.\<close>

definition draft_stops :: "string \<Rightarrow> pydict \<Rightarrow> studio \<Rightarrow> bool res \<times> studio" where
  "draft_stops key body sd =
     (if has_key body ''stop_on_error'' then (Inr (py_truth (dget body ''stop_on_error'')), sd)
      else case saved_scene key sd of
        (Inl e, sd) \<Rightarrow> (Inl e, sd)
      | (Inr None, sd) \<Rightarrow> (Inr True, sd)
      | (Inr (Some sc), sd) \<Rightarrow> (Inr (sc_stop_on_error sc), sd))"

definition draft_label :: "pydict \<Rightarrow> string" where
  "draft_label body =
     (case text_arg (dget body ''label'') of
        Some (Some l) \<Rightarrow> if strip l = [] then ''draft'' else strip l
      | _ \<Rightarrow> ''draft'')"

definition draft_scene :: "string \<Rightarrow> string \<Rightarrow> action list \<Rightarrow> bool \<Rightarrow> scene" where
  "draft_scene key label as stop =
     \<lparr>sc_id = 0, sc_key = key, sc_label = label, sc_created = PNone, sc_updated = PNone, sc_actions = as, sc_stop_on_error = stop\<rparr>"

definition scenes_run :: "string \<Rightarrow> pyval \<Rightarrow> studio \<Rightarrow> scene_run_result response \<times> studio" where
  "scenes_run key json sd =
     (case py_or json (PDict []) of
        PDict body \<Rightarrow>
          if dget body ''actions'' \<noteq> PNone then
            (case canonical_actions (dget body ''actions'') of
               Inl e \<Rightarrow> (Refused (if e = ValueError then 400 else 500), sd)
             | Inr as \<Rightarrow>
                 (case draft_stops key body sd of
                    (Inl e, sd) \<Rightarrow> (Refused 500, sd)
                  | (Inr stop, sd) \<Rightarrow>
                      if text_arg (dget body ''label'') = None then (Refused 500, sd)
                      else execute key (Some (draft_scene key (draft_label body) as stop)) sd))
          else
            (case saved_scene key sd of
               (Inl e, sd) \<Rightarrow> (Refused 500, sd)
             | (Inr sc, sd) \<Rightarrow> execute key sc sd)
      | _ \<Rightarrow> (Refused 500, sd))"

section \<open>What a request does to the list\<close>

definition shows_list :: "scene list \<Rightarrow> scene_store \<Rightarrow> bool" where
  "shows_list xs s \<longleftrightarrow> (\<exists>n. represents scene_kind scene_ok s xs n)"

text \<open>Nothing but the cache has changed.\<close>

definition untouched :: "scene list \<Rightarrow> scene_store \<Rightarrow> scene_store \<Rightarrow> bool" where
  "untouched xs s s' \<longleftrightarrow> shows_list xs s' \<and> st_file s' = st_file s"

lemma shows_listI: "represents scene_kind scene_ok s xs n \<Longrightarrow> shows_list xs s"
  by (auto simp: shows_list_def)

lemma shows_list_fst: "shows_list xs s \<Longrightarrow> fst (scene_list s) = Inr xs"
  using scenes.items_run by (fastforce simp: shows_list_def scene_list_def)

lemma untouched_loaded:
  "represents scene_kind scene_ok s xs n \<Longrightarrow> untouched xs s (s\<lparr>st_cache := Some xs, st_next_id := Some n\<rparr>)"
  using scenes.represents_loaded by (auto simp: untouched_def shows_list_def)

lemma untouched_same: "shows_list xs s \<Longrightarrow> untouched xs s s"
  by (simp add: untouched_def)

lemma shows_committed: "store_ok scene_kind scene_ok ys m \<Longrightarrow> shows_list ys (scenes.committed s ys m)"
  by (rule shows_listI [OF scenes.represents_committed])

lemma unique_key_error: "unique_key d ks x = Inl e \<Longrightarrow> e \<noteq> ValueError"
  by (auto simp: unique_key_def Let_def split: if_split_asm option.split_asm)

lemma create_outcome:
  assumes s: "shows_list xs s" and h: "harmless known actions"
    and c: "scene_create known label actions key stop s = (r, s')"
  shows "case r of Inl e \<Rightarrow> (e = ValueError \<longrightarrow> untouched xs s s') | Inr sc \<Rightarrow> shows_list (xs @ [sc]) s'"
proof -
  obtain n where rep: "represents scene_kind scene_ok s xs n" using s by (auto simp: shows_list_def)
  define lab where "lab = strip (case label of None \<Rightarrow> [] | Some l \<Rightarrow> l)"
  show ?thesis
  proof (cases "lab = [] \<or> (\<exists>e. canonical_actions actions = Inl e)")
    case True
    then have "s' = s" "\<exists>e. r = Inl e" using c by (auto simp: scene_create_def lab_def pbind_def Let_def split: if_split_asm)
    then show ?thesis using untouched_same [OF s] by auto
  next
    case False
    then obtain as where as: "canonical_actions actions = Inr as" and lab: "lab \<noteq> []"
      by (cases "canonical_actions actions") auto
    define wanted where "wanted = (case key of Some k \<Rightarrow> if k = [] then lab else k | None \<Rightarrow> lab)"
    define b where "b = (if stop = PNone then True else coerce_bool stop True)"
    have run: "store_create scene_kind (slugify ''scene'' wanted) (build_scene lab (apply_broadcast_collapse known as) b) s = (r, s')"
      using c as lab by (simp add: scene_create_def pbind_def Let_def flip: lab_def wanted_def b_def)
    show ?thesis
    proof (cases "unique_key (slugify ''scene'' wanted) (map sc_key xs) None")
      case (Inl e)
      then have "r = Inl e" using run scenes.items_run [OF rep] by (simp add: store_create_def pbind_def)
      with unique_key_error [OF Inl] show ?thesis by simp
    next
      case (Inr key')
      let ?sc = "\<lparr>sc_id = n, sc_key = key', sc_label = lab, sc_created = now_iso (st_now s),
        sc_updated = now_iso (st_now s), sc_actions = apply_broadcast_collapse known as, sc_stop_on_error = b\<rparr>"
      have "scene_ok ?sc" using collapse_ok [OF as h] by (simp add: scene_ok_iff)
      note c = scenes.create_run [where build = "build_scene lab (apply_broadcast_collapse known as) b", OF rep, of _ key' ?sc,
          unfolded scene_kind_fields, OF Inr _ this]
      from c run show ?thesis by (auto simp: build_scene_def shows_committed split: if_split_asm)
    qed
  qed
qed

lemma update_outcome:
  assumes s: "shows_list xs s" and h: "harmless known actions"
    and u: "scene_update known key label actions stop s = (r, s')"
  shows "case r of Inl e \<Rightarrow> (e = ValueError \<longrightarrow> untouched xs s s') | Inr None \<Rightarrow> untouched xs s s'
     | Inr (Some sc) \<Rightarrow> (\<exists>i < length xs. sc_key (xs ! i) = key \<and> sc_key sc = key \<and> sc_id sc = sc_id (xs ! i) \<and> shows_list (xs[i := sc]) s')"
proof -
  obtain n where rep: "represents scene_kind scene_ok s xs n" using s by (auto simp: shows_list_def)
  let ?canon = "if actions = PNone then Inr None
      else rbind (canonical_actions actions) (\<lambda>as. Inr (Some (apply_broadcast_collapse known as)))"
  show ?thesis
  proof (cases "?canon")
    case (Inl e)
    then have "r = Inl e" "s' = s" using u unfolding scene_update_def by (simp_all add: pbind_def)
    then show ?thesis using untouched_same [OF s] by simp
  next
    case (Inr cs)
    have cs: "\<forall>as. cs = Some as \<longrightarrow> actions_ok as \<and> json_plain (actions_doc as)"
      using Inr collapse_ok [OF _ h] by (auto split: if_split_asm elim!: rbind_InrE)
    have run: "store_update scene_kind key (modify_scene label cs stop) s = (r, s')"
      using u unfolding scene_update_def Inr by (simp add: pbind_def)
    show ?thesis
    proof (cases "index_where (\<lambda>x. sk_key scene_kind x = key) xs")
      case None
      then have "key \<notin> set (map (sk_key scene_kind) xs)" by (auto simp: index_where_None)
      from scenes.update_missing_run [OF rep this] run show ?thesis using untouched_loaded [OF rep] by auto
    next
      case (Some i)
      note i = index_where_SomeD [OF Some]
      show ?thesis
      proof (cases "modify_scene label cs stop (st_now s) (xs ! i)")
        case (Inl e)
        from scenes.update_refused_run [OF rep Some, of "modify_scene label cs stop", OF Inl] run
        show ?thesis using untouched_loaded [OF rep] by auto
      next
        case m: (Inr y)
        have "scene_ok (xs ! i)" using scenes.representsD [OF rep] i by (simp add: store_ok_def)
        note y = modify_scene_ok [OF this m cs]
        note ur = scenes.update_run [OF rep Some, of "modify_scene label cs stop", OF m]
        from ur y run i show ?thesis by (auto simp: shows_committed split: if_split_asm)
      qed
    qed
  qed
qed

lemma delete_outcome:
  assumes s: "shows_list xs s" and d: "scene_delete key s = (r, s')"
  shows "case r of Inl e \<Rightarrow> e \<noteq> ValueError
     | Inr gone \<Rightarrow> if gone then key \<in> sc_key ` set xs \<and> shows_list (filter (\<lambda>x. sc_key x \<noteq> key) xs) s' else untouched xs s s'"
proof -
  obtain n where rep: "represents scene_kind scene_ok s xs n" using s by (auto simp: shows_list_def)
  have "store_ok scene_kind scene_ok (filter (\<lambda>x. sc_key x \<noteq> key) xs) n"
    by (rule scenes.store_ok_filter [OF scenes.representsD [OF rep]])
  then show ?thesis using d scenes.delete_run [OF rep, of key] untouched_loaded [OF rep]
    by (auto simp: scene_delete_def shows_committed split: if_split_asm)
qed

lemma get_outcome:
  assumes "shows_list xs s" and "scene_get key s = (r, s')"
  shows "r = Inr (find_where (\<lambda>x. sc_key x = key) xs) \<and> untouched xs s s'"
  using assms scenes.get_run untouched_loaded by (fastforce simp: shows_list_def scene_get_def)

lemma untouched_trans: "untouched xs s s1 \<Longrightarrow> untouched xs s1 s2 \<Longrightarrow> untouched xs s s2"
  by (simp add: untouched_def)

lemma duplicate_outcome:
  assumes s: "shows_list xs s" and h: "\<forall>x \<in> set xs. harmless known (actions_doc (sc_actions x))"
    and d: "scene_duplicate known key label s = (r, s')"
  shows "case r of Inl e \<Rightarrow> (e = ValueError \<longrightarrow> untouched xs s s') | Inr None \<Rightarrow> untouched xs s s'
     | Inr (Some sc) \<Rightarrow> shows_list (xs @ [sc]) s'"
proof -
  obtain g s1 where get: "scene_get key s = (g, s1)" by fastforce
  note g = get_outcome [OF s get]
  show ?thesis
  proof (cases "find_where (\<lambda>x. sc_key x = key) xs")
    case None
    then show ?thesis using d g get by (auto simp: scene_duplicate_def pbind_def)
  next
    case (Some src)
    let ?label = "strip (case label of Some l \<Rightarrow> if l = [] then sc_label src @ '' copy'' else l | None \<Rightarrow> sc_label src @ '' copy'')"
    obtain r2 s2 where c: "scene_create known (Some ?label) (actions_doc (sc_actions src)) None (PBool (sc_stop_on_error src)) s1 = (r2, s2)"
      by fastforce
    have "harmless known (actions_doc (sc_actions src))" using h find_where_Some [OF Some] by blast
    from create_outcome [OF _ this c] g have out: "case r2 of Inl e \<Rightarrow> (e = ValueError \<longrightarrow> untouched xs s1 s2) | Inr sc \<Rightarrow> shows_list (xs @ [sc]) s2"
      by (simp add: untouched_def)
    have "s' = s2" "r = (case r2 of Inl e \<Rightarrow> Inl e | Inr sc \<Rightarrow> Inr (Some sc))"
      using d g get Some c by (auto simp: scene_duplicate_def pbind_def Let_def split: sum.split_asm)
    then show ?thesis using out g by (cases r2) (auto intro: untouched_trans)
  qed
qed

definition body_of :: "pyval \<Rightarrow> pydict" where
  "body_of json = (case py_or json (PDict []) of PDict body \<Rightarrow> body | _ \<Rightarrow> [])"

text \<open>The actions of a request are JSON, and no container of them covers all known groups explicitly.\<close>

fun request_ok :: "int list option \<Rightarrow> scene list \<Rightarrow> scene_request \<Rightarrow> bool" where
  "request_ok known xs (PostScene json) = harmless known (dget (body_of json) ''actions'')"
| "request_ok known xs (PutScene key json) = harmless known (dget (body_of json) ''actions'')"
| "request_ok known xs (CopyScene key json) = (\<forall>x \<in> set xs. harmless known (actions_doc (sc_actions x)))"
| "request_ok known xs (DeleteScene key) = True"

text \<open>The list after a success, given the answer.\<close>

fun list_after :: "scene_request \<Rightarrow> scene option \<Rightarrow> scene list \<Rightarrow> scene list option" where
  "list_after (PostScene json) (Some sc) xs = Some (xs @ [sc])"
| "list_after (PutScene key json) (Some sc) xs = Some (map (\<lambda>x. if sc_key x = key then sc else x) xs)"
| "list_after (CopyScene key json) (Some sc) xs = Some (xs @ [sc])"
| "list_after (DeleteScene key) None xs = Some (filter (\<lambda>x. sc_key x \<noteq> key) xs)"
| "list_after _ _ xs = None"

definition request_done :: "scene_request \<Rightarrow> scene list \<Rightarrow> scene_store \<Rightarrow> scene option option res \<Rightarrow> scene_store \<Rightarrow> bool" where
  "request_done req xs s r s' \<longleftrightarrow>
     (case r of
        Inl e \<Rightarrow> e = ValueError \<longrightarrow> untouched xs s s'
      | Inr None \<Rightarrow> untouched xs s s'
      | Inr (Some out) \<Rightarrow> \<exists>ys. list_after req out xs = Some ys \<and> shows_list ys s')"

lemma update_by_key:
  assumes "distinct (map f xs)" and "i < length xs" and "f (xs ! i) = key"
  shows "xs[i := y] = map (\<lambda>x. if f x = key then y else x) xs"
proof (rule nth_equalityI)
  fix j assume "j < length (xs[i := y])"
  moreover have "f (xs ! j) = key \<longleftrightarrow> j = i" if "j < length xs"
    using that assms nth_eq_iff_index_eq [OF assms(1), of j i] by auto
  ultimately show "xs[i := y] ! j = map (\<lambda>x. if f x = key then y else x) xs ! j" by (simp add: nth_list_update)
qed simp

lemma present_or_none_outcome:
  assumes s: "shows_list xs s" and "present_or_none (scene_get key) s = (r, s')"
  shows "untouched xs s s' \<and> (r = Inr None \<or> r = Inl AttributeError)"
proof -
  obtain g s1 where get: "scene_get key s = (g, s1)" by fastforce
  from get_outcome [OF s get] get assms(2) show ?thesis
    by (auto simp: present_or_none_def pbind_def split: option.split_asm)
qed

lemma request_outcome:
  assumes s: "shows_list xs s" and ok: "request_ok known xs req" and run: "request_op known req s = (r, s')"
  shows "request_done req xs s r s'"
proof (cases req)
  case (PostScene json)
  show ?thesis
  proof (cases "py_or json (PDict [])")
    case (PDict body)
    then have h: "harmless known (dget body ''actions'')" using ok PostScene by (simp add: body_of_def)
    show ?thesis
    proof (cases "\<exists>label key. dget body ''label'' = PStr label \<and> strip label \<noteq> [] \<and> text_arg (dget body ''key'') = Some key")
      case True
      then obtain label key where l: "dget body ''label'' = PStr label" "strip label \<noteq> []" "text_arg (dget body ''key'') = Some key"
        by blast
      obtain r1 s1 where c: "scene_create known (Some label) (dget body ''actions'') key (dget body ''stop_on_error'') s = (r1, s1)"
        by fastforce
      from run PostScene PDict l c have "s' = s1" "r = (case r1 of Inl e \<Rightarrow> Inl e | Inr sc \<Rightarrow> Inr (Some (Some sc)))"
        by (auto simp: post_scene_def pbind_def split: sum.split_asm)
      with create_outcome [OF s h c] show ?thesis by (cases r1) (auto simp: request_done_def PostScene)
    next
      case False
      have "untouched xs s s' \<and> (\<exists>e. r = Inl e)"
      proof (cases "\<exists>label as. dget body ''label'' = PStr label \<and> strip label \<noteq> [] \<and> canonical_actions (dget body ''actions'') = Inr as")
        case True
        then obtain label as where l: "dget body ''label'' = PStr label" "strip label \<noteq> []" "canonical_actions (dget body ''actions'') = Inr as"
          by blast
        with False have "text_arg (dget body ''key'') = None" by (cases "text_arg (dget body ''key'')") auto
        moreover obtain n where rep: "represents scene_kind scene_ok s xs n" using s by (auto simp: shows_list_def)
        ultimately show ?thesis
          using run PostScene PDict l scenes.items_run [OF rep] untouched_loaded [OF rep]
          by (auto simp: post_scene_def pbind_def scene_list_def)
      next
        case none: False
        then have "s' = s" "\<exists>e. r = Inl e"
          using run PostScene PDict False
          by (auto simp: post_scene_def pbind_def split: pyval.split_asm if_split_asm option.split_asm sum.split_asm)
        then show ?thesis using untouched_same [OF s] by simp
      qed
      then show ?thesis by (auto simp: request_done_def)
    qed
  qed (use run PostScene untouched_same [OF s] in \<open>auto simp: pbind_def request_done_def\<close>)
next
  case (PutScene key json)
  show ?thesis
  proof (cases "py_or json (PDict [])")
    case (PDict body)
    then have h: "harmless known (dget body ''actions'')" using ok PutScene by (simp add: body_of_def)
    show ?thesis
    proof (cases "label_arg (dget body ''label'')")
      case (Some label)
      obtain r1 s1 where u: "scene_update known key label (dget body ''actions'') (dget body ''stop_on_error'') s = (r1, s1)"
        by fastforce
      have eq: "s' = s1" "r = (case r1 of Inl e \<Rightarrow> Inl e | Inr x \<Rightarrow> Inr (map_option Some x))"
        using run PutScene PDict Some u by (auto simp: put_scene_def pbind_def split: sum.split_asm)
      have "distinct (map sc_key xs)" using s scenes.representsD by (auto simp: shows_list_def store_ok_lists)
      then have "sc_key (xs ! i) = key \<Longrightarrow> i < length xs \<Longrightarrow> map (\<lambda>x. if sc_key x = key then y else x) xs = xs[i := y]" for i y
        by (rule update_by_key [symmetric])
      with update_outcome [OF s h u] eq show ?thesis
        by (auto simp: request_done_def PutScene split: sum.split_asm option.split_asm)
    next
      case None
      let ?check = "plift (if dget body ''actions'' = PNone then Inr [] else canonical_actions (dget body ''actions''))
        :: (scene_store, action list) proc"
      have put: "put_scene known key body = pbind ?check (\<lambda>_. present_or_none (scene_get key))"
        by (simp add: put_scene_def None)
      obtain c where c: "?check s = (c, s)" by (cases "?check s") simp
      show ?thesis
      proof (cases c)
        case (Inl e)
        then show ?thesis using run PutScene PDict put c untouched_same [OF s] by (auto simp: pbind_def request_done_def)
      next
        case (Inr as)
        obtain g s1 where p: "present_or_none (scene_get key) s = (g, s1)" by fastforce
        from present_or_none_outcome [OF s p] have "g = Inr None \<or> g = Inl AttributeError" "untouched xs s s1" by auto
        then show ?thesis using run PutScene PDict put c Inr p by (auto simp: pbind_def request_done_def)
      qed
    qed
  qed (use run PutScene untouched_same [OF s] in \<open>auto simp: pbind_def request_done_def\<close>)
next
  case (CopyScene key json)
  show ?thesis
  proof (cases "py_or json (PDict [])")
    case (PDict body)
    show ?thesis
    proof (cases "text_arg (dget body ''label'')")
      case (Some label)
      obtain r1 s1 where d: "scene_duplicate known key label s = (r1, s1)" by fastforce
      have eq: "s' = s1" "r = (case r1 of Inl e \<Rightarrow> Inl e | Inr x \<Rightarrow> Inr (map_option Some x))"
        using run CopyScene PDict Some d by (auto simp: copy_scene_def pbind_def split: sum.split_asm)
      have "\<forall>x \<in> set xs. harmless known (actions_doc (sc_actions x))" using ok CopyScene by simp
      from duplicate_outcome [OF s this d] eq show ?thesis
        by (auto simp: request_done_def CopyScene split: sum.split_asm option.split_asm)
    next
      case None
      obtain g s1 where p: "present_or_none (scene_get key) s = (g, s1)" by fastforce
      from present_or_none_outcome [OF s p] have "g = Inr None \<or> g = Inl AttributeError" "untouched xs s s1" by auto
      then show ?thesis using run CopyScene PDict None p by (auto simp: copy_scene_def pbind_def request_done_def)
    qed
  qed (use run CopyScene untouched_same [OF s] in \<open>auto simp: pbind_def request_done_def\<close>)
next
  case (DeleteScene key)
  obtain r1 s1 where d: "scene_delete key s = (r1, s1)" by fastforce
  with run DeleteScene have "s' = s1" "r = (case r1 of Inl e \<Rightarrow> Inl e | Inr b \<Rightarrow> Inr (if b then Some None else None))"
    by (auto simp: pbind_def split: sum.split_asm)
  with delete_outcome [OF s d] show ?thesis
    by (auto simp: request_done_def DeleteScene split: sum.split_asm if_split_asm)
qed


section \<open>Estimates and runs agree\<close>

text \<open>The duplicated lookups of the web layer are those of the runner.\<close>

lemma estimator_lookup: "rl_preset_lookup_for_estimator sd = rl_preset_lookup (service_of (sd_presets sd))"
proof (rule ext)
  fix ref
  show "rl_preset_lookup_for_estimator sd ref = rl_preset_lookup (service_of (sd_presets sd)) ref"
    by (cases ref) (simp_all add: rl_preset_lookup_for_estimator_def rl_preset_lookup_def Let_def)
qed

lemma estimator_groups: "known_group_ids_from_ctx sd = known_group_ids (hs_devices (sd_host sd))"
  by (simp add: known_group_ids_from_ctx_def known_group_ids_def)

lemma rmap_list_all2: "rmap f xs = Inr ys \<Longrightarrow> list_all2 (\<lambda>x y. f x = Inr y) xs ys"
  by (induction xs arbitrary: ys) (auto simp: rbind_eq_Inr)

lemma total_packets: "co_packets (fold add_cost cs acc) = co_packets acc + sum_list (map co_packets cs)"
  by (induction cs arbitrary: acc) (simp_all add: add_cost_def)

lemma packets_of_ops:
  "co_packets (fold (\<lambda>op. add_packet (w_body_bytes op)) ops acc) = co_packets acc + length ops"
  by (induction ops arbitrary: acc) (simp_all add: add_packet_def Let_def)

text \<open>What the runner plans for an action in the present state: the number of its packets, none for a pause.\<close>

definition planned_packets :: "studio \<Rightarrow> action \<Rightarrow> nat res" where
  "planned_packets sd a =
     (case a of Delay ms \<Rightarrow> Inr 0
      | _ \<Rightarrow> rbind (plan_for (runner_of sd) (sd_host sd) a) (\<lambda>plan. Inr (length (ap_ops plan))))"

lemma estimate_packets:
  assumes "estimate_action (known_group_ids_from_ctx sd) (Some (rl_preset_lookup_for_estimator sd))
      (Some (device_lookup_in (hs_devices (sd_host sd)))) a = Inr c"
  shows "planned_packets sd a = Inr (co_packets c)"
proof (cases "\<exists>ms. a = Delay ms")
  case True
  then show ?thesis using assms by (auto simp: estimate_action_def planned_packets_def no_cost_def)
next
  case False
  then obtain plan where p: "plan_action_dispatch (known_group_ids_from_ctx sd) (Some (rl_preset_lookup_for_estimator sd))
      (Some (device_lookup_in (hs_devices (sd_host sd)))) None a = Inr plan"
    and c: "co_packets c = co_packets (fold (\<lambda>op. add_packet (w_body_bytes op)) (ap_ops plan) no_cost)"
    using assms by (cases a) (auto simp: estimate_action_def Let_def rbind_eq_Inr)
  have "plan_for (runner_of sd) (sd_host sd) a = Inr plan"
    using p by (simp add: plan_for_def runner_of_def estimator_lookup estimator_groups)
  moreover have "co_packets c = length (ap_ops plan)" using c by (simp add: packets_of_ops no_cost_def)
  ultimately show ?thesis using False by (cases a) (auto simp: planned_packets_def)
qed

lemma scenes_get_state: "scenes_get key sd = (resp, sd') \<Longrightarrow> sd_host sd' = sd_host sd \<and> runner_of sd' = runner_of sd"
  by (auto simp: scenes_get_def runner_of_def split: prod.split_asm sum.split_asm option.split_asm)

text \<open>
  C23.  The estimate shown for a saved scene is what a run would plan.  When the estimate is answered, the scene exists, and action
  by action the packets shown are those of the plan the runner makes in this state, with its own lookups of presets, groups and
  devices; the total is their sum.
\<close>

theorem estimate_is_plan:
  assumes "scenes_estimate key sd = (Answer (whole, per_action), sd')"
  shows "\<exists>sc. fst (scene_get key (sd_scenes sd)) = Inr (Some sc) \<and>
     map (planned_packets sd) (sc_actions sc) = map (\<lambda>c. Inr (co_packets c)) per_action \<and>
     co_packets whole = sum_list (map co_packets per_action)"
proof -
  obtain sc where g: "scenes_get key sd = (Answer sc, sd')" and
    e: "scene_cost_payload sd' (sc_actions sc) = Inr (whole, per_action)"
    using assms by (auto simp: scenes_estimate_def cost_response_def split: prod.split_asm response.split_asm sum.split_asm)
  have st: "sd_host sd' = sd_host sd" "runner_of sd' = runner_of sd" using scenes_get_state [OF g] by simp_all
  have planned: "planned_packets sd' = planned_packets sd"
    by (rule ext) (simp only: planned_packets_def st)
  have "rmap (estimate_action (known_group_ids_from_ctx sd') (Some (rl_preset_lookup_for_estimator sd'))
      (Some (device_lookup_in (hs_devices (sd_host sd'))))) (sc_actions sc) = Inr per_action"
    using e by (auto simp: scene_cost_payload_def estimate_scene_def rbind_eq_Inr)
  from rmap_list_all2 [OF this] have "list_all2 (\<lambda>a c. planned_packets sd' a = Inr (co_packets c)) (sc_actions sc) per_action"
    by (rule list_all2_mono) (rule estimate_packets)
  then have "map (planned_packets sd) (sc_actions sc) = map (\<lambda>c. Inr (co_packets c)) per_action"
    unfolding planned by (simp add: list_all2_conv_all_nth list_eq_iff_nth_eq)
  moreover have "co_packets whole = sum_list (map co_packets per_action)"
    using e by (auto simp: scene_cost_payload_def estimate_scene_def rbind_eq_Inr total_packets no_cost_def)
  moreover have "fst (scene_get key (sd_scenes sd)) = Inr (Some sc)"
    using g by (auto simp: scenes_get_def split: prod.split_asm sum.split_asm option.split_asm)
  ultimately show ?thesis by blast
qed

text \<open>
  C24.  Running a draft leaves the saved scenes alone.  A run that is given actions executes exactly their canonical form
  under the key it was called with, whether or not that key is stored, and stores nothing: the list of scenes and the file are
  what they were, and no change is announced.
\<close>

theorem draft_run_keeps_store:
  assumes "scene_reach (sd_scenes sd)" and "scene_list (sd_scenes sd) = (Inr xs, s1)"
    and "py_or json (PDict []) = PDict body" and "dget body ''actions'' \<noteq> PNone"
    and "scenes_run key json sd = (Answer result, sd')"
  shows "\<exists>as stop. canonical_actions (dget body ''actions'') = Inr as \<and>
     (has_key body ''stop_on_error'' \<longrightarrow> stop = py_truth (dget body ''stop_on_error'')) \<and>
     (\<not> has_key body ''stop_on_error'' \<longrightarrow>
        stop = (case find_where (\<lambda>x. sc_key x = key) xs of None \<Rightarrow> True | Some sc \<Rightarrow> sc_stop_on_error sc)) \<and>
     (\<exists>pg. run_scene (runner_of sd) (\<lambda>_. None) key (Some (draft_scene key (draft_label body) as stop)) (sd_host sd) =
        (result, pg, sd_host sd') \<and> sd_progress sd' = sd_progress sd @ pg) \<and>
     fst (scene_list (sd_scenes sd')) = Inr xs \<and> st_file (sd_scenes sd') = st_file (sd_scenes sd) \<and>
     sd_refreshes sd' = sd_refreshes sd"
proof -
  obtain n where "represents scene_kind scene_ok (sd_scenes sd) xs n"
    by (rule listed [OF reachable_coherent [OF assms(1)] assms(2)])
  then have s: "shows_list xs (sd_scenes sd)" by (rule shows_listI)
  obtain as where as: "canonical_actions (dget body ''actions'') = Inr as"
    using assms(3-5) by (simp add: scenes_run_def split: sum.split_asm)
  obtain st sd1 where d: "draft_stops key body sd = (st, sd1)" by fastforce
  obtain stop where stop: "st = Inr stop" and run: "execute key (Some (draft_scene key (draft_label body) as stop)) sd1 = (Answer result, sd')"
    using assms(3-5) as d by (simp add: scenes_run_def split: sum.split_asm if_split_asm)
  obtain g s2 where g: "scene_get key (sd_scenes sd) = (g, s2)" by fastforce
  note get = get_outcome [OF s g]
  have sd1: "untouched xs (sd_scenes sd) (sd_scenes sd1)" "sd_host sd1 = sd_host sd" "sd_refreshes sd1 = sd_refreshes sd"
      "sd_progress sd1 = sd_progress sd" "runner_of sd1 = runner_of sd" and
    st: "has_key body ''stop_on_error'' \<longrightarrow> stop = py_truth (dget body ''stop_on_error'')"
      "\<not> has_key body ''stop_on_error'' \<longrightarrow>
        stop = (case find_where (\<lambda>x. sc_key x = key) xs of None \<Rightarrow> True | Some sc \<Rightarrow> sc_stop_on_error sc)"
    using d stop g get untouched_same [OF s]
    by (auto simp: draft_stops_def saved_scene_def runner_of_def split: if_split_asm option.split_asm)
  obtain res pg h where r: "run_scene (runner_of sd) (\<lambda>_. None) key (Some (draft_scene key (draft_label body) as stop)) (sd_host sd) = (res, pg, h)"
    by (metis prod_cases3)
  have "res = result" "sd' = sd1\<lparr>sd_host := h, sd_progress := sd_progress sd1 @ pg\<rparr>"
    using run r sd1 by (auto simp: execute_def split: if_split_asm)
  with r sd1 st as show ?thesis by (auto simp: untouched_def shows_list_fst)
qed

section \<open>Concrete requests\<close>

definition empty_studio :: studio where
  "empty_studio = \<lparr>sd_scenes = empty_store, sd_presets = empty_presets,
     sd_host = \<lparr>hs_devices = [], hs_transport = True, hs_sent = [], hs_outcomes = (\<lambda>_. outcome_success),
       hs_clock = (\<lambda>_. 7), hs_reads = 0, hs_slept = []\<rparr>,
     sd_known = None, sd_startblock = None, sd_refreshes = [], sd_progress = []\<rparr>"

definition start_body :: pyval where
  "start_body = PDict [(''label'', PStr '' Start ''), (''actions'', actions_doc [Sync, Delay 5])]"


definition saved_studio :: studio where
  "saved_studio = snd (scene_route (PostScene start_body) empty_studio)"

theorem estimate_is_plan_witness:
  "\<exists>whole per_action sd'. scenes_estimate ''start'' saved_studio = (Answer (whole, per_action), sd') \<and>
     map co_packets per_action = [1, 0] \<and> co_packets whole = sum_list (map co_packets per_action)"
proof -
  have "case fst (scenes_estimate ''start'' saved_studio) of Answer (w, cs) \<Rightarrow> map co_packets cs = [1, 0] | Refused c \<Rightarrow> False"
    by code_simp
  then obtain w cs sd' where e: "scenes_estimate ''start'' saved_studio = (Answer (w, cs), sd')" and m: "map co_packets cs = [1, 0]"
    by (cases "scenes_estimate ''start'' saved_studio") (auto split: response.split_asm)
  from estimate_is_plan [OF e] have "co_packets w = sum_list (map co_packets cs)" by (elim exE conjE)
  with e m show ?thesis by (intro exI conjI)
qed

definition draft_body :: pydict where
  "draft_body = [(''actions'', actions_doc [Sync]), (''label'', PStr ''try'')]"

theorem draft_run_keeps_store_witness:
  "\<exists>result sd'. scenes_run ''unknown'' (PDict draft_body) empty_studio = (Answer result, sd') \<and> sr_ok result \<and>
     fst (scene_list (sd_scenes sd')) = Inr []"
proof -
  have "case fst (scenes_run ''unknown'' (PDict draft_body) empty_studio) of Answer r \<Rightarrow> sr_ok r | Refused c \<Rightarrow> False"
    by code_simp
  then obtain result sd' where r: "scenes_run ''unknown'' (PDict draft_body) empty_studio = (Answer result, sd')" and "sr_ok result"
    by (cases "scenes_run ''unknown'' (PDict draft_body) empty_studio") (auto split: response.split_asm)
  have st: "scene_reach (sd_scenes empty_studio)" "scene_list (sd_scenes empty_studio) =
      (Inr [], empty_store\<lparr>st_cache := Some [], st_next_id := Some 0\<rparr>)"
    by (simp_all add: empty_studio_def empty_reach)
  have body: "py_or (PDict draft_body) (PDict []) = PDict draft_body" "dget draft_body ''actions'' \<noteq> PNone"
    by (simp_all add: draft_body_def py_or_def dget_or_def actions_doc_def)
  from draft_run_keeps_store [OF st body r] show ?thesis using r \<open>sr_ok result\<close> by blast
qed

end
