(* ===== verification/Host_Wifi.thy ===== *)
theory Host_Wifi
  imports State_File Codec
begin

text \<open>
  The WiFi of the host: \<^verbatim>\<open>racelink/services/host_wifi_service.py\<close>.  Everything goes through the command
  \<^verbatim>\<open>nmcli\<close>, which is outside of the program: its answers to the successive calls are an input, each with the
  time it takes; when they are used up every later call hangs until its time-out.  The code inspects the texts
  of exceptions, so that an exception here has its class and its text.
\<close>

section \<open>Exceptions and texts\<close>

datatype exn = Exn string string

primrec exn_text :: "exn \<Rightarrow> string" where
  "exn_text (Exn cls text) = text"

definition runtime_error :: "string \<Rightarrow> exn" where
  "runtime_error text = Exn ''RuntimeError'' text"

text \<open>\<open>repr\<close> of a string and of a list of strings.\<close>

definition repr_char :: "char \<Rightarrow> char \<Rightarrow> string" where
  "repr_char q c =
     (let n = (of_char c :: nat) in
      if c = q \<or> n = 92 then [CHR 0x5C, c]
      else if n = 10 then [CHR 0x5C, CHR ''n'']
      else if n = 13 then [CHR 0x5C, CHR ''r'']
      else if n = 9 then [CHR 0x5C, CHR ''t'']
      else if n < 32 \<or> n = 127 then [CHR 0x5C, CHR ''x''] @ lower (hex2 (int n))
      else [c])"

definition repr_str :: "string \<Rightarrow> string" where
  "repr_str s =
     (let q = (if CHR 0x27 \<in> set s \<and> CHR 0x22 \<notin> set s then CHR 0x22 else CHR 0x27)
      in q # concat (map (repr_char q) s) @ [q])"

fun join :: "string \<Rightarrow> string list \<Rightarrow> string" where
  "join sep [] = []"
| "join sep [s] = s"
| "join sep (s # t # ts) = s @ sep @ join sep (t # ts)"

definition repr_list :: "string list \<Rightarrow> string" where
  "repr_list xs = ''['' @ join '', '' (map repr_str xs) @ '']''"

definition is_line_end :: "char \<Rightarrow> bool" where
  "is_line_end c = (let n = (of_char c :: nat) in 10 \<le> n \<and> n \<le> 13 \<or> 28 \<le> n \<and> n \<le> 30)"

fun split_lines :: "string \<Rightarrow> string \<Rightarrow> string list" where
  "split_lines cur [] = (if cur = [] then [] else [rev cur])"
| "split_lines cur (c # cs) =
     (if is_line_end c
      then rev cur # split_lines [] (if c = CHR 0x0D \<and> cs \<noteq> [] \<and> hd cs = CHR 0x0A then tl cs else cs)
      else split_lines (c # cur) cs)"

fun split_on :: "char \<Rightarrow> string \<Rightarrow> string list" where
  "split_on sep [] = [[]]"
| "split_on sep (c # cs) =
     (if c = sep then [] # split_on sep cs
      else case split_on sep cs of [] \<Rightarrow> [[c]] | w # ws \<Rightarrow> (c # w) # ws)"

definition or_text :: "string \<Rightarrow> string \<Rightarrow> string" where
  "or_text a b = (if a \<noteq> [] then a else b)"

section \<open>Commands\<close>

text \<open>
  An answer is a finished process (duration, return code, output, error output) or an exception.
  \<open>nh_http\<close>, \<open>nh_files\<close> and \<open>nh_requests\<close> belong to the transfers.
\<close>

datatype nmcli_answer = Completed rat int string string | Breaks rat exn

text \<open>A response: duration, status and text with its reading as JSON; a failure: duration, exception, status code, error body.\<close>

datatype http_answer =
    Response rat int string "pyval option"
  | HttpFails rat exn "int option" string

datatype part = TextPart string string | FilePart string "byte list"

datatype http_request = Get string | PostForm string "(string \<times> string) list" | PostFile string "part list"

record net_host =
  nh_now :: rat
  nh_has_nmcli :: bool
  nh_setup_script :: "string option"
  nh_python :: string
  nh_answers :: "nmcli_answer list"
  nh_calls :: "string list list"
  nh_http :: "http_answer list"
  nh_requests :: "http_request list"
  nh_files :: "string \<Rightarrow> byte list option"

type_synonym 'a net_proc = "(net_host, exn, 'a) procedure"

definition pass :: "rat \<Rightarrow> net_host \<Rightarrow> net_host" where
  "pass d h = h\<lparr>nh_now := nh_now h + max 0 d\<rparr>"

definition timeout_expired :: "string list \<Rightarrow> exn" where
  "timeout_expired args = Exn ''TimeoutExpired'' (''Command '' @ repr_list (''nmcli'' # args) @ '' timed out'')"

definition nmcli_run :: "string list \<Rightarrow> rat \<Rightarrow> (int \<times> string \<times> string) net_proc" where
  "nmcli_run args timeout_s h =
     (if \<not> nh_has_nmcli h then (Inl (runtime_error ''nmcli not available on host (cannot switch WiFi automatically)''), h)
      else
        let limit = max 1 timeout_s; h1 = h\<lparr>nh_calls := nh_calls h @ [args]\<rparr> in
        case nh_answers h of
          [] \<Rightarrow> (Inl (timeout_expired args), pass limit h1)
        | a # rest \<Rightarrow>
            let h2 = h1\<lparr>nh_answers := rest\<rparr> in
            case a of
              Completed d rc out err \<Rightarrow>
                if d \<le> limit then (Inr (rc, out, err), pass d h2) else (Inl (timeout_expired args), pass limit h2)
            | Breaks d e \<Rightarrow> (Inl e, pass (min d limit) h2))"

text \<open>\<open>radio_enabled\<close> never raises.\<close>

definition radio_enabled :: "net_host \<Rightarrow> bool \<times> net_host" where
  "radio_enabled h =
     (case nmcli_run [''-t'', ''-f'', ''WIFI'', ''radio''] 6 h of
        (Inl e, h') \<Rightarrow> (False, h')
      | (Inr (rc, out, err), h') \<Rightarrow>
          (if rc \<noteq> 0 then let raw = lower (or_text err out) in is_infix ''enabled'' raw \<and> \<not> is_infix ''disabled'' raw
           else lower (strip out) = ''enabled'', h'))"

definition set_radio :: "bool \<Rightarrow> unit net_proc" where
  "set_radio enabled =
     (let onoff = (if enabled then ''on'' else ''off'') in
      pbind (nmcli_run [''radio'', ''wifi'', onoff] 12) (\<lambda>(rc, out, err).
        if rc \<noteq> 0
        then plift (Inl (runtime_error (''nmcli radio wifi '' @ onoff @ '' failed ('' @ str_int rc @ ''): '' @ strip (or_text err out))))
        else pret ()))"

definition iface_name :: "string \<Rightarrow> string" where
  "iface_name iface = strip (or_text iface ''wlan0'')"

text \<open>The lines of the device table: the last state of the interface, and whether it is ready.\<close>

fun iface_scan :: "string \<Rightarrow> string list \<Rightarrow> string option \<Rightarrow> string option \<times> bool" where
  "iface_scan iface [] st = (st, False)"
| "iface_scan iface (line # lines) st =
     (let parts = split_on (CHR '':'') line in
      if 3 \<le> length parts \<and> parts ! 0 = iface \<and> parts ! 1 = ''wifi''
      then if parts ! 2 \<noteq> [] \<and> lower (parts ! 2) \<noteq> ''unavailable'' then (Some (parts ! 2), True)
           else iface_scan iface lines (Some (parts ! 2))
      else iface_scan iface lines st)"

definition not_ready :: "string \<Rightarrow> string option \<Rightarrow> exn" where
  "not_ready iface st =
     runtime_error (''host WiFi iface '' @ [CHR 0x27] @ iface @ [CHR 0x27] @ '' not ready (state='' @
       (case st of None \<Rightarrow> ''None'' | Some s \<Rightarrow> s) @ '')'')"

lemma nmcli_run_Inr: "nmcli_run args t h = (Inr r, h') \<Longrightarrow> length (nh_answers h') < length (nh_answers h)"
  by (auto simp: nmcli_run_def pass_def Let_def split: if_split_asm list.split_asm nmcli_answer.split_asm)

function wait_ready :: "string \<Rightarrow> rat \<Rightarrow> string option \<Rightarrow> unit net_proc" where
  "wait_ready iface deadline st h =
     (if deadline \<le> nh_now h then (Inl (not_ready iface st), h)
      else case nmcli_run [''-t'', ''-f'', ''DEVICE,TYPE,STATE'', ''dev'', ''status''] 6 h of
        (Inl e, h1) \<Rightarrow> (Inl e, h1)
      | (Inr (rc, out, err), h1) \<Rightarrow>
          (case (if rc = 0 then iface_scan iface (split_lines [] out) st else (st, False)) of
             (st, True) \<Rightarrow> (Inr (), h1)
           | (st, False) \<Rightarrow> wait_ready iface deadline st (pass (2 / 5) h1)))"
  by pat_completeness auto
termination
  by (relation "measure (\<lambda>(iface, deadline, st, h). length (nh_answers h))")
    (auto simp: pass_def dest!: nmcli_run_Inr [OF sym])

declare wait_ready.simps [simp del]

definition wait_iface_ready :: "string \<Rightarrow> rat \<Rightarrow> unit net_proc" where
  "wait_iface_ready iface timeout_s h = wait_ready (iface_name iface) (nh_now h + max 1 timeout_s) None h"

definition rescan :: "string \<Rightarrow> unit net_proc" where
  "rescan iface = pbind (nmcli_run [''dev'', ''wifi'', ''rescan'', ''ifname'', iface_name iface] 10) (\<lambda>_. pret ())"

definition list_ssids :: "string \<Rightarrow> string list net_proc" where
  "list_ssids iface =
     pbind (nmcli_run [''-t'', ''-f'', ''SSID'', ''dev'', ''wifi'', ''list'', ''ifname'', iface_name iface, ''--rescan'', ''no''] 12)
       (\<lambda>(rc, out, err). pret (if rc \<noteq> 0 then [] else map strip (filter (\<lambda>l. strip l \<noteq> []) (split_lines [] out))))"

section \<open>Connecting to an access point\<close>

definition setup_command_hint :: "net_host \<Rightarrow> string" where
  "setup_command_hint h =
     (case nh_setup_script h of
        Some path \<Rightarrow> ''sudo '' @ path
      | None \<Rightarrow> ''sudo '' @ nh_python h @ '' -m racelink.tools.setup_nmcli_polkit'')"

definition coerce_ssid_list :: "string list \<Rightarrow> string list" where
  "coerce_ssid_list ssids = filter (\<lambda>s. s \<noteq> []) (map strip ssids)"

definition delete_profile_if_exists :: "string \<Rightarrow> unit net_proc" where
  "delete_profile_if_exists ssid = pbind (nmcli_run [''con'', ''delete'', ''id'', ssid] 10) (\<lambda>_. pret ())"

definition connect_args :: "string \<Rightarrow> string \<Rightarrow> string \<Rightarrow> string \<Rightarrow> int \<Rightarrow> string list" where
  "connect_args ssid password iface bssid wait_s =
     [''--wait'', str_int wait_s, ''dev'', ''wifi'', ''connect'', ssid, ''ifname'', iface] @
     (if password \<noteq> [] then [''password'', password] else []) @ (if bssid \<noteq> [] then [''bssid'', bssid] else [])"

definition nmcli_connect_once :: "string \<Rightarrow> string \<Rightarrow> string \<Rightarrow> string \<Rightarrow> int \<Rightarrow> (int \<times> string) net_proc" where
  "nmcli_connect_once ssid password iface bssid wait_s =
     pbind (nmcli_run (connect_args ssid password iface bssid wait_s) (max 15 (min 70 (of_int wait_s + 10))))
       (\<lambda>(rc, out, err). pret (rc, strip (or_text err out)))"

definition connect_failure :: "int \<Rightarrow> string \<Rightarrow> net_host \<Rightarrow> exn" where
  "connect_failure rc out h =
     (if is_infix ''insufficient privileges'' (lower out) \<or> is_infix ''not authorized'' (lower out)
      then runtime_error (''nmcli access denied (polkit). Run this command on the host to grant the running user unattended '' @
             ''access, then restart the host (RotorHazard or racelink-standalone):'' @ [CHR 0x0A] @ ''  '' @ setup_command_hint h @
             [CHR 0x0A] @ ''Raw nmcli output: '' @ out)
      else runtime_error (''nmcli dev wifi connect failed ('' @ str_int rc @ ''): '' @ out))"

text \<open>The connection, with the retry as an open network; no password is the empty string.\<close>

definition wait_seconds :: "rat \<Rightarrow> int" where
  "wait_seconds timeout_s = \<lfloor>max 10 (min 60 timeout_s)\<rfloor>"

definition dev_wifi_connect :: "string \<Rightarrow> string \<Rightarrow> string \<Rightarrow> string \<Rightarrow> rat \<Rightarrow> unit net_proc" where
  "dev_wifi_connect ssid password iface bssid timeout_s =
     pbind (delete_profile_if_exists ssid) (\<lambda>_.
     pbind (nmcli_connect_once ssid password iface bssid (wait_seconds timeout_s)) (\<lambda>(rc, out).
       if rc = 0 then pret ()
       else if is_infix ''key-mgmt'' (lower out) \<and> is_infix ''missing'' (lower out) then
         pbind (delete_profile_if_exists ssid) (\<lambda>_.
         pbind (nmcli_connect_once ssid [] iface bssid (wait_seconds timeout_s)) (\<lambda>(rc2, out2).
           if rc2 = 0 then pret () else (\<lambda>h. (Inl (connect_failure rc out h), h))))
       else (\<lambda>h. (Inl (connect_failure rc out h), h))))"

definition wifi_disabled :: "string \<Rightarrow> bool" where
  "wifi_disabled text \<longleftrightarrow> is_infix ''Wi-Fi is disabled'' text \<or> is_infix ''wireless is disabled'' (lower text)"

text \<open>What ends the attempts at once, and with which exception (the dash in the text is a longer one in the source).\<close>

definition fatal_failure :: "string \<Rightarrow> exn \<Rightarrow> exn option" where
  "fatal_failure matched e =
     (let text = exn_text e in
      if wifi_disabled text then Some (runtime_error text)
      else if is_infix ''Secrets were required'' text \<or> is_infix ''no secrets provided'' (lower text)
        then Some (runtime_error (''AP '' @ repr_str matched @ '': authentication failed (Secrets rejected). '' @
          ''Likely causes: the AP password is wrong, OR the device'' @ [CHR 0x27] @ ''s hostapd is briefly rate-limiting the host '' @
          ''after recent failed attempts - wait ~30 s and retry. Raw nmcli output: '' @ text))
      else if is_infix ''racelink-setup-nmcli'' text then Some e
      else None)"

definition gave_up :: "string list \<Rightarrow> string \<Rightarrow> string \<Rightarrow> exn" where
  "gave_up candidates iface last_err =
     runtime_error (if last_err \<noteq> [] then ''could not connect to any of '' @ repr_list candidates @ '': '' @ last_err
       else ''timeout waiting for one of '' @ repr_list candidates @ '' to appear on '' @ iface)"


section \<open>How long a call can take\<close>

text \<open>A bound on the time a call takes; no call puts answers back.\<close>

definition takes :: "rat \<Rightarrow> 'a net_proc \<Rightarrow> bool" where
  "takes t m \<longleftrightarrow> (\<forall>h. nh_now h \<le> nh_now (snd (m h)) \<and> nh_now (snd (m h)) \<le> nh_now h + t \<and>
     length (nh_answers (snd (m h))) \<le> length (nh_answers h))"

named_theorems takes_rules \<open>bounds on the time of a call\<close>

lemma takesD:
  assumes "takes t m" and "m h = (r, h')"
  shows "nh_now h \<le> nh_now h'" and "nh_now h' \<le> nh_now h + t" and "length (nh_answers h') \<le> length (nh_answers h)"
  using assms unfolding takes_def by (metis snd_conv)+

lemma takes_mono: "takes t m \<Longrightarrow> t \<le> u \<Longrightarrow> takes u m"
  unfolding takes_def by (meson add_left_mono order_trans)

lemma takes_nmcli [takes_rules]: "takes (max 1 t) (nmcli_run args t)"
  by (auto simp: takes_def nmcli_run_def pass_def Let_def split: list.split nmcli_answer.split)

lemma takes_pret [takes_rules]: "takes 0 (pret x)"
  by (simp add: takes_def)

lemma takes_plift [takes_rules]: "takes 0 (plift r)"
  by (simp add: takes_def)

lemma takes_raise [takes_rules]: "takes 0 (\<lambda>h. (Inl (e h), h))"
  by (simp add: takes_def)

lemma takes_pbind:
  assumes m: "takes t m" and f: "\<And>x. takes u (f x)" and "0 \<le> u"
  shows "takes (t + u) (pbind m f)"
  unfolding takes_def
proof
  fix h
  show "nh_now h \<le> nh_now (snd (pbind m f h)) \<and> nh_now (snd (pbind m f h)) \<le> nh_now h + (t + u) \<and>
     length (nh_answers (snd (pbind m f h))) \<le> length (nh_answers h)"
  proof (cases "m h")
    case (Pair r h1)
    note b = takesD [OF m Pair]
    show ?thesis
    proof (cases r)
      case (Inl e)
      then show ?thesis using Pair b assms(3) by (simp add: pbind_def)
    next
      case (Inr x)
      obtain r2 h2 where f2: "f x h1 = (r2, h2)" by fastforce
      show ?thesis using takesD [OF f f2] b by (simp add: pbind_def Pair Inr f2)
    qed
  qed
qed

lemma takes_then [takes_rules]:
  "takes t m \<Longrightarrow> takes t (pbind m (\<lambda>x. pret (f x)))"
  using takes_pbind [of t m 0 "\<lambda>x. pret (f x)"] by (simp add: takes_pret)

lemma takes_if: "takes t m \<Longrightarrow> takes t n \<Longrightarrow> takes t (if b then m else n)"
  by simp

lemma takes_prod: "(\<And>a b. takes t (f a b)) \<Longrightarrow> takes t (case p of (a, b) \<Rightarrow> f a b)"
  by (simp split: prod.split)

lemmas takes_intros = takes_prod takes_if takes_pret takes_plift takes_raise

lemma takes_free: "takes t m \<Longrightarrow> (\<And>x. takes 0 (f x)) \<Longrightarrow> takes t (pbind m f)"
  using takes_pbind [of t m 0 f] by simp

lemma rescan_takes: "takes 10 (rescan iface)"
  unfolding rescan_def using takes_then [OF takes_nmcli [of 10]] by simp

lemma list_ssids_takes: "takes 12 (list_ssids iface)"
  unfolding list_ssids_def by (rule takes_mono [OF takes_free [OF takes_nmcli]]) (intro takes_intros, simp)

lemma delete_profile_takes: "takes 10 (delete_profile_if_exists ssid)"
  unfolding delete_profile_if_exists_def using takes_then [OF takes_nmcli [of 10]] by simp

lemma connect_once_takes: "takes 70 (nmcli_connect_once ssid password iface bssid w)"
  unfolding nmcli_connect_once_def by (rule takes_mono [OF takes_free [OF takes_nmcli]]) (intro takes_intros, simp)

lemma dev_connect_takes: "takes 160 (dev_wifi_connect ssid password iface bssid t)"
proof -
  have retry: "takes 80 (pbind (delete_profile_if_exists ssid) (\<lambda>_.
         pbind (nmcli_connect_once ssid [] iface bssid (wait_seconds t)) (\<lambda>(rc2, out2).
           if rc2 = 0 then pret () else (\<lambda>h. (Inl (connect_failure rc out h), h)))))" for rc out
    by (rule takes_mono [OF takes_pbind [OF delete_profile_takes takes_free [OF connect_once_takes]]]) (intro takes_intros, simp_all)
  have stop: "takes 80 (pret x)" "takes 80 (\<lambda>h. (Inl (connect_failure rc out h), h))" for x :: unit and rc out
    by (rule takes_mono [OF takes_pret] takes_mono [OF takes_raise], simp)+
  show ?thesis unfolding dev_wifi_connect_def
    by (rule takes_mono [OF takes_pbind [OF delete_profile_takes takes_pbind [OF connect_once_takes, of 80]]])
      (intro takes_prod takes_if stop retry, simp_all)
qed

lemma wait_ready_time:
  "nh_now h \<le> nh_now (snd (wait_ready iface deadline st h)) \<and>
   nh_now (snd (wait_ready iface deadline st h)) \<le> max (nh_now h) (deadline + 32 / 5) \<and>
   length (nh_answers (snd (wait_ready iface deadline st h))) \<le> length (nh_answers h)"
proof (induction iface deadline st h rule: wait_ready.induct)
  case (1 iface deadline st h)
  let ?m = "nmcli_run [''-t'', ''-f'', ''DEVICE,TYPE,STATE'', ''dev'', ''status''] 6"
  obtain r h1 where m: "?m h = (r, h1)" by fastforce
  have b: "nh_now h \<le> nh_now h1" "nh_now h1 \<le> nh_now h + 6" "length (nh_answers h1) \<le> length (nh_answers h)"
    using takesD [OF takes_nmcli m] by simp_all
  have p: "nh_now (pass (2/5) h1) = nh_now h1 + 2/5" "nh_answers (pass (2/5) h1) = nh_answers h1"
    by (simp_all add: pass_def)
  show ?case
  proof (cases "deadline \<le> nh_now h")
    case True
    then show ?thesis by (simp add: wait_ready.simps)
  next
    case False
    show ?thesis
    proof (cases r)
      case (Inl e)
      then show ?thesis using False m b by (simp add: wait_ready.simps)
    next
      case (Inr x)
      obtain rc out err where x: "x = (rc, out, err)" by (cases x) auto
      let ?scan = "if rc = 0 then iface_scan iface (split_lines [] out) st else (st, False)"
      obtain st1 ready where scan: "?scan = (st1, ready)" by fastforce
      show ?thesis
      proof (cases ready)
        case True
        then show ?thesis using False m b scan by (simp add: wait_ready.simps Inr x)
      next
        case not: False
        have step: "wait_ready iface deadline st h = wait_ready iface deadline st1 (pass (2/5) h1)"
          using False m scan not by (subst wait_ready.simps) (simp add: Inr x)
        note IH = "1.IH" [OF False, of r h1 x rc "(out, err)" out err st1 ready, unfolded m Inr x]
        show ?thesis unfolding step
          using IH [OF refl refl refl refl] scan not False b p by (fastforce simp: max_def split: if_splits)
      qed
    qed
  qed
qed

lemma wait_iface_ready_takes: "takes (max 1 t + 32 / 5) (wait_iface_ready iface t)"
  unfolding takes_def wait_iface_ready_def
proof
  fix h
  show "nh_now h \<le> nh_now (snd (wait_ready (iface_name iface) (nh_now h + max 1 t) None h)) \<and>
     nh_now (snd (wait_ready (iface_name iface) (nh_now h + max 1 t) None h)) \<le> nh_now h + (max 1 t + 32 / 5) \<and>
     length (nh_answers (snd (wait_ready (iface_name iface) (nh_now h + max 1 t) None h))) \<le> length (nh_answers h)"
    using wait_ready_time [of h "iface_name iface" "nh_now h + max 1 t" None] by (simp add: max_def split: if_splits)
qed

section \<open>The connection loop\<close>

lemma list_ssids_Inr: "list_ssids iface h = (Inr v, h') \<Longrightarrow> length (nh_answers h') < length (nh_answers h)"
  by (auto simp: list_ssids_def pbind_cases split: prod.split_asm dest: nmcli_run_Inr)

function connect_loop :: "string list \<Rightarrow> string \<Rightarrow> string \<Rightarrow> string \<Rightarrow> rat \<Rightarrow> rat \<Rightarrow> string \<Rightarrow> string net_proc" where
  "connect_loop candidates password iface bssid timeout_s deadline last_err h =
     (if deadline \<le> nh_now h then (Inl (gave_up candidates iface last_err), h)
      else case list_ssids iface (snd (rescan iface h)) of
        (Inl e, h2) \<Rightarrow> (Inl e, h2)
      | (Inr visible, h2) \<Rightarrow>
          (case find_where (\<lambda>s. s \<in> set visible) candidates of
             None \<Rightarrow> connect_loop candidates password iface bssid timeout_s deadline last_err (pass (7 / 10) h2)
           | Some matched \<Rightarrow>
               (case dev_wifi_connect matched password iface bssid (min 60 (max 15 timeout_s)) h2 of
                  (Inr _, h3) \<Rightarrow> (Inr matched, h3)
                | (Inl e, h3) \<Rightarrow>
                    (case fatal_failure matched e of
                       Some e' \<Rightarrow> (Inl e', h3)
                     | None \<Rightarrow> connect_loop candidates password iface bssid timeout_s deadline (exn_text e) (pass (9 / 10) h3)))))"
  by pat_completeness auto
termination
proof (relation "measure (\<lambda>(candidates, password, iface, bssid, timeout_s, deadline, last_err, h). length (nh_answers h))", goal_cases)
  case (2 candidates password iface bssid timeout_s deadline last_err h x h2 visible)
  have "length (nh_answers (snd (rescan iface h))) \<le> length (nh_answers h)"
    using rescan_takes [of iface] by (simp add: takes_def)
  with 2 list_ssids_Inr [of iface "snd (rescan iface h)" visible h2] show ?case by (simp add: pass_def)
next
  case (3 candidates password iface bssid timeout_s deadline last_err h x h2 visible matched y h3 e)
  have "length (nh_answers (snd (rescan iface h))) \<le> length (nh_answers h)"
    using rescan_takes [of iface] by (simp add: takes_def)
  moreover have "length (nh_answers h3) \<le> length (nh_answers h2)"
    using takesD(3) [OF dev_connect_takes] 3 by metis
  ultimately show ?case using 3 list_ssids_Inr [of iface "snd (rescan iface h)" visible h2] by (simp add: pass_def)
qed simp

declare connect_loop.simps [simp del]

definition connect_ap :: "string list \<Rightarrow> string \<Rightarrow> string \<Rightarrow> string \<Rightarrow> rat \<Rightarrow> string net_proc" where
  "connect_ap ssids password iface bssid timeout_s =
     (let candidates = coerce_ssid_list ssids; iface = iface_name iface; bssid = strip bssid in
      if candidates = [] then plift (Inl (runtime_error ''no candidate SSIDs supplied''))
      else if password = [] then plift (Inl (runtime_error ''AP password missing''))
      else pbind (wait_iface_ready iface 12) (\<lambda>_ h.
        connect_loop candidates password iface bssid timeout_s (nh_now h + max 5 timeout_s) [] h))"

definition disconnect_ap :: "string \<Rightarrow> rat \<Rightarrow> unit net_proc" where
  "disconnect_ap ssid timeout_s =
     (let ssid = strip ssid in
      if ssid = [] then pret ()
      else pbind (nmcli_run [''--wait'', str_int \<lfloor>max 5 (min 40 timeout_s)\<rfloor>, ''con'', ''down'', ''id'', ssid]
                   (max 10 (min 45 (timeout_s + 10)))) (\<lambda>_. pret ()))"

text \<open>One turn of the loop: rescan, list, connect and a pause.\<close>

lemma connect_loop_time:
  "nh_now h \<le> nh_now (snd (connect_loop candidates password iface bssid timeout_s deadline last_err h)) \<and>
   nh_now (snd (connect_loop candidates password iface bssid timeout_s deadline last_err h)) \<le> max (nh_now h) (deadline + 1829 / 10)"
proof (induction candidates password iface bssid timeout_s deadline last_err h rule: connect_loop.induct)
  case (1 candidates password iface bssid timeout_s deadline last_err h)
  let ?loop = "connect_loop candidates password iface bssid timeout_s deadline"
  obtain r0 h1 where scan: "rescan iface h = (r0, h1)" by fastforce
  obtain r h2 where list: "list_ssids iface h1 = (r, h2)" by fastforce
  have b: "nh_now h \<le> nh_now h2" "nh_now h2 \<le> nh_now h + 22"
    using takesD [OF rescan_takes scan] takesD [OF list_ssids_takes list] by linarith+
  show ?case
  proof (cases "deadline \<le> nh_now h \<or> (\<exists>e. r = Inl e)")
    case True
    then show ?thesis using b list scan by (subst (1 2) connect_loop.simps) auto
  next
    case False
    then obtain visible where r: "r = Inr visible" by (cases r) auto
    have go: "\<not> deadline \<le> nh_now h" using False by simp
    show ?thesis
    proof (cases "find_where (\<lambda>s. s \<in> set visible) candidates")
      case None
      have step: "?loop last_err h = ?loop last_err (pass (7 / 10) h2)"
        using go list scan r None by (subst connect_loop.simps) simp
      from "1.IH"(1) [OF go, of "Inr visible" h2 visible] None list scan r
      show ?thesis unfolding step using b go by (fastforce simp: pass_def max_def split: if_splits)
    next
      case (Some matched)
      obtain r3 h3 where conn: "dev_wifi_connect matched password iface bssid (min 60 (max 15 timeout_s)) h2 = (r3, h3)" by fastforce
      have b3: "nh_now h2 \<le> nh_now h3" "nh_now h3 \<le> nh_now h2 + 160" using takesD [OF dev_connect_takes conn] by simp_all
      show ?thesis
      proof (cases "\<exists>e. r3 = Inl e \<and> fatal_failure matched e = None")
        case False
        then show ?thesis using go list scan r Some conn b b3
          by (subst (1 2) connect_loop.simps) (auto split: sum.split option.split)
      next
        case True
        then obtain e where e: "r3 = Inl e" "fatal_failure matched e = None" by blast
        have step: "?loop last_err h = ?loop (exn_text e) (pass (9 / 10) h3)"
          using go list scan r Some conn e by (subst connect_loop.simps) simp
        from "1.IH"(2) [OF go, of "Inr visible" h2 visible matched "Inl e" h3 e] list scan r Some conn e
        show ?thesis unfolding step using b b3 go by (fastforce simp: pass_def max_def split: if_splits)
      qed
    qed
  qed
qed


lemma nmcli_calls: "nmcli_run args t h = (r, h') \<Longrightarrow> nh_calls h' = nh_calls h \<or> nh_calls h' = nh_calls h @ [args]"
  by (auto simp: nmcli_run_def pass_def Let_def split: if_split_asm list.split_asm nmcli_answer.split_asm)

lemma nmcli_calls_Inr: "nmcli_run args t h = (Inr x, h') \<Longrightarrow> nh_calls h' = nh_calls h @ [args]"
  by (auto simp: nmcli_run_def pass_def Let_def split: if_split_asm list.split_asm nmcli_answer.split_asm)

lemma connected_with:
  assumes "dev_wifi_connect ssid password iface bssid t h = (Inr u, h')"
  shows "\<exists>pw. (pw = password \<or> pw = []) \<and> last (nh_calls h') = connect_args ssid pw iface bssid (wait_seconds t)"
  using assms
  by (auto simp: dev_wifi_connect_def nmcli_connect_once_def pbind_cases split: prod.split_asm if_split_asm
      dest!: nmcli_calls_Inr)

lemma connect_loop_result:
  "connect_loop candidates password iface bssid timeout_s deadline last_err h = (Inr ssid, h') \<Longrightarrow>
   ssid \<in> set candidates \<and>
   (\<exists>pw. (pw = password \<or> pw = []) \<and>
      last (nh_calls h') = connect_args ssid pw iface bssid (wait_seconds (min 60 (max 15 timeout_s))))"
proof (induction candidates password iface bssid timeout_s deadline last_err h rule: connect_loop.induct)
  case (1 candidates password iface bssid timeout_s deadline last_err h)
  from "1.prems" have go: "\<not> deadline \<le> nh_now h" by (subst (asm) connect_loop.simps) (simp split: if_split_asm)
  obtain r h2 where list: "list_ssids iface (snd (rescan iface h)) = (r, h2)" by fastforce
  obtain visible where r: "r = Inr visible"
    using "1.prems" go list by (subst (asm) connect_loop.simps) (auto split: sum.split_asm)
  show ?case
  proof (cases "find_where (\<lambda>s. s \<in> set visible) candidates")
    case None
    with "1.prems" go list r show ?thesis
      by (intro "1.IH"(1) [OF go list [symmetric] r None]) (subst (asm) connect_loop.simps, simp)
  next
    case (Some matched)
    obtain r3 h3 where conn: "dev_wifi_connect matched password iface bssid (min 60 (max 15 timeout_s)) h2 = (r3, h3)" by fastforce
    show ?thesis
    proof (cases r3)
      case (Inr u)
      with "1.prems" go list r Some conn have "ssid = matched" "h' = h3"
        by (subst (asm) connect_loop.simps, simp)+
      with connected_with [of matched password iface bssid "min 60 (max 15 timeout_s)" h2 u h3] conn Inr find_where_Some [OF Some]
      show ?thesis by simp
    next
      case (Inl e)
      have f: "fatal_failure matched e = None"
        using "1.prems" go list r Some conn Inl by (subst (asm) connect_loop.simps) (auto split: option.split_asm)
      with "1.prems" go list r Some conn Inl show ?thesis
        by (intro "1.IH"(2) [OF go list [symmetric] r Some conn [symmetric] Inl f]) (subst (asm) connect_loop.simps, simp)
    qed
  qed
qed

text \<open>
  C31.  A connection that succeeds is to one of the access points asked for.  The answer is a name of the
  candidate list, trimmed and not empty, and the last command ran was the connect command for exactly this
  name, on the chosen interface, with the given password or, as the fallback for an open network, none.
\<close>

theorem connect_ap_joins_candidate:
  assumes "connect_ap ssids password iface bssid timeout_s h = (Inr ssid, h')"
  shows "ssid \<in> set (map strip ssids) \<and> ssid \<noteq> [] \<and>
     (\<exists>pw. (pw = password \<or> pw = []) \<and> last (nh_calls h') =
        connect_args ssid pw (iface_name iface) (strip bssid) (wait_seconds (min 60 (max 15 timeout_s))))"
proof -
  obtain h1 where "connect_loop (coerce_ssid_list ssids) password (iface_name iface) (strip bssid) timeout_s
      (nh_now h1 + max 5 timeout_s) [] h1 = (Inr ssid, h')"
    using assms by (auto simp: connect_ap_def Let_def pbind_cases split: if_split_asm)
  from connect_loop_result [OF this] show ?thesis by (auto simp: coerce_ssid_list_def)
qed

text \<open>A host on which an access point answers at the first try.\<close>

definition quiet_host :: "nmcli_answer list \<Rightarrow> http_answer list \<Rightarrow> net_host" where
  "quiet_host answers http = \<lparr>nh_now = 0, nh_has_nmcli = True, nh_setup_script = None, nh_python = ''python'',
     nh_answers = answers, nh_calls = [], nh_http = http, nh_requests = [], nh_files = (\<lambda>p. Some [1, 2, 3])\<rparr>"

definition joins :: "string \<Rightarrow> nmcli_answer list" where
  "joins ssid = [Completed 1 0 ''wlan0:wifi:disconnected'' [], Completed 1 0 [] [], Completed 1 0 ssid [],
     Completed 1 10 [] ''unknown connection'', Completed 3 0 ''ok'' []]"

theorem connect_ap_joins_candidate_witness:
  "\<exists>h'. connect_ap ['' AP ''] ''pw'' [] [] 20 (quiet_host (joins ''AP'') []) = (Inr ''AP'', h') \<and>
     (\<exists>pw. (pw = ''pw'' \<or> pw = []) \<and> last (nh_calls h') = connect_args ''AP'' pw ''wlan0'' [] 20)"
proof -
  have "fst (connect_ap ['' AP ''] ''pw'' [] [] 20 (quiet_host (joins ''AP'') [])) = Inr ''AP''"
    by code_simp
  then obtain h' where r: "connect_ap ['' AP ''] ''pw'' [] [] 20 (quiet_host (joins ''AP'') []) = (Inr ''AP'', h')"
    by (metis prod.collapse)
  have eqs: "iface_name [] = ''wlan0''" "strip [] = []" "wait_seconds (min 60 (max 15 20)) = 20" by code_simp+
  from connect_ap_joins_candidate [OF r, unfolded eqs] r show ?thesis by blast
qed

end
