(* ===== verification/Wled_Presets.thy ===== *)
theory Wled_Presets
  imports State_File
begin

text \<open>
  The store of \<^verbatim>\<open>presets.json\<close> files: \<^verbatim>\<open>racelink/services/presets_service.py\<close>.  The directory is a list
  of files with text, the reading of the text as JSON (if it has one) and time; \<open>pd_current\<close> is the option
  \<^verbatim>\<open>rl_wled_presets_file\<close> and \<open>pd_options\<close> the list last handed to the controller.  The local time in a file
  name is a parameter.  Hashes are left out.
\<close>

record preset_file =
  pf_text :: string
  pf_json :: "pyval option"
  pf_mtime :: rat

record preset_dir =
  pd_files :: "(string \<times> preset_file) list"
  pd_writable :: bool
  pd_now :: rat
  pd_current :: string
  pd_options :: "(int \<times> string) list"

section \<open>Names\<close>

definition basename :: "string \<Rightarrow> string" where
  "basename path = rev (takeWhile (\<lambda>c. c \<noteq> CHR ''/'') (rev path))"

definition ends_with :: "string \<Rightarrow> string \<Rightarrow> bool" where
  "ends_with suffix s \<longleftrightarrow> length suffix \<le> length s \<and> drop (length s - length suffix) s = suffix"

definition preset_stem :: "(rat \<Rightarrow> string) \<Rightarrow> rat \<Rightarrow> string" where
  "preset_stem stamp ts = ''presets_'' @ stamp ts"

definition json_name :: "string \<Rightarrow> string" where
  "json_name stem = stem @ ''.json''"

definition alt_name :: "string \<Rightarrow> nat \<Rightarrow> string" where
  "alt_name stem idx = json_name (stem @ ''_'' @ str_nat idx)"

definition preset_path_for_name :: "string \<Rightarrow> preset_dir \<Rightarrow> string option" where
  "preset_path_for_name name d =
     (let base = basename name in
      if base = [] \<or> map_of (pd_files d) base = None then None else Some base)"

definition list_files :: "preset_dir \<Rightarrow> (string \<times> int \<times> rat) list" where
  "list_files d =
     sort_key (\<lambda>(name, size, ts). - ts)
       (map (\<lambda>(name, f). (name, int (length (pf_text f)), pf_mtime f))
         (filter (\<lambda>(name, f). (name = [] \<or> hd name \<noteq> CHR ''.'') \<and> ends_with ''.json'' name) (pd_files d)))"

section \<open>Reading\<close>

definition minimal_entry :: "string \<times> pyval \<Rightarrow> (int \<times> string) list" where
  "minimal_entry kv =
     (case (py_int_str (fst kv), snd kv) of
        (Some preset_id, PDict obj) \<Rightarrow>
          if preset_id = 0 then []
          else
            let name = (case dget_or obj ''n'' (PStr []) of PStr s \<Rightarrow> strip s | _ \<Rightarrow> []) in
            [(preset_id, if name = [] then ''Preset ID '' @ str_int preset_id else name)]
      | _ \<Rightarrow> [])"

definition parse_wled_presets_minimal :: "pyval \<Rightarrow> (int \<times> string) list res" where
  "parse_wled_presets_minimal data =
     (case data of
        PDict d \<Rightarrow> Inr (sort_key fst (concat (map minimal_entry d)))
      | _ \<Rightarrow> Inl AttributeError)"

definition read_presets :: "preset_file \<Rightarrow> (int \<times> string) list option" where
  "read_presets f =
     (if pf_text f = [] then Some []
      else case pf_json f of
        None \<Rightarrow> None
      | Some v \<Rightarrow> (case parse_wled_presets_minimal v of Inl e \<Rightarrow> None | Inr parsed \<Rightarrow> Some parsed))"

definition apply_from_path :: "string \<Rightarrow> preset_dir \<Rightarrow> bool \<times> preset_dir" where
  "apply_from_path name d =
     (case Option.bind (map_of (pd_files d) name) read_presets of
        None \<Rightarrow> (False, d)
      | Some parsed \<Rightarrow> (True, d\<lparr>pd_options := parsed\<rparr>))"

definition apply_named :: "string \<Rightarrow> preset_dir \<Rightarrow> bool \<times> preset_dir" where
  "apply_named name d =
     (case preset_path_for_name name d of None \<Rightarrow> (False, d) | Some path \<Rightarrow> apply_from_path path d)"

definition ensure_loaded :: "preset_dir \<Rightarrow> preset_dir" where
  "ensure_loaded d =
     (case list_files d of
        [] \<Rightarrow> d\<lparr>pd_options := [], pd_current := []\<rparr>
      | (newest, row) # rest \<Rightarrow>
          (case (if pd_current d \<noteq> [] then apply_named (pd_current d) d else (False, d)) of
             (True, d') \<Rightarrow> d'
           | (False, d') \<Rightarrow>
               (case apply_named newest d' of
                  (True, d'') \<Rightarrow> d''\<lparr>pd_current := newest\<rparr>
                | (False, d'') \<Rightarrow> d''\<lparr>pd_options := []\<rparr>)))"

section \<open>Writing\<close>

text \<open>The name a new file is reported under and the name it is written to.\<close>

definition new_file_name :: "string \<Rightarrow> preset_dir \<Rightarrow> string \<times> string" where
  "new_file_name stem d =
     (let taken = (\<lambda>name. map_of (pd_files d) name \<noteq> None) in
      if \<not> taken (json_name stem) then (json_name stem, json_name stem)
      else case find_where (\<lambda>idx. \<not> taken (alt_name stem idx)) [1 ..< 100] of
        Some idx \<Rightarrow> (alt_name stem idx, alt_name stem idx)
      | None \<Rightarrow> (json_name stem, alt_name stem 99))"

definition save_payload :: "(rat \<Rightarrow> string) \<Rightarrow> string \<Rightarrow> pyval option \<Rightarrow> (preset_dir, string \<times> int \<times> rat) proc" where
  "save_payload stamp text json d =
     (let (name, dst) = new_file_name (preset_stem stamp (pd_now d)) d in
      if \<not> pd_writable d then (Inl OSError, d)
      else (Inr (name, int (length text), pd_now d),
            d\<lparr>pd_files := assoc_set dst \<lparr>pf_text = text, pf_json = json, pf_mtime = pd_now d\<rparr> (pd_files d)\<rparr>))"

definition store_uploaded_file :: "(rat \<Rightarrow> string) \<Rightarrow> string \<Rightarrow> string \<Rightarrow> pyval option \<Rightarrow> (preset_dir, string \<times> int \<times> rat) proc" where
  "store_uploaded_file stamp filename text json d =
     (if filename = [] then (Inl ValueError, d) else save_payload stamp text json d)"

section \<open>The selected file and the options agree\<close>

definition shown_presets :: "preset_dir \<Rightarrow> (int \<times> string) list" where
  "shown_presets d =
     (case Option.bind (preset_path_for_name (pd_current d) d) (\<lambda>path. Option.bind (map_of (pd_files d) path) read_presets) of
        None \<Rightarrow> [] | Some parsed \<Rightarrow> parsed)"

lemma apply_named_cases:
  "apply_named name d =
     (case Option.bind (preset_path_for_name name d) (\<lambda>path. Option.bind (map_of (pd_files d) path) read_presets) of
        None \<Rightarrow> (False, d) | Some parsed \<Rightarrow> (True, d\<lparr>pd_options := parsed\<rparr>))"
  by (auto simp: apply_named_def apply_from_path_def split: option.split)

lemma basename_no_slash: "CHR ''/'' \<notin> set (basename p)"
  by (auto simp: basename_def dest: set_takeWhileD)

lemma path_fields [simp]:
  "preset_path_for_name n (d\<lparr>pd_options := x\<rparr>) = preset_path_for_name n d"
  "preset_path_for_name n (d\<lparr>pd_current := c\<rparr>) = preset_path_for_name n d"
  by (simp_all add: preset_path_for_name_def)

text \<open>
  After loading, the preset options shown are those of the selected file: its presets in ascending
  order of their numbers if it exists and can be read, and none otherwise.  The selection changes only to
  the newest file, or to none when the directory has no presets file.
\<close>

theorem loaded_options_match:
  "pd_options (ensure_loaded d) = shown_presets (ensure_loaded d) \<and>
   sorted (map fst (pd_options (ensure_loaded d))) \<and> pd_files (ensure_loaded d) = pd_files d \<and>
   (pd_current (ensure_loaded d) = pd_current d \<or>
    pd_current (ensure_loaded d) = (case list_files d of [] \<Rightarrow> [] | (newest, r) # rest \<Rightarrow> newest))"
proof -
  have sorted: "sorted (map fst parsed)" if "read_presets f = Some parsed" for f parsed
    using that by (auto simp: read_presets_def parse_wled_presets_minimal_def split: if_split_asm option.split_asm sum.split_asm pyval.split_asm)
  show ?thesis
    by (auto simp: ensure_loaded_def shown_presets_def apply_named_cases sorted bind_eq_Some_conv
        preset_path_for_name_def basename_def split: list.split option.split prod.split if_split)
qed

section \<open>Saving\<close>

lemma basename_id: "CHR ''/'' \<notin> set name \<Longrightarrow> basename name = name"
proof -
  assume "CHR ''/'' \<notin> set name"
  then have "takeWhile (\<lambda>c. c \<noteq> CHR ''/'') (rev name) = rev name"
    by (simp only: takeWhile_eq_all_conv) auto
  then show ?thesis unfolding basename_def by (simp only: rev_rev_ident)
qed

lemma new_file_fresh:
  assumes "new_file_name stem d = (name, dst)"
    and "map_of (pd_files d) (json_name stem) = None \<or> (\<exists>idx \<in> {1 ..< 100}. map_of (pd_files d) (alt_name stem idx) = None)"
  shows "dst = name \<and> map_of (pd_files d) name = None \<and> name \<in> insert (json_name stem) (alt_name stem ` {1 ..< 100})"
proof (cases "map_of (pd_files d) (json_name stem)")
  case None
  then show ?thesis using assms(1) by (auto simp: new_file_name_def)
next
  case (Some f)
  then obtain idx where f: "find_where (\<lambda>idx. map_of (pd_files d) (alt_name stem idx) = None) [1 ..< 100] = Some idx"
    using assms(2) find_where_None [of "\<lambda>idx. map_of (pd_files d) (alt_name stem idx) = None" "[1 ..< 100]"]
    by (cases "find_where (\<lambda>idx. map_of (pd_files d) (alt_name stem idx) = None) [1 ..< 100]") auto
  show ?thesis using assms(1) Some find_where_Some [OF f] f by (auto simp: new_file_name_def)
qed

text \<open>
  Saving a presets file loses none.  As long as one of the hundred names of the second is free, on a
  writable disk the new file gets a name that no file had, is found under that name with its text, and every other
  file stays as it was.
\<close>

theorem save_keeps_files:
  assumes "pd_writable d" and "CHR ''/'' \<notin> set (stamp (pd_now d))" and "stem = preset_stem stamp (pd_now d)"
    and "map_of (pd_files d) (json_name stem) = None \<or> (\<exists>idx \<in> {1 ..< 100}. map_of (pd_files d) (alt_name stem idx) = None)"
  shows "\<exists>name d'. save_payload stamp text json d = (Inr (name, int (length text), pd_now d), d') \<and>
     map_of (pd_files d) name = None \<and> preset_path_for_name name d' = Some name \<and>
     map_of (pd_files d') = (map_of (pd_files d))(name \<mapsto> \<lparr>pf_text = text, pf_json = json, pf_mtime = pd_now d\<rparr>)"
proof -
  obtain name dst where n: "new_file_name stem d = (name, dst)" by fastforce
  have f: "dst = name" "map_of (pd_files d) name = None" and m: "name \<in> insert (json_name stem) (alt_name stem ` {1 ..< 100})"
    using new_file_fresh [OF n assms(4)] by blast+
  have stem: "CHR ''/'' \<notin> set stem" using assms(2, 3) by (simp add: preset_stem_def)
  have digits: "CHR ''/'' \<notin> set (str_nat i)" for i
    using str_nat_digits [of "CHR ''/''" i] by (auto simp: is_digit_def)
  have "CHR ''/'' \<notin> set name" and "name \<noteq> []"
    using m stem digits by (auto simp: json_name_def alt_name_def)
  then show ?thesis
    using n f assms(1, 3)
    by (auto simp: save_payload_def preset_path_for_name_def basename_id map_of_assoc_set fun_eq_iff)
qed

definition empty_dir :: preset_dir where
  "empty_dir = \<lparr>pd_files = [], pd_writable = True, pd_now = 7, pd_current = [], pd_options = []\<rparr>"

theorem save_keeps_files_witness:
  "\<exists>name d'. save_payload (\<lambda>t. ''20260101_120000'') ''{}'' (Some (PDict [])) empty_dir = (Inr (name, 2, 7), d') \<and>
     preset_path_for_name name d' = Some name"
  using save_keeps_files [of empty_dir "\<lambda>t. ''20260101_120000''" _ "''{}''" "Some (PDict [])", OF _ _ refl]
  by (auto simp: empty_dir_def)

text \<open>
  The hundredth file of a second overwrites another one.  When all hundred names are taken, the text goes into
  the file numbered 99, and the caller is told the name of the first file of that second, which holds
  something else.
\<close>

theorem hundredth_file_overwrites:
  assumes "pd_writable d" and "stem = preset_stem stamp (pd_now d)" and "map_of (pd_files d) (json_name stem) = Some old"
    and "\<forall>idx \<in> {1 ..< 100}. map_of (pd_files d) (alt_name stem idx) \<noteq> None"
  shows "\<exists>d'. save_payload stamp text json d = (Inr (json_name stem, int (length text), pd_now d), d') \<and>
     map_of (pd_files d') (json_name stem) = Some old \<and>
     map_of (pd_files d') (alt_name stem 99) = Some \<lparr>pf_text = text, pf_json = json, pf_mtime = pd_now d\<rparr>"
proof -
  have none: "find_where (\<lambda>idx. map_of (pd_files d) (alt_name stem idx) = None) [1 ..< 100] = None"
    using assms(4) by (simp add: find_where_None)
  have "alt_name stem 99 \<noteq> json_name stem" by (simp add: alt_name_def json_name_def)
  then show ?thesis using assms none by (simp add: save_payload_def new_file_name_def map_of_assoc_set)
qed

definition full_dir :: preset_dir where
  "full_dir = empty_dir\<lparr>pd_files := map (\<lambda>name. (name, \<lparr>pf_text = ''{}'', pf_json = Some (PDict []), pf_mtime = 1\<rparr>))
     (json_name ''presets_now'' # map (alt_name ''presets_now'') [1 ..< 100])\<rparr>"

theorem hundredth_file_overwrites_witness:
  "\<exists>d'. save_payload (\<lambda>t. ''now'') ''new'' None full_dir = (Inr (''presets_now.json'', 3, 7), d') \<and>
     map_of (pd_files d') (alt_name ''presets_now'' 99) = Some \<lparr>pf_text = ''new'', pf_json = None, pf_mtime = 7\<rparr>"
proof -
  have stem: "''presets_now'' = preset_stem (\<lambda>t. ''now'') (pd_now full_dir)" by (simp add: preset_stem_def)
  have name: "json_name ''presets_now'' = ''presets_now.json''" by (simp add: json_name_def)
  have old: "map_of (pd_files full_dir) (json_name ''presets_now'') = Some \<lparr>pf_text = ''{}'', pf_json = Some (PDict []), pf_mtime = 1\<rparr>"
    by (simp add: full_dir_def)
  have taken: "\<forall>idx \<in> {1 ..< 100}. map_of (pd_files full_dir) (alt_name ''presets_now'' idx) \<noteq> None"
    unfolding map_of_eq_None_iff by (auto simp: full_dir_def image_image)
  have "pd_writable full_dir" and "pd_now full_dir = 7" by (simp_all add: full_dir_def empty_dir_def)
  with hundredth_file_overwrites [OF _ stem old taken, of "''new''" None] show ?thesis by (auto simp: name)
qed

end
