(* ===== verification/Ota.thy ===== *)
theory Ota
  imports Host_Wifi Wled_Presets Nodes
begin

text \<open>
  Transfers to a WLED node and the two workflows around them: \<^verbatim>\<open>racelink/services/ota_service.py\<close> and
  \<^verbatim>\<open>racelink/services/ota_workflow_service.py\<close>.  The node is outside of the program: its answers to the
  successive HTTP requests are an input, as the answers of \<^verbatim>\<open>nmcli\<close> are.  A workflow works on the controller,
  the host and its own results; the controller is brought up to the clock of the host whenever it is used.
\<close>

section \<open>Addresses\<close>

definition norm_hex :: "string \<Rightarrow> string" where
  "norm_hex value = lower (filter (\<lambda>c. hex_val c \<noteq> None) value)"

definition expected_mac_hex :: "string \<Rightarrow> string" where
  "expected_mac_hex addr = (let hx = norm_hex addr in if length hx < 12 then [] else last_n 12 hx)"

definition expected_last3_hex :: "string \<Rightarrow> string" where
  "expected_last3_hex addr = (let hx = norm_hex addr in if length hx < 6 then [] else last_n 6 hx)"

definition recv3_bytes_from_addr :: "string \<Rightarrow> byte list res" where
  "recv3_bytes_from_addr addr =
     (let last3 = expected_last3_hex addr in if length last3 \<noteq> 6 then Inl ValueError else fromhex last3)"

definition lookup_group_id_for_addr :: "string \<Rightarrow> rl_device list \<Rightarrow> int" where
  "lookup_group_id_for_addr addr devices =
     (let want = expected_mac_hex addr in
      if want = [] then 0
      else case find_where (\<lambda>d. expected_mac_hex (d_addr d) \<noteq> [] \<and> lower (expected_mac_hex (d_addr d)) = lower want) devices of
        None \<Rightarrow> 0 | Some d \<Rightarrow> d_groupId d)"

definition wled_base_url :: "string \<Rightarrow> string" where
  "wled_base_url raw_url = rev (dropWhile (\<lambda>c. c = CHR ''/'') (rev (or_text (strip raw_url) ''http://4.3.2.1'')))"

section \<open>Requests\<close>

text \<open>An error of a request: the exception, the status code it carries and the body it gives.\<close>

type_synonym http_error = "exn \<times> int option \<times> string"

definition http :: "http_request \<Rightarrow> rat \<Rightarrow> net_host \<Rightarrow> (http_error + int \<times> string \<times> pyval option) \<times> net_host" where
  "http req timeout_s h =
     (let h1 = h\<lparr>nh_requests := nh_requests h @ [req]\<rparr> in
      case nh_http h of
        [] \<Rightarrow> (Inl (Exn ''URLError'' ''timed out'', None, []), pass timeout_s h1)
      | a # rest \<Rightarrow>
          let h2 = h1\<lparr>nh_http := rest\<rparr> in
          case a of
            Response d status text json \<Rightarrow> (Inr (status, text, json), pass d h2)
          | HttpFails d e code body \<Rightarrow> (Inl (e, code, body), pass d h2))"

text \<open>\<open>fetch_wled_info\<close>: the decoded document, \<open>PNone\<close> when there is none.\<close>

definition fetch_wled_info :: "string \<Rightarrow> rat \<Rightarrow> net_host \<Rightarrow> pyval \<times> net_host" where
  "fetch_wled_info base_url timeout_s h =
     (case http (Get (base_url @ ''/json/info'')) timeout_s h of
        (Inl e, h') \<Rightarrow> (PNone, h')
      | (Inr (status, text, json), h') \<Rightarrow>
          (if text = [] then PDict [] else case json of None \<Rightarrow> PNone | Some v \<Rightarrow> v, h'))"

definition reported_mac :: "(pyval \<Rightarrow> string) \<Rightarrow> pyval \<Rightarrow> (exn, string) sum" where
  "reported_mac rp info =
     (case info of
        PDict d \<Rightarrow> Inr (norm_hex (py_str rp (py_or (dget d ''mac'') (PStr []))))
      | _ \<Rightarrow> Inl (Exn ''AttributeError'' ''object has no attribute get''))"

lemma http_now: "http req t h = (r, h') \<Longrightarrow> nh_now h \<le> nh_now h'"
  by (auto simp: http_def pass_def Let_def split: list.split_asm http_answer.split_asm)

lemma fetch_now: "nh_now h \<le> nh_now (snd (fetch_wled_info base t h))"
  using http_now by (fastforce simp: fetch_wled_info_def split: prod.split sum.split)

text \<open>What one poll decides: the wait ends, or (\<open>None\<close>) goes on.\<close>

definition node_verdict :: "(pyval \<Rightarrow> string) \<Rightarrow> string \<Rightarrow> pyval \<Rightarrow> (exn + pyval) option" where
  "node_verdict rp expected info =
     (if py_truth info then
        (case reported_mac rp info of
           Inl e \<Rightarrow> Some (Inl e)
         | Inr mac \<Rightarrow> if expected \<noteq> [] \<and> mac = expected then Some (Inr info) else None)
      else None)"

function wait_node :: "(pyval \<Rightarrow> string) \<Rightarrow> string \<Rightarrow> string \<Rightarrow> rat \<Rightarrow> rat \<Rightarrow> pyval net_proc" where
  "wait_node rp base_url expected deadline poll_s h =
     (if deadline \<le> nh_now h then (Inr PNone, h)
      else
        let (info, h1) = fetch_wled_info base_url (min 8 (poll_s + 2)) h in
        case node_verdict rp expected info of
          Some r \<Rightarrow> (r, h1)
        | None \<Rightarrow> wait_node rp base_url expected deadline poll_s (pass (max (1 / 5) poll_s) h1))"
  by pat_completeness auto
termination
proof (relation "measure (\<lambda>(rp, base_url, expected, deadline, poll_s, h). nat \<lceil>5 * (deadline - nh_now h)\<rceil>)", goal_cases)
  case (2 rp base_url expected deadline poll_s h x info h1)
  have "nh_now h \<le> nh_now h1" using fetch_now [of h base_url "min 8 (poll_s + 2)"] 2 by (metis snd_conv)
  then have "5 * (deadline - nh_now (pass (max (1 / 5) poll_s) h1)) \<le> 5 * (deadline - nh_now h) - 1"
    by (simp add: pass_def)
  moreover have "0 < 5 * (deadline - nh_now h)" using 2 by simp
  ultimately have "\<lceil>5 * (deadline - nh_now (pass (max (1 / 5) poll_s) h1))\<rceil> < \<lceil>5 * (deadline - nh_now h)\<rceil>" and
    "0 < \<lceil>5 * (deadline - nh_now h)\<rceil>"
    by linarith+
  then show ?case by simp
qed simp

declare wait_node.simps [simp del]

definition wait_for_expected_node :: "(pyval \<Rightarrow> string) \<Rightarrow> string \<Rightarrow> string \<Rightarrow> rat \<Rightarrow> rat \<Rightarrow> pyval net_proc" where
  "wait_for_expected_node rp base_url expected_mac timeout_s poll_s h =
     wait_node rp base_url (lower expected_mac) (nh_now h + max 2 timeout_s) poll_s h"

section \<open>Uploads\<close>

text \<open>Tags of the form \<open><...>\<close> become blanks.\<close>

function strip_tags :: "string \<Rightarrow> string" where
  "strip_tags [] = []"
| "strip_tags (c # cs) =
     (let inner = takeWhile (\<lambda>x. x \<noteq> CHR ''>'') cs; rest = dropWhile (\<lambda>x. x \<noteq> CHR ''>'') cs in
      if c = CHR ''<'' \<and> inner \<noteq> [] \<and> rest \<noteq> [] then CHR '' '' # strip_tags (tl rest)
      else c # strip_tags cs)"
  by pat_completeness auto
termination
proof (relation "measure length", goal_cases)
  case (2 c cs inner rest)
  have "length (dropWhile (\<lambda>x. x \<noteq> CHR ''>'') cs) \<le> length cs" by (rule length_dropWhile_le)
  with 2 show ?case by simp
qed simp_all

fun collapse_blanks :: "bool \<Rightarrow> string \<Rightarrow> string" where
  "collapse_blanks blank [] = []"
| "collapse_blanks blank (c # cs) =
     (if is_space c then (if blank then [] else '' '') @ collapse_blanks True cs else c # collapse_blanks False cs)"

definition snippet :: "string \<Rightarrow> string" where
  "snippet body = take 200 (strip (collapse_blanks False (strip_tags body)))"

text \<open>A response body is appended when there is one; an error body when something of it is left.\<close>

definition with_body :: "string \<Rightarrow> string" where
  "with_body body = (if body \<noteq> [] then '': '' @ snippet body else [])"

definition with_snippet :: "string \<Rightarrow> string \<Rightarrow> string" where
  "with_snippet sep body = (let text = (if body \<noteq> [] then snippet body else []) in if text \<noteq> [] then sep @ text else [])"

definition update_response_indicates_failure :: "string \<Rightarrow> bool" where
  "update_response_indicates_failure body =
     (let text = lower body in
      body \<noteq> [] \<and> \<not> is_infix ''update successful'' text \<and> is_infix ''update failed'' text)"

definition UPDATE :: string where "UPDATE = ''/update''"

text \<open>The dashes in the texts are longer ones in the source.\<close>

definition status_error :: "int \<Rightarrow> string \<Rightarrow> string \<Rightarrow> exn" where
  "status_error status endpoint tail = runtime_error (''HTTP '' @ str_int status @ '' from '' @ endpoint @ tail)"

definition unauthorized :: "string \<Rightarrow> string \<Rightarrow> exn" where
  "unauthorized endpoint body =
     runtime_error (''HTTP 401 from '' @ endpoint @ '' (Unauthorized). WLED OTA lock or `Same network` PIN gate is enabled - '' @
       ''disable both for the OTA window.'' @ with_snippet '' Body: '' body)"

definition flash_failure :: "int \<Rightarrow> string \<Rightarrow> exn" where
  "flash_failure status body =
     runtime_error (''WLED reported flash failure on /update (HTTP '' @ str_int status @ '' body: '' @ snippet body @ ''). '' @
       ''Common causes: wrong firmware binary for this ESP variant, OTA lock / PIN, or insufficient free flash.'')"

definition upload_request :: "string \<Rightarrow> string \<Rightarrow> string \<Rightarrow> byte list \<Rightarrow> bool \<Rightarrow> http_request" where
  "upload_request base_url endpoint filename payload skip_validation =
     PostFile (base_url @ endpoint)
       ((if skip_validation \<and> endpoint = UPDATE then [TextPart ''skipValidation'' ''1''] else []) @ [FilePart filename payload])"

definition upload_verdict :: "string \<Rightarrow> http_error + int \<times> string \<times> pyval option \<Rightarrow> exn + unit" where
  "upload_verdict endpoint answer =
     (case answer of
        Inr (status, text, json) \<Rightarrow>
          let body = (if endpoint = UPDATE then take 4096 text else []) in
          if 400 \<le> status then Inl (status_error status endpoint (with_body body))
          else if endpoint = UPDATE \<and> update_response_indicates_failure body then Inl (flash_failure status body)
          else Inr ()
      | Inl (e, code, body) \<Rightarrow>
          (case code of
             None \<Rightarrow> Inl e
           | Some status \<Rightarrow>
               if status = 401 then Inl (unauthorized endpoint body)
               else if status \<noteq> 0 then Inl (status_error status endpoint (with_snippet '': '' body))
               else Inl e))"

definition wled_upload_file :: "string \<Rightarrow> string \<Rightarrow> rat \<Rightarrow> string \<Rightarrow> string \<Rightarrow> bool \<Rightarrow> unit net_proc" where
  "wled_upload_file base_url path timeout_s dest_name endpoint skip_validation h =
     (case nh_files h path of
        None \<Rightarrow> (Inl (Exn ''FileNotFoundError'' path), h)
      | Some payload \<Rightarrow>
          let (answer, h') = http (upload_request base_url endpoint (or_text dest_name (basename path)) payload skip_validation) timeout_s h
          in (upload_verdict endpoint answer, h'))"

definition wled_attempt_unlock :: "string \<Rightarrow> string \<Rightarrow> net_host \<Rightarrow> bool \<times> net_host" where
  "wled_attempt_unlock base_url password h =
     (case http (PostForm (base_url @ ''/settings/sec'') [(''OP'', password)]) 8 h of
        (Inl e, h') \<Rightarrow> (False, h')
      | (Inr (status, text, json), h') \<Rightarrow> ((if status = 0 then 200 else status) < 400, h'))"

definition is_runtime_401 :: "exn \<Rightarrow> bool" where
  "is_runtime_401 e = (case e of Exn cls text \<Rightarrow> cls = ''RuntimeError'' \<and> is_infix ''HTTP 401'' text)"

definition wled_upload_firmware :: "string \<Rightarrow> string \<Rightarrow> rat \<Rightarrow> string \<Rightarrow> bool \<Rightarrow> unit net_proc" where
  "wled_upload_firmware base_url path timeout_s ota_password skip_validation h =
     (case wled_upload_file base_url path timeout_s [] UPDATE skip_validation h of
        (Inr _, h1) \<Rightarrow> (Inr (), h1)
      | (Inl e, h1) \<Rightarrow>
          if \<not> is_runtime_401 e then (Inl e, h1)
          else
            let (unlocked, h2) = wled_attempt_unlock base_url ota_password h1 in
            if \<not> unlocked then
              (Inl (runtime_error (exn_text e @ '' Auto-unlock POST to /settings/sec also failed; check whether settingsPIN '' @
                 ''is set on the device or otaPass differs from the supplied value (default '' @ [CHR 0x27] @ ota_password @
                 [CHR 0x27] @ '').'')), h2)
            else
              (case wled_upload_file base_url path timeout_s [] UPDATE skip_validation h2 of
                 (Inr _, h3) \<Rightarrow> (Inr (), h3)
               | (Inl e', h3) \<Rightarrow>
                   (Inl (if is_runtime_401 e'
                      then runtime_error (exn_text e' @ '' /update still 401 after auto-unlock - device likely has settingsPIN set, '' @
                        ''otaPass differs from the supplied value (default '' @ [CHR 0x27] @ ota_password @ [CHR 0x27] @
                        ''), or the auto-unlock POST didn'' @ [CHR 0x27] @ ''t actually clear the gate. Check the device'' @
                        [CHR 0x27] @ ''s WLED Security settings.'')
                      else e'), h3)))"

definition wled_download_presets :: "string \<Rightarrow> rat \<Rightarrow> (string \<times> pyval option) net_proc" where
  "wled_download_presets base_url timeout_s h =
     (case http (Get (base_url @ ''/presets.json'')) timeout_s h of
        (Inl (e, code, body), h') \<Rightarrow> (Inl e, h')
      | (Inr (status, text, json), h') \<Rightarrow>
          (if text = [] then Inl (runtime_error ''Empty presets.json response'')
           else if json = None then Inl (runtime_error ''Invalid presets.json payload'')
           else Inr (text, json), h'))"

section \<open>The workflow state\<close>

text \<open>An exception in a workflow: of the host side, or of the controller.\<close>

datatype failure = Net exn | Host py_error

record wifi_options =
  wo_base_url :: string
  wo_ssids :: "string list"
  wo_password :: string
  wo_ota_password :: string
  wo_iface :: string
  wo_bssid :: string
  wo_timeout_s :: rat

record device_result =
  dr_addr :: string
  dr_expected_mac :: string
  dr_group_id :: int
  dr_ok :: bool
  dr_error :: "failure option"
  dr_ssid :: "string option"
  dr_info_before :: "pydict option"

text \<open>The messages of \<open>results["errors"]\<close>: an exception of the work, of the disconnect, of the radio switch.\<close>

datatype notice = Failed_work failure | DisconnectNote string exn | RestoreNote exn

record wifi_status =
  ws_was_enabled :: bool
  ws_enabled :: bool
  ws_restored :: bool

record results =
  rs_ok :: bool
  rs_devices :: "device_result list"
  rs_errors :: "notice list"
  rs_wifi :: wifi_status
  rs_file :: "(string \<times> int \<times> rat) option"
  rs_files :: "(string \<times> int \<times> rat) list"

text \<open>\<open>wd_stages\<close> are the stages reported to the task, with the address they are about; \<open>wd_ssid\<close> is the access point
  the workflow connected to last.\<close>

record world =
  wd_ctl :: ctl
  wd_net :: net_host
  wd_presets :: preset_dir
  wd_stages :: "(string \<times> string) list"
  wd_ssid :: string
  wd_results :: results

type_synonym 'a work = "(world, failure, 'a) procedure"

definition on_net :: "'a net_proc \<Rightarrow> 'a work" where
  "on_net m w = (case m (wd_net w) of (r, h) \<Rightarrow> (map_sum Net id r, w\<lparr>wd_net := h\<rparr>))"

text \<open>The controller at the time of the host: what arrived meanwhile is delivered first.\<close>

definition meet :: "world \<Rightarrow> world" where
  "meet w = w\<lparr>wd_ctl := advance (nh_now (wd_net w)) (ct_incoming (wd_ctl w)) (wd_ctl w)\<rparr>"

definition on_host :: "(ctl, 'a) proc \<Rightarrow> 'a work" where
  "on_host m w =
     (let w = meet w in
      case m (wd_ctl w) of
        (r, s) \<Rightarrow> (map_sum Host id r, w\<lparr>wd_ctl := s, wd_net := (wd_net w)\<lparr>nh_now := max (nh_now (wd_net w)) (ct_now s)\<rparr>\<rparr>))"

definition upd_results :: "(results \<Rightarrow> results) \<Rightarrow> world \<Rightarrow> world" where
  "upd_results f w = w\<lparr>wd_results := f (wd_results w)\<rparr>"

definition upd_wifi :: "(wifi_status \<Rightarrow> wifi_status) \<Rightarrow> world \<Rightarrow> world" where
  "upd_wifi f = upd_results (\<lambda>r. r\<lparr>rs_wifi := f (rs_wifi r)\<rparr>)"

definition add_notice :: "notice \<Rightarrow> world \<Rightarrow> world" where
  "add_notice n = upd_results (\<lambda>r. r\<lparr>rs_errors := rs_errors r @ [n]\<rparr>)"

definition stage :: "string \<Rightarrow> string \<Rightarrow> unit work" where
  "stage name addr = pupd (\<lambda>w. w\<lparr>wd_stages := wd_stages w @ [(name, addr)]\<rparr>)"

section \<open>The WiFi around a workflow\<close>

definition ensure_wifi_ready :: "wifi_options \<Rightarrow> bool \<Rightarrow> bool \<Rightarrow> bool work" where
  "ensure_wifi_ready wifi host_wifi_enable host_wifi_initial =
     (if host_wifi_enable \<and> \<not> host_wifi_initial then
        pbind (stage ''HOST_WIFI_ON'' []) (\<lambda>_.
        pbind (on_net (set_radio True)) (\<lambda>_.
        pbind (on_net (wait_iface_ready (wo_iface wifi) 15)) (\<lambda>_.
        pbind (pupd (upd_wifi (\<lambda>s. s\<lparr>ws_enabled := True\<rparr>))) (\<lambda>_.
          pret True))))
      else pret False)"

definition join_ap :: "wifi_options \<Rightarrow> string net_proc" where
  "join_ap wifi = connect_ap (wo_ssids wifi) (wo_password wifi) (wo_iface wifi) (wo_bssid wifi) (wo_timeout_s wifi)"

definition connect_wled_wifi :: "wifi_options \<Rightarrow> string \<Rightarrow> bool \<Rightarrow> bool \<Rightarrow> (string \<times> bool) work" where
  "connect_wled_wifi wifi addr host_wifi_enable host_wifi_changed =
     pbind (stage ''CONNECT_WIFI'' addr) (\<lambda>_ w.
       case join_ap wifi (wd_net w) of
         (Inr matched, h) \<Rightarrow> (Inr (matched, host_wifi_changed), w\<lparr>wd_net := h\<rparr>)
       | (Inl e, h) \<Rightarrow>
           (if host_wifi_enable \<and> \<not> host_wifi_changed \<and> wifi_disabled (exn_text e) then
              pbind (stage ''HOST_WIFI_ON'' addr) (\<lambda>_.
              pbind (on_net (set_radio True)) (\<lambda>_.
              pbind (pupd (upd_wifi (\<lambda>s. s\<lparr>ws_enabled := True\<rparr>))) (\<lambda>_.
              pbind (on_net (wait_iface_ready (wo_iface wifi) 15)) (\<lambda>_.
              pbind (on_net (join_ap wifi)) (\<lambda>matched.
                pret (matched, True))))))
            else plift (Inl (Net e))) (w\<lparr>wd_net := h\<rparr>))"

text \<open>The restore never raises.\<close>

definition restore_host_wifi :: "bool \<Rightarrow> bool \<Rightarrow> world \<Rightarrow> world" where
  "restore_host_wifi host_wifi_restore host_wifi_initial w =
     (if host_wifi_restore \<and> \<not> host_wifi_initial then
        let (on, h) = radio_enabled (wd_net w); w = w\<lparr>wd_net := h\<rparr> in
        if \<not> on then w
        else
          let w = (case disconnect_ap (wd_ssid w) 10 (wd_net w) of
                     (Inr _, h) \<Rightarrow> w\<lparr>wd_net := h\<rparr>
                   | (Inl e, h) \<Rightarrow> add_notice (DisconnectNote (wd_ssid w) e) (w\<lparr>wd_net := h\<rparr>))
          in case set_radio False (wd_net w) of
               (Inr _, h) \<Rightarrow> upd_wifi (\<lambda>s. s\<lparr>ws_enabled := False, ws_restored := True\<rparr>) (w\<lparr>wd_net := h\<rparr>)
             | (Inl e, h) \<Rightarrow> upd_results (\<lambda>r. r\<lparr>rs_ok := False\<rparr>) (add_notice (RestoreNote e) (w\<lparr>wd_net := h\<rparr>))
      else w)"

definition fresh_results :: "bool \<Rightarrow> results" where
  "fresh_results initial = \<lparr>rs_ok = True, rs_devices = [], rs_errors = [],
     rs_wifi = \<lparr>ws_was_enabled = initial, ws_enabled = initial, ws_restored = False\<rparr>, rs_file = None, rs_files = []\<rparr>"

definition begin_workflow :: "world \<Rightarrow> bool \<times> world" where
  "begin_workflow w =
     (let (initial, h) = radio_enabled (wd_net w) in (initial, w\<lparr>wd_net := h, wd_ssid := [], wd_results := fresh_results initial\<rparr>))"

section \<open>Steps at one node\<close>

definition ap_config :: "string \<Rightarrow> int \<Rightarrow> bool \<Rightarrow> rat option \<Rightarrow> bool option work" where
  "ap_config addr data0 wait_for_ack timeout_s =
     pbind (plift (map_sum Host id (recv3_bytes_from_addr addr))) (\<lambda>recv3.
       on_host (send_config 4 data0 0 0 0 recv3 wait_for_ack timeout_s))"

definition ap_on :: "string \<Rightarrow> string \<Rightarrow> unit work" where
  "ap_on extra addr =
     pbind (stage ''RACELINK_AP_ON'' addr) (\<lambda>_.
     pbind (ap_config addr 1 True (Some 8)) (\<lambda>ok.
       if ok = Some True then pret ()
       else plift (Inl (Net (runtime_error (''Timeout waiting for CONFIG ACK from '' @ addr @ extra))))))"

definition reach_node :: "(pyval \<Rightarrow> string) \<Rightarrow> string \<Rightarrow> string \<Rightarrow> pyval work" where
  "reach_node rp base_url addr =
     pbind (stage ''WAIT_HTTP'' addr) (\<lambda>_.
     pbind (on_net (wait_for_expected_node rp base_url (expected_mac_hex addr) 90 1)) (\<lambda>info.
       if py_truth info then pret info
       else plift (Inl (Net (runtime_error (''Timeout waiting for node (baseUrl='' @ base_url @ '') to report expected mac '' @
              expected_mac_hex addr))))))"

section \<open>Downloading presets\<close>

definition save_presets :: "(rat \<Rightarrow> string) \<Rightarrow> string \<Rightarrow> pyval option \<Rightarrow> unit work" where
  "save_presets stamp text json w =
     (case save_payload stamp text json ((wd_presets w)\<lparr>pd_now := nh_now (wd_net w)\<rparr>) of
        (Inl e, d) \<Rightarrow> (Inl (Host e), w\<lparr>wd_presets := d\<rparr>)
      | (Inr saved, d) \<Rightarrow>
          (Inr (), upd_results (\<lambda>r. r\<lparr>rs_file := Some saved, rs_files := list_files d\<rparr>) (w\<lparr>wd_presets := d\<rparr>)))"

definition download_steps ::
  "(pyval \<Rightarrow> string) \<Rightarrow> (rat \<Rightarrow> string) \<Rightarrow> string \<Rightarrow> string \<Rightarrow> wifi_options \<Rightarrow> bool \<Rightarrow> bool \<Rightarrow> unit work" where
  "download_steps rp stamp mac base_url wifi host_wifi_enable initial =
     pbind (ensure_wifi_ready wifi host_wifi_enable initial) (\<lambda>changed.
     pbind (ap_on [] mac) (\<lambda>_.
     pbind (connect_wled_wifi wifi mac host_wifi_enable changed) (\<lambda>(ssid, _).
     pbind (pupd (\<lambda>w. w\<lparr>wd_ssid := ssid\<rparr>)) (\<lambda>_.
     pbind (reach_node rp base_url mac) (\<lambda>_.
     pbind (stage ''DOWNLOAD_PRESETS'' mac) (\<lambda>_.
     pbind (on_net (wled_download_presets base_url 15)) (\<lambda>(text, json).
     pbind (save_presets stamp text json) (\<lambda>_ w.
       (Inr (), snd (ap_config mac 0 True (Some 6) w))))))))))"

definition download_presets ::
  "(pyval \<Rightarrow> string) \<Rightarrow> (rat \<Rightarrow> string) \<Rightarrow> string \<Rightarrow> string \<Rightarrow> wifi_options \<Rightarrow> bool \<Rightarrow> bool \<Rightarrow> world \<Rightarrow> results \<times> world" where
  "download_presets rp stamp mac base_url wifi host_wifi_enable host_wifi_restore w =
     (let (initial, w) = begin_workflow w;
          w = (case download_steps rp stamp mac base_url wifi host_wifi_enable initial w of
                 (Inr _, w) \<Rightarrow> w
               | (Inl e, w) \<Rightarrow> add_notice (Failed_work e) (upd_results (\<lambda>r. r\<lparr>rs_ok := False\<rparr>) w));
          w = restore_host_wifi host_wifi_restore initial w
      in (wd_results w, w))"

section \<open>Updating firmware\<close>

text \<open>What is to be uploaded: the path of a staged file, if the operation is chosen.\<close>

record update_job =
  uj_macs :: "string list"
  uj_base_url :: string
  uj_fw :: "string option"
  uj_presets :: "string option"
  uj_cfg :: "string option"
  uj_retries :: int
  uj_stop_on_error :: bool
  uj_skip_validation :: bool

definition upd_device_result :: "(device_result \<Rightarrow> device_result) \<Rightarrow> world \<Rightarrow> world" where
  "upd_device_result f = upd_results (\<lambda>r. r\<lparr>rs_devices := butlast (rs_devices r) @ [f (last (rs_devices r))]\<rparr>)"

text \<open>The attempts to flash: the last exception, or nothing when one succeeded; the outer \<open>None\<close> is no attempt.\<close>

fun flash_loop :: "string \<Rightarrow> string \<Rightarrow> string \<Rightarrow> bool \<Rightarrow> string \<Rightarrow> exn option \<Rightarrow> nat \<Rightarrow> world \<Rightarrow> (bool \<times> exn option) \<times> world" where
  "flash_loop base_url path ota_password skip addr last_err 0 w = ((False, last_err), w)"
| "flash_loop base_url path ota_password skip addr last_err (Suc n) w =
     (let w1 = snd (stage ''UPLOAD_FW'' addr w) in
      case wled_upload_firmware base_url path 60 ota_password skip (wd_net w1) of
        (Inr _, h) \<Rightarrow> ((True, last_err), w1\<lparr>wd_net := h\<rparr>)
      | (Inl e, h) \<Rightarrow>
          if is_infix ''HTTP 500'' (exn_text e) \<or> is_infix ''HTTP 503'' (exn_text e)
          then ((False, Some e), w1\<lparr>wd_net := h\<rparr>)
          else flash_loop base_url path ota_password skip addr (Some e) n (w1\<lparr>wd_net := pass 2 h\<rparr>))"

definition flash :: "update_job \<Rightarrow> wifi_options \<Rightarrow> string \<Rightarrow> string \<Rightarrow> unit work" where
  "flash job wifi path addr w =
     (case flash_loop (uj_base_url job) path (wo_ota_password wifi) (uj_skip_validation job) addr None (nat (uj_retries job)) w of
        ((True, last_err), w) \<Rightarrow> (Inr (), w)
      | ((False, last_err), w) \<Rightarrow>
          (Inl (Net (runtime_error (''Firmware upload failed: '' @
             (case last_err of None \<Rightarrow> ''None'' | Some e \<Rightarrow> exn_text e)))), w))"

definition upload_if :: "string option \<Rightarrow> (string \<Rightarrow> unit work) \<Rightarrow> unit work" where
  "upload_if path upload = (case path of None \<Rightarrow> pret () | Some p \<Rightarrow> upload p)"

definition info_before :: "pyval \<Rightarrow> pydict" where
  "info_before info =
     (case info of PDict d \<Rightarrow> map (\<lambda>k. (k, dget d k)) [''mac'', ''ver'', ''arch'', ''name''] | _ \<Rightarrow> [])"

definition update_work :: "(pyval \<Rightarrow> string) \<Rightarrow> update_job \<Rightarrow> wifi_options \<Rightarrow> bool \<Rightarrow> bool \<Rightarrow> string \<Rightarrow> unit work" where
  "update_work rp job wifi host_wifi_enable initial addr =
     pbind (ap_on '' (AP-enable)'' addr) (\<lambda>_.
     pbind (pread (\<lambda>w. ws_enabled (rs_wifi (wd_results w)) \<and> \<not> initial)) (\<lambda>changed.
     pbind (connect_wled_wifi wifi addr host_wifi_enable changed) (\<lambda>(ssid, _).
     pbind (pupd (\<lambda>w. upd_device_result (\<lambda>r. r\<lparr>dr_ssid := Some ssid\<rparr>) (w\<lparr>wd_ssid := or_text ssid (wd_ssid w)\<rparr>))) (\<lambda>_.
     pbind (reach_node rp (uj_base_url job) addr) (\<lambda>info.
     pbind (pupd (upd_device_result (\<lambda>r. r\<lparr>dr_info_before := Some (info_before info)\<rparr>))) (\<lambda>_.
     pbind (upload_if (uj_presets job) (\<lambda>p. on_net (wled_upload_file (uj_base_url job) p 45 ''presets.json'' ''/upload'' False))) (\<lambda>_.
     pbind (upload_if (uj_cfg job) (\<lambda>p. on_net (wled_upload_file (uj_base_url job) p 45 ''cfg.json'' ''/upload'' False))) (\<lambda>_.
       upload_if (uj_fw job) (\<lambda>p. flash job wifi p addr)))))))))"

definition update_steps :: "(pyval \<Rightarrow> string) \<Rightarrow> update_job \<Rightarrow> wifi_options \<Rightarrow> bool \<Rightarrow> bool \<Rightarrow> string \<Rightarrow> unit work" where
  "update_steps rp job wifi host_wifi_enable initial addr =
     pbind (update_work rp job wifi host_wifi_enable initial addr)
       (\<lambda>_. pupd (upd_device_result (\<lambda>r. r\<lparr>dr_ok := True\<rparr>)))"

definition new_device_result :: "string \<Rightarrow> world \<Rightarrow> device_result" where
  "new_device_result addr w =
     \<lparr>dr_addr = addr, dr_expected_mac = expected_mac_hex addr,
      dr_group_id = lookup_group_id_for_addr addr (ct_devices (wd_ctl w)),
      dr_ok = False, dr_error = None, dr_ssid = None, dr_info_before = None\<rparr>"

text \<open>One device: the result is the exception that is raised again, if any.\<close>

definition update_device ::
  "(pyval \<Rightarrow> string) \<Rightarrow> update_job \<Rightarrow> wifi_options \<Rightarrow> bool \<Rightarrow> bool \<Rightarrow> string \<Rightarrow> world \<Rightarrow> failure option \<times> world" where
  "update_device rp job wifi host_wifi_enable initial addr w =
     (let w = meet w;
          w = upd_results (\<lambda>r. r\<lparr>rs_devices := rs_devices r @ [new_device_result addr w]\<rparr>) w;
          (r, w) = update_steps rp job wifi host_wifi_enable initial addr w;
          w = (case r of Inr _ \<Rightarrow> w
               | Inl e \<Rightarrow> add_notice (Failed_work e) (upd_device_result (\<lambda>d. d\<lparr>dr_error := Some e\<rparr>) w));
          w = snd (ap_config addr 0 False None w)
      in (case r of Inl e \<Rightarrow> if uj_stop_on_error job then Some e else None | Inr _ \<Rightarrow> None, w))"

fun update_devices ::
  "(pyval \<Rightarrow> string) \<Rightarrow> update_job \<Rightarrow> wifi_options \<Rightarrow> bool \<Rightarrow> bool \<Rightarrow> string list \<Rightarrow> world \<Rightarrow> failure option \<times> world" where
  "update_devices rp job wifi host_wifi_enable initial [] w = (None, w)"
| "update_devices rp job wifi host_wifi_enable initial (addr # addrs) w =
     (case update_device rp job wifi host_wifi_enable initial addr w of
        (Some e, w) \<Rightarrow> (Some e, w)
      | (None, w) \<Rightarrow> update_devices rp job wifi host_wifi_enable initial addrs w)"

definition run_firmware_update ::
  "(pyval \<Rightarrow> string) \<Rightarrow> update_job \<Rightarrow> wifi_options \<Rightarrow> bool \<Rightarrow> bool \<Rightarrow> (world, exn, results) procedure" where
  "run_firmware_update rp job wifi host_wifi_enable host_wifi_restore w =
     (let (initial, w) = begin_workflow w in
      if uj_fw job = None \<and> uj_presets job = None \<and> uj_cfg job = None
      then (Inl (runtime_error (''firmware-update called with no operations selected '' @
        ''(no fw_info / presets_info / cfg_info); the API route should have rejected this with 400'')), w)
      else
        let (failed, w) = (case ensure_wifi_ready wifi host_wifi_enable initial w of
                             (Inl e, w) \<Rightarrow> (Some e, w)
                           | (Inr _, w) \<Rightarrow> update_devices rp job wifi host_wifi_enable initial (uj_macs job) w);
            w = (if failed = None then w else upd_results (\<lambda>r. r\<lparr>rs_ok := False\<rparr>) w);
            w = restore_host_wifi host_wifi_restore initial w
        in (Inr (wd_results w), w))"

section \<open>What the steps change\<close>

text \<open>A preorder every run of a procedure respects, carried through sequences.\<close>

definition moves :: "('s \<Rightarrow> 's \<Rightarrow> bool) \<Rightarrow> ('s, 'e, 'a) procedure \<Rightarrow> bool" where
  "moves R m \<longleftrightarrow> (\<forall>s. R s (snd (m s)))"

lemma movesD: "moves R m \<Longrightarrow> m s = (r, s') \<Longrightarrow> R s s'"
  unfolding moves_def by (metis snd_conv)

lemma moves_pbind: "transp R \<Longrightarrow> moves R m \<Longrightarrow> (\<And>x. moves R (f x)) \<Longrightarrow> moves R (pbind m f)"
  unfolding moves_def
proof
  fix s assume t: "transp R" and m: "\<forall>s. R s (snd (m s))" and f: "\<And>x. \<forall>s. R s (snd (f x s))"
  obtain r s1 where ms: "m s = (r, s1)" by fastforce
  with m have "R s s1" by (metis snd_conv)
  then show "R s (snd (pbind m f s))"
    using f transpD [OF t] by (cases r) (auto simp: pbind_def ms)
qed

lemma moves_pupd: "(\<And>s. R s (u s)) \<Longrightarrow> moves R (pupd u)"
  by (simp add: moves_def)

lemma moves_same:
  assumes "reflp R"
  shows "moves R (pret x)" and "moves R (plift r)" and "moves R (pread g)"
  using assms by (simp_all add: moves_def reflpD)

lemma moves_prod: "(\<And>a b. moves R (f a b)) \<Longrightarrow> moves R (case p of (a, b) \<Rightarrow> f a b)"
  by (simp split: prod.split)

lemma moves_if: "moves R m \<Longrightarrow> moves R n \<Longrightarrow> moves R (if b then m else n)"
  by simp

text \<open>The reported part of the results: the flag, the messages, and of each device address, flag and exception.\<close>

definition digest :: "world \<Rightarrow> bool \<times> notice list \<times> (string \<times> bool \<times> failure option) list" where
  "digest w = (rs_ok (wd_results w), rs_errors (wd_results w),
     map (\<lambda>d. (dr_addr d, dr_ok d, dr_error d)) (rs_devices (wd_results w)))"

definition same_digest :: "world \<Rightarrow> world \<Rightarrow> bool" where
  "same_digest w w' \<longleftrightarrow> rs_devices (wd_results w) = [] \<or> digest w' = digest w"

lemma same_digest_refl: "reflp same_digest"
  by (simp add: reflp_def same_digest_def)

lemma same_digest_trans: "transp same_digest"
  unfolding transp_def same_digest_def digest_def by auto

lemmas moves_seq = moves_pbind [OF same_digest_trans]
lemmas moves_rest = moves_same [OF same_digest_refl]

lemma digest_fields [simp]:
  "digest (w\<lparr>wd_net := h\<rparr>) = digest w" "digest (w\<lparr>wd_ctl := c\<rparr>) = digest w" "digest (w\<lparr>wd_ssid := n\<rparr>) = digest w"
  "digest (w\<lparr>wd_stages := st\<rparr>) = digest w" "digest (upd_wifi f w) = digest w" "digest (meet w) = digest w"
  by (simp_all add: digest_def upd_wifi_def upd_results_def meet_def)

lemma on_net_digest: "moves same_digest (on_net m)"
  by (simp add: moves_def same_digest_def on_net_def split: prod.split)

lemma on_host_digest: "moves same_digest (on_host m)"
  by (simp add: moves_def same_digest_def on_host_def Let_def split: prod.split)

lemma stage_digest: "moves same_digest (stage n a)"
  by (simp add: moves_def same_digest_def stage_def)

lemma wifi_digest: "moves same_digest (pupd (upd_wifi f))"
  by (simp add: moves_def same_digest_def)

lemma digest_device:
  assumes "\<And>d. dr_addr (f d) = dr_addr d" "\<And>d. dr_ok (f d) = dr_ok d" "\<And>d. dr_error (f d) = dr_error d"
  shows "same_digest w (upd_device_result f w)"
proof (cases "rs_devices (wd_results w)" rule: rev_cases)
  case (snoc ds d)
  then show ?thesis using assms by (simp add: same_digest_def digest_def upd_device_result_def upd_results_def)
qed (simp add: same_digest_def)

lemma ap_config_digest: "moves same_digest (ap_config addr d a t)"
  unfolding ap_config_def by (intro moves_seq moves_rest on_host_digest)

lemma ap_on_digest: "moves same_digest (ap_on extra addr)"
  unfolding ap_on_def by (intro moves_seq moves_if moves_rest stage_digest ap_config_digest)

lemma connect_digest: "moves same_digest (connect_wled_wifi wifi addr en ch)"
proof -
  have again: "moves same_digest (pbind (stage ''HOST_WIFI_ON'' addr) (\<lambda>_.
              pbind (on_net (set_radio True)) (\<lambda>_.
              pbind (pupd (upd_wifi (\<lambda>s. s\<lparr>ws_enabled := True\<rparr>))) (\<lambda>_.
              pbind (on_net (wait_iface_ready (wo_iface wifi) 15)) (\<lambda>_.
              pbind (on_net (join_ap wifi)) (\<lambda>matched. pret (matched, True)))))))"
    by (intro moves_seq moves_rest stage_digest on_net_digest wifi_digest)
  have net: "same_digest w (w\<lparr>wd_net := h\<rparr>)" for w h by (simp add: same_digest_def)
  have step: "moves same_digest m \<Longrightarrow> same_digest w (snd (m (w\<lparr>wd_net := h\<rparr>)))" for m :: "(string \<times> bool) work" and w h
    using transpD [OF same_digest_trans net [of w h]] by (simp add: moves_def)
  show ?thesis unfolding connect_wled_wifi_def
  proof (intro moves_seq stage_digest)
    fix u
    show "moves same_digest (\<lambda>w. case join_ap wifi (wd_net w) of
         (Inr matched, h) \<Rightarrow> (Inr (matched, ch), w\<lparr>wd_net := h\<rparr>)
       | (Inl e, h) \<Rightarrow>
           (if en \<and> \<not> ch \<and> wifi_disabled (exn_text e) then
              pbind (stage ''HOST_WIFI_ON'' addr) (\<lambda>_.
              pbind (on_net (set_radio True)) (\<lambda>_.
              pbind (pupd (upd_wifi (\<lambda>s. s\<lparr>ws_enabled := True\<rparr>))) (\<lambda>_.
              pbind (on_net (wait_iface_ready (wo_iface wifi) 15)) (\<lambda>_.
              pbind (on_net (join_ap wifi)) (\<lambda>matched. pret (matched, True))))))
            else plift (Inl (Net e))) (w\<lparr>wd_net := h\<rparr>))"
      using net step [OF again] unfolding moves_def by (simp split: prod.split sum.split)
  qed
qed

lemma reach_digest: "moves same_digest (reach_node rp b addr)"
  unfolding reach_node_def by (intro moves_seq moves_if moves_rest stage_digest on_net_digest)

lemma flash_loop_digest: "digest (snd (flash_loop b p pw sk addr e n w)) = digest w"
  by (induction b p pw sk addr e n w rule: flash_loop.induct)
    (auto simp: stage_def Let_def split: prod.split sum.split)

lemma flash_digest: "moves same_digest (flash job wifi p addr)"
proof -
  have "digest (snd (flash job wifi p addr w)) = digest w" for w
    using flash_loop_digest [of "uj_base_url job" p "wo_ota_password wifi" "uj_skip_validation job" addr None "nat (uj_retries job)" w]
    by (auto simp: flash_def split: prod.splits bool.splits)
  then show ?thesis by (simp add: moves_def same_digest_def)
qed

lemma upload_if_digest: "(\<And>p. moves same_digest (f p)) \<Longrightarrow> moves same_digest (upload_if path f)"
  by (cases path) (simp_all add: upload_if_def moves_rest)

lemma update_work_digest: "moves same_digest (update_work rp job wifi en initial addr)"
  unfolding update_work_def
  by (intro moves_seq moves_prod moves_rest ap_on_digest connect_digest reach_digest upload_if_digest on_net_digest flash_digest
      moves_pupd digest_device transpD [OF same_digest_trans _ digest_device])
    (simp_all add: same_digest_def)

text \<open>The device at work is the last one.\<close>

lemma update_steps_digest:
  assumes "update_steps rp job wifi en initial addr w = (r, w')" and d: "rs_devices (wd_results w) = ds @ [d]" and "\<not> dr_ok d"
  shows "digest w' = (rs_ok (wd_results w), rs_errors (wd_results w),
      map (\<lambda>d. (dr_addr d, dr_ok d, dr_error d)) ds @ [(dr_addr d, r = Inr (), dr_error d)])"
proof -
  obtain r1 w1 where work: "update_work rp job wifi en initial addr w = (r1, w1)" by fastforce
  have same: "digest w1 = digest w"
    using movesD [OF update_work_digest work] d by (simp add: same_digest_def)
  then obtain ds1 d1 where d1: "rs_devices (wd_results w1) = ds1 @ [d1]"
    using d by (cases "rs_devices (wd_results w1)" rule: rev_cases) (simp_all add: digest_def)
  show ?thesis
    using assms(1,3) same d d1
    by (cases r1) (auto simp: update_steps_def pbind_def work digest_def upd_device_result_def upd_results_def)
qed

section \<open>The report of a firmware update\<close>

definition failures :: "failure option list \<Rightarrow> notice list" where
  "failures outs = concat (map (\<lambda>e. case e of None \<Rightarrow> [] | Some f \<Rightarrow> [Failed_work f]) outs)"

definition reported :: "string list \<Rightarrow> failure option list \<Rightarrow> (string \<times> bool \<times> failure option) list" where
  "reported addrs outs = map (\<lambda>(a, e). (a, e = None, e)) (zip addrs outs)"

lemma failures_simps [simp]:
  "failures [] = []" "failures (None # outs) = failures outs" "failures (Some f # outs) = Failed_work f # failures outs"
  by (simp_all add: failures_def)

lemma reported_simps [simp]:
  "reported addrs [] = []" "reported (a # addrs) (e # outs) = (a, e = None, e) # reported addrs outs"
  by (simp_all add: reported_def)

lemma digest_parts:
  "digest w = (ok, errs, rep) \<longleftrightarrow> rs_ok (wd_results w) = ok \<and> rs_errors (wd_results w) = errs \<and>
     map (\<lambda>d. (dr_addr d, dr_ok d, dr_error d)) (rs_devices (wd_results w)) = rep"
  by (simp add: digest_def)

lemma device_report:
  assumes "update_device rp job wifi en initial addr w = (stopped, w')" and "digest w = (ok, errs, rep)"
  shows "\<exists>out. digest w' = (ok, errs @ failures [out], rep @ [(addr, out = None, out)]) \<and>
     stopped = (if uj_stop_on_error job then out else None)"
proof -
  define w1 where "w1 = upd_results (\<lambda>r. r\<lparr>rs_devices := rs_devices r @ [new_device_result addr (meet w)]\<rparr>) (meet w)"
  obtain r w2 where steps: "update_steps rp job wifi en initial addr w1 = (r, w2)" by fastforce
  define w3 where "w3 = (case r of Inr _ \<Rightarrow> w2
      | Inl e \<Rightarrow> add_notice (Failed_work e) (upd_device_result (\<lambda>d. d\<lparr>dr_error := Some e\<rparr>) w2))"
  define out where "out = (case r of Inl e \<Rightarrow> Some e | Inr _ \<Rightarrow> None)"
  have w': "w' = snd (ap_config addr 0 False None w3)" and stopped: "stopped = (if uj_stop_on_error job then out else None)"
    using assms(1) steps by (auto simp: update_device_def Let_def w1_def w3_def out_def split: sum.splits)
  have "wd_results (meet w) = wd_results w" by (simp add: meet_def)
  then have d1: "rs_devices (wd_results w1) = rs_devices (wd_results w) @ [new_device_result addr (meet w)]"
    "rs_ok (wd_results w1) = ok" "rs_errors (wd_results w1) = errs"
    using assms(2) by (simp_all add: w1_def upd_results_def digest_parts)
  have "digest w2 = (ok, errs, rep @ [(addr, r = Inr (), None)])"
    using update_steps_digest [OF steps d1(1)] d1(2,3) assms(2) by (simp add: new_device_result_def digest_parts)
  then have d3: "digest w3 = (ok, errs @ failures [out], rep @ [(addr, out = None, out)])"
    by (cases "rs_devices (wd_results w2)" rule: rev_cases)
      (auto simp: w3_def out_def digest_parts add_notice_def upd_device_result_def upd_results_def split: sum.split)
  then have "rs_devices (wd_results w3) \<noteq> []" by (auto simp: digest_parts)
  then have "digest w' = digest w3"
    using ap_config_digest [of addr 0 False None] unfolding w' moves_def same_digest_def by blast
  with d3 stopped show ?thesis by auto
qed

lemma devices_report:
  assumes "update_devices rp job wifi en initial addrs w = (stopped, w')" and "digest w = (ok, errs, rep)"
  shows "\<exists>outs. length outs \<le> length addrs \<and> digest w' = (ok, errs @ failures outs, rep @ reported addrs outs) \<and>
     (stopped = None \<longrightarrow> length outs = length addrs) \<and>
     (if uj_stop_on_error job then \<forall>e \<in> set (butlast outs). e = None else stopped = None) \<and>
     (uj_stop_on_error job \<and> stopped = None \<longrightarrow> (\<forall>e \<in> set outs. e = None))"
  using assms
proof (induction addrs arbitrary: w errs rep)
  case Nil
  then show ?case by (intro exI [of _ "[]"]) simp
next
  case (Cons addr addrs)
  obtain s1 w1 where one: "update_device rp job wifi en initial addr w = (s1, w1)" by fastforce
  from device_report [OF one Cons.prems(2)] obtain out where
    d1: "digest w1 = (ok, errs @ failures [out], rep @ [(addr, out = None, out)])" and
    s1: "s1 = (if uj_stop_on_error job then out else None)"
    by blast
  show ?case
  proof (cases s1)
    case (Some e)
    with Cons.prems(1) one d1 s1 show ?thesis by (intro exI [of _ "[out]"]) (auto split: if_splits)
  next
    case None
    with Cons.prems(1) one have rest: "update_devices rp job wifi en initial addrs w1 = (stopped, w')" by simp
    from Cons.IH [OF rest d1] obtain outs where o: "length outs \<le> length addrs"
      "digest w' = (ok, (errs @ failures [out]) @ failures outs, (rep @ [(addr, out = None, out)]) @ reported addrs outs)"
      "stopped = None \<longrightarrow> length outs = length addrs"
      "if uj_stop_on_error job then \<forall>e \<in> set (butlast outs). e = None else stopped = None"
      "uj_stop_on_error job \<and> stopped = None \<longrightarrow> (\<forall>e \<in> set outs. e = None)"
      by blast
    have f: "failures (out # outs) = failures [out] @ failures outs" by (cases out) simp_all
    show ?thesis
      by (intro exI [of _ "out # outs"]) (use o None s1 f in \<open>auto split: if_splits\<close>)
  qed
qed

text \<open>The restore appends its own messages only and clears the flag only together with one of them.\<close>

definition is_failed_work :: "notice \<Rightarrow> bool" where
  "is_failed_work n = (case n of Failed_work e \<Rightarrow> True | _ \<Rightarrow> False)"

lemma failures_work: "filter is_failed_work (failures outs) = failures outs"
  by (induction outs) (auto simp: failures_def is_failed_work_def split: option.split)

lemma restore_report:
  assumes "digest w = (ok, errs, rep)"
  shows "\<exists>ns ok'. digest (restore_host_wifi re initial w) = (ok', errs @ ns, rep) \<and> filter is_failed_work ns = [] \<and>
     ok' = (ok \<and> (\<forall>e. RestoreNote e \<notin> set ns)) \<and> (\<not> re \<or> initial \<longrightarrow> ns = [])"
proof (cases "re \<and> \<not> initial \<and> fst (radio_enabled (wd_net w))")
  case False
  with assms show ?thesis
    by (intro exI [of _ "[]"] exI [of _ ok]) (auto simp: restore_host_wifi_def digest_parts split: prod.split)
next
  case True
  obtain h where r: "radio_enabled (wd_net w) = (True, h)" using True by (metis prod.collapse)
  obtain d h1 where d: "disconnect_ap (wd_ssid w) 10 h = (d, h1)" by fastforce
  obtain s h2 where s: "set_radio False h1 = (s, h2)" by fastforce
  let ?ns = "(case d of Inr _ \<Rightarrow> [] | Inl e \<Rightarrow> [DisconnectNote (wd_ssid w) e]) @ (case s of Inr _ \<Rightarrow> [] | Inl e \<Rightarrow> [RestoreNote e])"
  have "digest (restore_host_wifi re initial w) = (ok \<and> (\<forall>e. RestoreNote e \<notin> set ?ns), errs @ ?ns, rep)"
    using True assms r d s
    by (auto simp: restore_host_wifi_def digest_parts upd_wifi_def add_notice_def upd_results_def Let_def split: sum.split)
  then show ?thesis using True
    by (intro exI [of _ ?ns] exI [of _ "ok \<and> (\<forall>e. RestoreNote e \<notin> set ?ns)"]) (auto simp: is_failed_work_def split: sum.split)
qed

lemma ensure_digest: "digest (snd (ensure_wifi_ready wifi en initial w)) = digest w"
  by (auto simp: ensure_wifi_ready_def pbind_def on_net_def stage_def split: prod.split sum.split)

lemma update_report:
  assumes "uj_fw job \<noteq> None \<or> uj_presets job \<noteq> None \<or> uj_cfg job \<noteq> None"
  shows "\<exists>res w' outs. run_firmware_update rp job wifi en re w = (Inr res, w') \<and> length outs \<le> length (uj_macs job) \<and>
     map (\<lambda>d. (dr_addr d, dr_ok d, dr_error d)) (rs_devices res) = reported (uj_macs job) outs \<and>
     filter is_failed_work (rs_errors res) = failures outs \<and>
     (rs_ok res \<or> (\<not> uj_stop_on_error job \<and> outs \<noteq> []) \<longrightarrow> length outs = length (uj_macs job)) \<and>
     (uj_stop_on_error job \<longrightarrow> (\<forall>e \<in> set (butlast outs). e = None) \<and> (rs_ok res \<longrightarrow> (\<forall>e \<in> set outs. e = None)))"
proof -
  obtain initial w0 where b: "begin_workflow w = (initial, w0)" by fastforce
  have d0: "digest w0 = (True, [], [])"
    using b by (auto simp: begin_workflow_def digest_def fresh_results_def split: prod.splits)
  obtain r w1 where e: "ensure_wifi_ready wifi en initial w0 = (r, w1)" by fastforce
  have d1: "digest w1 = (True, [], [])" using ensure_digest [of wifi en initial w0] e d0 by simp
  obtain failed w2 where f: "(case r of Inl e \<Rightarrow> (Some e, w1) | Inr _ \<Rightarrow> update_devices rp job wifi en initial (uj_macs job) w1) = (failed, w2)"
    by fastforce
  obtain outs where o: "length outs \<le> length (uj_macs job)" "digest w2 = (True, failures outs, reported (uj_macs job) outs)"
    "failed = None \<longrightarrow> length outs = length (uj_macs job)"
    "if uj_stop_on_error job then \<forall>e \<in> set (butlast outs). e = None else failed = None \<or> outs = []"
    "uj_stop_on_error job \<and> failed = None \<longrightarrow> (\<forall>e \<in> set outs. e = None)"
  proof (cases r)
    case (Inl x)
    with f d1 show ?thesis by (intro that [of "[]"]) auto
  next
    case (Inr x)
    with f have "update_devices rp job wifi en initial (uj_macs job) w1 = (failed, w2)" by simp
    from devices_report [OF this d1] show ?thesis by (elim exE conjE) (rule that, auto split: if_splits)
  qed
  define w3 where "w3 = (if failed = None then w2 else upd_results (\<lambda>r. r\<lparr>rs_ok := False\<rparr>) w2)"
  have "digest w3 = (failed = None, failures outs, reported (uj_macs job) outs)"
    using o(2) by (auto simp: w3_def digest_parts upd_results_def)
  from restore_report [OF this, of re initial] obtain ns ok where
    d4: "digest (restore_host_wifi re initial w3) = (ok, failures outs @ ns, reported (uj_macs job) outs)"
    and ns: "filter is_failed_work ns = []" and ok: "ok \<longrightarrow> failed = None"
    by auto
  have run: "run_firmware_update rp job wifi en re w = (Inr (wd_results (restore_host_wifi re initial w3)), restore_host_wifi re initial w3)"
    using assms b e f by (auto simp: run_firmware_update_def Let_def w3_def split: prod.split)
  show ?thesis
    by (intro exI [of _ "wd_results (restore_host_wifi re initial w3)"] exI [of _ "restore_host_wifi re initial w3"] exI [of _ outs])
      (use run o d4 ns ok failures_work in \<open>auto simp: digest_parts split: if_splits\<close>)
qed


section \<open>Flashing\<close>

lemma http_requests: "http req t h = (r, h') \<Longrightarrow> nh_requests h' = nh_requests h @ [req] \<and> nh_files h' = nh_files h"
  by (auto simp: http_def pass_def Let_def split: list.split_asm http_answer.split_asm)

lemma upload_requests:
  assumes "wled_upload_file base p t dest ep skip h = (r, h')"
  shows "nh_files h' = nh_files h \<and>
     (case nh_files h p of
        None \<Rightarrow> r = Inl (Exn ''FileNotFoundError'' p) \<and> h' = h
      | Some payload \<Rightarrow> nh_requests h' = nh_requests h @ [upload_request base ep (or_text dest (basename p)) payload skip])"
  using assms by (auto simp: wled_upload_file_def split: option.split prod.split_asm dest!: http_requests)

text \<open>One attempt: at most the upload, the unlocking and the upload again.\<close>

lemma firmware_requests:
  assumes "wled_upload_firmware base p t pw skip h = (r, h')"
  shows "nh_files h' = nh_files h \<and> length (nh_requests h') \<le> length (nh_requests h) + 3 \<and>
     (r = Inr () \<longrightarrow> (\<exists>payload. nh_files h p = Some payload \<and>
        last (nh_requests h') = upload_request base UPDATE (basename p) payload skip))"
proof -
  obtain r1 h1 where u1: "wled_upload_file base p t [] UPDATE skip h = (r1, h1)" by fastforce
  note f1 = upload_requests [OF u1]
  show ?thesis
  proof (cases r1)
    case (Inr x)
    then show ?thesis using assms u1 f1 by (auto simp: wled_upload_firmware_def or_text_def split: option.split_asm)
  next
    case (Inl e)
    show ?thesis
    proof (cases "is_runtime_401 e")
      case False
      then show ?thesis using assms u1 f1 Inl by (auto simp: wled_upload_firmware_def split: option.split_asm)
    next
      case True
      obtain ok h2 where u2: "wled_attempt_unlock base pw h1 = (ok, h2)" by fastforce
      have f2: "nh_files h2 = nh_files h1" "length (nh_requests h2) = length (nh_requests h1) + 1"
        using u2 by (auto simp: wled_attempt_unlock_def split: prod.split_asm sum.split_asm dest!: http_requests)
      obtain r3 h3 where u3: "wled_upload_file base p t [] UPDATE skip h2 = (r3, h3)" by fastforce
      note f3 = upload_requests [OF u3]
      show ?thesis using assms u1 u2 u3 True Inl f1 f2 f3
        by (auto simp: wled_upload_firmware_def or_text_def Let_def split: option.split_asm sum.split_asm if_split_asm)
    qed
  qed
qed

lemma flash_loop_requests:
  assumes "flash_loop base p pw skip addr last_err n w = ((ok, err), w')"
  shows "nh_files (wd_net w') = nh_files (wd_net w) \<and>
     length (nh_requests (wd_net w')) \<le> length (nh_requests (wd_net w)) + 3 * n \<and>
     (ok \<longrightarrow> (\<exists>payload. nh_files (wd_net w) p = Some payload \<and>
        last (nh_requests (wd_net w')) = upload_request base UPDATE (basename p) payload skip))"
  using assms
proof (induction n arbitrary: last_err w)
  case (Suc n)
  define w1 where "w1 = snd (stage ''UPLOAD_FW'' addr w)"
  have net: "wd_net w1 = wd_net w" by (simp add: w1_def stage_def)
  obtain r h where u: "wled_upload_firmware base p 60 pw skip (wd_net w) = (r, h)" by fastforce
  note f = firmware_requests [OF u]
  show ?case
  proof (cases "\<exists>e. r = Inl e \<and> \<not> (is_infix ''HTTP 500'' (exn_text e) \<or> is_infix ''HTTP 503'' (exn_text e))")
    case True
    then obtain e where e: "r = Inl e" and again: "flash_loop base p pw skip addr (Some e) n (w1\<lparr>wd_net := pass 2 h\<rparr>) = ((ok, err), w')"
      using Suc.prems u net by (auto simp: w1_def [symmetric] Let_def)
    from Suc.IH [OF again] f show ?thesis by (auto simp: pass_def)
  next
    case False
    then show ?thesis using Suc.prems u f net
      by (auto simp: w1_def [symmetric] Let_def split: sum.split_asm if_split_asm)
  qed
qed simp

text \<open>
  C27.  Flashing is bounded and a success is one.  Flashing a node sends at most three requests for each attempt, however
  the node answers, and ends; when it reports success, the staged file exists and the very last request was the
  upload of its bytes to the update address of the node, with the validation skipped exactly if that was asked.
\<close>

theorem flash_bounded:
  assumes "flash job wifi path addr w = (r, w')"
  shows "length (nh_requests (wd_net w')) \<le> length (nh_requests (wd_net w)) + 3 * nat (uj_retries job) \<and>
     (r = Inr () \<longrightarrow> (\<exists>payload. nh_files (wd_net w) path = Some payload \<and> last (nh_requests (wd_net w')) =
        PostFile (uj_base_url job @ ''/update'')
          ((if uj_skip_validation job then [TextPart ''skipValidation'' ''1''] else []) @ [FilePart (basename path) payload])))"
proof -
  obtain ok err w1 where l: "flash_loop (uj_base_url job) path (wo_ota_password wifi) (uj_skip_validation job) addr None
      (nat (uj_retries job)) w = ((ok, err), w1)"
    by (metis prod.collapse)
  have "w1 = w'" and "r = Inr () \<longrightarrow> ok"
    using assms l by (auto simp: flash_def split: bool.split_asm)
  with flash_loop_requests [OF l] show ?thesis by (auto simp: upload_request_def UPDATE_def)
qed

section \<open>What the report does not say\<close>

text \<open>Without a transport no access point is switched on.\<close>

lemma idle_meet:
  assumes "ct_incoming (wd_ctl w) = []" and "\<not> ct_transport (wd_ctl w)"
  shows "ct_incoming (wd_ctl (meet w)) = []" and "\<not> ct_transport (wd_ctl (meet w))"
  using assms by (simp_all add: meet_def)

lemma idle_config:
  assumes "ct_incoming (wd_ctl w) = []" and "\<not> ct_transport (wd_ctl w)" and "ap_config addr d a t w = (r, w')"
  shows "ct_incoming (wd_ctl w') = [] \<and> \<not> ct_transport (wd_ctl w') \<and> (a \<longrightarrow> r \<noteq> Inr (Some True))"
proof (cases "recv3_bytes_from_addr addr")
  case (Inl e)
  then show ?thesis using assms by (auto simp: ap_config_def pbind_def)
next
  case (Inr x)
  then show ?thesis using assms(3) idle_meet [OF assms(1,2)]
    by (auto simp: ap_config_def pbind_def on_host_def send_config_def gw_send_config_def assms Let_def)
qed

lemma idle_device:
  assumes "ct_incoming (wd_ctl w) = []" and "\<not> ct_transport (wd_ctl w)"
    and "update_device rp job wifi en initial addr w = (stopped, w')" and "digest w = (ok, errs, rep)"
  shows "ct_incoming (wd_ctl w') = [] \<and> \<not> ct_transport (wd_ctl w') \<and>
     (\<exists>e. digest w' = (ok, errs @ [Failed_work e], rep @ [(addr, False, Some e)]))"
proof -
  define w1 where "w1 = upd_results (\<lambda>r. r\<lparr>rs_devices := rs_devices r @ [new_device_result addr (meet w)]\<rparr>) (meet w)"
  have i1: "ct_incoming (wd_ctl w1) = []" "\<not> ct_transport (wd_ctl w1)"
    using idle_meet [OF assms(1,2)] by (simp_all add: w1_def upd_results_def)
  obtain r w2 where on: "ap_on '' (AP-enable)'' addr w1 = (r, w2)" by fastforce
  have "(\<exists>e. r = Inl e) \<and> ct_incoming (wd_ctl w2) = [] \<and> \<not> ct_transport (wd_ctl w2)"
    using on idle_config [of "w1\<lparr>wd_stages := wd_stages w1 @ [(''RACELINK_AP_ON'', addr)]\<rparr>" addr 1 True "Some 8"] i1
    by (auto simp: ap_on_def stage_def pbind_cases split: if_split_asm)
  then obtain e where r: "r = Inl e" and i2: "ct_incoming (wd_ctl w2) = []" "\<not> ct_transport (wd_ctl w2)" by blast
  have steps: "update_steps rp job wifi en initial addr w1 = (Inl e, w2)"
    using on r by (simp add: update_steps_def update_work_def pbind_def)
  define w3 where "w3 = add_notice (Failed_work e) (upd_device_result (\<lambda>d. d\<lparr>dr_error := Some e\<rparr>) w2)"
  have w': "w' = snd (ap_config addr 0 False None w3)"
    using assms(3) steps by (auto simp: update_device_def Let_def w1_def w3_def)
  have "ct_incoming (wd_ctl w3) = []" "\<not> ct_transport (wd_ctl w3)"
    using i2 by (simp_all add: w3_def add_notice_def upd_device_result_def upd_results_def)
  then have i: "ct_incoming (wd_ctl w') = []" "\<not> ct_transport (wd_ctl w')"
    using idle_config [of w3 addr 0 False None] unfolding w' by (metis prod.collapse)+
  have wr: "wd_results (meet w) = wd_results w" by (simp add: meet_def)
  then have d1: "rs_devices (wd_results w1) = rs_devices (wd_results w) @ [new_device_result addr (meet w)]"
    "rs_ok (wd_results w1) = ok" "rs_errors (wd_results w1) = errs"
    using assms(4) by (simp_all add: w1_def upd_results_def digest_parts)
  have "digest w2 = (ok, errs, rep @ [(addr, False, None)])"
    using update_steps_digest [OF steps d1(1)] d1(2,3) assms(4) by (simp add: new_device_result_def digest_parts)
  then have d3: "digest w3 = (ok, errs @ [Failed_work e], rep @ [(addr, False, Some e)])"
    by (cases "rs_devices (wd_results w2)" rule: rev_cases)
      (auto simp: w3_def digest_parts add_notice_def upd_device_result_def upd_results_def)
  then have "rs_devices (wd_results w3) \<noteq> []" by (auto simp: digest_parts)
  then have "digest w' = digest w3"
    using ap_config_digest [of addr 0 False None] unfolding w' moves_def same_digest_def by blast
  with d3 i show ?thesis by auto
qed

lemma idle_devices:
  assumes "ct_incoming (wd_ctl w) = []" and "\<not> ct_transport (wd_ctl w)" and "\<not> uj_stop_on_error job"
    and "digest w = (ok, errs, rep)" and "update_devices rp job wifi en initial addrs w = (stopped, w')"
  shows "stopped = None \<and> (\<exists>fs. length fs = length addrs \<and>
     digest w' = (ok, errs @ map Failed_work fs, rep @ map (\<lambda>(a, e). (a, False, Some e)) (zip addrs fs)))"
  using assms
proof (induction addrs arbitrary: w errs rep)
  case (Cons addr addrs)
  obtain s1 w1 where one: "update_device rp job wifi en initial addr w = (s1, w1)" by fastforce
  from idle_device [OF Cons.prems(1,2) one Cons.prems(4)] obtain e where
    i: "ct_incoming (wd_ctl w1) = []" "\<not> ct_transport (wd_ctl w1)" and
    d: "digest w1 = (ok, errs @ [Failed_work e], rep @ [(addr, False, Some e)])" by blast
  have "s1 = None" using device_report [OF one Cons.prems(4)] Cons.prems(3) by auto
  with Cons.prems(5) one have rest: "update_devices rp job wifi en initial addrs w1 = (stopped, w')" by simp
  from Cons.IH [OF i Cons.prems(3) d rest] obtain fs where "stopped = None" "length fs = length addrs"
    "digest w' = (ok, (errs @ [Failed_work e]) @ map Failed_work fs,
       (rep @ [(addr, False, Some e)]) @ map (\<lambda>(a, e). (a, False, Some e)) (zip addrs fs))" by blast
  then show ?case by (intro conjI exI [of _ "e # fs"]) auto
qed simp

text \<open>
  An update in which every device failed is reported as good.  Without the stop option the flag of the report is
  cleared by a failed restore of the WiFi only.  With no transport at all, every device of the list fails, and
  the report is marked as good.
\<close>

theorem failed_update_reported_good:
  assumes "uj_fw job \<noteq> None \<or> uj_presets job \<noteq> None \<or> uj_cfg job \<noteq> None" and "\<not> uj_stop_on_error job"
    and "\<not> ct_transport (wd_ctl w)" and "ct_incoming (wd_ctl w) = []"
  shows "\<exists>res w'. run_firmware_update rp job wifi False False w = (Inr res, w') \<and> rs_ok res \<and>
     map dr_addr (rs_devices res) = uj_macs job \<and> (\<forall>d \<in> set (rs_devices res). \<not> dr_ok d)"
proof -
  obtain initial w0 where b: "begin_workflow w = (initial, w0)" by fastforce
  have w0: "digest w0 = (True, [], [])" "wd_ctl w0 = wd_ctl w"
    using b by (auto simp: begin_workflow_def digest_def fresh_results_def split: prod.splits)
  obtain stopped w1 where u: "update_devices rp job wifi False initial (uj_macs job) w0 = (stopped, w1)" by fastforce
  from idle_devices [OF _ _ assms(2) w0(1) u] assms(3,4) w0(2) obtain fs where "stopped = None" and
    fs: "length fs = length (uj_macs job)" and
    d: "digest w1 = (True, map Failed_work fs, map (\<lambda>(a, e). (a, False, Some e)) (zip (uj_macs job) fs))" by auto
  then have run: "run_firmware_update rp job wifi False False w = (Inr (wd_results w1), w1)"
    using assms(1) b u by (auto simp: run_firmware_update_def ensure_wifi_ready_def restore_host_wifi_def Let_def)
  have rep: "map (\<lambda>d. (dr_addr d, dr_ok d, dr_error d)) (rs_devices (wd_results w1)) =
      map (\<lambda>(a, e). (a, False, Some e)) (zip (uj_macs job) fs)"
    using d by (simp add: digest_parts)
  have "map dr_addr (rs_devices (wd_results w1)) = map fst (zip (uj_macs job) fs)"
    using arg_cong [OF rep, of "map fst"] by (simp add: case_prod_beta comp_def)
  moreover have "\<not> dr_ok x" if "x \<in> set (rs_devices (wd_results w1))" for x
  proof -
    have "(dr_addr x, dr_ok x, dr_error x) \<in> set (map (\<lambda>(a, e). (a, False, Some e)) (zip (uj_macs job) fs))"
      unfolding rep [symmetric] using that by force
    then show ?thesis by auto
  qed
  ultimately show ?thesis using run d fs by (auto simp: digest_parts)
qed

text \<open>The radio could not be switched on: the report is marked as bad and says nothing else.\<close>

theorem silent_abort:
  assumes "uj_fw job \<noteq> None \<or> uj_presets job \<noteq> None \<or> uj_cfg job \<noteq> None" and "begin_workflow w = (initial, w0)"
    and "ensure_wifi_ready wifi en initial w0 = (Inl e, w1)"
  shows "\<exists>res w'. run_firmware_update rp job wifi en False w = (Inr res, w') \<and>
     \<not> rs_ok res \<and> rs_errors res = [] \<and> rs_devices res = []"
proof -
  have "digest w0 = (True, [], [])"
    using assms(2) by (auto simp: begin_workflow_def digest_def fresh_results_def split: prod.splits)
  then have "digest w1 = (True, [], [])" using ensure_digest [of wifi en initial w0] assms(3) by simp
  then show ?thesis using assms
    by (auto simp: run_firmware_update_def restore_host_wifi_def upd_results_def digest_parts)
qed

section \<open>Concrete runs\<close>

definition demo_wifi :: wifi_options where
  "demo_wifi = \<lparr>wo_base_url = ''http://4.3.2.1'', wo_ssids = [''AP''], wo_password = ''pw'', wo_ota_password = ''wledota'',
     wo_iface = ''wlan0'', wo_bssid = [], wo_timeout_s = 20\<rparr>"

definition demo_job :: update_job where
  "demo_job = \<lparr>uj_macs = [''AABBCCDDEEFF'', ''112233445566''], uj_base_url = ''http://4.3.2.1'', uj_fw = Some ''fw.bin'',
     uj_presets = None, uj_cfg = None, uj_retries = 2, uj_stop_on_error = False, uj_skip_validation = True\<rparr>"

definition demo_world :: "http_answer list \<Rightarrow> world" where
  "demo_world script = \<lparr>wd_ctl = (idle_ctl [] [])\<lparr>ct_transport := False\<rparr>, wd_net = quiet_host [Completed 1 0 ''enabled'' []] script,
     wd_presets = empty_dir, wd_stages = [], wd_ssid = [], wd_results = fresh_results True\<rparr>"


text \<open>The first upload is refused, the unlocking works, and so does the second upload.\<close>

definition locked_node :: "http_answer list" where
  "locked_node = [HttpFails 1 (Exn ''HTTPError'' ''HTTP Error 401'') (Some 401) ''locked'',
     Response 1 200 [] None, Response 30 200 ''Update successful'' None]"

theorem flash_bounded_witness:
  "\<exists>w'. flash demo_job demo_wifi ''fw.bin'' ''AABBCCDDEEFF'' (demo_world locked_node) = (Inr (), w') \<and>
     length (nh_requests (wd_net w')) \<le> 6 \<and>
     last (nh_requests (wd_net w')) =
       PostFile ''http://4.3.2.1/update'' [TextPart ''skipValidation'' ''1'', FilePart ''fw.bin'' [1, 2, 3]]"
proof -
  have "fst (flash demo_job demo_wifi ''fw.bin'' ''AABBCCDDEEFF'' (demo_world locked_node)) = Inr ()"
    by code_simp
  then obtain w' where run: "flash demo_job demo_wifi ''fw.bin'' ''AABBCCDDEEFF'' (demo_world locked_node) = (Inr (), w')"
    by (metis prod.collapse)
  have base: "basename ''fw.bin'' = ''fw.bin''" by code_simp
  from flash_bounded [OF run] show ?thesis
    using run by (auto simp: demo_job_def demo_world_def quiet_host_def base)
qed

theorem failed_update_reported_good_witness:
  "\<exists>res w'. run_firmware_update (\<lambda>v. []) demo_job demo_wifi False False (demo_world []) = (Inr res, w') \<and> rs_ok res \<and>
     map dr_addr (rs_devices res) = [''AABBCCDDEEFF'', ''112233445566''] \<and> (\<forall>d \<in> set (rs_devices res). \<not> dr_ok d)"
  using failed_update_reported_good [of demo_job "demo_world []" "\<lambda>v. []" demo_wifi]
  by (simp add: demo_job_def demo_world_def idle_ctl_def)

end
