(* ===== verification/Web_Ota.thy ===== *)
theory Web_Ota
  imports Web_Live Web_Devices Ota
begin

text \<open>
  The routes of \<^verbatim>\<open>racelink/web/api.py\<close> around files and transfers, the staging of uploads of
  \<^verbatim>\<open>racelink/services/ota_service.py\<close> and \<^verbatim>\<open>parse_wifi_options\<close> of
  \<^verbatim>\<open>racelink/web/request_helpers.py\<close>.  A route that starts a task gives back what its thread will run.
\<close>

section \<open>Numbers in a request\<close>

text \<open>\<open>float(x)\<close>: the decimal forms, infinities and NaN; what is out of the range of a double is an infinity or an error.\<close>

definition span_digits :: "string \<Rightarrow> string \<times> string" where
  "span_digits s = (takeWhile (\<lambda>c. is_digit c \<or> c = CHR ''_'') s, dropWhile (\<lambda>c. is_digit c \<or> c = CHR ''_'') s)"

definition split_sign :: "string \<Rightarrow> bool \<times> string" where
  "split_sign s = (case s of [] \<Rightarrow> (False, []) | c # cs \<Rightarrow> if c = CHR ''-'' then (True, cs) else if c = CHR ''+'' then (False, cs) else (False, s))"

definition optional_digits :: "string \<Rightarrow> int option" where
  "optional_digits w = (if w = [] then Some 0 else parse_digits 0 False w)"

definition parse_exponent :: "string \<Rightarrow> int option" where
  "parse_exponent s =
     (case s of
        [] \<Rightarrow> Some 0
      | c # cs \<Rightarrow>
          if c = CHR ''e'' \<or> c = CHR ''E''
          then (case split_sign cs of (neg, w) \<Rightarrow> map_option (\<lambda>n. if neg then - n else n) (parse_digits 0 False w))
          else None)"

definition scale10 :: "rat \<Rightarrow> int \<Rightarrow> rat" where
  "scale10 r e = (if 0 \<le> e then r * 10 ^ nat e else r / 10 ^ nat (- e))"

definition parse_decimal :: "string \<Rightarrow> rat option" where
  "parse_decimal s =
     (let (ip, r1) = span_digits s;
          (fp, r2) = (if r1 \<noteq> [] \<and> hd r1 = CHR ''.'' then span_digits (tl r1) else ([], r1))
      in if ip = [] \<and> fp = [] then None
         else case (optional_digits ip, optional_digits fp, parse_exponent r2) of
           (Some i, Some f, Some e) \<Rightarrow> Some (scale10 (of_int i + scale10 (of_int f) (- int (length (filter is_digit fp)))) e)
         | _ \<Rightarrow> None)"

text \<open>The least integer that rounds to an infinity is \<open>2 ^ 1024 - 2 ^ 970\<close>.\<close>

definition double_limit :: int where "double_limit = (2 ^ 54 - 1) * (2 ^ 97) ^ 10"

definition to_double :: "rat \<Rightarrow> pyfloat" where
  "to_double r = (if double_limit \<le> \<lfloor>r\<rfloor> then PosInf else if double_limit \<le> - \<lceil>r\<rceil> then NegInf else Fin r)"

definition negate_if :: "bool \<Rightarrow> pyfloat \<Rightarrow> pyfloat" where
  "negate_if neg f = (if \<not> neg then f else case f of Fin r \<Rightarrow> Fin (- r) | PosInf \<Rightarrow> NegInf | NegInf \<Rightarrow> PosInf | NaN \<Rightarrow> NaN)"

definition py_float_str :: "string \<Rightarrow> pyfloat option" where
  "py_float_str s =
     (let (neg, t) = split_sign (strip s) in
      map_option (negate_if neg)
        (if lower t \<in> {''inf'', ''infinity''} then Some PosInf
         else if lower t = ''nan'' then Some NaN
         else map_option to_double (parse_decimal t)))"

fun py_float :: "pyval \<Rightarrow> pyfloat res" where
  "py_float (PBool b) = Inr (Fin (if b then 1 else 0))"
| "py_float (PInt i) = (if double_limit \<le> \<bar>i\<bar> then Inl OverflowError else Inr (Fin (of_int i)))"
| "py_float (PFloat f) = Inr f"
| "py_float (PStr s) = (case py_float_str s of None \<Rightarrow> Inl ValueError | Some f \<Rightarrow> Inr f)"
| "py_float _ = Inl TypeError"

text \<open>\<open>key in x\<close> for a string.\<close>

fun py_in :: "string \<Rightarrow> pyval \<Rightarrow> bool res" where
  "py_in key (PDict d) = Inr (has_key d key)"
| "py_in key (PList xs) = Inr (PStr key \<in> set xs)"
| "py_in key (PTuple xs) = Inr (PStr key \<in> set xs)"
| "py_in key (PStr s) = Inr (is_infix key s)"
| "py_in key _ = Inl TypeError"

section \<open>The WiFi part of a request\<close>

definition DEFAULT_WLED_AP_SSIDS :: "string list" where
  "DEFAULT_WLED_AP_SSIDS = [''WLED_RaceLink_AP'', ''WLED-AP'']"

fun keep_new :: "string list \<Rightarrow> string list \<Rightarrow> string list" where
  "keep_new seen [] = []"
| "keep_new seen (text # texts) =
     (if text = [] \<or> text \<in> set seen then keep_new seen texts else text # keep_new (text # seen) texts)"

definition normalise_ssid_list :: "(pyval \<Rightarrow> string) \<Rightarrow> pyval \<Rightarrow> string list" where
  "normalise_ssid_list rp raw =
     (let items = (case raw of
                     PStr s \<Rightarrow> map PStr (split_on (CHR '','') s)
                   | _ \<Rightarrow> (case py_iter raw of Inl e \<Rightarrow> [] | Inr xs \<Rightarrow> xs))
      in keep_new [] (map (\<lambda>item. strip (py_str rp item)) items))"

record wifi_request =
  wr_base_url :: string
  wr_ssids :: "string list"
  wr_password :: string
  wr_ota_password :: string
  wr_iface :: string
  wr_bssid :: string
  wr_timeout_s :: pyfloat
  wr_enable :: bool
  wr_restore :: bool

definition ssid_field :: "pyval \<Rightarrow> pydict \<Rightarrow> pyval res" where
  "ssid_field wifi body =
     rbind (py_in ''ssids'' wifi) (\<lambda>many. if many then py_get wifi ''ssids''
       else rbind (py_in ''ssid'' wifi) (\<lambda>one. if one then py_get wifi ''ssid'' else Inr (dget body ''wifiSsid'')))"

definition no_ssid_field :: "pyval \<Rightarrow> pydict \<Rightarrow> bool res" where
  "no_ssid_field wifi body =
     rbind (py_in ''ssids'' wifi) (\<lambda>many. if many then Inr False
       else rbind (py_in ''ssid'' wifi) (\<lambda>one. Inr (\<not> one \<and> \<not> has_key body ''wifiSsid'')))"

definition wifi_field :: "pyval \<Rightarrow> pydict \<Rightarrow> string \<Rightarrow> string \<Rightarrow> pyval \<Rightarrow> pyval res" where
  "wifi_field wifi body key key2 dflt = rbind (py_get wifi key) (\<lambda>v. Inr (py_or (py_or v (dget body key2)) dflt))"

definition wifi_flag :: "pyval \<Rightarrow> pydict \<Rightarrow> string \<Rightarrow> bool res" where
  "wifi_flag wifi body key =
     rbind (py_in key wifi) (\<lambda>own. rbind (if own then py_get wifi key else Inr (dget_or body key (PBool True))) (\<lambda>v. Inr (py_truth v)))"

text \<open>\<open>Inr None\<close> is the \<open>RequestParseError\<close>; every other exception escapes.\<close>

definition wifi_ssids :: "(pyval \<Rightarrow> string) \<Rightarrow> pyval \<Rightarrow> pydict \<Rightarrow> string list option res" where
  "wifi_ssids rp wifi body =
     rbind (ssid_field wifi body) (\<lambda>raw.
       let ssids = normalise_ssid_list rp raw in
       if ssids \<noteq> [] then Inr (Some ssids)
       else rbind (no_ssid_field wifi body) (\<lambda>none. Inr (if none then Some DEFAULT_WLED_AP_SSIDS else None)))"

definition parse_wifi_fields :: "(pyval \<Rightarrow> string) \<Rightarrow> pyval \<Rightarrow> pydict \<Rightarrow> string list \<Rightarrow> wifi_request res" where
  "parse_wifi_fields rp wifi body ssids =
     rbind (wifi_field wifi body ''password'' ''wifiPassword'' (PStr ''wled1234'')) (\<lambda>password.
     rbind (wifi_field wifi body ''otaPassword'' ''wifiOtaPassword'' (PStr ''wledota'')) (\<lambda>ota_password.
     rbind (wifi_field wifi body ''iface'' ''wifiIface'' (PStr ''wlan0'')) (\<lambda>iface.
     rbind (wifi_field wifi body ''bssid'' ''wifiBssid'' (PStr [])) (\<lambda>bssid.
     rbind (wifi_field wifi body ''timeoutS'' ''wifiTimeoutS'' (PFloat (Fin 20))) (\<lambda>timeout.
     rbind (py_float timeout) (\<lambda>timeout_s.
     rbind (wifi_flag wifi body ''hostWifiEnable'') (\<lambda>enable.
     rbind (wifi_flag wifi body ''hostWifiRestore'') (\<lambda>restore.
       Inr \<lparr>wr_base_url = wled_base_url (py_str rp (py_or (dget body ''baseUrl'') (PStr []))), wr_ssids = ssids,
            wr_password = py_str rp password, wr_ota_password = py_str rp ota_password, wr_iface = py_str rp iface,
            wr_bssid = py_str rp bssid, wr_timeout_s = timeout_s, wr_enable = enable, wr_restore = restore\<rparr>))))))))"

definition parse_wifi_options :: "(pyval \<Rightarrow> string) \<Rightarrow> pydict \<Rightarrow> wifi_request option res" where
  "parse_wifi_options rp body =
     (let wifi = py_or (dget body ''wifi'') (PDict []) in
      rbind (wifi_ssids rp wifi body) (\<lambda>found.
        case found of
          None \<Rightarrow> Inr None
        | Some ssids \<Rightarrow> rbind (parse_wifi_fields rp wifi body ssids) (\<lambda>w. Inr (Some w))))"

text \<open>
  The options of the workflow.  It compares the time only with lower bounds above zero, so that a NaN or a negative infinity
  acts as zero; with an infinite time the wait for the access point has no end, and there is no thread to run.
\<close>

definition wifi_of :: "wifi_request \<Rightarrow> wifi_options option" where
  "wifi_of r =
     map_option (\<lambda>t. \<lparr>wo_base_url = wr_base_url r, wo_ssids = wr_ssids r, wo_password = wr_password r,
         wo_ota_password = wr_ota_password r, wo_iface = wr_iface r, wo_bssid = wr_bssid r, wo_timeout_s = t\<rparr>)
       (case wr_timeout_s r of Fin t \<Rightarrow> Some t | NaN \<Rightarrow> Some 0 | NegInf \<Rightarrow> Some 0 | PosInf \<Rightarrow> None)"

section \<open>Staged uploads\<close>

record upload =
  up_kind :: string
  up_path :: string
  up_name :: string
  up_size :: int
  up_ts :: rat

text \<open>The part of the host the routes work on; the link and the web layer are \<open>dk_live\<close>.\<close>

record desk =
  dk_live :: live
  dk_net :: net_host
  dk_presets :: preset_dir
  dk_uploads :: "(string \<times> upload) list"

text \<open>A file sent with a form: its name and its bytes.  The random identifier and the directory are parameters.\<close>

definition upload_name :: "string \<Rightarrow> string \<Rightarrow> string" where
  "upload_name kind filename = or_text (basename filename) (if kind = ''firmware'' then kind @ ''.bin'' else kind @ ''.json'')"

definition upload_path :: "string \<Rightarrow> string \<Rightarrow> string \<Rightarrow> string" where
  "upload_path dir upload_id filename = dir @ ''/'' @ upload_id @ ''__'' @ filename"

definition store_upload :: "string \<Rightarrow> string \<Rightarrow> string \<Rightarrow> byte list \<Rightarrow> string \<Rightarrow> (desk, string \<times> upload) proc" where
  "store_upload dir upload_id filename content kind dk =
     (let kind = lower (strip kind) in
      if filename = [] then (Inl ValueError, dk)
      else if kind \<notin> {''firmware'', ''presets'', ''cfg''} then (Inl ValueError, dk)
      else
        let name = upload_name kind filename; dst = upload_path dir upload_id name;
            info = \<lparr>up_kind = kind, up_path = dst, up_name = name, up_size = int (length content), up_ts = nh_now (dk_net dk)\<rparr>
        in (Inr (upload_id, info),
            dk\<lparr>dk_net := (dk_net dk)\<lparr>nh_files := (nh_files (dk_net dk))(dst \<mapsto> content)\<rparr>,
               dk_uploads := assoc_set upload_id info (dk_uploads dk)\<rparr>))"

definition get_upload :: "string \<Rightarrow> string \<Rightarrow> desk \<Rightarrow> upload option" where
  "get_upload upload_id expect_kind dk =
     (if upload_id = [] then None
      else case map_of (dk_uploads dk) upload_id of
        None \<Rightarrow> None
      | Some info \<Rightarrow>
          if expect_kind \<noteq> [] \<and> up_kind info \<noteq> expect_kind then None
          else if nh_files (dk_net dk) (up_path info) = None then None
          else Some info)"

definition list_uploads :: "desk \<Rightarrow> (string \<times> upload) list" where
  "list_uploads dk =
     sort_key (\<lambda>(uid, info). - up_ts info)
       (filter (\<lambda>(uid, info). nh_files (dk_net dk) (up_path info) \<noteq> None) (dk_uploads dk))"

section \<open>Routes on files\<close>

definition busy :: "desk \<Rightarrow> bool" where
  "busy dk = task_is_running (lv_web (dk_live dk))"

definition fw_upload :: "string \<Rightarrow> string \<Rightarrow> string \<Rightarrow> byte list \<Rightarrow> string \<Rightarrow> desk \<Rightarrow> (string \<times> upload) response \<times> desk" where
  "fw_upload dir upload_id filename content kind dk =
     (if busy dk then (Refused 409, dk)
      else case store_upload dir upload_id filename content (lower (strip kind)) dk of
        (Inl e, dk) \<Rightarrow> (Refused 400, dk)
      | (Inr info, dk) \<Rightarrow> (Answer info, dk))"

definition presets_upload ::
  "(rat \<Rightarrow> string) \<Rightarrow> string \<Rightarrow> string \<Rightarrow> pyval option \<Rightarrow> desk \<Rightarrow>
   ((string \<times> int \<times> rat) \<times> (string \<times> int \<times> rat) list) response \<times> desk" where
  "presets_upload stamp filename text json dk =
     (if busy dk then (Refused 409, dk)
      else case store_uploaded_file stamp filename text json (dk_presets dk) of
        (Inl e, d) \<Rightarrow> (Refused 400, dk\<lparr>dk_presets := d\<rparr>)
      | (Inr saved, d) \<Rightarrow> (Answer (saved, list_files d), dk\<lparr>dk_presets := d\<rparr>))"

definition presets_list :: "desk \<Rightarrow> (string \<times> int \<times> rat) list \<times> string" where
  "presets_list dk =
     (let d = dk_presets dk; files = list_files d; current = pd_current d;
          current = (if current \<noteq> [] \<and> preset_path_for_name current d = None then [] else current);
          current = (if current = [] \<and> files \<noteq> [] then fst (hd files) else current)
      in (files, current))"

definition text_field :: "(pyval \<Rightarrow> string) \<Rightarrow> pydict \<Rightarrow> string \<Rightarrow> string" where
  "text_field rp body key = strip (py_str rp (py_or (dget body key) (PStr [])))"

definition presets_select :: "(pyval \<Rightarrow> string) \<Rightarrow> pyval \<Rightarrow> desk \<Rightarrow> string response \<times> desk" where
  "presets_select rp json dk =
     (if busy dk then (Refused 409, dk)
      else case py_or json (PDict []) of
        PDict body \<Rightarrow>
          let name = text_field rp body ''name'' in
          (case preset_path_for_name name (dk_presets dk) of
             None \<Rightarrow> (Refused 404, dk)
           | Some path \<Rightarrow>
               (case apply_from_path path (dk_presets dk) of
                  (False, d) \<Rightarrow> (Refused 400, dk\<lparr>dk_presets := d\<rparr>)
                | (True, d) \<Rightarrow> (Answer name, dk\<lparr>dk_presets := d\<lparr>pd_current := name\<rparr>\<rparr>)))
      | _ \<Rightarrow> (Refused 500, dk))"

section \<open>Starting a transfer\<close>

definition hook :: "desk \<Rightarrow> desk" where
  "hook dk = dk\<lparr>dk_live := ensure_transport_hooked (dk_live dk)\<rparr>"

definition start_task :: "string \<Rightarrow> pydict \<Rightarrow> 'a \<Rightarrow> desk \<Rightarrow> (nat \<times> 'a) response \<times> desk" where
  "start_task name meta thread dk =
     (case task_start name meta (nh_now (dk_net dk)) (lv_web (dk_live dk)) of
        (None, w) \<Rightarrow> (Refused 409, dk\<lparr>dk_live := (dk_live dk)\<lparr>lv_web := w\<rparr>\<rparr>)
      | (Some n, w) \<Rightarrow> (Answer (n, thread), dk\<lparr>dk_live := (dk_live dk)\<lparr>lv_web := w\<rparr>\<rparr>))"

record download_thread =
  dt_mac :: string
  dt_wifi :: wifi_request

definition download_request :: "(pyval \<Rightarrow> string) \<Rightarrow> pyval \<Rightarrow> download_thread response" where
  "download_request rp json =
     (case py_or json (PDict []) of
        PDict body \<Rightarrow>
          let mac = text_field rp body ''mac'' in
          if mac = [] then Refused 400
          else (case parse_wifi_options rp body of
                  Inl e \<Rightarrow> Refused 500
                | Inr None \<Rightarrow> Refused 400
                | Inr (Some wifi) \<Rightarrow>
                    if expected_mac_hex mac = [] then Refused 400 else Answer \<lparr>dt_mac = mac, dt_wifi = wifi\<rparr>)
      | _ \<Rightarrow> Refused 500)"

definition presets_download :: "(pyval \<Rightarrow> string) \<Rightarrow> pyval \<Rightarrow> desk \<Rightarrow> (nat \<times> download_thread) response \<times> desk" where
  "presets_download rp json dk0 =
     (let dk = hook dk0 in
      if busy dk then (Refused 409, dk)
      else case download_request rp json of
        Refused code \<Rightarrow> (Refused code, dk)
      | Answer thread \<Rightarrow>
          start_task ''presets_download''
            [(''stage'', PStr ''INIT''), (''addr'', PStr (dt_mac thread)), (''message'', PStr ''Preset download started''),
             (''baseUrl'', PStr (wr_base_url (dt_wifi thread)))] thread dk)"

record fw_thread =
  ft_job :: update_job
  ft_wifi :: wifi_request

definition retries_of :: "pydict \<Rightarrow> int res" where
  "retries_of body =
     (case py_int (py_or (dget body ''retries'') (PInt 3)) of
        Inl e \<Rightarrow> if e = TypeError \<or> e = ValueError then Inr 3 else Inl e
      | Inr n \<Rightarrow> Inr (max 1 (min n 10)))"

text \<open>\<open>home\<close> is the path of the presets directory, with its slash.\<close>

definition chosen_presets :: "(pyval \<Rightarrow> string) \<Rightarrow> string \<Rightarrow> pydict \<Rightarrow> desk \<Rightarrow> string option" where
  "chosen_presets rp home body dk =
     (let name = text_field rp body ''presetsName'' in
      if name = [] then None else map_option (\<lambda>base. home @ base) (preset_path_for_name name (dk_presets dk)))"

definition fw_request :: "(pyval \<Rightarrow> string) \<Rightarrow> string \<Rightarrow> pyval \<Rightarrow> desk \<Rightarrow> fw_thread response" where
  "fw_request rp home json dk =
     (case py_or json (PDict []) of
        PDict body \<Rightarrow>
          (case py_or (dget body ''macs'') (PList []) of
             PList macs \<Rightarrow>
               let do_firmware = py_truth (dget_or body ''doFirmware'' (PBool True));
                   do_presets = py_truth (dget_or body ''doPresets'' (PBool False));
                   do_cfg = py_truth (dget_or body ''doCfg'' (PBool False));
                   fw = (if do_firmware then map_option up_path (get_upload (text_field rp body ''fwId'') ''firmware'' dk) else None);
                   presets = (if do_presets then chosen_presets rp home body dk else None);
                   cfg = (if do_cfg then map_option up_path (get_upload (text_field rp body ''cfgId'') ''cfg'' dk) else None)
               in if macs = [] then Refused 400
                  else if \<not> (do_firmware \<or> do_presets \<or> do_cfg) then Refused 400
                  else if do_firmware \<and> fw = None then Refused 400
                  else if do_presets \<and> presets = None then Refused 400
                  else if do_cfg \<and> cfg = None then Refused 400
                  else (case retries_of body of
                          Inl e \<Rightarrow> Refused 500
                        | Inr retries \<Rightarrow>
                            (case parse_wifi_options rp body of
                               Inl e \<Rightarrow> Refused 500
                             | Inr None \<Rightarrow> Refused 400
                             | Inr (Some wifi) \<Rightarrow>
                                 Answer \<lparr>ft_job = \<lparr>uj_macs = map (py_str rp) macs, uj_base_url = wr_base_url wifi, uj_fw = fw,
                                     uj_presets = presets, uj_cfg = cfg, uj_retries = retries,
                                     uj_stop_on_error = py_truth (dget body ''stopOnError''),
                                     uj_skip_validation = py_truth (dget body ''skipValidation'')\<rparr>, ft_wifi = wifi\<rparr>))
           | _ \<Rightarrow> Refused 400)
      | _ \<Rightarrow> Refused 500)"

definition fw_start :: "(pyval \<Rightarrow> string) \<Rightarrow> string \<Rightarrow> pyval \<Rightarrow> desk \<Rightarrow> (nat \<times> fw_thread) response \<times> desk" where
  "fw_start rp home json dk0 =
     (let dk = hook dk0 in
      if busy dk then (Refused 409, dk)
      else case fw_request rp home json dk of
        Refused code \<Rightarrow> (Refused code, dk)
      | Answer thread \<Rightarrow>
          start_task ''fwupdate''
            [(''stage'', PStr ''INIT''), (''index'', PInt 0), (''total'', PInt (int (length (uj_macs (ft_job thread))))),
             (''retries'', PInt (uj_retries (ft_job thread))), (''addr'', PNone), (''message'', PStr ''Firmware update started''),
             (''baseUrl'', PStr (wr_base_url (ft_wifi thread)))] thread dk)"

text \<open>The world a thread starts in: the files are the staged ones and those of the presets directory.\<close>

definition host_files :: "string \<Rightarrow> desk \<Rightarrow> string \<Rightarrow> byte list option" where
  "host_files home dk path =
     (case (if take (length home) path = home then map_of (pd_files (dk_presets dk)) (drop (length home) path) else None) of
        Some f \<Rightarrow> Some (map (\<lambda>c. of_char c) (pf_text f))
      | None \<Rightarrow> nh_files (dk_net dk) path)"

definition world_of :: "string \<Rightarrow> desk \<Rightarrow> world" where
  "world_of home dk =
     \<lparr>wd_ctl = cn_ctl (lv_conn (dk_live dk)), wd_net = (dk_net dk)\<lparr>nh_files := host_files home dk\<rparr>, wd_presets = dk_presets dk,
      wd_stages = [], wd_ssid = [], wd_results = fresh_results False\<rparr>"

definition run_fw_thread ::
  "(pyval \<Rightarrow> string) \<Rightarrow> fw_thread \<Rightarrow> world \<Rightarrow> ((exn + results) \<times> world) option" where
  "run_fw_thread rp thread w =
     map_option (\<lambda>wifi. run_firmware_update rp (ft_job thread) wifi (wr_enable (ft_wifi thread)) (wr_restore (ft_wifi thread)) w)
       (wifi_of (ft_wifi thread))"

definition run_download_thread ::
  "(pyval \<Rightarrow> string) \<Rightarrow> (rat \<Rightarrow> string) \<Rightarrow> download_thread \<Rightarrow> world \<Rightarrow> (results \<times> world) option" where
  "run_download_thread rp stamp thread w =
     map_option (\<lambda>wifi. download_presets rp stamp (dt_mac thread) (wr_base_url (dt_wifi thread)) wifi (wr_enable (dt_wifi thread))
         (wr_restore (dt_wifi thread)) w)
       (wifi_of (dt_wifi thread))"

section \<open>What a request yields\<close>

lemma keep_new_clean:
  "distinct (keep_new seen texts) \<and> set (keep_new seen texts) \<subseteq> set texts - {[]} - set seen"
  by (induction seen texts rule: keep_new.induct) auto

text \<open>A clean list is one the WiFi service takes as it is.\<close>

lemma clean_list:
  "set (normalise_ssid_list rp raw) \<subseteq> {s. s \<noteq> [] \<and> strip s = s} \<and> distinct (normalise_ssid_list rp raw)"
  unfolding normalise_ssid_list_def Let_def
  using keep_new_clean [of "[]" "map (\<lambda>item. strip (py_str rp item)) xs" for xs] by fastforce

lemma default_ssids: "set DEFAULT_WLED_AP_SSIDS \<subseteq> {s. s \<noteq> [] \<and> strip s = s}" "distinct DEFAULT_WLED_AP_SSIDS"
  "DEFAULT_WLED_AP_SSIDS \<noteq> []"
proof -
  have "list_all (\<lambda>s. s \<noteq> [] \<and> strip s = s) DEFAULT_WLED_AP_SSIDS" by code_simp
  then show "set DEFAULT_WLED_AP_SSIDS \<subseteq> {s. s \<noteq> [] \<and> strip s = s}" by (auto simp: list_all_iff)
qed (simp_all add: DEFAULT_WLED_AP_SSIDS_def)

lemma wifi_ssids_clean:
  assumes "wifi_ssids rp wifi body = Inr (Some ssids)"
  shows "ssids \<noteq> [] \<and> distinct ssids \<and> set ssids \<subseteq> {s. s \<noteq> [] \<and> strip s = s}"
proof -
  from assms obtain raw where "ssids = normalise_ssid_list rp raw \<and> ssids \<noteq> [] \<or> ssids = DEFAULT_WLED_AP_SSIDS"
    by (auto simp: wifi_ssids_def rbind_eq_Inr Let_def split: if_split_asm)
  then show ?thesis using clean_list [of rp raw] default_ssids by auto
qed

lemma py_str_nonempty: "(\<And>v. rp v \<noteq> []) \<Longrightarrow> py_truth v \<Longrightarrow> py_str rp v \<noteq> []"
  by (cases v) (auto simp: str_int_def)

lemma wifi_field_truthy: "wifi_field wifi body k k2 dflt = Inr v \<Longrightarrow> py_truth dflt \<Longrightarrow> py_truth v"
  by (auto simp: wifi_field_def rbind_eq_Inr py_or_def split: if_split_asm)

definition wifi_ok :: "wifi_request \<Rightarrow> bool" where
  "wifi_ok r \<longleftrightarrow> wr_ssids r \<noteq> [] \<and> coerce_ssid_list (wr_ssids r) = wr_ssids r \<and> distinct (wr_ssids r) \<and>
     wr_password r \<noteq> [] \<and> wr_ota_password r \<noteq> [] \<and> wr_iface r \<noteq> []"

lemma parse_wifi_ok:
  assumes "parse_wifi_options rp body = Inr (Some r)" and "\<And>v. rp v \<noteq> []"
  shows "wifi_ok r"
proof -
  define wifi where "wifi = py_or (dget body ''wifi'') (PDict [])"
  from assms(1) obtain ssids where s: "wifi_ssids rp wifi body = Inr (Some ssids)" and
    f: "parse_wifi_fields rp wifi body ssids = Inr r"
    by (auto simp: parse_wifi_options_def wifi_def [symmetric] Let_def rbind_eq_Inr split: option.split_asm)
  from f obtain p q i where "wifi_field wifi body ''password'' ''wifiPassword'' (PStr ''wled1234'') = Inr p"
    "wifi_field wifi body ''otaPassword'' ''wifiOtaPassword'' (PStr ''wledota'') = Inr q"
    "wifi_field wifi body ''iface'' ''wifiIface'' (PStr ''wlan0'') = Inr i" and
    r: "wr_ssids r = ssids" "wr_password r = py_str rp p" "wr_ota_password r = py_str rp q" "wr_iface r = py_str rp i"
    by (auto simp: parse_wifi_fields_def rbind_eq_Inr)
  then have "py_truth p" "py_truth q" "py_truth i" by (auto dest: wifi_field_truthy)
  moreover have "coerce_ssid_list ssids = ssids"
  proof -
    have "map strip ssids = ssids" using wifi_ssids_clean [OF s] by (intro map_idI) auto
    then show ?thesis using wifi_ssids_clean [OF s] by (auto simp: coerce_ssid_list_def filter_id_conv)
  qed
  ultimately show ?thesis using wifi_ssids_clean [OF s] py_str_nonempty [of rp, OF assms(2)] by (simp add: wifi_ok_def r)
qed

lemma retries_bounds: "retries_of body = Inr n \<Longrightarrow> 1 \<le> n \<and> n \<le> 10"
  by (auto simp: retries_of_def split: sum.split_asm if_split_asm)

lemma get_upload_there: "get_upload u k dk = Some info \<Longrightarrow> host_files home dk (up_path info) \<noteq> None"
  by (auto simp: get_upload_def host_files_def split: if_split_asm option.splits)

lemma chosen_presets_there: "chosen_presets rp home body dk = Some p \<Longrightarrow> host_files home dk p \<noteq> None"
  by (auto simp: chosen_presets_def preset_path_for_name_def host_files_def Let_def split: if_split_asm option.splits)

lemma fw_request_valid:
  assumes "fw_request rp home json dk = Answer th" and "\<And>v. rp v \<noteq> []"
  shows "uj_macs (ft_job th) \<noteq> [] \<and> 1 \<le> uj_retries (ft_job th) \<and> uj_retries (ft_job th) \<le> 10 \<and>
     (uj_fw (ft_job th) \<noteq> None \<or> uj_presets (ft_job th) \<noteq> None \<or> uj_cfg (ft_job th) \<noteq> None) \<and>
     (\<forall>p. Some p \<in> {uj_fw (ft_job th), uj_presets (ft_job th), uj_cfg (ft_job th)} \<longrightarrow> host_files home dk p \<noteq> None) \<and>
     wifi_ok (ft_wifi th)"
proof -
  obtain body where b: "py_or json (PDict []) = PDict body"
    using assms(1) by (auto simp: fw_request_def split: pyval.split_asm)
  obtain macs where m: "py_or (dget body ''macs'') (PList []) = PList macs"
    using assms(1) by (simp add: fw_request_def b split: pyval.split_asm)
  obtain n where n: "retries_of body = Inr n"
    using assms(1) by (simp add: fw_request_def b m Let_def split: if_split_asm sum.split_asm)
  obtain wifi where w: "parse_wifi_options rp body = Inr (Some wifi)"
    using assms(1) by (simp add: fw_request_def b m n Let_def split: if_split_asm sum.split_asm option.split_asm)
  let ?fw = "map_option up_path (get_upload (text_field rp body ''fwId'') ''firmware'' dk)"
  let ?pr = "chosen_presets rp home body dk"
  let ?cf = "map_option up_path (get_upload (text_field rp body ''cfgId'') ''cfg'' dk)"
  have th: "ft_wifi th = wifi" "uj_macs (ft_job th) = map (py_str rp) macs" "uj_retries (ft_job th) = n" "macs \<noteq> []"
    using assms(1) by (auto simp: fw_request_def b m n w Let_def split: if_split_asm)
  have job: "uj_fw (ft_job th) \<noteq> None \<or> uj_presets (ft_job th) \<noteq> None \<or> uj_cfg (ft_job th) \<noteq> None"
    "uj_fw (ft_job th) \<in> {None, ?fw}" "uj_presets (ft_job th) \<in> {None, ?pr}" "uj_cfg (ft_job th) \<in> {None, ?cf}"
    using assms(1) by (auto simp: fw_request_def b m n w Let_def split: if_split_asm)
  have there: "host_files home dk p \<noteq> None" if "Some p \<in> {?fw, ?pr, ?cf}" for p
    using that get_upload_there [of _ _ dk _ home] chosen_presets_there [of rp home body dk] by (auto simp: eq_commute [of "Some p"])
  have "\<forall>p. Some p \<in> {uj_fw (ft_job th), uj_presets (ft_job th), uj_cfg (ft_job th)} \<longrightarrow> host_files home dk p \<noteq> None"
    using there job(2-4) by (metis empty_iff insert_iff option.distinct(1))
  then show ?thesis using th job(1) retries_bounds [OF n] parse_wifi_ok [OF w assms(2)] by auto
qed

lemma start_task_Answer:
  assumes "start_task name meta thread dk = (Answer (n, th), dk')"
  shows "th = thread \<and> \<not> busy dk \<and> (\<exists>t. wb_task (lv_web (dk_live dk')) = Some t \<and> tk_id t = n \<and> tk_name t = name \<and>
     tk_state t = Running) \<and> dk_net dk' = dk_net dk \<and> dk_presets dk' = dk_presets dk \<and> dk_uploads dk' = dk_uploads dk"
  using assms by (auto simp: start_task_def task_start_def busy_def Let_def split: if_split_asm)

lemma fw_start_Answer:
  assumes "fw_start rp home json dk = (Answer (n, th), dk')"
  shows "fw_request rp home json (hook dk) = Answer th \<and> \<not> busy (hook dk) \<and>
     (\<exists>t. wb_task (lv_web (dk_live dk')) = Some t \<and> tk_id t = n \<and> tk_name t = ''fwupdate'' \<and> tk_state t = Running) \<and>
     dk_net dk' = dk_net dk \<and> dk_presets dk' = dk_presets dk"
  using assms by (auto simp: fw_start_def Let_def hook_def dest!: start_task_Answer split: if_split_asm response.split_asm)

lemma busy_hook: "busy (hook dk) = busy dk"
  by (simp add: busy_def hook_def ensure_transport_hooked_def task_is_running_def)

lemma host_files_cong: "dk_net dk' = dk_net dk \<Longrightarrow> dk_presets dk' = dk_presets dk \<Longrightarrow> host_files home dk' = host_files home dk"
  by (rule ext) (simp add: host_files_def cong: option.case_cong if_cong)

text \<open>
  C28.  An update that starts has everything it needs.  When the request for a firmware update is answered with a task,
  no other task was running and this one is.  At least one address and one file are given, every file exists in the world the
  thread starts in, the attempts are between 1 and 10, the passwords are not empty, and the list of networks is not
  empty, without duplicates, and one the WiFi service takes as it is.
\<close>

theorem fw_start_valid:
  assumes "fw_start rp home json dk = (Answer (n, th), dk')" and "\<forall>v. rp v \<noteq> []"
  shows "\<not> busy dk \<and>
     (\<exists>t. wb_task (lv_web (dk_live dk')) = Some t \<and> tk_id t = n \<and> tk_name t = ''fwupdate'' \<and> tk_state t = Running) \<and>
     uj_macs (ft_job th) \<noteq> [] \<and> 1 \<le> uj_retries (ft_job th) \<and> uj_retries (ft_job th) \<le> 10 \<and>
     (uj_fw (ft_job th) \<noteq> None \<or> uj_presets (ft_job th) \<noteq> None \<or> uj_cfg (ft_job th) \<noteq> None) \<and>
     (\<forall>p. Some p \<in> {uj_fw (ft_job th), uj_presets (ft_job th), uj_cfg (ft_job th)} \<longrightarrow>
        nh_files (wd_net (world_of home dk')) p \<noteq> None) \<and>
     wr_ssids (ft_wifi th) \<noteq> [] \<and> coerce_ssid_list (wr_ssids (ft_wifi th)) = wr_ssids (ft_wifi th) \<and>
     distinct (wr_ssids (ft_wifi th)) \<and> wr_password (ft_wifi th) \<noteq> [] \<and> wr_ota_password (ft_wifi th) \<noteq> []"
proof -
  from fw_start_Answer [OF assms(1)] have a: "fw_request rp home json (hook dk) = Answer th" "\<not> busy dk"
    "\<exists>t. wb_task (lv_web (dk_live dk')) = Some t \<and> tk_id t = n \<and> tk_name t = ''fwupdate'' \<and> tk_state t = Running" and
    same: "dk_net dk' = dk_net (hook dk)" "dk_presets dk' = dk_presets (hook dk)"
    by (auto simp: busy_hook, simp_all add: hook_def)
  have "nh_files (wd_net (world_of home dk')) = host_files home (hook dk)"
    using host_files_cong [OF same] by (simp add: world_of_def)
  with a fw_request_valid [OF a(1)] assms(2) show ?thesis by (simp add: wifi_ok_def)
qed

text \<open>
  C29.  An update that started ends with its report.  Whatever world the thread of an accepted request meets (except that the
  request asked for an infinite time), it ends with a report and not with an exception: one entry for each address
  of a beginning of the list of the request, done exactly if it has no error, and of the whole list if the report is good.
\<close>

theorem started_update_reports:
  assumes "fw_start rp home json dk = (Answer (n, th), dk')" and "\<forall>v. rp v \<noteq> []" and "wr_timeout_s (ft_wifi th) \<noteq> PosInf"
  shows "\<exists>res w' k. run_fw_thread rp th w = Some (Inr res, w') \<and>
     map dr_addr (rs_devices res) = take k (uj_macs (ft_job th)) \<and>
     (\<forall>d \<in> set (rs_devices res). dr_ok d = (dr_error d = None)) \<and>
     (rs_ok res \<longrightarrow> map dr_addr (rs_devices res) = uj_macs (ft_job th)) \<and>
     (rs_ok res \<and> uj_stop_on_error (ft_job th) \<longrightarrow> (\<forall>d \<in> set (rs_devices res). dr_ok d))"
proof -
  have req: "fw_request rp home json (hook dk) = Answer th" using fw_start_Answer [OF assms(1)] by blast
  have job: "uj_fw (ft_job th) \<noteq> None \<or> uj_presets (ft_job th) \<noteq> None \<or> uj_cfg (ft_job th) \<noteq> None"
    using fw_request_valid [OF req] assms(2) by blast
  obtain wifi where wifi: "wifi_of (ft_wifi th) = Some wifi"
    using assms(3) by (cases "wr_timeout_s (ft_wifi th)") (auto simp: wifi_of_def)
  from update_report [OF job, of rp wifi "wr_enable (ft_wifi th)" "wr_restore (ft_wifi th)" w] obtain res w' outs where
    run: "run_firmware_update rp (ft_job th) wifi (wr_enable (ft_wifi th)) (wr_restore (ft_wifi th)) w = (Inr res, w')" and
    len: "length outs \<le> length (uj_macs (ft_job th))" and
    rep: "map (\<lambda>d. (dr_addr d, dr_ok d, dr_error d)) (rs_devices res) = reported (uj_macs (ft_job th)) outs" and
    whole: "rs_ok res \<longrightarrow> length outs = length (uj_macs (ft_job th))" and
    stop: "uj_stop_on_error (ft_job th) \<longrightarrow> (rs_ok res \<longrightarrow> (\<forall>e \<in> set outs. e = None))"
    by blast
  have addrs: "map dr_addr (rs_devices res) = take (length outs) (uj_macs (ft_job th))"
    using arg_cong [OF rep, of "map fst"] len by (simp add: reported_def comp_def case_prod_beta map_fst_zip_take)
  have each: "dr_ok d = (dr_error d = None) \<and> dr_error d \<in> set outs" if "d \<in> set (rs_devices res)" for d
  proof -
    have "(dr_addr d, dr_ok d, dr_error d) \<in> set (reported (uj_macs (ft_job th)) outs)"
      unfolding rep [symmetric] using that by force
    then show ?thesis by (auto simp: reported_def dest: set_zip_rightD)
  qed
  show ?thesis
    by (intro exI [of _ res] exI [of _ w'] exI [of _ "length outs"])
      (use run wifi addrs each whole stop in \<open>auto simp: run_fw_thread_def\<close>)
qed

section \<open>Files\<close>

text \<open>
  A staged upload can be fetched by its identifier.  A named file of a known kind is taken; with an identifier and a path
  not in use, it is then found under the identifier and its kind and under no other kind, its path holds the bytes sent, it is
  listed, and every other upload is found as before.
\<close>

theorem upload_roundtrip:
  assumes "filename \<noteq> []" and "lower (strip kind) \<in> {''firmware'', ''presets'', ''cfg''}" and "uid \<noteq> []"
  shows "\<exists>info dk'. store_upload dir uid filename content kind dk = (Inr (uid, info), dk') \<and>
     get_upload uid (lower (strip kind)) dk' = Some info \<and> nh_files (dk_net dk') (up_path info) = Some content \<and>
     (\<forall>k. k \<noteq> [] \<and> k \<noteq> lower (strip kind) \<longrightarrow> get_upload uid k dk' = None) \<and> (uid, info) \<in> set (list_uploads dk') \<and>
     (\<forall>u k old. u \<noteq> uid \<and> get_upload u k dk = Some old \<longrightarrow> get_upload u k dk' = Some old)"
proof -
  let ?kind = "lower (strip kind)"
  let ?name = "upload_name ?kind filename"
  let ?info = "\<lparr>up_kind = ?kind, up_path = upload_path dir uid ?name, up_name = ?name, up_size = int (length content),
      up_ts = nh_now (dk_net dk)\<rparr>"
  let ?dk = "dk\<lparr>dk_net := (dk_net dk)\<lparr>nh_files := (nh_files (dk_net dk))(upload_path dir uid ?name \<mapsto> content)\<rparr>,
      dk_uploads := assoc_set uid ?info (dk_uploads dk)\<rparr>"
  have "store_upload dir uid filename content kind dk = (Inr (uid, ?info), ?dk)"
    using assms(1,2) by (simp add: store_upload_def Let_def)
  moreover have "(uid, ?info) \<in> set (assoc_set uid ?info (dk_uploads dk))"
    using map_of_SomeD [of "assoc_set uid ?info (dk_uploads dk)" uid ?info] by simp
  ultimately show ?thesis using assms
    by (intro exI [of _ ?info] exI [of _ ?dk])
      (auto simp: get_upload_def list_uploads_def split: if_split_asm option.split_asm)
qed

text \<open>
  The presets file shown as the current one exists.  The list of files names a current file exactly if there is a file to
  name, or a selected one outside of the list; what it names can be read, whatever was selected and removed before.
\<close>

theorem presets_list_current:
  assumes "distinct (map fst (pd_files (dk_presets dk)))" and "\<forall>name \<in> fst ` set (pd_files (dk_presets dk)). basename name = name"
    and "presets_list dk = (files, current)"
  shows "(current \<noteq> [] \<longrightarrow> preset_path_for_name current (dk_presets dk) \<noteq> None) \<and> (files \<noteq> [] \<longrightarrow> current \<noteq> [])"
proof -
  let ?d = "dk_presets dk"
  have named: "fst row \<noteq> [] \<and> preset_path_for_name (fst row) ?d \<noteq> None" if "row \<in> set (list_files ?d)" for row
  proof -
    from that obtain name f where f: "(name, f) \<in> set (pd_files ?d)" "fst row = name" "ends_with ''.json'' name"
      by (auto simp: list_files_def)
    then have "name \<noteq> []" "basename name = name" "map_of (pd_files ?d) name = Some f"
      using assms(1,2) by (auto simp: ends_with_def)
    then show ?thesis using f(2) by (simp add: preset_path_for_name_def)
  qed
  show ?thesis
  proof (cases "list_files ?d")
    case Nil
    then show ?thesis using assms(3) by (auto simp: presets_list_def Let_def split: if_split_asm)
  next
    case (Cons row rows)
    have "files = row # rows" and "current = (if pd_current ?d \<noteq> [] \<and> preset_path_for_name (pd_current ?d) ?d \<noteq> None then pd_current ?d else fst row)"
      using assms(3) by (auto simp: presets_list_def Let_def Cons)
    moreover have "fst row \<noteq> []" "preset_path_for_name (fst row) ?d \<noteq> None" using named [of row] Cons by auto
    ultimately show ?thesis by simp
  qed
qed

section \<open>Concrete requests\<close>

definition bare_desk :: desk where
  "bare_desk = \<lparr>dk_live = \<lparr>lv_conn = boot_conn None, lv_transport = 0, lv_web = fresh_web\<rparr>, dk_net = quiet_host [] [],
     dk_presets = empty_dir, dk_uploads = []\<rparr>"

definition staged_desk :: desk where
  "staged_desk = snd (store_upload ''/tmp'' ''a1'' ''fw.bin'' [1, 2] '' Firmware '' bare_desk)"

definition update_body :: pyval where
  "update_body = PDict [(''macs'', PList [PStr ''AABBCCDDEEFF'', PInt 7]), (''fwId'', PStr ''a1''), (''retries'', PInt 99),
     (''wifi'', PDict [(''ssid'', PStr '' A, B ,A''), (''timeoutS'', PStr ''1.5e1'')])]"

definition started_with :: "fw_thread \<Rightarrow> bool" where
  "started_with th = (uj_macs (ft_job th) = [''AABBCCDDEEFF'', ''7''] \<and> uj_retries (ft_job th) = 10 \<and>
     wr_ssids (ft_wifi th) = [''A'', ''B''] \<and> wr_timeout_s (ft_wifi th) = Fin 15)"

lemma update_body_starts:
  "\<exists>n th dk'. fw_start (\<lambda>v. ''?'') ''/home/'' update_body staged_desk = (Answer (n, th), dk') \<and> started_with th"
proof -
  have "case fst (fw_start (\<lambda>v. ''?'') ''/home/'' update_body staged_desk) of
      Answer p \<Rightarrow> started_with (snd p) | Refused c \<Rightarrow> False" by code_simp
  then show ?thesis
    by (cases "fw_start (\<lambda>v. ''?'') ''/home/'' update_body staged_desk") (auto split: response.split_asm)
qed

theorem fw_start_valid_witness:
  "\<exists>n th dk'. fw_start (\<lambda>v. ''?'') ''/home/'' update_body staged_desk = (Answer (n, th), dk') \<and> \<not> busy staged_desk \<and>
     coerce_ssid_list [''A'', ''B''] = [''A'', ''B''] \<and>
     (\<forall>p. uj_fw (ft_job th) = Some p \<longrightarrow> nh_files (wd_net (world_of ''/home/'' dk')) p \<noteq> None)"
proof -
  obtain n th dk' where r: "fw_start (\<lambda>v. ''?'') ''/home/'' update_body staged_desk = (Answer (n, th), dk')" and
    s: "wr_ssids (ft_wifi th) = [''A'', ''B'']"
    using update_body_starts by (auto simp: started_with_def)
  from fw_start_valid [OF r] r s show ?thesis by simp
qed

theorem started_update_reports_witness:
  "\<exists>th res w'. run_fw_thread (\<lambda>v. ''?'') th (world_of ''/home/'' staged_desk) = Some (Inr res, w') \<and>
     (rs_ok res \<longrightarrow> map dr_addr (rs_devices res) = [''AABBCCDDEEFF'', ''7''])"
proof -
  obtain n th dk' where r: "fw_start (\<lambda>v. ''?'') ''/home/'' update_body staged_desk = (Answer (n, th), dk')" and
    s: "uj_macs (ft_job th) = [''AABBCCDDEEFF'', ''7'']" "wr_timeout_s (ft_wifi th) \<noteq> PosInf"
    using update_body_starts by (auto simp: started_with_def)
  have "\<forall>v :: pyval. (\<lambda>v. ''?'') v \<noteq> []" by simp
  from started_update_reports [OF r this s(2), of "world_of ''/home/'' staged_desk"]
  show ?thesis unfolding s(1) by (elim exE conjE) (intro exI conjI)
qed

theorem upload_roundtrip_witness:
  "\<exists>info dk'. store_upload ''/tmp'' ''a1'' ''fw.bin'' [1, 2] '' Firmware '' bare_desk = (Inr (''a1'', info), dk') \<and>
     get_upload ''a1'' ''firmware'' dk' = Some info \<and> get_upload ''a1'' ''cfg'' dk' = None"
proof -
  have k: "lower (strip '' Firmware '') = ''firmware''" by code_simp
  from upload_roundtrip [of "''fw.bin''" "'' Firmware ''" "''a1''" "''/tmp''" "[1, 2]" bare_desk]
  show ?thesis unfolding k by fastforce
qed

definition two_files :: desk where
  "two_files = bare_desk\<lparr>dk_presets := empty_dir\<lparr>pd_current := ''gone.json'',
     pd_files := [(''a.json'', \<lparr>pf_text = ''{}'', pf_json = Some (PDict []), pf_mtime = 1\<rparr>),
       (''b.json'', \<lparr>pf_text = ''{}'', pf_json = Some (PDict []), pf_mtime = 2\<rparr>)]\<rparr>\<rparr>"

theorem presets_list_current_witness:
  "snd (presets_list two_files) = ''b.json'' \<and> preset_path_for_name (snd (presets_list two_files)) (dk_presets two_files) \<noteq> None"
proof -
  have c: "snd (presets_list two_files) = ''b.json''" by code_simp
  have "distinct (map fst (pd_files (dk_presets two_files)))" by (simp add: two_files_def)
  moreover have "\<forall>name \<in> fst ` set (pd_files (dk_presets two_files)). basename name = name"
    by (simp add: two_files_def basename_def)
  ultimately show ?thesis
    using presets_list_current [of two_files "fst (presets_list two_files)" "snd (presets_list two_files)", OF _ _ prod.collapse [symmetric]] c
    by simp
qed

lemma timeout_text: "py_float (PStr '' 1_5.5e0 '') = Inr (Fin (31 / 2))" "py_float (PStr ''-Infinity'') = Inr NegInf"
  "py_float (PStr ''1.'') = Inr (Fin 1)" "py_float (PStr ''1_'') = Inl ValueError"
  by code_simp+

lemma double_limit_value: "double_limit = 2 ^ 1024 - 2 ^ 970"
  by (simp add: double_limit_def)

end
