(* ===== verification/Web_Control.thy ===== *)
theory Web_Control
  imports Web_Ota Runner "HOL-Library.Sublist"
begin

text \<open>
  The two routes of \<^verbatim>\<open>racelink/web/api.py\<close> that send at once, \<^verbatim>\<open>/api/devices/control\<close> and
  \<^verbatim>\<open>/api/specials/action\<close>, with the functions of \<^verbatim>\<open>racelink/domain/specials.py\<close>, their
  parameters (\<^verbatim>\<open>racelink/services/specials_service.py\<close>) and the wrappers of
  \<^verbatim>\<open>controller.py\<close> they call.  The hook on the transport is that of \<open>Web_Live\<close> and left out here.
\<close>

section \<open>The state\<close>

record panel =
  pn_web :: web
  pn_host :: host
  pn_now :: rat

definition announce :: "string \<Rightarrow> panel \<Rightarrow> panel" where
  "announce what pn = pn\<lparr>pn_web := master_set (pn_now pn) (note_event what) (pn_web pn)\<rparr>"

definition at_host :: "(host, 'a) proc \<Rightarrow> panel \<Rightarrow> 'a res \<times> panel" where
  "at_host m pn = (case m (pn_host pn) of (r, h) \<Rightarrow> (r, pn\<lparr>pn_host := h\<rparr>))"

section \<open>Controlling devices\<close>

definition toint :: "pyval \<Rightarrow> int option res" where
  "toint v = (case py_int v of Inr n \<Rightarrow> Inr (Some n) | Inl e \<Rightarrow> if e = TypeError \<or> e = ValueError then Inr None else Inl e)"

text \<open>\<open>sendRaceLink\<close> and \<open>sendGroupPreset\<close> of the controller forward to the control service.\<close>

definition send_race_link :: "nat \<Rightarrow> int \<Rightarrow> int \<Rightarrow> int \<Rightarrow> (host, bool) proc" where
  "send_race_link i flags preset_id brightness = send_device_preset i (Some flags) (Some preset_id) (Some brightness)"

fun control_devices :: "int \<Rightarrow> int \<Rightarrow> int \<Rightarrow> string list \<Rightarrow> nat \<Rightarrow> (host, nat) proc" where
  "control_devices flags preset_id brightness [] changed = pret changed"
| "control_devices flags preset_id brightness (mac # macs) changed =
     pbind (pread (\<lambda>h. get_device_from_address (hs_devices h) mac)) (\<lambda>dev.
       case dev of
         None \<Rightarrow> control_devices flags preset_id brightness macs changed
       | Some i \<Rightarrow>
           pbind (send_race_link i flags preset_id brightness) (\<lambda>ok.
             control_devices flags preset_id brightness macs (if ok then Suc changed else changed)))"

definition control_values :: "pydict \<Rightarrow> (int \<times> int \<times> int) option res" where
  "control_values body =
     rbind (toint (dget body ''flags'')) (\<lambda>f. rbind (toint (dget body ''presetId'')) (\<lambda>p. rbind (toint (dget body ''brightness'')) (\<lambda>b.
       Inr (case (f, p, b) of (Some flags, Some preset_id, Some brightness) \<Rightarrow> Some (flags, preset_id, brightness) | _ \<Rightarrow> None))))"

text \<open>The sends of a body with its values; an answer of the procedure is the number of changes.\<close>

definition control_sends :: "(pyval \<Rightarrow> string) \<Rightarrow> pydict \<Rightarrow> int \<times> int \<times> int \<Rightarrow> panel \<Rightarrow> nat response \<times> panel" where
  "control_sends rp body v pn =
     (case v of (flags, preset_id, brightness) \<Rightarrow>
        let group_id = dget body ''groupId''; macs = py_or (dget body ''macs'') (PList []) in
        if group_id \<noteq> PNone
        then (case py_int group_id of
                Inl e \<Rightarrow> (Refused (if e = TypeError \<or> e = ValueError then 400 else 500), pn)
              | Inr gid \<Rightarrow>
                  (case at_host (send_group_preset gid flags preset_id brightness) pn of
                     (Inl e, pn) \<Rightarrow> (Refused 500, pn)
                   | (Inr ok, pn) \<Rightarrow> (Answer (if ok then 1 else 0), pn)))
        else if py_truth macs
        then (case py_iter macs of
                Inl e \<Rightarrow> (Refused 500, pn)
              | Inr xs \<Rightarrow>
                  (case at_host (control_devices flags preset_id brightness (map (py_str rp) xs) 0) pn of
                     (Inl e, pn) \<Rightarrow> (Refused 500, pn)
                   | (Inr n, pn) \<Rightarrow> (Answer n, pn)))
        else (Refused 400, pn))"

definition devices_control :: "(pyval \<Rightarrow> string) \<Rightarrow> pyval \<Rightarrow> panel \<Rightarrow> nat response \<times> panel" where
  "devices_control rp json pn =
     (if task_is_running (pn_web pn) then (Refused 409, pn)
      else case py_or json (PDict []) of
        PDict body \<Rightarrow>
          (case control_values body of
             Inl e \<Rightarrow> (Refused 500, pn)
           | Inr None \<Rightarrow> (Refused 400, pn)
           | Inr (Some v) \<Rightarrow>
               (case control_sends rp body v pn of
                  (Refused code, pn) \<Rightarrow> (Refused code, pn)
                | (Answer changed, pn) \<Rightarrow> (Answer changed, announce ''CONTROL_SENT'' pn)))
      | _ \<Rightarrow> (Refused 500, pn))"

section \<open>Parameters of an action\<close>

text \<open>How a variable is entered; a select and a plain field are numbers.\<close>

datatype widget = Color | Toggle | Number "int option" "int option"

text \<open>\<open>int(s, 16)\<close> of a text of two characters.\<close>

definition int16 :: "string \<Rightarrow> int option" where
  "int16 s =
     (case split_sign (strip s) of
        (neg, w) \<Rightarrow>
          map_option (\<lambda>n. if neg then - n else n)
            (case w of
               [c] \<Rightarrow> hex_val c
             | [c, d] \<Rightarrow> (case (hex_val c, hex_val d) of (Some h, Some l) \<Rightarrow> Some (16 * h + l) | _ \<Rightarrow> None)
             | _ \<Rightarrow> None))"

definition color_text :: "string \<Rightarrow> (int \<times> int \<times> int) res" where
  "color_text raw =
     (let s = strip raw; s = (case s of c # cs \<Rightarrow> if c = CHR ''#'' then cs else s | [] \<Rightarrow> s) in
      if length s \<noteq> 6 then Inl ValueError
      else case (int16 (take 2 s), int16 (take 2 (drop 2 s)), int16 (drop 4 s)) of
        (Some r, Some g, Some b) \<Rightarrow> Inr (r AND 255, g AND 255, b AND 255)
      | _ \<Rightarrow> Inl ValueError)"

definition color_ints :: "pyval \<Rightarrow> pyval \<Rightarrow> pyval \<Rightarrow> (int \<times> int \<times> int) res" where
  "color_ints r g b =
     rbind (int_or_value_error r) (\<lambda>r. rbind (int_or_value_error g) (\<lambda>g. rbind (int_or_value_error b) (\<lambda>b.
       Inr (r AND 255, g AND 255, b AND 255))))"

fun coerce_color :: "pyval \<Rightarrow> (int \<times> int \<times> int) res" where
  "coerce_color (PStr s) = color_text s"
| "coerce_color (PDict d) =
     (if has_key d ''r'' \<and> has_key d ''g'' \<and> has_key d ''b'' then color_ints (dget d ''r'') (dget d ''g'') (dget d ''b'')
      else case (if has_key d ''r'' then int_or_value_error (dget d ''r'') else Inl ValueError) of
        Inl e \<Rightarrow> Inl e
      | Inr r \<Rightarrow> (case (if has_key d ''g'' then int_or_value_error (dget d ''g'') else Inl ValueError) of Inl e \<Rightarrow> Inl e | Inr g \<Rightarrow> Inl ValueError))"
| "coerce_color (PList [r, g, b]) = color_ints r g b"
| "coerce_color (PTuple [r, g, b]) = color_ints r g b"
| "coerce_color _ = Inl ValueError"

fun coerce_toggle :: "pyval \<Rightarrow> bool" where
  "coerce_toggle (PStr s) = (lower (strip s) \<in> {''1'', ''true'', ''yes'', ''on''})"
| "coerce_toggle v = py_truth v"

definition coerce_number :: "int option \<Rightarrow> int option \<Rightarrow> pyval \<Rightarrow> int res" where
  "coerce_number lo hi v =
     (case py_int v of
        Inl e \<Rightarrow> Inl ValueError
      | Inr n \<Rightarrow> if in_bounds lo hi n then Inr n else Inl ValueError)"

definition coerce_value :: "widget \<Rightarrow> pyval \<Rightarrow> pyval res" where
  "coerce_value w v =
     (case w of
        Color \<Rightarrow> rbind (coerce_color v) (\<lambda>(r, g, b). Inr (PTuple [PInt r, PInt g, PInt b]))
      | Toggle \<Rightarrow> Inr (PBool (coerce_toggle v))
      | Number lo hi \<Rightarrow> rbind (coerce_number lo hi v) (\<lambda>n. Inr (PInt n)))"

text \<open>Missing values are not defaulted.\<close>

fun coerce_action_params :: "(string \<times> widget) list \<Rightarrow> pyval \<Rightarrow> pydict res" where
  "coerce_action_params [] params = Inr []"
| "coerce_action_params ((var, w) # vars) params =
     rbind (py_in var params) (\<lambda>there.
       if \<not> there then coerce_action_params vars params
       else rbind (py_get params var) (\<lambda>raw. rbind (coerce_value w raw) (\<lambda>v.
         rbind (coerce_action_params vars params) (\<lambda>rest. Inr ((var, v) # rest)))))"

section \<open>Actions\<close>

datatype comm = SendStartblockControl | SendWledPreset | SendWledControl

record action_spec =
  as_key :: string
  as_comm :: comm
  as_vars :: "(string \<times> widget) list"

text \<open>
  The functions of a capability.  Their variables have no bounds: neither the widget of \<open>presetId\<close> nor an option of
  the device type gives any.
\<close>

definition specials_functions :: "string \<Rightarrow> action_spec list" where
  "specials_functions cap =
     (if cap = ''STARTBLOCK'' then [\<lparr>as_key = ''startblock_control'', as_comm = SendStartblockControl, as_vars = []\<rparr>]
      else if cap = ''WLED'' then
        [\<lparr>as_key = ''wled_preset'', as_comm = SendWledPreset, as_vars = [(''presetId'', Number None None), (''brightness'', Number None None)]\<rparr>,
         \<lparr>as_key = ''wled_control'', as_comm = SendWledControl, as_vars = [(''presetId'', Number None None), (''brightness'', Number None None)]\<rparr>]
      else [])"

definition resolve_action :: "rl_device \<Rightarrow> pyval \<Rightarrow> action_spec option" where
  "resolve_action dev fn_key =
     find_where (\<lambda>fn. PStr (as_key fn) = fn_key) (concat (map specials_functions (dt_caps (get_dev_type_info (Some (d_dev_type dev))))))"

record action_call =
  ac_fn :: action_spec
  ac_device :: nat
  ac_params :: pydict

definition resolve_action_request :: "(pyval \<Rightarrow> string) \<Rightarrow> pydict \<Rightarrow> rl_device list \<Rightarrow> action_call response" where
  "resolve_action_request rp body devices =
     (let mac = dget body ''mac''; fn_key = py_or (dget body ''function'') (dget body ''fn''); params = py_or (dget body ''params'') (PDict []) in
      if \<not> py_truth mac \<or> \<not> py_truth fn_key then Refused 400
      else case parse_recv3_from_addr (Some (py_str rp mac)) of
        None \<Rightarrow> Refused 400
      | Some recv3 \<Rightarrow>
          if recv3 = [] \<or> recv3 = BROADCAST3 then Refused 400
          else case get_device_from_address devices (upper (py_str rp mac)) of
            None \<Rightarrow> Refused 404
          | Some i \<Rightarrow>
              (case resolve_action (devices ! i) fn_key of
                 None \<Rightarrow> Refused 400
               | Some fn \<Rightarrow>
                   (case coerce_action_params (as_vars fn) params of
                      Inl e \<Rightarrow> Refused (if e = ValueError then 400 else 500)
                    | Inr ps \<Rightarrow> Answer \<lparr>ac_fn = fn, ac_device = i, ac_params = ps\<rparr>)))"

text \<open>The wrapper \<open>sendWledControl\<close> of the controller.\<close>

definition send_wled_control_action :: "(int \<Rightarrow> preset option) option \<Rightarrow> nat option \<Rightarrow> int option \<Rightarrow> pydict \<Rightarrow> (host, bool) proc" where
  "send_wled_control_action rl_service target_device target_group params =
     pbind (plift (py_int (dget_or params ''presetId'' (PInt 0)))) (\<lambda>preset_id.
     pbind (plift (if dget params ''brightness'' = PNone then Inr PNone else rbind (py_int (dget params ''brightness'')) (\<lambda>b. Inr (PInt b))))
       (\<lambda>brightness. send_rl_preset_by_id rl_service (PInt preset_id) target_device target_group brightness))"

definition perform :: "(int \<Rightarrow> preset option) option \<Rightarrow> (nat \<Rightarrow> (host, bool) proc) \<Rightarrow> action_call \<Rightarrow> (host, bool) proc" where
  "perform rl_service startblock c =
     (case as_comm (ac_fn c) of
        SendWledPreset \<Rightarrow> send_wled_preset (Some (ac_device c)) None (ac_params c)
      | SendWledControl \<Rightarrow> send_wled_control_action rl_service (Some (ac_device c)) None (ac_params c)
      | SendStartblockControl \<Rightarrow> startblock (ac_device c))"

definition specials_action ::
  "(pyval \<Rightarrow> string) \<Rightarrow> (int \<Rightarrow> preset option) option \<Rightarrow> (nat \<Rightarrow> (host, bool) proc) \<Rightarrow> pyval \<Rightarrow> panel \<Rightarrow> pydict response \<times> panel" where
  "specials_action rp rl_service startblock json pn =
     (if task_is_running (pn_web pn) then (Refused 409, pn)
      else case py_or json (PDict []) of
        PDict body \<Rightarrow>
          (case resolve_action_request rp body (hs_devices (pn_host pn)) of
             Refused code \<Rightarrow> (Refused code, pn)
           | Answer c \<Rightarrow>
               (case at_host (perform rl_service startblock c) pn of
                  (Inl e, pn) \<Rightarrow> (Refused 500, pn)
                | (Inr False, pn) \<Rightarrow> (Refused 500, pn)
                | (Inr True, pn) \<Rightarrow> (Answer (ac_params c), announce ''SPECIAL_SENT'' pn)))
      | _ \<Rightarrow> (Refused 500, pn))"

section \<open>What is reported and what is sent\<close>

lemma device_found: "get_device_from_address ds mac = Some i \<Longrightarrow> i < length ds"
  by (auto simp: get_device_from_address_def Let_def split: if_split_asm dest: get_by_addr_less)

text \<open>With or without a transport: the answer counts the packets handed over.\<close>

definition counts_presets :: "(host, nat) proc \<Rightarrow> nat \<Rightarrow> host \<Rightarrow> bool" where
  "counts_presets m n h \<longleftrightarrow>
     (\<exists>k ps. m h = (Inr (n + k), snd (m h)) \<and> hs_sent (snd (m h)) = hs_sent h @ ps \<and> length ps = k \<and>
        (\<forall>p \<in> set ps. pk_opc p = OPC_PRESET \<and> length (pk_body p) = 4) \<and>
        hs_transport (snd (m h)) = hs_transport h \<and> list_all addr_ok (hs_devices (snd (m h))))"

lemma sends_run:
  assumes "sends m h opc k"
  obtains q where "m h = (Inr True, snd (m h))" and "hs_sent (snd (m h)) = hs_sent h @ [q]" and "pk_opc q = opc"
    and "length (pk_body q) = k" and "ready (snd (m h))"
proof -
  from assms obtain recv3 body where "fst (m h) = Inr True" "ready (snd (m h))"
    "hs_sent (snd (m h)) = hs_sent h @ [\<lparr>pk_opc = opc, pk_recv3 = recv3, pk_body = body\<rparr>]" "length body = k"
    unfolding sends_def by (elim conjE exE)
  with that [of "\<lparr>pk_opc = opc, pk_recv3 = recv3, pk_body = body\<rparr>"] show thesis
    by (simp add: prod.expand)
qed

lemma device_preset_counts:
  assumes "list_all addr_ok (hs_devices h)" and "i < length (hs_devices h)"
  shows "\<exists>ok ps. send_race_link i f p b h = (Inr ok, snd (send_race_link i f p b h)) \<and>
     hs_sent (snd (send_race_link i f p b h)) = hs_sent h @ ps \<and> length ps = (if ok then 1 else 0) \<and>
     (\<forall>q \<in> set ps. pk_opc q = OPC_PRESET \<and> length (pk_body q) = 4) \<and>
     hs_transport (snd (send_race_link i f p b h)) = hs_transport h \<and> list_all addr_ok (hs_devices (snd (send_race_link i f p b h)))"
proof (cases "hs_transport h")
  case False
  then show ?thesis using assms(1) by (intro exI [of _ False]) (simp add: send_race_link_def send_device_preset_def)
next
  case True
  then have "ready h" using assms(1) by (simp add: ready_def)
  show ?thesis unfolding send_race_link_def
    by (rule sends_run [OF send_device_preset_sends [OF \<open>ready h\<close> assms(2), of "Some f" "Some p" "Some b"]], rule exI [of _ True])
      (simp add: ready_def True)
qed

lemma control_devices_counts: "list_all addr_ok (hs_devices h) \<Longrightarrow> counts_presets (control_devices f p b macs n) n h"
proof (induction macs arbitrary: n h)
  case Nil
  then show ?case by (simp add: counts_presets_def)
next
  case (Cons mac macs)
  show ?case
  proof (cases "get_device_from_address (hs_devices h) mac")
    case None
    with Cons.IH [OF Cons.prems, of n] show ?thesis by (simp add: counts_presets_def pbind_run)
  next
    case (Some i)
    define h1 where "h1 = snd (send_race_link i f p b h)"
    obtain ok ps where one: "send_race_link i f p b h = (Inr ok, h1)" "hs_sent h1 = hs_sent h @ ps" "length ps = (if ok then 1 else 0)"
      "\<forall>q \<in> set ps. pk_opc q = OPC_PRESET \<and> length (pk_body q) = 4" "hs_transport h1 = hs_transport h" "list_all addr_ok (hs_devices h1)"
      using device_preset_counts [OF Cons.prems device_found [OF Some], of f p b] unfolding h1_def by blast
    let ?n = "if ok then Suc n else n"
    obtain k qs where rest: "control_devices f p b macs ?n h1 = (Inr (?n + k), snd (control_devices f p b macs ?n h1))"
      "hs_sent (snd (control_devices f p b macs ?n h1)) = hs_sent h1 @ qs" "length qs = k"
      "\<forall>q \<in> set qs. pk_opc q = OPC_PRESET \<and> length (pk_body q) = 4"
      "hs_transport (snd (control_devices f p b macs ?n h1)) = hs_transport h1"
      "list_all addr_ok (hs_devices (snd (control_devices f p b macs ?n h1)))"
      using Cons.IH [OF one(6), of ?n] unfolding counts_presets_def by blast
    have run: "control_devices f p b (mac # macs) n h = control_devices f p b macs ?n h1"
      by (simp add: pbind_def Some one(1))
    show ?thesis unfolding counts_presets_def run
      using rest one by (intro exI [of _ "length ps + k"] exI [of _ "ps @ qs"]) auto
  qed
qed

lemma group_preset_counts:
  assumes "list_all addr_ok (hs_devices h)"
  shows "\<exists>ok ps. send_group_preset g f p b h = (Inr ok, snd (send_group_preset g f p b h)) \<and>
     hs_sent (snd (send_group_preset g f p b h)) = hs_sent h @ ps \<and> length ps = (if ok then 1 else 0) \<and>
     (\<forall>q \<in> set ps. pk_opc q = OPC_PRESET \<and> length (pk_body q) = 4)"
proof (cases "hs_transport h")
  case False
  then show ?thesis by (intro exI [of _ False]) (simp add: send_group_preset_def)
next
  case True
  then have "ready h" using assms by (simp add: ready_def)
  show ?thesis
    by (rule sends_run [OF send_group_preset_sends [OF \<open>ready h\<close>, of g f p b]], rule exI [of _ True]) simp
qed

lemma control_sends_counts:
  assumes "control_sends rp body v pn = (Answer n, pn')" and "list_all addr_ok (hs_devices (pn_host pn))"
  shows "\<exists>ps. hs_sent (pn_host pn') = hs_sent (pn_host pn) @ ps \<and> length ps = n \<and>
     (\<forall>p \<in> set ps. pk_opc p = OPC_PRESET \<and> length (pk_body p) = 4)"
proof -
  obtain f p b where v: "v = (f, p, b)" by (cases v)
  show ?thesis
  proof (cases "dget body ''groupId'' = PNone")
    case False
    then obtain gid where gid: "py_int (dget body ''groupId'') = Inr gid"
      using assms(1) by (simp add: control_sends_def v Let_def split: sum.split_asm)
    from group_preset_counts [OF assms(2), of gid f p b] assms(1) False show ?thesis
      by (auto simp: control_sends_def v gid at_host_def split: prod.split_asm)
  next
    case True
    then obtain xs where xs: "py_iter (py_or (dget body ''macs'') (PList [])) = Inr xs"
      using assms(1) by (auto simp: control_sends_def v Let_def split: if_split_asm sum.split_asm)
    from control_devices_counts [OF assms(2), of f p b "map (py_str rp) xs" 0] assms(1) True show ?thesis
      by (auto simp: counts_presets_def control_sends_def v xs at_host_def Let_def split: prod.split_asm if_split_asm)
  qed
qed

lemma announce_host [simp]: "pn_host (announce what pn) = pn_host pn"
  by (simp add: announce_def)

text \<open>
  C35.  The control route counts the packets it hands over.  When it answers, no task was running, and its number is that
  of the packets given to the transport, each a preset packet of four bytes; without a transport it is zero.
\<close>

theorem control_counts_packets:
  assumes "devices_control rp json pn = (Answer n, pn')" and "list_all addr_ok (hs_devices (pn_host pn))"
  shows "\<not> task_is_running (pn_web pn) \<and>
     (\<exists>ps. hs_sent (pn_host pn') = hs_sent (pn_host pn) @ ps \<and> length ps = n \<and>
        (\<forall>p \<in> set ps. pk_opc p = OPC_PRESET \<and> length (pk_body p) = 4)) \<and>
     (\<not> hs_transport (pn_host pn) \<longrightarrow> n = 0)"
proof -
  obtain body v pn1 where s: "control_sends rp body v pn = (Answer n, pn1)" and e: "pn' = announce ''CONTROL_SENT'' pn1"
    and free: "\<not> task_is_running (pn_web pn)"
    using assms(1)
    by (auto simp: devices_control_def split: if_split_asm pyval.split_asm sum.split_asm option.split_asm prod.split_asm response.split_asm)
  have none: "n = 0" if "\<not> hs_transport (pn_host pn)"
  proof -
    have idle: "control_devices f p b macs k (pn_host pn) = (Inr k, pn_host pn)" for f p b macs k
      using that by (induction macs arbitrary: k)
        (auto simp: pbind_def send_race_link_def send_device_preset_def split: option.split)
    show ?thesis using s that
      by (cases v) (auto simp: control_sends_def at_host_def Let_def send_group_preset_def idle split: if_split_asm sum.split_asm)
  qed
  show ?thesis using control_sends_counts [OF s assms(2)] free none by (auto simp: e)
qed

text \<open>What the gateway made of the packets does not matter: a rejected one counts like a sent one.\<close>

lemma blind_control_devices: "blind (control_devices f p b macs n)"
proof (induction macs arbitrary: n)
  case Nil
  show ?case by (simp only: control_devices.simps blind_basic)
next
  case (Cons mac macs)
  have step: "blind (case dev of None \<Rightarrow> control_devices f p b macs n
      | Some i \<Rightarrow> pbind (send_race_link i f p b) (\<lambda>ok. control_devices f p b macs (if ok then Suc n else n)))" for dev
    by (cases dev) (auto simp: send_race_link_def intro!: blind_pbind blind_send_device_preset Cons.IH)
  have "blind (pread (\<lambda>h. get_device_from_address (hs_devices h) mac))" by (simp add: blind_def)
  from blind_pbind [OF this step] show ?case by (simp only: control_devices.simps)
qed

lemma at_host_blind: "blind m \<Longrightarrow> at_host m (pn\<lparr>pn_host := set_out outs (pn_host pn)\<rparr>) =
    (fst (at_host m pn), (snd (at_host m pn))\<lparr>pn_host := set_out outs (pn_host (snd (at_host m pn)))\<rparr>)"
  by (auto simp: at_host_def blind_def case_prod_beta)

theorem control_counts_rejected:
  "fst (devices_control rp json (pn\<lparr>pn_host := set_out outs (pn_host pn)\<rparr>)) = fst (devices_control rp json pn)"
proof -
  have "fst (control_sends rp body v (pn\<lparr>pn_host := set_out outs (pn_host pn)\<rparr>)) = fst (control_sends rp body v pn)" for body v
    by (cases v)
      (auto simp: control_sends_def Let_def at_host_blind [OF blind_send_group_preset] at_host_blind [OF blind_control_devices]
        case_prod_beta split: sum.split)
  moreover have "fst (case r of (Refused code, pn) \<Rightarrow> (Refused code, pn) | (Answer changed, pn) \<Rightarrow> (Answer changed, announce what pn)) = fst r"
    for r :: "nat response \<times> panel" and what
    by (cases r; cases "fst r") auto
  ultimately show ?thesis
    by (simp add: devices_control_def split: pyval.split sum.split option.split)
qed

section \<open>What an action carries\<close>

definition value_ok :: "widget \<Rightarrow> pyval \<Rightarrow> bool" where
  "value_ok w v =
     (case w of
        Color \<Rightarrow> (case v of PTuple [PInt r, PInt g, PInt b] \<Rightarrow> list_all (\<lambda>x. 0 \<le> x \<and> x \<le> 255) [r, g, b] | _ \<Rightarrow> False)
      | Toggle \<Rightarrow> (case v of PBool t \<Rightarrow> True | _ \<Rightarrow> False)
      | Number lo hi \<Rightarrow> (case v of PInt n \<Rightarrow> in_bounds lo hi n | _ \<Rightarrow> False))"

lemma byte_range: "0 \<le> (x :: int) AND 255" "(x :: int) AND 255 \<le> 255"
  by (simp_all add: int_and_255)

lemma color_ints_range: "color_ints r g b = Inr (x, y, z) \<Longrightarrow> \<forall>v \<in> {x, y, z}. 0 \<le> v \<and> v \<le> 255"
  by (auto simp: color_ints_def rbind_eq_Inr byte_range)

lemma coerce_color_range: "coerce_color v = Inr (x, y, z) \<Longrightarrow> \<forall>c \<in> {x, y, z}. 0 \<le> c \<and> c \<le> 255"
proof (induction v rule: coerce_color.induct)
  case (1 s)
  then show ?case by (auto simp: color_text_def Let_def byte_range split: if_split_asm option.split_asm prod.split_asm)
next
  case (2 d)
  then show ?case by (auto dest!: color_ints_range split: if_split_asm sum.split_asm)
qed (auto dest!: color_ints_range)

lemma coerce_value_ok: "coerce_value w v = Inr v' \<Longrightarrow> value_ok w v'"
  by (cases w)
    (auto simp: coerce_value_def value_ok_def rbind_eq_Inr coerce_number_def dest!: coerce_color_range split: sum.split_asm if_split_asm)

definition typed_param :: "(string \<times> widget) list \<Rightarrow> pyval \<Rightarrow> string \<times> pyval \<Rightarrow> bool" where
  "typed_param vars params p \<longleftrightarrow>
     (\<exists>w raw. (fst p, w) \<in> set vars \<and> py_in (fst p) params = Inr True \<and> py_get params (fst p) = Inr raw \<and>
        coerce_value w raw = Inr (snd p) \<and> value_ok w (snd p))"

lemma typed_param_Cons: "typed_param vars params p \<Longrightarrow> typed_param (x # vars) params p"
  by (auto simp: typed_param_def)

lemma coerced_typed:
  "coerce_action_params vars params = Inr ps \<Longrightarrow>
    subseq (map fst ps) (map fst vars) \<and> (\<forall>p \<in> set ps. typed_param vars params p) \<and>
    (\<forall>(k, w) \<in> set vars. py_in k params = Inr True \<longrightarrow> k \<in> fst ` set ps)"
proof (induction vars params arbitrary: ps rule: coerce_action_params.induct)
  case (1 params)
  then show ?case by simp
next
  case (2 var w vars params)
  obtain there where t: "py_in var params = Inr there" using "2.prems" by (auto simp: rbind_eq_Inr)
  show ?case
  proof (cases there)
    case False
    with "2.prems" t have r: "coerce_action_params vars params = Inr ps" by simp
    from "2.IH"(1) [of there ps] t False r show ?thesis by (auto intro: typed_param_Cons)
  next
    case True
    with "2.prems" t obtain raw v rest where parts: "py_get params var = Inr raw" "coerce_value w raw = Inr v"
      "coerce_action_params vars params = Inr rest" "ps = (var, v) # rest" by (auto simp: rbind_eq_Inr)
    have "typed_param ((var, w) # vars) params (var, v)"
      using t True parts(1,2) coerce_value_ok [OF parts(2)] by (auto simp: typed_param_def)
    with "2.IH"(2) [of there raw v rest] t True parts show ?thesis by (auto intro: typed_param_Cons)
  qed
qed


section \<open>Concrete requests\<close>

definition two_lamps :: panel where
  "two_lamps =
     \<lparr>pn_web = fresh_web,
      pn_host = \<lparr>hs_devices = [default_device ''AABBCCDDEEFF'' 10 ''a'', default_device ''AABBCCDDEE00'' 10 ''b''], hs_transport = True,
        hs_sent = [], hs_outcomes = (\<lambda>_. outcome_success), hs_clock = (\<lambda>_. 0), hs_reads = 0, hs_slept = []\<rparr>,
      pn_now = 5\<rparr>"

definition question_mark :: "pyval \<Rightarrow> string" where "question_mark v = ''?''"

definition control_body3 :: pyval where
  "control_body3 = PDict [(''macs'', PList [PStr ''AABBCCDDEEFF'', PStr ''unknown'', PStr ''ddee00'']), (''flags'', PInt 1), (''presetId'', PStr ''7''),
     (''brightness'', PFloat (Fin (19 / 2)))]"

theorem control_counts_packets_witness:
  "\<exists>pn' ps. devices_control question_mark control_body3 two_lamps = (Answer 2, pn') \<and> hs_sent (pn_host pn') = ps \<and> length ps = 2"
proof -
  have "fst (devices_control question_mark control_body3 two_lamps) = Answer 2" by code_simp
  then obtain pn' where r: "devices_control question_mark control_body3 two_lamps = (Answer 2, pn')"
    by (metis prod.collapse)
  have "mac_last3_from_hex ''AABBCCDDEEFF'' = Inr [0xDD, 0xEE, 0xFF]" "mac_last3_from_hex ''AABBCCDDEE00'' = Inr [0xDD, 0xEE, 0]"
    by code_simp+
  then have "list_all addr_ok (hs_devices (pn_host two_lamps))"
    by (simp add: two_lamps_def addr_ok_def default_device_def RL_Device_def)
  from control_counts_packets [OF r this] r show ?thesis by (auto simp: two_lamps_def)
qed

definition action_body :: pydict where
  "action_body = [(''mac'', PStr ''AABBCCDDEEFF''), (''function'', PStr ''wled_preset''), (''params'', PDict [(''presetId'', PStr '' 3 ''), (''speed'', PInt 9)])]"


text \<open>
  A brightness of 256 passes, switches the node on by its flags and is sent as zero.
\<close>

definition bright_body :: pyval where
  "bright_body = PDict [(''mac'', PStr ''AABBCCDDEEFF''), (''function'', PStr ''wled_preset''),
     (''params'', PDict [(''presetId'', PInt 3), (''brightness'', PInt 256)])]"

theorem action_brightness_wraps:
  "fst (specials_action question_mark None (\<lambda>i. pret True) bright_body two_lamps) =
     Answer [(''presetId'', PInt 3), (''brightness'', PInt 256)] \<and>
   map (\<lambda>p. (pk_opc p, pk_body p)) (hs_sent (pn_host (snd (specials_action question_mark None (\<lambda>i. pret True) bright_body two_lamps)))) =
     [(OPC_PRESET, build_preset_body 0 (build_flags_byte True True False False False False) 3 0)]"
proof -
  have "fst (specials_action question_mark None (\<lambda>i. pret True) bright_body two_lamps) =
     Answer [(''presetId'', PInt 3), (''brightness'', PInt 256)]"
    "map (\<lambda>p. (pk_opc p, pk_body p)) (hs_sent (pn_host (snd (specials_action question_mark None (\<lambda>i. pret True) bright_body two_lamps)))) =
     [(OPC_PRESET, build_preset_body 0 (build_flags_byte True True False False False False) 3 0)]"
    by code_simp+
  then show ?thesis by blast
qed

end
