(* ===== verification/Spec2Isabelle.thy ===== *)
theory Spec2Isabelle
  imports Outcomes Startblock State_Query Web_Tasks Web_Scenes Web_Control
begin

text \<open>
  RaceLink host: a verification development.

  \<^bold>\<open>The program.\<close>  RaceLink drives light nodes at the gates of a race track.  A host (Python) talks to a USB gateway
  over a serial line, and the gateway to the nodes over LoRa.  The host keeps the list of devices and groups
  (\<^verbatim>\<open>controller.py\<close>, \<^verbatim>\<open>racelink/state/\<close>), stores presets and scenes
  (\<^verbatim>\<open>racelink/services/rl_presets_service.py\<close>, \<^verbatim>\<open>scenes_service.py\<close>), turns scenes into packets
  (\<^verbatim>\<open>dispatch_planner.py\<close>, \<^verbatim>\<open>offset_dispatch_optimizer.py\<close>, \<^verbatim>\<open>scene_runner_service.py\<close>),
  sends them and waits for the answers (\<^verbatim>\<open>racelink/transport/\<close>, \<^verbatim>\<open>gateway_service.py\<close>), and serves a
  web interface (\<^verbatim>\<open>racelink/web/\<close>).  Firmware and presets files travel over WiFi
  (\<^verbatim>\<open>host_wifi_service.py\<close>, \<^verbatim>\<open>ota_service.py\<close>, \<^verbatim>\<open>ota_workflow_service.py\<close>).

  \<^bold>\<open>Foundations.\<close>
  \<^item> \<open>RL_Prelude\<close>: Python exceptions as a datatype, results as sums, state-passing procedures
    \<open>('s, 'e, 'a) procedure\<close> with \<open>pret\<close>, \<open>pbind\<close>, \<open>plift\<close>, and the lemma collections.
  \<^item> \<open>Py_Values\<close>: decoded JSON values, truth, \<open>int()\<close>, strings (ASCII code points), rational floats.
  \<^item> \<open>Wire_Bytes\<close>: bytes as \<open>8 word\<close>, the little-endian \<open>struct\<close> formats with their range errors.
  \<^item> \<open>Keyed_Store\<close>: the JSON store that scenes and presets share, with its contract as the locale \<open>keyed_store\<close>.

  \<^bold>\<open>Packets and the serial line.\<close>
  \<^item> \<open>Packets\<close> (\<^verbatim>\<open>protocol/packets.py\<close>), \<open>Flags\<close> (\<^verbatim>\<open>domain/flags.py\<close>), \<open>Codec\<close>
    (\<^verbatim>\<open>protocol/codec.py\<close>, \<^verbatim>\<open>rules.py\<close>, \<^verbatim>\<open>addressing.py\<close>): bodies, opcodes, replies.  Offset bodies
    are parsed back to what they were built from.
  \<^item> \<open>Transport\<close> (\<^verbatim>\<open>transport/gateway_serial.py\<close>): framing, the byte-wise reader, the frame handler and the
    outcome slot of a send.  The reader recovers exactly the frames of a stream whatever precedes them; a reply that a
    device puts on the line reaches the listeners decoded.  The locale \<open>frame_scanner\<close> is the reader's contract.

  \<^bold>\<open>From scenes to packets.\<close>
  \<^item> \<open>Offset_Formula\<close>, \<open>Optimizer\<close>: the delays of groups, and the choice of the cheapest sequence of
    OPC_OFFSET packets.  The chosen sequence refines the specification that every group ends up with its own delay.
  \<^item> \<open>Scene_Validate\<close>, \<open>Scene_Store\<close>, \<open>Rl_Presets\<close>: canonical actions, the migrations, the persistent
    stores.  What the validator accepts is canonical and a fixed point; every state the stores can reach is good;
    creating refines insertion into a map; renumbering after a group deletion changes exactly the references.
  \<^item> \<open>Planner\<close>, \<open>Control\<close>, \<open>Runner\<close>, \<open>Estimator\<close>: the operations of an action, the sends, the
    run of a scene with its results, and the prediction of packets and airtime.  The packets of a run are those of
    the plan; the estimate is what is executed; a run stops at the first error exactly if the scene says so.

  \<^bold>\<open>The controller and its environment.\<close>  \<open>Gateway\<close> has the state of \<^verbatim>\<open>controller.py\<close> and
  \<^verbatim>\<open>gateway_service.py\<close> as the record \<open>ctl\<close>, together with what the host meets: a clock \<open>ct_now\<close>, the timed
  events \<open>ct_incoming\<close> that the reader thread will deliver, and the fate \<open>ct_tx k\<close> of the \<open>k\<close>-th send.  While a
  call blocks the events that arrive meanwhile are handled one by one; handlers are atomic.  A theorem about a call
  therefore holds for every interleaving of gateway events with it.  In \<open>Web_Tasks\<close> a thread is one step, which other requests
  may precede but not interrupt.
  \<^item> \<open>Pending\<close> (\<^verbatim>\<open>pending_requests.py\<close>): the registry of unicast waiters, shown equal to a search for the
    oldest matching request; the locale \<open>reply_registry\<close> is its contract.
  \<^item> \<open>Waits\<close>: the unicast wait, its retries and the broadcast collector.  Which events a call sees, the reply it
    returns, how many packets it sends and how long it takes at most.
  \<^item> \<open>Nodes\<close>, \<open>Repository\<close>, \<open>Outcomes\<close>: group assignment, configuration, streams, status poll,
    discovery; the invariant of the device list under every event and operation (the locale \<open>ctl_invariant\<close>); what the
    operations achieve.
  \<^item> \<open>Devices\<close>, \<open>State_File\<close>: device records, types and capabilities; the state document, its migrations and
    the load after a restart.
  \<^item> \<open>Connection\<close>: finding the gateway, the error record, the retry timer and its backoff, the reconnect job,
    the shutdown.  The ports of the operating system are the argument \<open>usb_env\<close> of an attempt.
  \<^item> \<open>Startblock\<close>: pilot names and channels of a heat, sent to the slots of the start blocks.

  \<^bold>\<open>The web layer and WiFi.\<close>
  \<^item> \<open>Web_Live\<close> (\<^verbatim>\<open>web/sse.py\<close>, \<^verbatim>\<open>web/tasks.py\<close>): the mirrored gateway state, the queues of the
    browsers, the single background task as a state machine whose threads interleave.
  \<^item> \<open>Web_Devices\<close> (\<^verbatim>\<open>web/api.py\<close>, \<^verbatim>\<open>request_helpers.py\<close>, \<^verbatim>\<open>specials_service.py\<close>): the
    requests on devices, groups and their options.
  \<^item> \<open>Web_Tasks\<close>: the routes that change devices and groups together with the threads of the tasks they start, on the whole of
    the host.  A run is any sequence of requests, threads and link events; there is one thread exactly while requests are
    told that a task runs, and those that would disturb it are refused.
  \<^item> \<open>Web_Control\<close> (with \<^verbatim>\<open>domain/specials.py\<close>): the requests that send at once and the parameters of
    actions.  \<open>State_Query\<close>: the query of the gateway state, which returns a fresh report or says that it has none.
  \<^item> \<open>Host_Wifi\<close> (\<^verbatim>\<open>host_wifi_service.py\<close>): the radio and the loop that joins an access point, over a script of
    answers of \<^verbatim>\<open>nmcli\<close>, each with its duration.  The call ends in bounded time whatever it is answered.
  \<^item> \<open>Wled_Presets\<close> (\<^verbatim>\<open>presets_service.py\<close>): the directory of presets files and the selected one.
  \<^item> \<open>Ota\<close> (\<^verbatim>\<open>ota_service.py\<close>, \<^verbatim>\<open>ota_workflow_service.py\<close>): transfers to a node, the automatic unlocking,
    the download of presets and the firmware update, over a script of answers to the HTTP requests.  The two workflows run
    on the controller of \<open>Gateway\<close>, the host of \<open>Host_Wifi\<close> and the directory of \<open>Wled_Presets\<close> at once, on one
    clock.
  \<^item> \<open>Web_Ota\<close>: the WiFi part of a request, staged uploads, the routes on presets files, and the start of a download or
    an update.  A started update has the files it needs, and its thread ends with a report.
  \<^item> \<open>Web_Scenes\<close>: the routes on scenes and presets.  A request changes the list by exactly what it answers, an estimate
    is that of the plan a run would make, and the run of a draft stores nothing.

  \<^bold>\<open>Termination, bounds and fuel.\<close>  Loops are structural or have a measure.  Waits recurse over the events still to
  come, polls over the answers left in a script or over the time left (a poll pauses at least 1/5 of a second, so that
  five times the time left, rounded up, decreases).  Retries count down the number of attempts the code allows.  The
  backoff of the connection is the finite list of the code with its last entry repeated.  No definition has fuel.

  \<^bold>\<open>Abstractions.\<close>  A float is an exact rational.  Wall clock and monotonic clock are one.  Text is a list of
  code points below 256; the longer dashes of some messages are written as hyphens.  Exception texts are kept where the
  code inspects or reports them (\<open>Connection\<close>, \<open>Host_Wifi\<close>, \<open>Ota\<close>) and dropped elsewhere; the seconds in
  the text of a process time-out are dropped.  The reading of a document by the JSON parser accompanies its text.
  \<open>repr\<close> of arbitrary values and the local time in file names are parameters.

  \<^bold>\<open>Not modelled.\<close>  Logging.  Hashes and the layout of multipart bodies.  The serialisation of devices for the
  browser, the read-only routes that return lists, schemas and snapshots, and Flask itself.  The deprecated
  \<open>wait_rx_window\<close>.  The progress messages of a running task.  The wiring of the services and the host integrations (\<^verbatim>\<open>racelink/app.py\<close>, \<^verbatim>\<open>core/\<close>, \<^verbatim>\<open>integrations/\<close>).  Static tables for the
  editor and the generated protocol constants other than those the code uses.  The generators, the packaging back end and
  the setup tool, which do not run in the host.  Thread switches inside a handler: the code takes a lock there.
\<close>

end
